(* ===== verification/Prelude.thy ===== *)
theory Prelude
  imports Main "HOL-Library.Word"
begin

text \<open>
  Shared vocabulary of the development: machine integers, results and errors of
  Rust's \<open>std::io\<close>, checked arithmetic, byte-order conversions and slices. The
  component theories import it and add their lemmas to the collections declared here.
\<close>

named_theorems result_simps \<open>unfolding the ? operator and the result combinators\<close>
named_theorems wire_simps \<open>byte layout of frames and headers\<close>
named_theorems step_simps \<open>effect of one operation on an abstracted state\<close>

type_synonym u8 = "8 word"
type_synonym u16 = "16 word"
type_synonym u32 = "32 word"
type_synonym bytes = "u8 list"

section \<open>Errors\<close>

text \<open>
  \<open>std::io::Error\<close> is either a custom error, with a kind and a boxed payload, or an
  operating-system code, whose kind the standard library derives (kept beside the code
  here). The payload types are the ones the program downcasts to. Texts are kept as the
  tree that \<open>format!\<close> builds: literals, decimal numbers, hexadecimal numbers padded to a
  width, and the display of other errors.
\<close>

datatype error_kind =
    InvalidInput | InvalidData | Interrupted | TimedOut | WouldBlock | WriteZero
  | PermissionDenied | NotConnected | ConnectionAborted | OutOfMemory | StorageFull | Unsupported
  | NotFound | OtherKind

datatype io_error = Custom error_kind payload | Os int error_kind
and payload =
    Message message
  | HostCancelled
  | DiagnosticError io_error message
  | TransferError io_error message
  | StreamError string int
  | CallbackError string int
and message = Lit string | Num int | Hex nat int | Shown io_error | Fmt "message list"

fun kind :: "io_error \<Rightarrow> error_kind" where
  "kind (Custom k _) = k"
| "kind (Os _ k) = k"

definition io_other :: "message \<Rightarrow> io_error" where
  "io_other m = Custom OtherKind (Message m)"

type_synonym 'a io = "io_error + 'a"

text \<open>A caller-supplied closure run under \<open>catch_unwind\<close> returns or panics.\<close>

datatype 'a outcome = Returned 'a | Panicked

section \<open>Results\<close>

text \<open>The \<open>?\<close> operator and the combinators of \<open>Result\<close> and \<open>Option\<close>.\<close>

definition and_then :: "'e + 'a \<Rightarrow> ('a \<Rightarrow> 'e + 'b) \<Rightarrow> 'e + 'b" where
  "and_then r f = (case r of Inl e \<Rightarrow> Inl e | Inr a \<Rightarrow> f a)"

definition ok_or :: "'e \<Rightarrow> 'a option \<Rightarrow> 'e + 'a" where
  "ok_or e r = (case r of None \<Rightarrow> Inl e | Some a \<Rightarrow> Inr a)"

definition map_err :: "('e \<Rightarrow> 'f) \<Rightarrow> 'e + 'a \<Rightarrow> 'f + 'a" where
  "map_err f r = (case r of Inl e \<Rightarrow> Inl (f e) | Inr a \<Rightarrow> Inr a)"

definition fail_if :: "bool \<Rightarrow> 'e \<Rightarrow> 'e + unit" where
  "fail_if b e = (if b then Inl e else Inr ())"

lemma and_then_simps [simp]:
  "and_then (Inl e) f = Inl e"
  "and_then (Inr a) f = f a"
  by (simp_all add: and_then_def)

lemma and_then_Inr_iff [result_simps]:
  "and_then r f = Inr b \<longleftrightarrow> (\<exists>a. r = Inr a \<and> f a = Inr b)"
  by (cases r) auto

lemma and_then_if [simp]:
  "and_then (if c then r else s) f = (if c then and_then r f else and_then s f)"
  by simp

lemma ok_or_simps [simp]: "ok_or e None = Inl e" "ok_or e (Some a) = Inr a"
  by (simp_all add: ok_or_def)

lemma ok_or_Inr_iff [result_simps]: "ok_or e r = Inr a \<longleftrightarrow> r = Some a"
  by (cases r) auto

lemma map_err_simps [simp]: "map_err f (Inl e) = Inl (f e)" "map_err f (Inr a) = Inr a"
  by (simp_all add: map_err_def)

lemma map_err_Inr_iff [result_simps]: "map_err f r = Inr a \<longleftrightarrow> r = Inr a"
  by (cases r) auto

lemma fail_if_simps [simp]: "fail_if True e = Inl e" "fail_if False e = Inr ()"
  by (simp_all add: fail_if_def)

lemma fail_if_Inr_iff [result_simps]: "fail_if b e = Inr u \<longleftrightarrow> \<not> b"
  by (simp add: fail_if_def)

section \<open>Checked arithmetic\<close>

text \<open>
  \<open>usize\<close> and \<open>u64\<close> are 64 bits wide on the only target (x86_64). Their values are
  \<open>nat\<close>s here, with the overflow tests of \<open>checked_add\<close> and \<open>checked_mul\<close>
  written out. \<open>i32\<close> values are \<open>int\<close>s with the range test of \<open>try_from\<close>.
\<close>

definition checked_add64 :: "nat \<Rightarrow> nat \<Rightarrow> nat option" where
  "checked_add64 a b = (if a + b < 2 ^ 64 then Some (a + b) else None)"

definition checked_mul64 :: "nat \<Rightarrow> nat \<Rightarrow> nat option" where
  "checked_mul64 a b = (if a * b < 2 ^ 64 then Some (a * b) else None)"

definition checked_add32 :: "u32 \<Rightarrow> u32 \<Rightarrow> u32 option" where
  "checked_add32 a b = (if unat a + unat b < 2 ^ 32 then Some (a + b) else None)"

definition is_i32 :: "int \<Rightarrow> bool" where
  "is_i32 i \<longleftrightarrow> - (2 ^ 31) \<le> i \<and> i < 2 ^ 31"

definition i32_of_nat :: "nat \<Rightarrow> int option" where
  "i32_of_nat n = (if n < 2 ^ 31 then Some (int n) else None)"

definition checked_i32 :: "int \<Rightarrow> int option" where
  "checked_i32 i = (if is_i32 i then Some i else None)"

text \<open>Truncating division and its remainder, as \<open>/\<close> and \<open>%\<close> on \<open>i32\<close>.\<close>

definition tdiv :: "int \<Rightarrow> int \<Rightarrow> int" where
  "tdiv a b = sgn a * sgn b * (\<bar>a\<bar> div \<bar>b\<bar>)"

definition tmod :: "int \<Rightarrow> int \<Rightarrow> int" where
  "tmod a b = a - b * tdiv a b"

lemma tdiv_pos [simp]: "0 \<le> a \<Longrightarrow> 0 < b \<Longrightarrow> tdiv a b = a div b"
  by (cases "a = 0") (auto simp: tdiv_def)

lemma tmod_pos [simp]: "0 \<le> a \<Longrightarrow> 0 < b \<Longrightarrow> tmod a b = a mod b"
  by (simp add: tmod_def minus_mult_div_eq_mod)

lemma checked_add64_Some [simp]: "checked_add64 a b = Some c \<longleftrightarrow> c = a + b \<and> a + b < 2 ^ 64"
  by (auto simp: checked_add64_def)

lemma checked_mul64_Some [simp]: "checked_mul64 a b = Some c \<longleftrightarrow> c = a * b \<and> a * b < 2 ^ 64"
  by (auto simp: checked_mul64_def)

lemma checked_add32_Some: "checked_add32 a b = Some c \<Longrightarrow> unat c = unat a + unat b"
  by (auto simp: checked_add32_def unat_word_ariths split: if_splits)

lemma unat_u8_less [simp]: "unat (b :: u8) < 256"
  using unsigned_less [of b] by simp

lemma unat_u32_less [simp]: "unat (b :: u32) < 4294967296"
  using unsigned_less [of b] by simp

lemma i32_of_nat_Some [simp]: "i32_of_nat n = Some i \<longleftrightarrow> i = int n \<and> n < 2 ^ 31"
  by (auto simp: i32_of_nat_def)

lemma checked_i32_Some [simp]: "checked_i32 i = Some j \<longleftrightarrow> j = i \<and> is_i32 i"
  by (auto simp: checked_i32_def)

section \<open>Byte order\<close>

text \<open>
  \<open>to_le_bytes\<close> and \<open>from_le_bytes\<close> for any width, and the big-endian versions as
  their mirror images. A negative \<open>i32\<close> is encoded through its residue modulo
  \<open>2 ^ 32\<close>, as two's complement does.
\<close>

fun le_bytes :: "nat \<Rightarrow> nat \<Rightarrow> bytes" where
  "le_bytes 0 n = []"
| "le_bytes (Suc k) n = word_of_nat n # le_bytes k (n div 256)"

fun le_nat :: "bytes \<Rightarrow> nat" where
  "le_nat [] = 0"
| "le_nat (b # bs) = unat b + 256 * le_nat bs"

definition be_bytes :: "nat \<Rightarrow> nat \<Rightarrow> bytes" where
  "be_bytes k n = rev (le_bytes k n)"

definition be_nat :: "bytes \<Rightarrow> nat" where
  "be_nat bs = le_nat (rev bs)"

definition i32_le_bytes :: "int \<Rightarrow> bytes" where
  "i32_le_bytes i = le_bytes 4 (nat (i mod 2 ^ 32))"

definition i32_le :: "bytes \<Rightarrow> int" where
  "i32_le bs = (let n = int (le_nat bs) in if n < 2 ^ 31 then n else n - 2 ^ 32)"

lemma length_le_bytes [simp]: "length (le_bytes k n) = k"
  by (induction k arbitrary: n) auto

lemma length_be_bytes [simp]: "length (be_bytes k n) = k"
  by (simp add: be_bytes_def)

lemma four_Suc: "(4 :: nat) = Suc (Suc (Suc (Suc 0)))"
  by simp

lemma le_bytes_4:
  "le_bytes 4 n = [word_of_nat n, word_of_nat (n div 256), word_of_nat (n div 256 div 256),
     word_of_nat (n div 256 div 256 div 256)]"
  unfolding four_Suc by simp

lemma be_bytes_4:
  "be_bytes 4 n = [word_of_nat (n div 256 div 256 div 256), word_of_nat (n div 256 div 256),
     word_of_nat (n div 256), word_of_nat n]"
  by (simp add: be_bytes_def le_bytes_4)

lemma be_bytes_4_ex: "\<exists>p q u v. be_bytes 4 n = [p, q, u, v]"
  unfolding four_Suc by (simp add: be_bytes_def)

lemma le_bytes_4_ex: "\<exists>p q u v. le_bytes 4 n = [p, q, u, v]"
  unfolding four_Suc by simp

lemma length_i32_le_bytes [simp]: "length (i32_le_bytes i) = 4"
  by (simp add: i32_le_bytes_def)

lemma le_nat_less: "le_nat bs < 256 ^ length bs"
proof (induction bs)
  case (Cons b bs)
  have "unat b + 256 * le_nat bs < 256 + 256 * le_nat bs"
    by simp
  also have "\<dots> \<le> 256 * 256 ^ length bs"
    using Cons by (metis Suc_leI mult_Suc_right mult_le_mono2)
  finally show ?case by simp
qed simp

lemma le_nat_le_bytes [simp]: "le_nat (le_bytes k n) = n mod 256 ^ k"
proof (induction k arbitrary: n)
  case (Suc k)
  have "unat (word_of_nat n :: u8) = n mod 256"
    by (simp add: unat_of_nat)
  then show ?case
    using Suc by (simp add: mod_mult2_eq)
qed simp

lemma be_nat_be_bytes [simp]: "be_nat (be_bytes k n) = n mod 256 ^ k"
  by (simp add: be_nat_def be_bytes_def)

lemma word_of_nat_be_nat [simp]:
  "word_of_nat (be_nat (be_bytes 4 (unat (w :: u32)))) = w"
  by simp

lemma i32_le_i32_le_bytes: "is_i32 i \<Longrightarrow> i32_le (i32_le_bytes i) = i"
proof -
  assume i: "is_i32 i"
  have "i mod 2 ^ 32 = (if 0 \<le> i then i else i + 2 ^ 32)"
  proof (cases "0 \<le> i")
    case True
    then show ?thesis using i by (simp add: is_i32_def)
  next
    case False
    then have "(i + 2 ^ 32) mod 2 ^ 32 = i + 2 ^ 32"
      using i by (intro mod_pos_pos_trivial) (auto simp: is_i32_def)
    then show ?thesis using False by simp
  qed
  then show ?thesis
    using i by (auto simp: i32_le_def i32_le_bytes_def is_i32_def Let_def)
qed

section \<open>Slices\<close>

text \<open>\<open>b[from..to]\<close>, \<open>copy_from_slice\<close> into a range, and \<open>chunks_exact\<close>.\<close>

definition subslice :: "nat \<Rightarrow> nat \<Rightarrow> 'a list \<Rightarrow> 'a list" where
  "subslice i j xs = take (j - i) (drop i xs)"

definition put_slice :: "nat \<Rightarrow> 'a list \<Rightarrow> 'a list \<Rightarrow> 'a list" where
  "put_slice i ys xs = take i xs @ ys @ drop (i + length ys) xs"

function chunks_exact :: "nat \<Rightarrow> 'a list \<Rightarrow> 'a list list" where
  "chunks_exact n xs =
     (if n = 0 \<or> length xs < n then [] else take n xs # chunks_exact n (drop n xs))"
  by pat_completeness auto
termination
  by (relation "measure (\<lambda>(n, xs). length xs)") auto

declare chunks_exact.simps [simp del]

lemma length_subslice [simp]: "length (subslice i j xs) = min (length xs - i) (j - i)"
  by (simp add: subslice_def)

lemma length_put_slice [simp]:
  "i + length ys \<le> length xs \<Longrightarrow> length (put_slice i ys xs) = length xs"
  by (simp add: put_slice_def)

lemma subslice_put_slice_same [wire_simps]:
  "i + length ys \<le> length xs \<Longrightarrow> j = i + length ys \<Longrightarrow> subslice i j (put_slice i ys xs) = ys"
  by (simp add: subslice_def put_slice_def)

lemma subslice_put_slice_other [wire_simps]:
  assumes "k + length ys \<le> length xs" and "j \<le> k \<or> k + length ys \<le> i"
  shows "subslice i j (put_slice k ys xs) = subslice i j xs"
  using assms by (auto simp: subslice_def put_slice_def drop_take min_def)

lemma subslice_append:
  "subslice i j (xs @ ys) =
     subslice i (min j (length xs)) xs @ subslice (i - length xs) (j - length xs) ys"
  by (cases "j \<le> length xs"; cases "i \<le> length xs") (simp_all add: subslice_def)

lemma subslice_all: "length xs \<le> j \<Longrightarrow> subslice 0 j xs = xs"
  by (simp add: subslice_def)

lemma subslice_empty [simp]: "j \<le> i \<Longrightarrow> subslice i j xs = []"
  by (simp add: subslice_def)

lemma subslice_Cons:
  "subslice i j (x # xs) =
     (if j = 0 then [] else if i = 0 then x # subslice 0 (j - 1) xs
      else subslice (i - 1) (j - 1) xs)"
  by (cases i; cases j) (simp_all add: subslice_def)

lemma put_slice_nth:
  assumes "i + length ys \<le> length xs" and "k < length xs"
  shows "put_slice i ys xs ! k = (if i \<le> k \<and> k < i + length ys then ys ! (k - i) else xs ! k)"
  using assms by (auto simp: put_slice_def nth_append min_def)

lemma chunks_exact_Nil [simp]: "chunks_exact n [] = []"
  by (subst chunks_exact.simps) auto

lemma chunks_exact_append:
  assumes "length xs = n" and "0 < n"
  shows "chunks_exact n (xs @ ys) = xs # chunks_exact n ys"
  using assms by (subst chunks_exact.simps) simp

lemma chunks_exact_concat:
  assumes "\<forall>row \<in> set rows. length row = n" and "0 < n"
  shows "chunks_exact n (concat rows) = rows"
  using assms by (induction rows) (auto simp: chunks_exact_append)

lemma concat_chunks_exact:
  assumes "length xs = m * n" and "0 < n"
  shows "concat (chunks_exact n xs) = xs \<and> length (chunks_exact n xs) = m
    \<and> (\<forall>row \<in> set (chunks_exact n xs). length row = n)"
  using assms
proof (induction m arbitrary: xs)
  case (Suc m)
  then have le: "\<not> (n = 0 \<or> length xs < n)" by simp
  have rest: "length (drop n xs) = m * n" using Suc.prems by simp
  show ?case
    using Suc.IH [OF rest Suc.prems(2)] le Suc.prems
    by (subst (1 2 3) chunks_exact.simps) auto
qed simp

lemma concat_length_rows:
  "\<forall>row \<in> set rows. length row = n \<Longrightarrow> length (concat rows) = length rows * n"
  by (induction rows) auto

lemma two_digits_less:
  fixes a b m n :: nat
  assumes "a < m" and "b < n"
  shows "a * n + b < m * n" and "a * n + b < n * m"
proof -
  have "Suc a * n \<le> m * n" using assms by (intro mult_le_mono1) simp
  then show "a * n + b < m * n" "a * n + b < n * m" using assms by (simp_all add: mult.commute)
qed

lemma concat_nth:
  assumes "\<forall>row \<in> set rows. length row = n" and "r < length rows" and "j < n"
  shows "concat rows ! (r * n + j) = rows ! r ! j"
  using assms
proof (induction rows arbitrary: r)
  case (Cons row rows)
  then show ?case
    by (cases r) (simp_all add: nth_append add.assoc)
qed simp

lemma chunks_exact_nth:
  assumes "length xs = m * n" and "0 < n" and "r < m"
  shows "chunks_exact n xs ! r = take n (drop (r * n) xs)"
  using assms
proof (induction r arbitrary: m xs)
  case 0
  then have "\<not> (n = 0 \<or> length xs < n)" by (cases m) auto
  then show ?case by (subst chunks_exact.simps) simp
next
  case (Suc r)
  then obtain k where m: "m = Suc k" by (cases m) auto
  have le: "\<not> (n = 0 \<or> length xs < n)" using Suc.prems m by auto
  have "chunks_exact n (drop n xs) ! r = take n (drop (r * n) (drop n xs))"
    using Suc.prems m by (intro Suc.IH [of _ k]) auto
  with le show ?case
    by (subst chunks_exact.simps) (simp add: add.commute)
qed

end
