(* ===== verification/Protocol.thy ===== *)
theory Protocol
  imports Prelude
begin

unbundle bit_operations_syntax

text \<open>
  \<open>src/protocol.rs\<close>: the INQUIRY reply of the scanner, decoded into its reported
  capabilities. The lemmas say that a frame is accepted only with the documented header,
  length and non-empty fields, that a frame laid out as documented decodes to exactly
  the values it carries, and that the list of resolutions is the set of reported bits.
\<close>

record capabilities =
  identity :: string
  resolution_mask :: u32
  mode_mask :: u8
  cap_width_units :: u32
  cap_length_units :: u32
  flatbed_length_units :: u32
  line_order :: u8
  compression_mask :: u8

definition invalid :: "string \<Rightarrow> io_error" where
  "invalid m = Custom InvalidData (Message (Lit m))"

definition space :: char where "space = CHR '' ''"

text \<open>\<open>str::trim\<close>: on the printable ASCII text of a frame only the blank is white space.\<close>

definition trim :: "string \<Rightarrow> string" where
  "trim s = rev (dropWhile ((=) space) (rev (dropWhile ((=) space) s)))"

definition identity_char :: "u8 \<Rightarrow> char" where
  "identity_char b = (if b = 0 then space else char_of (unat b))"

definition be_u32_at :: "bytes \<Rightarrow> nat \<Rightarrow> u32" where
  "be_u32_at b off = word_of_nat (be_nat (subslice off (off + 4) b))"

definition parse_fields :: "bytes \<Rightarrow> capabilities" where
  "parse_fields b = \<lparr>
     identity = trim (map identity_char (subslice 4 36 b)),
     resolution_mask = push_bit 16 (ucast (b ! 55)) OR push_bit 8 (ucast (b ! 36)) OR ucast (b ! 37),
     mode_mask = b ! 39,
     cap_width_units = be_u32_at b 40,
     cap_length_units = be_u32_at b 44,
     flatbed_length_units = be_u32_at b 60,
     line_order = b ! 49,
     compression_mask = b ! 50 \<rparr>"

definition empty_capabilities :: "capabilities \<Rightarrow> bool" where
  "empty_capabilities c \<longleftrightarrow>
     identity c = [] \<or> resolution_mask c = 0 \<or> mode_mask c = 0
     \<or> cap_width_units c = 0 \<or> cap_length_units c = 0 \<or> flatbed_length_units c = 0"

definition parse :: "bytes \<Rightarrow> capabilities io" where
  "parse b =
     (if length b < 4 \<or> b ! 0 \<noteq> 0xa8 \<or> unat (b ! 2) + 3 \<noteq> length b
      then Inl (invalid ''Malformed INQUIRY response header or length'')
      else if b ! 1 \<noteq> 0
      then Inl (invalid ''Device returned a non-success INQUIRY status'')
      else if length b < 70 \<or> b ! 3 \<noteq> 0x10
      then Inl (invalid ''INQUIRY response is not a complete product-info frame'')
      else if list_ex (\<lambda>x. x \<noteq> 0 \<and> \<not> (0x20 \<le> x \<and> x \<le> 0x7e)) (subslice 4 36 b)
      then Inl (invalid ''INQUIRY identity contains invalid text'')
      else if empty_capabilities (parse_fields b)
      then Inl (invalid ''INQUIRY response contains empty capabilities'')
      else Inr (parse_fields b))"

definition dpi_bits :: "(u32 \<times> nat) list" where
  "dpi_bits = [(75, 0), (100, 12), (150, 1), (200, 4), (300, 5), (600, 8),
     (1200, 11), (2400, 15), (4800, 17), (9600, 19)]"

definition resolutions :: "capabilities \<Rightarrow> u32 list" where
  "resolutions c = List.map_filter
     (\<lambda>(dpi, b). if resolution_mask c AND push_bit b 1 \<noteq> 0 then Some dpi else None) dpi_bits"


section \<open>The documented frame\<close>

text \<open>
  The product-information frame as the protocol documents it: a 4-byte header with the
  length of the rest, 32 bytes of text, the resolution bits in bytes 36, 37 and 55, the
  mode bits, and big-endian geometry. Reserved bytes are zero.
\<close>

definition inquiry_frame ::
    "bytes \<Rightarrow> u32 \<Rightarrow> u8 \<Rightarrow> u32 \<Rightarrow> u32 \<Rightarrow> u32 \<Rightarrow> u8 \<Rightarrow> u8 \<Rightarrow> bytes" where
  "inquiry_frame name res mode w l fl lo cm =
     [0xa8, 0, 67, 0x10] @ name @ [ucast (drop_bit 8 res), ucast res, 0, mode]
     @ be_bytes 4 (unat w) @ be_bytes 4 (unat l)
     @ [0, lo, cm, 0, 0, 0, 0, ucast (drop_bit 16 res)] @ replicate 4 0
     @ be_bytes 4 (unat fl) @ replicate 6 0"

definition printable :: "u8 \<Rightarrow> bool" where
  "printable b \<longleftrightarrow> b = 0 \<or> 0x20 \<le> b \<and> b \<le> 0x7e"

lemma resolution_bytes:
  fixes res :: u32
  assumes "res < 2 ^ 24"
  shows "push_bit 16 (ucast (ucast (drop_bit 16 res) :: u8))
       OR push_bit 8 (ucast (ucast (drop_bit 8 res) :: u8)) OR ucast (ucast res :: u8) = res"
proof -
  have high: "\<not> bit res n" if "24 \<le> n" for n
  proof -
    have "take_bit 24 res = res"
      using assms
      by (simp add: word_unat_eq_iff unsigned_take_bit_eq take_bit_nat_eq_self word_less_nat_alt)
    then show ?thesis
      using that by (metis bit_take_bit_iff not_le)
  qed
  show ?thesis
  proof (rule bit_word_eqI)
    fix n :: nat
    consider "n < 16" | "16 \<le> n" "n < 24" | "24 \<le> n" by linarith
    then show "bit (push_bit 16 (ucast (ucast (drop_bit 16 res) :: u8))
       OR push_bit 8 (ucast (ucast (drop_bit 8 res) :: u8)) OR ucast (ucast res :: u8) :: u32) n
      \<longleftrightarrow> bit res n"
    proof cases
      case 1
      then show ?thesis by (auto simp: bit_simps)
    next
      case 2
      then have "\<not> n - 8 < 8" "n - 16 < 8" by linarith+
      with 2 show ?thesis by (auto simp: bit_simps)
    next
      case 3
      then have "\<not> n - 8 < 8" "\<not> n - 16 < 8" "\<not> n < 8" by linarith+
      with 3 high show ?thesis by (auto simp: bit_simps)
    qed
  qed
qed

lemma list_ex_printable:
  "list_ex (\<lambda>x. x \<noteq> 0 \<and> \<not> (0x20 \<le> x \<and> x \<le> 0x7e)) xs \<longleftrightarrow> \<not> (\<forall>x \<in> set xs. printable x)"
  by (auto simp: list_ex_iff printable_def)

lemma frame_fields:
  assumes "length name = 32"
  shows "length (inquiry_frame name res mode w l fl lo cm) = 70"
    and "inquiry_frame name res mode w l fl lo cm ! 0 = 0xa8"
    and "inquiry_frame name res mode w l fl lo cm ! 1 = 0"
    and "inquiry_frame name res mode w l fl lo cm ! 2 = 67"
    and "inquiry_frame name res mode w l fl lo cm ! 3 = 0x10"
    and "subslice 4 36 (inquiry_frame name res mode w l fl lo cm) = name"
    and "inquiry_frame name res mode w l fl lo cm ! 36 = ucast (drop_bit 8 res)"
    and "inquiry_frame name res mode w l fl lo cm ! 37 = ucast res"
    and "inquiry_frame name res mode w l fl lo cm ! 39 = mode"
    and "subslice 40 44 (inquiry_frame name res mode w l fl lo cm) = be_bytes 4 (unat w)"
    and "subslice 44 48 (inquiry_frame name res mode w l fl lo cm) = be_bytes 4 (unat l)"
    and "inquiry_frame name res mode w l fl lo cm ! 49 = lo"
    and "inquiry_frame name res mode w l fl lo cm ! 50 = cm"
    and "inquiry_frame name res mode w l fl lo cm ! 55 = ucast (drop_bit 16 res)"
    and "subslice 60 64 (inquiry_frame name res mode w l fl lo cm) = be_bytes 4 (unat fl)"
  using assms by (simp_all add: inquiry_frame_def subslice_append subslice_Cons subslice_all nth_append)

section \<open>Properties\<close>

lemma parse_Inr_iff:
  "parse b = Inr c \<longleftrightarrow>
     c = parse_fields b \<and> 70 \<le> length b \<and> b ! 0 = 0xa8 \<and> b ! 1 = 0 \<and> b ! 3 = 0x10
     \<and> unat (b ! 2) + 3 = length b \<and> (\<forall>x \<in> set (subslice 4 36 b). printable x)
     \<and> \<not> empty_capabilities c"
  unfolding parse_def list_ex_printable by auto

lemma parse_frame_ok:
  assumes "length name = 32" and "\<forall>x \<in> set name. printable x"
    and "trim (map identity_char name) \<noteq> []"
    and "res < 2 ^ 24" and "res \<noteq> 0" and "mode \<noteq> 0"
    and "w \<noteq> 0" and "l \<noteq> 0" and "fl \<noteq> 0"
  shows "parse (inquiry_frame name res mode w l fl lo cm) =
    Inr \<lparr>identity = trim (map identity_char name), resolution_mask = res, mode_mask = mode,
      cap_width_units = w, cap_length_units = l, flatbed_length_units = fl,
      line_order = lo, compression_mask = cm\<rparr>"
proof -
  note frame = frame_fields [OF assms(1)]
  have fields: "parse_fields (inquiry_frame name res mode w l fl lo cm) =
    \<lparr>identity = trim (map identity_char name), resolution_mask = res, mode_mask = mode,
      cap_width_units = w, cap_length_units = l, flatbed_length_units = fl,
      line_order = lo, compression_mask = cm\<rparr>"
    by (simp add: parse_fields_def be_u32_at_def frame resolution_bytes [OF assms(4)]
        del: be_nat_be_bytes)
  show ?thesis
    unfolding parse_Inr_iff fields using assms by (simp add: frame [simplified] empty_capabilities_def)
qed

text \<open>
  A frame laid out as documented is accepted and decodes to exactly the
  values it carries, for every text, mask, geometry, line order and compression mask.
\<close>

theorem parse_inquiry_frame:
  assumes "length name = 32" and "\<forall>x \<in> set name. printable x"
    and "trim (map identity_char name) \<noteq> []"
    and "res < 2 ^ 24" and "res \<noteq> 0" and "mode \<noteq> 0"
    and "w \<noteq> 0" and "l \<noteq> 0" and "fl \<noteq> 0"
  shows "parse (inquiry_frame name res mode w l fl lo cm) =
    Inr \<lparr>identity = trim (map identity_char name), resolution_mask = res, mode_mask = mode,
      cap_width_units = w, cap_length_units = l, flatbed_length_units = fl,
      line_order = lo, compression_mask = cm\<rparr>"
  using assms by (rule parse_frame_ok)

definition sample_name :: bytes where
  "sample_name = map (word_of_nat \<circ> of_char) ''Xerox WorkCentre 3119'' @ replicate 11 0"

definition sample_frame :: bytes where
  "sample_frame = inquiry_frame sample_name 0x353f 0x29 10200 14040 14040 1 0x2f"

lemma sample_name:
  "length sample_name = 32" "\<forall>x \<in> set sample_name. printable x"
  "trim (map identity_char sample_name) = ''Xerox WorkCentre 3119''"
proof -
  show "trim (map identity_char sample_name) = ''Xerox WorkCentre 3119''"
    by code_simp
qed (simp_all add: sample_name_def printable_def)

lemma parse_inquiry_frame_witness:
  "parse sample_frame =
   Inr \<lparr>identity = ''Xerox WorkCentre 3119'', resolution_mask = 0x353f, mode_mask = 0x29,
      cap_width_units = 10200, cap_length_units = 14040, flatbed_length_units = 14040,
      line_order = 1, compression_mask = 0x2f\<rparr>"
  unfolding sample_frame_def
  using parse_inquiry_frame [of sample_name "0x353f" "0x29" 10200 14040 14040 1 "0x2f"] sample_name
  by simp

lemma sample_frame_parses:
  "parse sample_frame =
   Inr \<lparr>identity = ''Xerox WorkCentre 3119'', resolution_mask = 0x353f, mode_mask = 0x29,
      cap_width_units = 10200, cap_length_units = 14040, flatbed_length_units = 14040,
      line_order = 1, compression_mask = 0x2f\<rparr>"
  unfolding sample_frame_def
  using parse_frame_ok [of sample_name "0x353f" "0x29" 10200 14040 14040 1 "0x2f"] sample_name
  by simp

lemma trim_ends:
  assumes "trim s \<noteq> []"
  shows "hd (trim s) \<noteq> space \<and> last (trim s) \<noteq> space"
proof -
  let ?t = "dropWhile ((=) space) s"
  have last: "last (trim s) = hd (dropWhile ((=) space) (rev ?t))"
    using assms by (simp add: trim_def last_rev)
  have "hd (dropWhile ((=) space) (rev ?t)) \<noteq> space"
    using assms hd_dropWhile [of "(=) space" "rev ?t"] by (auto simp: trim_def)
  moreover have "hd (trim s) = hd ?t"
  proof -
    obtain ys where "rev ?t = ys @ dropWhile ((=) space) (rev ?t)"
      by (metis takeWhile_dropWhile_id)
    then have "?t = trim s @ rev ys"
      by (metis rev_append rev_rev_ident trim_def)
    with assms show ?thesis by (metis hd_append2)
  qed
  moreover have "hd ?t \<noteq> space"
  proof -
    have "?t \<noteq> []" using assms unfolding trim_def by (metis dropWhile.simps(1) rev.simps(1))
    then show ?thesis using hd_dropWhile [of "(=) space" s] by auto
  qed
  ultimately show ?thesis using last by simp
qed

lemma set_trim: "set (trim s) \<subseteq> set s"
proof
  fix x
  assume "x \<in> set (trim s)"
  then have "x \<in> set (dropWhile ((=) space) (rev (dropWhile ((=) space) s)))"
    by (simp add: trim_def)
  then have "x \<in> set (rev (dropWhile ((=) space) s))"
    by (blast dest: set_dropWhileD)
  then have "x \<in> set (dropWhile ((=) space) s)"
    by simp
  then show "x \<in> set s"
    by (blast dest: set_dropWhileD)
qed

lemma length_trim: "length (trim s) \<le> length s"
  by (auto simp: trim_def intro!: order_trans [OF length_dropWhile_le])

text \<open>
  Whatever bytes arrive, an accepted reply is a complete product-information
  frame of at least 70 bytes whose length byte matches, and the capabilities it yields
  have a non-empty identity of at most 32 printable characters without blanks at its ends
  and no zero mask or dimension, so later stages never see an empty limit.
\<close>

theorem parse_sound:
  assumes "parse b = Inr c"
  shows "70 \<le> length b \<and> length b = unat (b ! 2) + 3 \<and> b ! 0 = 0xa8 \<and> b ! 3 = 0x10
    \<and> identity c \<noteq> [] \<and> length (identity c) \<le> 32
    \<and> hd (identity c) \<noteq> space \<and> last (identity c) \<noteq> space
    \<and> set (identity c) \<subseteq> {ch. 0x20 \<le> (of_char ch :: nat) \<and> (of_char ch :: nat) \<le> 0x7e}
    \<and> resolution_mask c \<noteq> 0 \<and> mode_mask c \<noteq> 0
    \<and> cap_width_units c \<noteq> 0 \<and> cap_length_units c \<noteq> 0 \<and> flatbed_length_units c \<noteq> 0"
proof -
  from assms have b: "70 \<le> length b" "unat (b ! 2) + 3 = length b" "b ! 0 = 0xa8" "b ! 3 = 0x10"
    and c: "c = parse_fields b" and full: "\<not> empty_capabilities c"
    and chars: "\<forall>x \<in> set (subslice 4 36 b). printable x"
    by (auto simp: parse_Inr_iff)
  have ident: "identity c = trim (map identity_char (subslice 4 36 b))"
    by (simp add: c parse_fields_def)
  have len: "length (identity c) \<le> 32"
    using length_trim [of "map identity_char (subslice 4 36 b)"] b by (simp add: ident)
  have ends: "identity c \<noteq> [] \<Longrightarrow> hd (identity c) \<noteq> space \<and> last (identity c) \<noteq> space"
    using trim_ends ident by metis
  have "0x20 \<le> (of_char (identity_char x) :: nat) \<and> (of_char (identity_char x) :: nat) \<le> 0x7e"
    if "printable x" for x
    using that by (auto simp: printable_def identity_char_def space_def word_le_nat_alt)
  then have "set (identity c) \<subseteq> {ch. 0x20 \<le> (of_char ch :: nat) \<and> (of_char ch :: nat) \<le> 0x7e}"
    using chars set_trim ident by fastforce
  with b len ends full show ?thesis
    by (simp add: empty_capabilities_def)
qed

lemma parse_sound_witness:
  "\<exists>c. parse sample_frame = Inr c \<and> length (identity c) \<le> 32 \<and> mode_mask c \<noteq> 0"
  using parse_sound [OF sample_frame_parses] sample_frame_parses by blast

lemma map_filter_filter:
  "List.map_filter (\<lambda>(d, b). if P b then Some d else None) xs = map fst (filter (\<lambda>x. P (snd x)) xs)"
  by (induction xs) auto

lemma dpi_bits_sorted: "sorted_wrt (\<lambda>x y. fst x < fst y) dpi_bits"
  by (simp add: dpi_bits_def)

lemma resolutions_filter:
  "resolutions c = map fst (filter (\<lambda>x. bit (resolution_mask c) (snd x)) dpi_bits)"
  unfolding resolutions_def bit_iff_and_push_bit_not_eq_0 by (rule map_filter_filter)

lemma set_resolutions:
  "dpi \<in> set (resolutions c) \<longleftrightarrow> (\<exists>b. (dpi, b) \<in> set dpi_bits \<and> bit (resolution_mask c) b)"
  by (force simp: resolutions_filter)

text \<open>
  The reported resolutions are exactly the documented bits that are set, in
  increasing order and without repetition.
\<close>

theorem resolutions_spec:
  "set (resolutions c) = {dpi. \<exists>b. (dpi, b) \<in> set dpi_bits \<and> bit (resolution_mask c) b}
   \<and> sorted_wrt (<) (resolutions c)"
  using dpi_bits_sorted set_resolutions
  by (auto simp: resolutions_filter sorted_wrt_map intro: sorted_wrt_filter)

end
