(* ===== verification/Scan_Wire.thy ===== *)
theory Scan_Wire
  imports Protocol "HOL-Library.Multiset"
begin

unbundle bit_operations_syntax

text \<open>
  The wire formats of \<open>src/scan.rs\<close>: the SET_WINDOW command built from a scan request,
  the classification of replies, the READ metadata of an image band and the decoding of a
  band's bytes into interleaved pixels. A command is produced exactly for requests that
  the reported capabilities support and that fit the bed, and its fields decode back to
  the request. Accepted metadata bounds every later allocation and copy. The in-place
  loop that reorders planar RGB rows is the transposition it means to be.
\<close>

definition MAX_BAND_BYTES :: nat where
  "MAX_BAND_BYTES = 16 * 1024 * 1024"

datatype color_mode = Gray | Rgb

fun mode_code :: "color_mode \<Rightarrow> nat" where
  "mode_code Gray = 3"
| "mode_code Rgb = 5"

fun channels :: "color_mode \<Rightarrow> nat" where
  "channels Gray = 1"
| "channels Rgb = 3"

record scan_request =
  dpi :: u32
  mode :: color_mode
  x_units :: u32
  y_units :: u32
  width_units :: u32
  height_units :: u32

section \<open>SET_WINDOW\<close>

definition resolution_code :: "u32 \<Rightarrow> u8 option" where
  "resolution_code d =
     (if d = 75 then Some 0 else if d = 100 then Some 10 else if d = 150 then Some 2
      else if d = 200 then Some 9 else if d = 300 then Some 5 else if d = 600 then Some 7
      else None)"

definition within :: "u32 \<Rightarrow> u32 \<Rightarrow> u32 \<Rightarrow> bool" where
  "within start extent limit \<longleftrightarrow>
     extent > 0 \<and> (case checked_add32 start extent of None \<Rightarrow> False | Some e \<Rightarrow> e \<le> limit)"

definition unsupported_format :: "scan_request \<Rightarrow> capabilities \<Rightarrow> bool" where
  "unsupported_format r caps \<longleftrightarrow>
     \<not> List.member (resolutions caps) (dpi r)
     \<or> mode_mask caps AND push_bit (mode_code (mode r)) 1 = 0
     \<or> compression_mask caps AND 1 = 0
     \<or> (mode r = Rgb \<and> line_order caps > 1)"

definition bad_region :: "scan_request \<Rightarrow> capabilities \<Rightarrow> bool" where
  "bad_region r caps \<longleftrightarrow>
     \<not> within (x_units r) (width_units r) (cap_width_units caps)
     \<or> \<not> within (y_units r) (height_units r)
          (min (flatbed_length_units caps) (cap_length_units caps))
     \<or> x_units r mod 12 \<noteq> 0
     \<or> y_units r mod 12 \<noteq> 0
     \<or> x_units r div 1200 > 255
     \<or> y_units r div 1200 > 255"

definition window_bytes :: "scan_request \<Rightarrow> u8 \<Rightarrow> bytes" where
  "window_bytes r code =
     (let b = replicate 25 0;
          b = put_slice 0 [0x1b, 0xa8, 0x24, 0x13, 0x30] b;
          b = put_slice 5 (be_bytes 4 (unat (width_units r))) b;
          b = put_slice 9 (be_bytes 4 (unat (height_units r))) b;
          b = b[13 := code];
          b = b[14 := code];
          b = b[15 := ucast (x_units r div 1200)];
          b = b[16 := ucast ((x_units r mod 1200) div 12)];
          b = b[17 := ucast (y_units r div 1200)];
          b = b[18 := ucast ((y_units r mod 1200) div 12)];
          b = b[19 := word_of_nat (mode_code (mode r))];
          b = b[22 := 2];
          b = b[23 := 0x40]
      in b)"

definition command :: "scan_request \<Rightarrow> capabilities \<Rightarrow> bytes io" where
  "command r caps =
     (case resolution_code (dpi r) of
        None \<Rightarrow> Inl (invalid ''Unsupported scan resolution'')
      | Some code \<Rightarrow>
          if unsupported_format r caps then
            Inl (invalid ''Requested image format is not supported by reported capabilities'')
          else if bad_region r caps then
            Inl (invalid ''Scan region is empty, unrepresentable or outside the flatbed'')
          else Inr (window_bytes r code))"

section \<open>Replies\<close>

datatype reply_status = Good | Busy

definition be_u16 :: "u8 \<Rightarrow> u8 \<Rightarrow> u16" where
  "be_u16 hi lo = word_of_nat (be_nat [hi, lo])"

definition response_status :: "bytes \<Rightarrow> bool \<Rightarrow> reply_status io" where
  "response_status b read =
     (if length b < 32 \<or> b ! 0 \<noteq> 0xa8 \<or> unat (b ! 2) + 3 \<noteq> length b
      then Inl (invalid ''Malformed scanner response'')
      else if b ! 1 = 0 then Inr Good
      else if b ! 1 = 8 then Inr Busy
      else if b ! 1 = 4
      then Inl (Custom Interrupted (Message (Lit ''Scanner cancelled the job'')))
      else if b ! 1 = 2 then
        let offset = (if read then 12 else 4);
            state = be_u16 (b ! offset) (b ! (offset + 1))
        in if state \<noteq> 0 \<and> state AND NOT 0x481 = 0 \<and> state AND 0x480 \<noteq> 0 then Inr Busy
           else Inl (Custom InvalidData (Message
                  (Fmt [Lit ''Scanner CHECK state 0x'', Hex 4 (uint state)])))
      else Inl (Custom InvalidData (Message
             (Fmt [Lit ''Unknown scanner status 0x'', Hex 2 (uint (b ! 1))]))))"

section \<open>Image bands\<close>

record band_info =
  bi_length :: nat
  bi_width :: nat
  bi_rows :: nat
  final_band :: bool

definition parse_band :: "bytes \<Rightarrow> color_mode \<Rightarrow> band_info io" where
  "parse_band b m =
     and_then (response_status b True) (\<lambda>status.
     if status \<noteq> Good \<or> \<not> (b ! 3 = 0x80 \<or> b ! 3 = 0x81)
     then Inl (invalid ''Expected image band metadata'')
     else
       let len = be_nat (subslice 4 8 b);
           rows = be_nat (subslice 8 10 b);
           width = be_nat (subslice 10 12 b)
       in and_then (ok_or (invalid ''Image size overflow'')
              (Option.bind (checked_mul64 width rows) (\<lambda>v. checked_mul64 v (channels m))))
            (\<lambda>pixels.
              if width = 0 \<or> rows = 0 \<or> width * channels m > 65536
                \<or> len > MAX_BAND_BYTES \<or> len < pixels \<or> len - pixels > 16
              then Inl (Custom InvalidData (Message (Fmt [Lit ''Invalid image band: length='',
                     Num (int len), Lit '', width='', Num (int width), Lit '', rows='', Num (int rows)])))
              else Inr \<lparr>bi_length = len, bi_width = width, bi_rows = rows,
                         final_band = (b ! 3 = 0x81)\<rparr>))"

text \<open>
  The inner loops of \<open>decode\<close> write one row of the output in place; the output row
  starts as a copy of the input row.
\<close>

definition reorder_row :: "nat \<Rightarrow> bytes \<Rightarrow> bytes" where
  "reorder_row w input =
     foldl (\<lambda>out x. foldl (\<lambda>out c. out[x * 3 + c := input ! (c * w + x)]) out [0..<3])
       input [0..<w]"

definition decode :: "band_info \<Rightarrow> bytes \<Rightarrow> color_mode \<Rightarrow> u8 \<Rightarrow> bytes io" where
  "decode bi raw m lo =
     (if length raw \<noteq> bi_length bi \<or> (m = Rgb \<and> lo > 1)
      then Inl (invalid ''Incomplete image band or unsupported channel order'')
      else
        let size = bi_width bi * bi_rows bi * channels m;
            pixels = take size raw
        in if m = Rgb \<and> lo = 1
           then Inr (concat (map (reorder_row (bi_width bi))
                       (chunks_exact (bi_width bi * 3) pixels)))
           else Inr pixels)"

section \<open>Lemmas on commands\<close>

lemma within_iff:
  "within s n l \<longleftrightarrow> 0 < unat n \<and> unat s + unat n \<le> unat l"
proof -
  have "unat s + unat n < 4294967296" if "unat s + unat n \<le> unat l"
    using that unat_u32_less [of l] by linarith
  moreover have "unat (s + n) = unat s + unat n" if "unat s + unat n < 2 ^ 32"
    using that by (simp add: unat_word_ariths)
  ultimately show ?thesis
    by (cases "unat s + unat n < 2 ^ 32")
      (auto simp: within_def checked_add32_def word_le_nat_alt word_less_nat_alt)
qed

lemma resolution_code_Some_iff:
  "(\<exists>code. resolution_code d = Some code) \<longleftrightarrow> d \<in> {75, 100, 150, 200, 300, 600}"
  by (auto simp: resolution_code_def)

lemma window_bytes_eq:
  "window_bytes r code =
     [0x1b, 0xa8, 0x24, 0x13, 0x30] @ be_bytes 4 (unat (width_units r))
     @ be_bytes 4 (unat (height_units r))
     @ [code, code, ucast (x_units r div 1200), ucast ((x_units r mod 1200) div 12),
        ucast (y_units r div 1200), ucast ((y_units r mod 1200) div 12),
        word_of_nat (mode_code (mode r)), 0, 0, 2, 0x40, 0]"
proof -
  obtain p q u v where w: "be_bytes 4 (unat (width_units r)) = [p, q, u, v]"
    using be_bytes_4_ex by blast
  obtain p' q' u' v' where h: "be_bytes 4 (unat (height_units r)) = [p', q', u', v']"
    using be_bytes_4_ex by blast
  have zeros: "replicate 25 (0 :: u8) = [0,0,0,0,0,0,0,0,0,0,0,0,0,0,0,0,0,0,0,0,0,0,0,0,0]"
    by (simp add: numeral_eq_Suc)
  show ?thesis
    by (simp add: window_bytes_def put_slice_def w h zeros)
qed

lemma window_bytes_fields:
  "length (window_bytes r code) = 25"
  "take 5 (window_bytes r code) = [0x1b, 0xa8, 0x24, 0x13, 0x30]"
  "subslice 5 9 (window_bytes r code) = be_bytes 4 (unat (width_units r))"
  "subslice 9 13 (window_bytes r code) = be_bytes 4 (unat (height_units r))"
  "window_bytes r code ! 13 = code"
  "window_bytes r code ! 14 = code"
  "window_bytes r code ! 15 = ucast (x_units r div 1200)"
  "window_bytes r code ! 16 = ucast ((x_units r mod 1200) div 12)"
  "window_bytes r code ! 17 = ucast (y_units r div 1200)"
  "window_bytes r code ! 18 = ucast ((y_units r mod 1200) div 12)"
  "window_bytes r code ! 19 = word_of_nat (mode_code (mode r))"
  by (simp_all add: window_bytes_eq subslice_append subslice_Cons subslice_all nth_append)

lemma offset_bytes:
  fixes u :: u32
  assumes "u mod 12 = 0" and "u div 1200 \<le> 255"
  shows "1200 * unat (ucast (u div 1200) :: u8) + 12 * unat (ucast ((u mod 1200) div 12) :: u8)
    = unat u"
proof -
  let ?n = "unat u"
  have m: "?n mod 12 = 0" using assms(1) by (simp add: word_unat_eq_iff unat_mod_distrib)
  have d: "?n div 1200 \<le> 255" using assms(2) by (simp add: word_le_nat_alt unat_div_distrib)
  have a: "unat (ucast (u div 1200) :: u8) = ?n div 1200"
    using d by (simp add: unsigned_ucast_eq unat_div_distrib take_bit_eq_mod)
  have b: "unat (ucast ((u mod 1200) div 12) :: u8) = ?n mod 1200 div 12"
    by (simp add: unsigned_ucast_eq unat_div_distrib unat_mod_distrib take_bit_eq_mod)
  have "?n mod 1200 mod 12 = 0"
    using m by (simp add: mod_mod_cancel)
  then have "12 * (?n mod 1200 div 12) = ?n mod 1200"
    by (metis add.right_neutral mult_div_mod_eq)
  then show ?thesis
    unfolding a b by (metis mult_div_mod_eq)
qed

lemma command_Inr_iff:
  "command r caps = Inr b \<longleftrightarrow>
     (\<exists>code. resolution_code (dpi r) = Some code \<and> b = window_bytes r code)
     \<and> \<not> unsupported_format r caps \<and> \<not> bad_region r caps"
  by (auto simp: command_def split: option.splits)

lemma accepts_iff:
  "(\<exists>b. command r caps = Inr b) \<longleftrightarrow>
     dpi r \<in> {75, 100, 150, 200, 300, 600} \<inter> set (resolutions caps)
     \<and> bit (mode_mask caps) (mode_code (mode r)) \<and> bit (compression_mask caps) 0
     \<and> (mode r = Rgb \<longrightarrow> unat (line_order caps) \<le> 1)
     \<and> 0 < unat (width_units r) \<and> 0 < unat (height_units r)
     \<and> unat (x_units r) + unat (width_units r) \<le> unat (cap_width_units caps)
     \<and> unat (y_units r) + unat (height_units r)
         \<le> min (unat (flatbed_length_units caps)) (unat (cap_length_units caps))
     \<and> 12 dvd unat (x_units r) \<and> 12 dvd unat (y_units r)
     \<and> unat (x_units r) div 1200 \<le> 255 \<and> unat (y_units r) div 1200 \<le> 255"
proof -
  have "unat (min a b) = min (unat a) (unat b)" for a b :: u32
    by (simp add: min_def word_le_nat_alt)
  moreover have "u mod 12 = 0 \<longleftrightarrow> 12 dvd unat u" for u :: u32
    by (simp add: word_unat_eq_iff unat_mod_distrib dvd_eq_mod_eq_0)
  moreover have "u div 1200 > 255 \<longleftrightarrow> unat u div 1200 > 255" for u :: u32
    by (simp add: word_less_nat_alt unat_div_distrib)
  moreover have "lo > 1 \<longleftrightarrow> unat lo > 1" for lo :: u8
    by (simp add: word_less_nat_alt)
  moreover have "(w AND push_bit k 1 = 0) \<longleftrightarrow> \<not> bit w k" "(w AND 1 = 0) \<longleftrightarrow> \<not> bit w 0"
    for w :: u8 and k
    using bit_iff_and_push_bit_not_eq_0 [of w k] bit_iff_and_push_bit_not_eq_0 [of w 0] by auto
  ultimately show ?thesis
    unfolding command_Inr_iff unsupported_format_def bad_region_def
    using resolution_code_Some_iff [of "dpi r"] by (auto simp: within_iff not_less)
qed

text \<open>
  A request becomes a SET_WINDOW command exactly when its resolution is one
  of the six encodable ones and reported, its mode bit and the uncompressed bit are set,
  colour has a known line order, and its region is non-empty, lies on the bed without
  wrapping around, and starts on a multiple of 1/100 inch within 255 inches.
\<close>

theorem command_accepts_iff:
  "(\<exists>b. command r caps = Inr b) \<longleftrightarrow>
     dpi r \<in> {75, 100, 150, 200, 300, 600} \<inter> set (resolutions caps)
     \<and> bit (mode_mask caps) (mode_code (mode r)) \<and> bit (compression_mask caps) 0
     \<and> (mode r = Rgb \<longrightarrow> unat (line_order caps) \<le> 1)
     \<and> 0 < unat (width_units r) \<and> 0 < unat (height_units r)
     \<and> unat (x_units r) + unat (width_units r) \<le> unat (cap_width_units caps)
     \<and> unat (y_units r) + unat (height_units r)
         \<le> min (unat (flatbed_length_units caps)) (unat (cap_length_units caps))
     \<and> 12 dvd unat (x_units r) \<and> 12 dvd unat (y_units r)
     \<and> unat (x_units r) div 1200 \<le> 255 \<and> unat (y_units r) div 1200 \<le> 255"
  by (rule accepts_iff)

text \<open>
  The 25 bytes of an accepted command decode back to the request: opcode
  0x24 with its frame header, big-endian width and height, the resolution code twice,
  offsets as whole inches and hundredths that recombine to the exact position, and the
  mode code.
\<close>

theorem command_roundtrip:
  assumes "command r caps = Inr b"
  shows "length b = 25 \<and> take 5 b = [0x1b, 0xa8, 0x24, 0x13, 0x30]
    \<and> be_nat (subslice 5 9 b) = unat (width_units r)
    \<and> be_nat (subslice 9 13 b) = unat (height_units r)
    \<and> resolution_code (dpi r) = Some (b ! 13) \<and> b ! 14 = b ! 13
    \<and> 1200 * unat (b ! 15) + 12 * unat (b ! 16) = unat (x_units r)
    \<and> 1200 * unat (b ! 17) + 12 * unat (b ! 18) = unat (y_units r)
    \<and> unat (b ! 19) = mode_code (mode r)"
proof -
  from assms obtain code where code: "resolution_code (dpi r) = Some code"
    and b: "b = window_bytes r code" and region: "\<not> bad_region r caps"
    by (auto simp: command_Inr_iff)
  have x: "x_units r mod 12 = 0" "x_units r div 1200 \<le> 255"
    and y: "y_units r mod 12 = 0" "y_units r div 1200 \<le> 255"
    using region by (auto simp: bad_region_def not_less)
  have mode: "unat (word_of_nat (mode_code (mode r)) :: u8) = mode_code (mode r)"
    by (cases "mode r") simp_all
  show ?thesis
    using code offset_bytes [OF x] offset_bytes [OF y] mode
    by (simp add: b window_bytes_fields)
qed

definition sample_request :: scan_request where
  "sample_request = \<lparr>dpi = 150, mode = Gray, x_units = 120, y_units = 240,
     width_units = 1200, height_units = 2400\<rparr>"

definition sample_caps :: capabilities where
  "sample_caps = \<lparr>identity = ''synthetic'', resolution_mask = 0x353f, mode_mask = 0x29,
     cap_width_units = 10200, cap_length_units = 14040, flatbed_length_units = 14040,
     line_order = 1, compression_mask = 0x2f\<rparr>"

text \<open>The 25 bytes the repository's own test expects for this request.\<close>

definition sample_window :: bytes where
  "sample_window = [0x1b, 0xa8, 0x24, 0x13, 0x30, 0, 0, 4, 0xb0, 0, 0, 9, 0x60, 2, 2, 0, 10,
     0, 20, 3, 0, 0, 2, 0x40, 0]"

lemma sample_command: "command sample_request sample_caps = Inr sample_window"
  by (simp add: command_Inr_iff sample_request_def sample_caps_def sample_window_def
      resolution_code_def window_bytes_eq unsupported_format_def bad_region_def within_iff
      set_resolutions dpi_bits_def be_bytes_4)

lemma command_roundtrip_witness:
  "\<exists>b. command sample_request sample_caps = Inr b
     \<and> be_nat (subslice 9 13 b) = unat (height_units sample_request)
     \<and> 1200 * unat (b ! 17) + 12 * unat (b ! 18) = unat (y_units sample_request)"
proof -
  note fields = command_roundtrip [OF sample_command]
  have "be_nat (subslice 9 13 sample_window) = unat (height_units sample_request)"
    using fields by (elim conjE)
  moreover have "1200 * unat (sample_window ! 17) + 12 * unat (sample_window ! 18)
      = unat (y_units sample_request)"
    using fields by (elim conjE)
  ultimately show ?thesis
    using sample_command by (intro exI [of _ sample_window] conjI)
qed

lemma command_accepts_iff_witness:
  "dpi sample_request \<in> set (resolutions sample_caps) \<and> bit (mode_mask sample_caps) 3"
  using sample_command command_accepts_iff [of sample_request sample_caps]
  by (simp add: sample_request_def)

section \<open>Lemmas on bands\<close>

lemma parse_band_Inr_iff:
  "parse_band b m = Inr bi \<longleftrightarrow>
     response_status b True = Inr Good \<and> (b ! 3 = 0x80 \<or> b ! 3 = 0x81)
     \<and> bi = \<lparr>bi_length = be_nat (subslice 4 8 b), bi_width = be_nat (subslice 10 12 b),
              bi_rows = be_nat (subslice 8 10 b), final_band = (b ! 3 = 0x81)\<rparr>
     \<and> 0 < bi_width bi \<and> 0 < bi_rows bi \<and> bi_width bi * channels m \<le> 65536
     \<and> bi_length bi \<le> MAX_BAND_BYTES
     \<and> bi_width bi * bi_rows bi * channels m \<le> bi_length bi
     \<and> bi_length bi \<le> bi_width bi * bi_rows bi * channels m + 16"
  (is "?l \<longleftrightarrow> ?r")
proof -
  let ?w = "be_nat (subslice 10 12 b)" and ?h = "be_nat (subslice 8 10 b)"
  have small: "be_nat (subslice 10 12 b) < 65536" "be_nat (subslice 8 10 b) < 65536"
  proof -
    have "le_nat xs < 65536" if "length xs \<le> 2" for xs
    proof -
      have "256 ^ length xs \<le> (256 :: nat) ^ 2" using that by (intro power_increasing) auto
      with le_nat_less [of xs] show ?thesis by simp
    qed
    then show "?w < 65536" "?h < 65536"
      by (simp_all add: be_nat_def)
  qed
  have wh: "?w * ?h \<le> 65536 * 65536"
    using small by (intro mult_le_mono) auto
  have "channels m \<le> 3" by (cases m) auto
  from mult_le_mono [OF wh this] have prod: "?w * ?h * channels m \<le> (65536 * 65536) * 3" .
  have "?w * ?h < 2 ^ 64"
    by (rule order.strict_trans1 [OF wh]) simp
  moreover have "?w * ?h * channels m < 2 ^ 64"
    by (rule order.strict_trans1 [OF prod]) simp
  ultimately have mul: "Option.bind (checked_mul64 ?w ?h) (\<lambda>v. checked_mul64 v (channels m))
      = Some (?w * ?h * channels m)"
    by (simp add: checked_mul64_def)
  show ?thesis
    by (auto simp: parse_band_def and_then_Inr_iff Let_def mul)
qed

text \<open>
  Accepted READ metadata bounds everything that is done with the band: at
  least one column and one row, at most 65536 bytes a row, at most 16 MiB in all, and at
  most 16 bytes of padding after the pixels; the 64-bit size computation cannot overflow.
\<close>

theorem parse_band_bounds:
  assumes "parse_band b m = Inr bi"
  shows "0 < bi_width bi \<and> 0 < bi_rows bi \<and> bi_width bi * channels m \<le> 65536
    \<and> bi_width bi < 2 ^ 16 \<and> bi_rows bi < 2 ^ 16
    \<and> bi_width bi * bi_rows bi * channels m \<le> bi_length bi
    \<and> bi_length bi \<le> bi_width bi * bi_rows bi * channels m + 16
    \<and> bi_length bi \<le> 16 * 1024 * 1024
    \<and> final_band bi = (b ! 3 = 0x81) \<and> response_status b True = Inr Good"
proof -
  have "le_nat xs < 2 ^ 16" if "length xs \<le> 2" for xs
  proof -
    have "256 ^ length xs \<le> (256 :: nat) ^ 2" using that by (intro power_increasing) auto
    with le_nat_less [of xs] show ?thesis by simp
  qed
  then have "be_nat (subslice i j b) < 2 ^ 16" if "j \<le> i + 2" for i j
    using that by (simp add: be_nat_def)
  with assms show ?thesis
    by (auto simp: parse_band_Inr_iff MAX_BAND_BYTES_def)
qed

definition sample_metadata :: bytes where
  "sample_metadata = [0xa8, 0, 29, 0x81, 0, 0, 0, 12, 0, 2, 0, 2] @ replicate 20 0"

definition sample_band_info :: band_info where
  "sample_band_info = \<lparr>bi_length = 12, bi_width = 2, bi_rows = 2, final_band = True\<rparr>"

lemma sample_metadata_parses: "parse_band sample_metadata Rgb = Inr sample_band_info"
  by (simp add: parse_band_Inr_iff sample_metadata_def sample_band_info_def response_status_def
      subslice_def be_nat_def MAX_BAND_BYTES_def)

lemma parse_band_bounds_witness:
  "parse_band sample_metadata Rgb = Inr sample_band_info
   \<and> bi_width sample_band_info * bi_rows sample_band_info * channels Rgb
       \<le> bi_length sample_band_info"
proof
  show "bi_width sample_band_info * bi_rows sample_band_info * channels Rgb
      \<le> bi_length sample_band_info"
    using parse_band_bounds [OF sample_metadata_parses] by (elim conjE)
qed (rule sample_metadata_parses)

section \<open>Decoding\<close>

text \<open>
  The reference for planar RGB: sample \<open>c\<close> of column \<open>x\<close> is byte \<open>c * w + x\<close> of
  the row on the wire, so output byte \<open>i\<close> is input byte \<open>planar w i\<close>.
\<close>

definition planar :: "nat \<Rightarrow> nat \<Rightarrow> nat" where
  "planar w i = (i mod 3) * w + i div 3"

lemma planar_at: "c < 3 \<Longrightarrow> planar w (k * 3 + c) = c * w + k"
  by (simp add: planar_def)

lemma reorder_prefix:
  assumes "length input = 3 * w" and "k \<le> w"
  shows "foldl (\<lambda>out x. foldl (\<lambda>out c. out[x * 3 + c := input ! (c * w + x)]) out [0..<3])
           input [0..<k]
       = map (\<lambda>i. if i < 3 * k then input ! planar w i else input ! i) [0..<3 * w]"
  using assms(2)
proof (induction k)
  case 0
  then show ?case using assms(1) by (simp add: map_nth [symmetric] list_eq_iff_nth_eq)
next
  case (Suc k)
  have three: "[0..<3] = [0, 1, 2 :: nat]" by (simp add: upt_rec)
  let ?out = "map (\<lambda>i. if i < 3 * k then input ! planar w i else input ! i) [0..<3 * w]"
  have "?out[k * 3 := input ! k, k * 3 + 1 := input ! (w + k), k * 3 + 2 := input ! (2 * w + k)]
      = map (\<lambda>i. if i < 3 * Suc k then input ! planar w i else input ! i) [0..<3 * w]"
    (is "?new = ?want")
  proof (rule nth_equalityI)
    fix i assume "i < length ?new"
    then have i: "i < 3 * w" by simp
    consider "i = k * 3 + 0" | "i = k * 3 + 1" | "i = k * 3 + 2" | "i < k * 3" | "k * 3 + 2 < i"
      by linarith
    then show "?new ! i = ?want ! i"
      using i planar_at [of 0 w k] planar_at [of 1 w k] planar_at [of 2 w k]
      by cases (simp_all add: nth_list_update)
  qed simp
  then show ?case
    using Suc by (simp add: three)
qed

lemma reorder_row_eq:
  assumes "length input = 3 * w"
  shows "reorder_row w input = map (\<lambda>i. input ! planar w i) [0..<3 * w]"
  using reorder_prefix [OF assms order_refl] by (simp add: reorder_row_def)

lemma planar_bij: "bij_betw (planar w) {0..<3 * w} {0..<3 * w}"
proof (rule bij_betw_byWitness [where f' = "\<lambda>j. (j mod w) * 3 + j div w"])
  show "\<forall>i \<in> {0..<3 * w}. (planar w i mod w) * 3 + planar w i div w = i"
  proof
    fix i assume "i \<in> {0..<3 * w}"
    then have "i div 3 < w" by auto
    then have "planar w i mod w = i div 3" "planar w i div w = i mod 3"
      by (simp_all add: planar_def)
    then show "(planar w i mod w) * 3 + planar w i div w = i"
      by (metis add.commute mod_mult_div_eq mult.commute)
  qed
  show "\<forall>j \<in> {0..<3 * w}. planar w ((j mod w) * 3 + j div w) = j"
  proof
    fix j assume j: "j \<in> {0..<3 * w}"
    then have "j div w < 3" by (simp add: less_mult_imp_div_less mult.commute)
    then have "((j mod w) * 3 + j div w) mod 3 = j div w" "((j mod w) * 3 + j div w) div 3 = j mod w"
      by simp_all
    then show "planar w ((j mod w) * 3 + j div w) = j"
      by (simp add: planar_def)
  qed
  show "planar w ` {0..<3 * w} \<subseteq> {0..<3 * w}"
  proof
    fix j assume "j \<in> planar w ` {0..<3 * w}"
    then obtain i where i: "i < 3 * w" "j = planar w i" by auto
    then have "i div 3 < w" by auto
    moreover have "i mod 3 \<le> 2" using mod_less_divisor [of 3 i] by linarith
    then have "(i mod 3) * w \<le> 2 * w" by (rule mult_le_mono1)
    ultimately have "planar w i < 3 * w"
      unfolding planar_def by linarith
    with i show "j \<in> {0..<3 * w}" by simp
  qed
  show "(\<lambda>j. (j mod w) * 3 + j div w) ` {0..<3 * w} \<subseteq> {0..<3 * w}"
  proof
    fix i assume "i \<in> (\<lambda>j. (j mod w) * 3 + j div w) ` {0..<3 * w}"
    then obtain j where j: "j < 3 * w" "i = (j mod w) * 3 + j div w" by auto
    then have "j div w < 3" by (simp add: less_mult_imp_div_less mult.commute)
    moreover have "j mod w < w" using j by (intro mod_less_divisor) auto
    ultimately have "(j mod w) * 3 + j div w < 3 * w" by linarith
    with j show "i \<in> {0..<3 * w}" by simp
  qed
qed

lemma mset_reorder_row:
  assumes "length input = 3 * w"
  shows "mset (reorder_row w input) = mset input"
proof -
  have "mset (reorder_row w input) = image_mset ((!) input) (image_mset (planar w) (mset_set {0..<3 * w}))"
    by (simp add: reorder_row_eq [OF assms] mset_map image_mset.compositionality comp_def
        flip: mset_upt)
  also have "image_mset (planar w) (mset_set {0..<3 * w}) = mset_set {0..<3 * w}"
    using planar_bij [of w] by (simp add: bij_betw_def image_mset_mset_set)
  also have "image_mset ((!) input) (mset_set {0..<3 * w}) = mset input"
    using assms by (metis map_nth mset_map mset_upt)
  finally show ?thesis .
qed

lemma rows_of_band:
  assumes "parse_band b Rgb = Inr bi" and "length raw = bi_length bi"
  shows "length (take (bi_width bi * bi_rows bi * 3) raw) = bi_rows bi * (bi_width bi * 3)"
    and "0 < bi_width bi * 3"
  using assms by (auto simp: parse_band_Inr_iff mult.assoc mult.left_commute)

lemma decode_length:
  assumes "parse_band b m = Inr bi" and "decode bi raw m lo = Inr px"
  shows "length raw = bi_length bi \<and> length px = bi_rows bi * bi_width bi * channels m"
proof (cases "m = Rgb \<and> lo = 1")
  case False
  then show ?thesis using assms
    by (auto simp: decode_def Let_def parse_band_Inr_iff mult.commute split: if_splits)
next
  case True
  let ?rows = "chunks_exact (bi_width bi * 3) (take (bi_width bi * bi_rows bi * 3) raw)"
  have raw: "length raw = bi_length bi" and px: "px = concat (map (reorder_row (bi_width bi)) ?rows)"
    using assms(2) True by (auto simp: decode_def Let_def split: if_splits)
  note size = rows_of_band [OF assms(1) [unfolded conjunct1 [OF True]] raw]
  note chunks = concat_chunks_exact [OF size]
  have "\<forall>row \<in> set (map (reorder_row (bi_width bi)) ?rows). length row = bi_width bi * 3"
    using chunks by (auto simp: reorder_row_eq mult.commute)
  from concat_length_rows [OF this] show ?thesis
    using raw px chunks True by (simp add: mult.assoc)
qed

text \<open>
  Property C25: once the metadata is accepted, a band of the announced length always
  decodes; grey samples and interleaved colour pass unchanged, and for planar colour the
  sample of row \<open>r\<close>, column \<open>x\<close>, channel \<open>c\<close> is the wire byte at
  \<open>r * 3w + c * w + x\<close>, whatever the contents.
\<close>

theorem decode_correct:
  assumes "parse_band b m = Inr bi" and "length raw = bi_length bi"
    and "m = Rgb \<longrightarrow> lo \<le> 1"
  shows "\<exists>pixels. decode bi raw m lo = Inr pixels
    \<and> length pixels = bi_rows bi * bi_width bi * channels m
    \<and> (\<forall>r x c. r < bi_rows bi \<longrightarrow> x < bi_width bi \<longrightarrow> c < channels m \<longrightarrow>
         pixels ! (r * (bi_width bi * channels m) + x * channels m + c) =
         (if m = Rgb \<and> lo = 1 then raw ! (r * (bi_width bi * 3) + c * bi_width bi + x)
          else raw ! (r * (bi_width bi * channels m) + x * channels m + c)))"
proof -
  let ?w = "bi_width bi" and ?h = "bi_rows bi"
  have room: "?w * ?h * channels m \<le> length raw"
    using assms(1,2) by (auto simp: parse_band_Inr_iff)
  have index: "r * (?w * n) + x * n + c < ?w * ?h * n" if "r < ?h" "x < ?w" "c < n" for r x c n
  proof -
    have "Suc x * n \<le> ?w * n" using that by (intro mult_le_mono1) simp
    then have "x * n + c < ?w * n" using that by simp
    moreover have "Suc r * (?w * n) \<le> ?h * (?w * n)" using that by (intro mult_le_mono1) simp
    ultimately show ?thesis by (simp add: algebra_simps)
  qed
  show ?thesis
  proof (cases "m = Rgb \<and> lo = 1")
    case False
    then have "decode bi raw m lo = Inr (take (?w * ?h * channels m) raw)"
      using assms by (auto simp: decode_def Let_def not_less)
    moreover have "length (take (?w * ?h * channels m) raw) = ?h * ?w * channels m"
      using room by (simp add: mult.commute)
    ultimately show ?thesis
      using False index by (intro exI [of _ "take (?w * ?h * channels m) raw"]) auto
  next
    case True
    let ?px = "take (?w * ?h * 3) raw"
    let ?rows = "chunks_exact (?w * 3) ?px"
    have px: "length ?px = ?h * (?w * 3)" "0 < ?w * 3"
      using rows_of_band [of b bi raw] assms(1,2) True by simp_all
    note chunks = concat_chunks_exact [OF px]
    have rows: "length row = 3 * ?w" if "row \<in> set ?rows" for row
      using chunks that by (simp add: mult.commute)
    have reordered: "\<forall>row \<in> set (map (reorder_row ?w) ?rows). length row = ?w * 3"
      using rows by (auto simp: reorder_row_eq)
    let ?out = "concat (map (reorder_row ?w) ?rows)"
    have "decode bi raw m lo = Inr ?out"
      using True assms by (simp add: decode_def Let_def)
    moreover have "length ?out = ?h * ?w * 3"
      using concat_length_rows [OF reordered] chunks by (simp add: mult.assoc)
    moreover have "?out ! (r * (?w * 3) + x * 3 + c) = raw ! (r * (?w * 3) + c * ?w + x)"
      if "r < ?h" "x < ?w" "c < 3" for r x c
    proof -
      have j: "x * 3 + c < ?w * 3" and cw: "c * ?w + x < ?w * 3"
        using that by (auto intro: two_digits_less)
      have at: "r * (?w * 3) + (c * ?w + x) < ?w * ?h * 3"
        using two_digits_less(1) [OF that(1) cw] by (metis mult.assoc mult.commute)
      have le: "r * (?w * 3) \<le> length ?px"
        unfolding px(1) using that(1) by (intro mult_le_mono1) simp
      have row: "?rows ! r = take (?w * 3) (drop (r * (?w * 3)) ?px)"
        using px that by (intro chunks_exact_nth) auto
      have "?out ! (r * (?w * 3) + (x * 3 + c)) = reorder_row ?w (?rows ! r) ! (x * 3 + c)"
        using concat_nth [OF reordered, of r "x * 3 + c"] chunks that j by simp
      also have "\<dots> = (?rows ! r) ! (c * ?w + x)"
        using rows [of "?rows ! r"] chunks that j planar_at [of c ?w x]
        by (simp add: reorder_row_eq mult.commute)
      also have "\<dots> = raw ! (r * (?w * 3) + (c * ?w + x))"
        by (simp add: row cw at nth_drop [OF le])
      finally show ?thesis by (simp add: add.assoc)
    qed
    ultimately show ?thesis using True by auto
  qed
qed

definition sample_raw :: bytes where
  "sample_raw = [1, 2, 11, 12, 21, 22, 3, 4, 13, 14, 23, 24]"

lemma decode_correct_witness:
  "\<exists>pixels. decode sample_band_info sample_raw Rgb 1 = Inr pixels \<and> length pixels = 12
     \<and> pixels ! (1 * (2 * 3) + 1 * 3 + 2) = sample_raw ! (1 * (2 * 3) + 2 * 2 + 1)"
proof -
  have len: "length sample_raw = bi_length sample_band_info"
    by (simp add: sample_raw_def sample_band_info_def)
  obtain pixels where px: "decode sample_band_info sample_raw Rgb 1 = Inr pixels"
    "length pixels = bi_rows sample_band_info * bi_width sample_band_info * channels Rgb"
    "\<forall>r x c. r < bi_rows sample_band_info \<longrightarrow> x < bi_width sample_band_info \<longrightarrow> c < channels Rgb \<longrightarrow>
         pixels ! (r * (bi_width sample_band_info * channels Rgb) + x * channels Rgb + c) =
         sample_raw ! (r * (bi_width sample_band_info * 3) + c * bi_width sample_band_info + x)"
    using decode_correct [OF sample_metadata_parses len, of 1] by auto
  have "pixels ! (1 * (2 * 3) + 1 * 3 + 2) = sample_raw ! (1 * (2 * 3) + 2 * 2 + 1)"
    using px(3) [rule_format, of 1 1 2] by (simp add: sample_band_info_def)
  with px(1,2) show ?thesis by (auto simp: sample_band_info_def)
qed

text \<open>
  Decoding only moves samples: the pixels of a decoded band are, as a
  multiset, exactly the bytes before the trailing padding.
\<close>

theorem decode_mset:
  assumes "parse_band b m = Inr bi" and "decode bi raw m lo = Inr pixels"
  shows "mset pixels = mset (take (bi_width bi * bi_rows bi * channels m) raw)"
proof (cases "m = Rgb \<and> lo = 1")
  case False
  then show ?thesis using assms(2) by (auto simp: decode_def Let_def split: if_splits)
next
  case True
  then have len: "length raw = bi_length bi"
    and pixels: "pixels = concat (map (reorder_row (bi_width bi))
      (chunks_exact (bi_width bi * 3) (take (bi_width bi * bi_rows bi * 3) raw)))"
    using assms(2) by (auto simp: decode_def Let_def split: if_splits)
  have band: "parse_band b Rgb = Inr bi" using assms(1) True by simp
  note chunks = concat_chunks_exact [OF rows_of_band [OF band len]]
  let ?rows = "chunks_exact (bi_width bi * 3) (take (bi_width bi * bi_rows bi * 3) raw)"
  have "mset (concat (map (reorder_row (bi_width bi)) rows)) = mset (concat rows)"
    if "set rows \<subseteq> set ?rows" for rows
    using that chunks by (induction rows) (auto simp: mset_reorder_row mult.commute)
  then show ?thesis
    using chunks True by (simp add: pixels)
qed

lemma decode_mset_witness:
  "\<exists>pixels. decode sample_band_info sample_raw Rgb 0 = Inr pixels \<and> mset pixels = mset sample_raw"
proof -
  have "decode sample_band_info sample_raw Rgb 0 = Inr sample_raw"
    by (simp add: decode_def sample_raw_def sample_band_info_def)
  from this decode_mset [OF sample_metadata_parses this] show ?thesis
    by (simp add: sample_raw_def sample_band_info_def)
qed

end
