(* ===== verification/Scan_Job.thy ===== *)
theory Scan_Job
  imports Scan_Wire
begin

unbundle bit_operations_syntax

text \<open>
  The scan job of \<open>src/scan.rs\<close>. What the job does not own is a parameter: an
  environment \<open>env\<close> over an arbitrary world \<open>'w\<close> gives the USB transport, the
  monotonic clock, the cancellation flag, \<open>thread::sleep\<close>, the caller's image sink and
  its request preparation, each as a function that may change the world. The job's own
  state is the record \<open>job\<close>: the world, the diagnostics, the USB metrics and the flag
  that says the reply stream is synchronised. Instants and durations are nanoseconds.

  The only loop without a structural bound is the wait for a busy device. It takes fuel,
  and \<open>None\<close> says that the fuel ran out; the other loops end by themselves.
  Counters of type \<open>u32\<close> and \<open>u64\<close> are numbers with their saturation or overflow
  test written out. \<open>usb_read\<close> yields the bytes received; a transport that claims more
  bytes than the buffer holds shows as a list longer than the capacity it was given.
\<close>

section \<open>Data\<close>

record image_band =
  ib_width :: nat
  ib_rows :: nat
  ib_mode :: color_mode
  pixels :: bytes
  wire_data :: bytes

record scan_summary =
  sm_width :: nat
  sm_height :: nat
  sm_bands :: nat
  sm_bytes :: nat

datatype session_health = Ready | NeedsReconnect

record usb_profile =
  read_calls :: nat
  write_calls :: nat
  read_time :: nat
  write_time :: nat

record scan_profile =
  stages :: "string \<rightharpoonup> nat"
  usb :: usb_profile
  profile_buffer_bytes :: nat
  usb_read_limit :: "nat option"
  profile_busy_replies :: nat
  busy_sleep :: nat
  total :: nat

record scan_tuning =
  tuning_poll_interval :: nat
  tuning_buffer_bytes :: nat

definition millis :: "nat \<Rightarrow> nat" where "millis n = n * 1000000"

definition seconds :: "nat \<Rightarrow> nat" where "seconds n = n * 1000000000"

definition default_tuning :: scan_tuning where
  "default_tuning = \<lparr>tuning_poll_interval = millis 100, tuning_buffer_bytes = 65536\<rparr>"

definition tuning_of_duration :: "nat \<Rightarrow> scan_tuning" where
  "tuning_of_duration d = default_tuning\<lparr>tuning_poll_interval := d\<rparr>"

definition empty_usb_profile :: usb_profile where
  "empty_usb_profile = \<lparr>read_calls = 0, write_calls = 0, read_time = 0, write_time = 0\<rparr>"

definition default_profile :: scan_profile where
  "default_profile = \<lparr>stages = Map.empty, usb = empty_usb_profile, profile_buffer_bytes = 0,
     usb_read_limit = None, profile_busy_replies = 0, busy_sleep = 0, total = 0\<rparr>"

definition invalid_input :: "string \<Rightarrow> io_error" where
  "invalid_input m = Custom InvalidInput (Message (Lit m))"

definition validate_poll_interval :: "nat \<Rightarrow> unit io" where
  "validate_poll_interval interval =
     fail_if (\<not> (millis 1 \<le> interval \<and> interval \<le> millis 1000))
       (invalid_input ''READ poll interval must be within 1..=1000 ms'')"

definition validate_tuning :: "scan_tuning \<Rightarrow> unit io" where
  "validate_tuning t =
     and_then (validate_poll_interval (tuning_poll_interval t)) (\<lambda>_.
     fail_if (\<not> (1024 \<le> tuning_buffer_bytes t \<and> tuning_buffer_bytes t \<le> 1024 * 1024)
              \<or> tuning_buffer_bytes t mod 1024 \<noteq> 0)
       (invalid_input ''Read buffer must be a multiple of 1024 bytes within 1 KiB..=1 MiB''))"

definition validate_read_buffer_limit :: "nat \<Rightarrow> nat \<Rightarrow> unit io" where
  "validate_read_buffer_limit requested limit =
     fail_if (requested > limit)
       (Custom InvalidInput (Message (Fmt [Lit ''Read buffer '', Num (int requested),
          Lit '' exceeds the WinUSB pipe limit '', Num (int limit)])))"

definition record_read_buffer_limit ::
    "scan_profile \<Rightarrow> nat \<Rightarrow> nat \<Rightarrow> unit io \<times> scan_profile" where
  "record_read_buffer_limit p requested limit =
     (let p = p\<lparr>profile_buffer_bytes := requested, usb_read_limit := Some limit\<rparr>
      in (validate_read_buffer_limit requested limit, p))"

section \<open>Diagnostics\<close>

datatype scan_stage =
    Inquiry | Prepare | Reserve | SetWindow | Start | ReadMetadata | ReadImage | Decode
  | Consumer | Cleanup

fun stage_name :: "scan_stage \<Rightarrow> string" where
  "stage_name Inquiry = ''inquiry''"
| "stage_name Prepare = ''prepare''"
| "stage_name Reserve = ''reserve''"
| "stage_name SetWindow = ''set-window''"
| "stage_name Start = ''start''"
| "stage_name ReadMetadata = ''read-metadata''"
| "stage_name ReadImage = ''read-image''"
| "stage_name Decode = ''decode''"
| "stage_name Consumer = ''consumer''"
| "stage_name Cleanup = ''cleanup''"

record diagnostics =
  started :: nat
  stage :: scan_stage
  completed_bands :: nat
  pixel_bytes :: nat
  opcode :: "u8 option"
  busy_replies :: nat
  last_busy_status :: "u8 option"
  last_busy_state :: "u16 option"
  stage_started :: nat
  profile :: scan_profile
  read_poll_interval :: nat
  read_buffer_bytes :: nat

text \<open>The arguments are the two readings of the clock.\<close>

definition new_diagnostics :: "nat \<Rightarrow> nat \<Rightarrow> diagnostics" where
  "new_diagnostics t0 t1 = \<lparr>started = t0, stage = Inquiry, completed_bands = 0,
     pixel_bytes = 0, opcode = None, busy_replies = 0, last_busy_status = None,
     last_busy_state = None, stage_started = t1, profile = default_profile,
     read_poll_interval = millis 100, read_buffer_bytes = 65536\<rparr>"

definition enter_stage :: "scan_stage \<Rightarrow> nat \<Rightarrow> diagnostics \<Rightarrow> diagnostics" where
  "enter_stage st t d =
     (let p = profile d;
          name = stage_name (stage d);
          spent = (case stages p name of None \<Rightarrow> 0 | Some v \<Rightarrow> v) + (t - stage_started d)
      in d\<lparr>profile := p\<lparr>stages := (stages p)(name \<mapsto> spent)\<rparr>, stage_started := t, stage := st\<rparr>)"

definition record_band :: "nat \<Rightarrow> nat \<Rightarrow> diagnostics \<Rightarrow> diagnostics" where
  "record_band n b d = d\<lparr>completed_bands := n, pixel_bytes := b\<rparr>"

definition set_opcode :: "u8 \<Rightarrow> diagnostics \<Rightarrow> diagnostics" where
  "set_opcode op d = d\<lparr>opcode := Some op, busy_replies := 0, last_busy_status := None,
     last_busy_state := None\<rparr>"

definition saturating_inc :: "nat \<Rightarrow> nat \<Rightarrow> nat" where
  "saturating_inc bits n = (if n < 2 ^ bits - 1 then n + 1 else n)"

definition get :: "'a list \<Rightarrow> nat \<Rightarrow> 'a option" where
  "get xs i = (if i < length xs then Some (xs ! i) else None)"

definition record_busy_reply :: "u8 \<Rightarrow> bytes \<Rightarrow> bool \<Rightarrow> diagnostics \<Rightarrow> diagnostics" where
  "record_busy_reply op reply read d =
     (case get reply 1 of
        None \<Rightarrow> d
      | Some status \<Rightarrow>
          if \<not> (status = 2 \<or> status = 8) then d
          else
            let p = profile d;
                off = (if read then 12 else 4);
                state = (if status = 2 \<and> get reply 3 = Some 0x20
                  then (case (get reply off, get reply (off + 1)) of
                          (Some hi, Some lo) \<Rightarrow> Some (be_u16 hi lo) | _ \<Rightarrow> None)
                  else None)
            in d\<lparr>opcode := Some op,
                 busy_replies := saturating_inc 32 (busy_replies d),
                 profile := p\<lparr>profile_busy_replies := saturating_inc 64 (profile_busy_replies p)\<rparr>,
                 last_busy_status := Some status,
                 last_busy_state := state\<rparr>)"

section \<open>The environment and the job state\<close>

record 'w env =
  usb_write :: "bytes \<Rightarrow> 'w \<Rightarrow> unit io \<times> 'w"
  usb_read :: "nat \<Rightarrow> 'w \<Rightarrow> bytes io \<times> 'w"
  clock :: "'w \<Rightarrow> nat \<times> 'w"
  cancel_flag :: "'w \<Rightarrow> bool \<times> 'w"
  thread_sleep :: "nat \<Rightarrow> 'w \<Rightarrow> 'w"
  sink :: "image_band \<Rightarrow> 'w \<Rightarrow> unit io outcome \<times> 'w"
  prepare :: "bytes \<Rightarrow> 'w \<Rightarrow> scan_request io outcome \<times> 'w"

record 'w job =
  world :: 'w
  diag :: diagnostics
  synchronized :: bool
  metrics :: usb_profile

definition on_world :: "('w \<Rightarrow> 'a \<times> 'w) \<Rightarrow> 'w job \<Rightarrow> 'a \<times> 'w job" where
  "on_world f s = (let (a, w) = f (world s) in (a, s\<lparr>world := w\<rparr>))"

definition on_diag :: "(diagnostics \<Rightarrow> diagnostics) \<Rightarrow> 'w job \<Rightarrow> 'w job" where
  "on_diag f s = s\<lparr>diag := f (diag s)\<rparr>"

definition now :: "'w env \<Rightarrow> 'w job \<Rightarrow> nat \<times> 'w job" where
  "now e s = on_world (clock e) s"

definition cancelled :: "'w env \<Rightarrow> 'w job \<Rightarrow> bool \<times> 'w job" where
  "cancelled e s = on_world (cancel_flag e) s"

definition set_stage :: "'w env \<Rightarrow> scan_stage \<Rightarrow> 'w job \<Rightarrow> 'w job" where
  "set_stage e st s = (let (t, s) = now e s in on_diag (enter_stage st t) s)"

definition opt_hex :: "nat \<Rightarrow> int option \<Rightarrow> message" where
  "opt_hex width n = (case n of None \<Rightarrow> Lit ''unknown'' | Some i \<Rightarrow> Fmt [Lit ''0x'', Hex width i])"

definition context_of :: "diagnostics \<Rightarrow> nat \<Rightarrow> message \<Rightarrow> message" where
  "context_of d elapsed detail =
     Fmt [Lit ''stage='', Lit (stage_name (stage d)),
          Lit '' elapsed_ms='', Num (int (elapsed div millis 1)),
          Lit '' completed_bands='', Num (int (completed_bands d)),
          Lit '' pixel_bytes='', Num (int (pixel_bytes d)),
          Lit '' opcode='', opt_hex 2 (map_option uint (opcode d)),
          Lit '' last_busy_status='', opt_hex 2 (map_option uint (last_busy_status d)),
          Lit '' last_busy_state='', opt_hex 4 (map_option uint (last_busy_state d)),
          Lit '' busy_replies='', Num (int (busy_replies d)),
          (if detail = Lit [] then Lit [] else Fmt [Lit '' '', detail])]"

definition diag_error :: "'w env \<Rightarrow> io_error \<Rightarrow> message \<Rightarrow> 'w job \<Rightarrow> io_error \<times> 'w job" where
  "diag_error e er detail s =
     (let (t, s) = now e s
      in (Custom (kind er) (DiagnosticError er
            (context_of (diag s) (t - started (diag s)) detail)), s))"

fun is_host_cancelled :: "io_error \<Rightarrow> bool" where
  "is_host_cancelled (Custom k HostCancelled) = True"
| "is_host_cancelled (Custom k (DiagnosticError original c)) = is_host_cancelled original"
| "is_host_cancelled _ = False"

definition host_cancelled :: io_error where
  "host_cancelled = Custom Interrupted HostCancelled"

text \<open>\<open>TimedTransport\<close>: every call is timed and counted, failed ones included.\<close>

definition timed_write :: "'w env \<Rightarrow> bytes \<Rightarrow> 'w job \<Rightarrow> unit io \<times> 'w job" where
  "timed_write e bs s =
     (let (t0, s) = now e s;
          (r, s) = on_world (usb_write e bs) s;
          (t1, s) = now e s;
          m = metrics s
      in (r, s\<lparr>metrics := m\<lparr>write_time := write_time m + (t1 - t0),
                            write_calls := saturating_inc 64 (write_calls m)\<rparr>\<rparr>))"

definition timed_read :: "'w env \<Rightarrow> nat \<Rightarrow> 'w job \<Rightarrow> bytes io \<times> 'w job" where
  "timed_read e cap s =
     (let (t0, s) = now e s;
          (r, s) = on_world (usb_read e cap) s;
          (t1, s) = now e s;
          m = metrics s
      in (r, s\<lparr>metrics := m\<lparr>read_time := read_time m + (t1 - t0),
                            read_calls := saturating_inc 64 (read_calls m)\<rparr>\<rparr>))"

section \<open>Checkpoints\<close>

definition busy_poll_interval :: "u8 \<Rightarrow> nat \<Rightarrow> nat" where
  "busy_poll_interval op read_interval = (if op = 0x28 then read_interval else millis 100)"

definition timed_out :: "string \<Rightarrow> io_error" where
  "timed_out m = Custom TimedOut (Message (Lit m))"

definition checkpoint_deadline :: "'w env \<Rightarrow> nat \<Rightarrow> 'w job \<Rightarrow> unit io \<times> 'w job" where
  "checkpoint_deadline e deadline s =
     (let (t, s) = now e s
      in (if t \<ge> deadline then Inl (timed_out ''Scan exceeded 120 second deadline'') else Inr (), s))"

definition checkpoint :: "'w env \<Rightarrow> nat \<Rightarrow> 'w job \<Rightarrow> unit io \<times> 'w job" where
  "checkpoint e deadline s =
     (case cancelled e s of
        (True, s) \<Rightarrow> (Inl host_cancelled, s)
      | (False, s) \<Rightarrow> checkpoint_deadline e deadline s)"

section \<open>One command and its reply\<close>

definition plain_command :: "u8 \<Rightarrow> bytes" where
  "plain_command op = [0x1b, 0xa8, op, 0]"

definition command_context :: "bytes \<Rightarrow> io_error \<Rightarrow> io_error" where
  "command_context cmd er = Custom (kind er) (Message
     (Fmt [Lit ''Command 0x'', Hex 2 (uint (cmd ! 2)), Lit '': '', Shown er]))"

definition expected_message :: "u8 \<Rightarrow> u8 \<Rightarrow> bool" where
  "expected_message op msg \<longleftrightarrow>
     (if op = 0x12 then msg = 0x10
      else if op = 0x28 then msg = 0x20 \<or> msg = 0x80 \<or> msg = 0x81
      else if op = 0x24 then msg = 0 \<or> msg = 0x20 \<or> msg = 0x30
      else msg = 0 \<or> msg = 0x20)"

definition check_reply :: "bytes \<Rightarrow> bytes \<Rightarrow> bytes io" where
  "check_reply cmd b =
     (let n = length b;
          advertised = map_option (\<lambda>l. unat l + 3) (get b 2)
      in if n < 32 \<or> get b 0 \<noteq> Some 0xa8 \<or> advertised \<noteq> Some n
         then Inl (Custom InvalidData (Message (Fmt [Lit ''Command 0x'', Hex 2 (uint (cmd ! 2)),
                Lit '': malformed reply received='', Num (int n),
                Lit '' expected_framing=header(0xa8)+length+3 expected_length='',
                (case advertised of None \<Rightarrow> Lit ''unavailable'' | Some l \<Rightarrow> Num (int l)),
                Lit ''; stream synchronization lost''])))
         else if \<not> expected_message (cmd ! 2) (b ! 3)
         then Inl (Custom InvalidData (Message (Fmt [Lit ''Command 0x'', Hex 2 (uint (cmd ! 2)),
                Lit '': unrelated reply message 0x'', Hex 2 (uint (b ! 3)),
                Lit ''; stream synchronization lost''])))
         else Inr b)"

definition exchange :: "'w env \<Rightarrow> bytes \<Rightarrow> 'w job \<Rightarrow> bytes io \<times> 'w job" where
  "exchange e cmd s =
     (let s = s\<lparr>synchronized := False\<rparr> in
      case timed_write e cmd s of
        (Inl er, s) \<Rightarrow> (Inl (command_context cmd er), s)
      | (Inr _, s) \<Rightarrow>
          (case timed_read e 1024 s of
             (Inl er, s) \<Rightarrow> (Inl (command_context cmd er), s)
           | (Inr b, s) \<Rightarrow>
               if length b > 1024 then (Inl (invalid ''Response exceeds receive buffer''), s)
               else (case check_reply cmd b of
                       Inl er \<Rightarrow> (Inl er, s)
                     | Inr b \<Rightarrow> (Inr b, s\<lparr>synchronized := True\<rparr>))))"

text \<open>
  \<open>ready_with_attempt\<close>: the boolean beside the result is its \<open>attempted\<close> output,
  \<open>stoppable\<close> says whether a cancellation flag was passed.
\<close>

definition busy_pause :: "'w env \<Rightarrow> u8 \<Rightarrow> 'w job \<Rightarrow> 'w job" where
  "busy_pause e op s =
     (let (t0, s) = now e s;
          s = s\<lparr>world := thread_sleep e
                 (busy_poll_interval op (read_poll_interval (diag s))) (world s)\<rparr>;
          (t1, s) = now e s
      in on_diag (\<lambda>d. d\<lparr>profile := (profile d)
           \<lparr>busy_sleep := busy_sleep (profile d) + (t1 - t0)\<rparr>\<rparr>) s)"

fun ready_loop ::
    "nat \<Rightarrow> 'w env \<Rightarrow> u8 \<Rightarrow> bool \<Rightarrow> nat \<Rightarrow> bool \<Rightarrow> 'w job \<Rightarrow> ((bytes io \<times> bool) \<times> 'w job) option" where
  "ready_loop 0 e op stoppable deadline attempted s = None"
| "ready_loop (Suc fuel) e op stoppable deadline attempted s =
     (case (if stoppable then checkpoint e deadline s else checkpoint_deadline e deadline s) of
        (Inl er, s) \<Rightarrow> Some ((Inl er, attempted), s)
      | (Inr _, s) \<Rightarrow>
          (case exchange e (plain_command op) s of
             (Inl er, s) \<Rightarrow> Some ((Inl er, True), s)
           | (Inr b, s) \<Rightarrow>
               (case response_status b (op = 0x28) of
                  Inl er \<Rightarrow> Some ((Inl er, True), s)
                | Inr Good \<Rightarrow> Some ((Inr b, True), s)
                | Inr Busy \<Rightarrow>
                    ready_loop fuel e op stoppable deadline True
                      (busy_pause e op (on_diag (record_busy_reply op b (op = 0x28)) s)))))"

definition ready_with_attempt ::
    "nat \<Rightarrow> 'w env \<Rightarrow> u8 \<Rightarrow> bool \<Rightarrow> nat \<Rightarrow> 'w job \<Rightarrow> ((bytes io \<times> bool) \<times> 'w job) option" where
  "ready_with_attempt fuel e op stoppable deadline s =
     ready_loop fuel e op stoppable deadline False (on_diag (set_opcode op) s)"

definition ready :: "nat \<Rightarrow> 'w env \<Rightarrow> u8 \<Rightarrow> nat \<Rightarrow> 'w job \<Rightarrow> (bytes io \<times> 'w job) option" where
  "ready fuel e op deadline s =
     map_option (\<lambda>((r, _), s). (r, s)) (ready_with_attempt fuel e op True deadline s)"

section \<open>Cleanup\<close>

fun join_messages :: "message list \<Rightarrow> message list" where
  "join_messages [] = []"
| "join_messages [m] = [m]"
| "join_messages (m # ms) = m # Lit ''; '' # join_messages ms"

definition cleanup_result :: "bytes io \<Rightarrow> unit io" where
  "cleanup_result r =
     and_then r (\<lambda>b. and_then (response_status b False) (\<lambda>st.
       case st of Good \<Rightarrow> Inr () | Busy \<Rightarrow> Inl (io_other (Lit ''Cleanup command is busy''))))"

fun finish_loop :: "'w env \<Rightarrow> u8 list \<Rightarrow> message list \<Rightarrow> 'w job \<Rightarrow> message list \<times> 'w job" where
  "finish_loop e [] errors s = (errors, s)"
| "finish_loop e (op # ops) errors s =
     (let s = on_diag (set_opcode op) s;
          (r, s) = exchange e (plain_command op) s;
          errors = (case cleanup_result r of Inl er \<Rightarrow> errors @ [Shown er] | Inr _ \<Rightarrow> errors)
      in if \<not> synchronized s then (errors, s) else finish_loop e ops errors s)"

definition finish :: "'w env \<Rightarrow> bool \<Rightarrow> 'w job \<Rightarrow> unit io \<times> 'w job" where
  "finish e abort s =
     (if \<not> synchronized s
      then (Inl (io_other (Lit ''USB reply stream is uncertain; reconnect scanner before another job'')), s)
      else
        let (errors, s) = finish_loop e (if abort then [0x06, 0x17] else [0x17]) [] s
        in if errors = [] then (Inr (), s)
           else (Inl (io_other (Fmt (Lit ''Cleanup unconfirmed: '' # join_messages errors
                  @ [Lit ''; reconnect scanner'']))), s))"

section \<open>Reading one band\<close>

text \<open>
  The \<open>failed\<close> closure: a failure while draining keeps the kind and the text of the
  cause. Both elapsed times read the clock, the progress time first.
\<close>

definition progress_detail :: "nat \<Rightarrow> nat \<Rightarrow> nat \<Rightarrow> message" where
  "progress_detail received len elapsed =
     Fmt [Lit ''received='', Num (int received), Lit ''/'', Num (int len),
          Lit '' since_progress_ms='', Num (int (elapsed div millis 1))]"

definition progress_error ::
    "'w env \<Rightarrow> io_error \<Rightarrow> nat \<Rightarrow> nat \<Rightarrow> nat \<Rightarrow> 'w job \<Rightarrow> io_error \<times> 'w job" where
  "progress_error e er received len last_progress s =
     (let (t, s) = now e s
      in diag_error e er (progress_detail received len (t - last_progress)) s)"

definition drain_error :: "io_error option \<Rightarrow> io_error \<Rightarrow> io_error" where
  "drain_error original er =
     (case original of
        None \<Rightarrow> er
      | Some o' \<Rightarrow> Custom (kind o') (Message
          (Fmt [Shown o', Lit ''; image drain failed: '', Shown er])))"

definition read_capacity :: "nat \<Rightarrow> nat \<Rightarrow> nat" where
  "read_capacity remaining buffer = min (((remaining + 1023) div 1024) * 1024) buffer"

definition observe_failure ::
    "'w env \<Rightarrow> nat \<Rightarrow> io_error option \<Rightarrow> 'w job \<Rightarrow> io_error option \<times> 'w job" where
  "observe_failure e deadline failure s =
     (case failure of
        Some er \<Rightarrow> (Some er, s)
      | None \<Rightarrow> (case checkpoint e deadline s of
                   (Inl er, s) \<Rightarrow> (Some er, s)
                 | (Inr _, s) \<Rightarrow> (None, s)))"

definition start_drain ::
    "'w env \<Rightarrow> io_error option \<Rightarrow> nat option \<Rightarrow> 'w job \<Rightarrow> nat option \<times> 'w job" where
  "start_drain e failure drain s =
     (if failure \<noteq> None \<and> drain = None
      then let (t, s) = now e s in (Some (t + seconds 10), s)
      else (drain, s))"

definition drain_expired :: "'w env \<Rightarrow> nat option \<Rightarrow> 'w job \<Rightarrow> bool \<times> 'w job" where
  "drain_expired e drain s =
     (case drain of
        None \<Rightarrow> (False, s)
      | Some stop \<Rightarrow> let (t, s) = now e s in (t \<ge> stop, s))"

definition fail_read ::
    "'w env \<Rightarrow> io_error option \<Rightarrow> io_error \<Rightarrow> bytes \<Rightarrow> nat \<Rightarrow> nat \<Rightarrow> 'w job \<Rightarrow>
     (bytes \<times> io_error option \<times> nat) io \<times> 'w job" where
  "fail_read e failure er raw len last_progress s =
     (let (er', s) = progress_error e (drain_error failure er) (length raw) len last_progress s
      in (Inl er', s))"

function read_loop ::
    "'w env \<Rightarrow> nat \<Rightarrow> nat \<Rightarrow> bytes \<Rightarrow> io_error option \<Rightarrow> nat option \<Rightarrow> nat \<Rightarrow> nat \<Rightarrow> 'w job \<Rightarrow>
     (bytes \<times> io_error option \<times> nat) io \<times> 'w job" where
  "read_loop e len deadline raw failure drain empty_reads last_progress s =
     (if length raw \<ge> len then (Inr (raw, failure, last_progress), s)
      else
        let (failure, s) = observe_failure e deadline failure s;
            (drain, s) = start_drain e failure drain s;
            (expired, s) = drain_expired e drain s
        in if expired then
             fail_read e failure
               (timed_out ''Image drain exceeded 10 seconds; stream synchronization lost'')
               raw len last_progress s
           else
             let remaining = len - length raw;
                 capacity = read_capacity remaining (read_buffer_bytes (diag s))
             in case timed_read e capacity s of
                  (Inl er, s) \<Rightarrow> fail_read e failure er raw len last_progress s
                | (Inr chunk, s) \<Rightarrow>
                    if length chunk > capacity \<or> length chunk > remaining then
                      fail_read e failure
                        (invalid ''Image read exceeded advertised band length; stream synchronization lost'')
                        raw len last_progress s
                    else if chunk = [] then
                      let empty_reads = empty_reads + 1;
                          failure = (case failure of
                              None \<Rightarrow> Some (invalid ''Image read made no progress'')
                            | Some er \<Rightarrow> Some er)
                      in if empty_reads \<ge> 2 then
                           fail_read e failure
                             (invalid ''Image drain made no progress twice; stream synchronization lost'')
                             raw len last_progress s
                         else read_loop e len deadline raw failure drain empty_reads last_progress s
                    else
                      let (t, s) = now e s
                      in read_loop e len deadline (raw @ chunk) failure drain empty_reads t s)"
  by pat_completeness auto
termination
  by (relation "measure (\<lambda>(e, len, deadline, raw, failure, drain, empty_reads, last, s).
    (len - length raw) + (2 - empty_reads))") (auto simp: neq_Nil_conv)

declare read_loop.simps [simp del]

definition read_image_band ::
    "'w env \<Rightarrow> nat \<Rightarrow> nat \<Rightarrow> 'w job \<Rightarrow> bytes io \<times> 'w job" where
  "read_image_band e len deadline s =
     (let s = set_stage e ReadImage s;
          s = s\<lparr>synchronized := False\<rparr>;
          (t, s) = now e s
      in case read_loop e len deadline [] None None 0 t s of
           (Inl er, s) \<Rightarrow> (Inl er, s)
         | (Inr (raw, failure, last_progress), s) \<Rightarrow>
             let s = s\<lparr>synchronized := True\<rparr>
             in case failure of
                  Some er \<Rightarrow> (case progress_error e er (length raw) len last_progress s of
                      (er', s) \<Rightarrow> (Inl er', s))
                | None \<Rightarrow>
                    (case checkpoint e deadline s of
                       (Inl er, s) \<Rightarrow> (case progress_error e er (length raw) len last_progress s of
                           (er', s) \<Rightarrow> (Inl er', s))
                     | (Inr _, s) \<Rightarrow> (Inr raw, s)))"

section \<open>The job\<close>

text \<open>
  The body of the band loop comes in two pieces: \<open>read_band\<close> obtains one band from the
  device, up to its decoding; \<open>deliver_band\<close> hands it to the sink and updates the
  summary. The flag beside the first result is
  \<open>first_metadata_failed_after_deferred_cancel\<close>.
\<close>

definition MAX_JOB_BYTES :: nat where
  "MAX_JOB_BYTES = 256 * 1024 * 1024"

definition over_limits :: "scan_summary \<Rightarrow> band_info \<Rightarrow> bool" where
  "over_limits sm band \<longleftrightarrow>
     sm_bands sm \<ge> 4096
     \<or> (case checked_add64 (sm_bytes sm) (bi_length band) of
          None \<Rightarrow> True | Some n \<Rightarrow> n > MAX_JOB_BYTES)
     \<or> (sm_width sm \<noteq> 0 \<and> sm_width sm \<noteq> bi_width band)"

definition fail_job ::
    "'w env \<Rightarrow> io_error \<Rightarrow> string \<Rightarrow> 'w job \<Rightarrow> 'a io \<times> 'w job" where
  "fail_job e er detail s = (let (er', s) = diag_error e er (Lit detail) s in (Inl er', s))"

definition take_image ::
    "'w env \<Rightarrow> nat \<Rightarrow> scan_request \<Rightarrow> capabilities \<Rightarrow> scan_summary \<Rightarrow> band_info \<Rightarrow> 'w job \<Rightarrow>
     (image_band \<times> nat \<times> nat) io \<times> 'w job" where
  "take_image e deadline request caps sm band s =
     (if over_limits sm band
      then fail_job e (invalid ''Image exceeds job limits or changes width between bands'')
             ''band limits'' s
      else
        let s = s\<lparr>synchronized := False\<rparr>;
            s = set_stage e ReadImage s;
            s = on_diag (set_opcode 0x29) s
        in case timed_write e (plain_command 0x29) s of
             (Inl er, s) \<Rightarrow> fail_job e er ''READ image'' s
           | (Inr _, s) \<Rightarrow>
               (case read_image_band e (bi_length band) deadline s of
                  (Inl er, s) \<Rightarrow> (Inl er, s)
                | (Inr raw, s) \<Rightarrow>
                    let s = set_stage e Decode s
                    in case decode band raw (mode request) (line_order caps) of
                         Inl er \<Rightarrow> fail_job e er ''image decode'' s
                       | Inr px \<Rightarrow>
                           if sm_height sm + bi_rows band \<ge> 2 ^ 32
                           then fail_job e (invalid ''Image height overflow'') ''image decode'' s
                           else if checked_add64 (sm_bytes sm) (length px) = None
                           then fail_job e (invalid ''Image pixel byte count overflow'') ''image decode'' s
                           else (Inr (\<lparr>ib_width = bi_width band, ib_rows = bi_rows band,
                                       ib_mode = mode request, pixels = px, wire_data = raw\<rparr>,
                                      sm_height sm + bi_rows band, sm_bytes sm + length px), s)))"

definition read_band ::
    "nat \<Rightarrow> 'w env \<Rightarrow> nat \<Rightarrow> scan_request \<Rightarrow> capabilities \<Rightarrow> scan_summary \<Rightarrow> 'w job \<Rightarrow>
     (((band_info \<times> image_band \<times> nat \<times> nat) io \<times> bool) \<times> 'w job) option" where
  "read_band fuel e deadline request caps sm s =
     (case ready_with_attempt fuel e 0x28 (sm_bands sm \<noteq> 0) deadline (set_stage e ReadMetadata s) of
        None \<Rightarrow> None
      | Some ((Inl er, _), s) \<Rightarrow>
          (case (if sm_bands sm = 0 then cancelled e s else (False, s)) of
             (True, s) \<Rightarrow> (case fail_job e er
                 ''READ metadata after host cancellation; reconnect scanner before another scan'' s of
                 (r, s) \<Rightarrow> Some ((r, True), s))
           | (False, s) \<Rightarrow> (case fail_job e er ''READ metadata'' s of (r, s) \<Rightarrow> Some ((r, False), s)))
      | Some ((Inr b, _), s) \<Rightarrow>
          (case parse_band b (mode request) of
             Inl er \<Rightarrow> (case fail_job e er ''READ metadata response'' s of
                 (r, s) \<Rightarrow> Some ((r, False), s))
           | Inr band \<Rightarrow>
               (case take_image e deadline request caps sm band s of
                  (Inl er, s) \<Rightarrow> Some ((Inl er, False), s)
                | (Inr (img, h, n), s) \<Rightarrow> Some ((Inr (band, img, h, n), False), s))))"

definition deliver_band ::
    "'w env \<Rightarrow> nat \<Rightarrow> image_band \<Rightarrow> nat \<Rightarrow> nat \<Rightarrow> scan_summary \<Rightarrow> 'w job \<Rightarrow>
     scan_summary io \<times> 'w job" where
  "deliver_band e deadline img next_height next_bytes sm s =
     (case on_world (sink e img) (set_stage e Consumer s) of
        (Returned (Inl er), s) \<Rightarrow> fail_job e er ''image consumer'' s
      | (Panicked, s) \<Rightarrow>
          fail_job e (io_other (Lit ''Image consumer panicked; job cancelled'')) ''image consumer'' s
      | (Returned (Inr _), s) \<Rightarrow>
          let sm' = \<lparr>sm_width = ib_width img, sm_height = next_height,
                     sm_bands = sm_bands sm + 1, sm_bytes = next_bytes\<rparr>;
              s = on_diag (record_band (sm_bands sm') (sm_bytes sm')) s
          in case checkpoint e deadline s of
               (Inl er, s) \<Rightarrow> fail_job e er ''after image consumer'' s
             | (Inr _, s) \<Rightarrow> (Inr sm', s))"

lemma read_band_limit:
  "read_band fuel e deadline request caps sm s = Some ((Inr r, f), s') \<Longrightarrow> sm_bands sm < 4096"
  by (auto simp: read_band_def take_image_def over_limits_def fail_job_def
      split: option.splits sum.splits prod.splits bool.splits if_splits)

lemma deliver_band_count:
  "deliver_band e deadline img h n sm s = (Inr sm', s') \<Longrightarrow>
     sm' = \<lparr>sm_width = ib_width img, sm_height = h, sm_bands = sm_bands sm + 1, sm_bytes = n\<rparr>"
  by (auto simp: deliver_band_def fail_job_def Let_def
      split: outcome.splits sum.splits prod.splits bool.splits if_splits)

function band_loop ::
    "nat \<Rightarrow> 'w env \<Rightarrow> nat \<Rightarrow> scan_request \<Rightarrow> capabilities \<Rightarrow> scan_summary \<Rightarrow> 'w job \<Rightarrow>
     ((scan_summary io \<times> bool) \<times> 'w job) option" where
  "band_loop fuel e deadline request caps sm s =
     (case read_band fuel e deadline request caps sm s of
        None \<Rightarrow> None
      | Some ((Inl er, f), s) \<Rightarrow> Some ((Inl er, f), s)
      | Some ((Inr (band, img, h, n), _), s) \<Rightarrow>
          (case deliver_band e deadline img h n sm s of
             (Inl er, s) \<Rightarrow> Some ((Inl er, False), s)
           | (Inr sm', s) \<Rightarrow>
               if final_band band then Some ((Inr sm', False), s)
               else band_loop fuel e deadline request caps sm' s))"
  by pat_completeness auto
termination
  by (relation "measure (\<lambda>(fuel, e, deadline, request, caps, sm, s). 4096 - sm_bands sm)")
    (auto dest!: read_band_limit sym [THEN deliver_band_count])

declare band_loop.simps [simp del]

definition empty_summary :: scan_summary where
  "empty_summary = \<lparr>sm_width = 0, sm_height = 0, sm_bands = 0, sm_bytes = 0\<rparr>"

text \<open>The closure between RESERVE and the cleanup.\<close>

definition reserved_job ::
    "nat \<Rightarrow> 'w env \<Rightarrow> nat \<Rightarrow> scan_request \<Rightarrow> capabilities \<Rightarrow> bytes \<Rightarrow> 'w job \<Rightarrow>
     ((scan_summary io \<times> bool) \<times> 'w job) option" where
  "reserved_job fuel e deadline request caps window s =
     (let s = set_stage e SetWindow s;
          s = on_diag (set_opcode 0x24) s;
          stop = (\<lambda>(r, s). Some ((r, False), s))
      in case checkpoint e deadline s of
           (Inl er, s) \<Rightarrow> stop (fail_job e er ''before SET_WINDOW'' s)
         | (Inr _, s) \<Rightarrow>
           (case exchange e window s of
              (Inl er, s) \<Rightarrow> stop (fail_job e er ''SET_WINDOW'' s)
            | (Inr reply, s) \<Rightarrow>
              (case response_status reply False of
                 Inl er \<Rightarrow> stop (fail_job e er ''SET_WINDOW response'' s)
               | Inr _ \<Rightarrow>
                 (case ready fuel e 0x31 deadline (set_stage e Start s) of
                    None \<Rightarrow> None
                  | Some (Inl er, s) \<Rightarrow> stop (fail_job e er ''START'' s)
                  | Some (Inr _, s) \<Rightarrow>
                      band_loop fuel e deadline request caps empty_summary s))))"

text \<open>INQUIRY, preparation and command construction, before any reservation.\<close>

definition prepare_job ::
    "'w env \<Rightarrow> nat \<Rightarrow> 'w job \<Rightarrow>
     ((io_error \<times> session_health) + (scan_request \<times> capabilities \<times> bytes)) \<times> 'w job" where
  "prepare_job e deadline s =
     (let s = set_stage e Inquiry s;
          s = on_diag (set_opcode 0x12) s;
          stop = (\<lambda>er detail health s.
            let (er', s) = diag_error e er (Lit detail) s in (Inl (er', health), s))
      in case checkpoint e deadline s of
           (Inl er, s) \<Rightarrow> stop er ''before inquiry'' Ready s
         | (Inr _, s) \<Rightarrow>
           (case exchange e (plain_command 0x12) (s\<lparr>synchronized := True\<rparr>) of
              (Inl er, s) \<Rightarrow> stop er ''INQUIRY'' NeedsReconnect s
            | (Inr raw, s) \<Rightarrow>
              (case parse raw of
                 Inl er \<Rightarrow> stop er ''capability response'' NeedsReconnect s
               | Inr caps \<Rightarrow>
                 let s = set_stage e Prepare s;
                     s = on_diag (set_opcode 0x24) s
                 in case on_world (prepare e raw) s of
                      (Returned (Inl er), s) \<Rightarrow> stop er ''scan request'' Ready s
                    | (Panicked, s) \<Rightarrow>
                        stop (io_other (Lit ''Scan preparation panicked'')) ''scan request'' NeedsReconnect s
                    | (Returned (Inr request), s) \<Rightarrow>
                        (case command request caps of
                           Inl er \<Rightarrow> stop er ''SET_WINDOW command construction'' Ready s
                         | Inr window \<Rightarrow> (Inr (request, caps, window), s)))))"

definition unconfirmed :: "bool \<Rightarrow> io_error \<Rightarrow> io_error" where
  "unconfirmed synced er =
     (if synced then er
      else Custom (kind er) (Message (Fmt [Shown er,
        Lit ''; reservation unconfirmed; reconnect scanner before another job''])))"

definition is_err :: "'e + 'a \<Rightarrow> bool" where
  "is_err r = (case r of Inl _ \<Rightarrow> True | Inr _ \<Rightarrow> False)"

definition merge_output ::
    "bool \<Rightarrow> scan_summary io \<Rightarrow> unit io \<Rightarrow> scan_summary io" where
  "merge_output cleanup_attempted result cleanup =
     (case (result, cleanup) of
        (Inr sm, Inr _) \<Rightarrow> Inr sm
      | (Inl er, Inr _) \<Rightarrow> Inl er
      | (Inr _, Inl er) \<Rightarrow> Inl er
      | (Inl er, Inl er') \<Rightarrow>
          Inl (Custom (kind er) (Message (Fmt [Shown er, Lit ''; '',
            Lit (if cleanup_attempted then ''cleanup secondary error'' else ''cleanup skipped''),
            Lit '': '', Shown er']))))"

definition clean_up ::
    "'w env \<Rightarrow> scan_summary io \<Rightarrow> bool \<Rightarrow> 'w job \<Rightarrow> (scan_summary io \<times> session_health) \<times> 'w job" where
  "clean_up e result first_failed s =
     (let cleanup_attempted = synchronized s;
          s = set_stage e Cleanup s;
          (cleanup, s) = finish e (is_err result) s;
          (cleanup, s) = (case cleanup of
              Inl er \<Rightarrow> fail_job e er ''cleanup'' s | Inr u \<Rightarrow> (Inr u, s));
          health = (if \<not> is_err cleanup \<and> \<not> first_failed then Ready else NeedsReconnect)
      in ((merge_output cleanup_attempted result cleanup, health), s))"

definition run_observed ::
    "nat \<Rightarrow> 'w env \<Rightarrow> 'w job \<Rightarrow> ((scan_summary io \<times> session_health) \<times> 'w job) option" where
  "run_observed fuel e s =
     (let (t, s) = now e s;
          deadline = t + seconds 120
      in case prepare_job e deadline s of
           (Inl (er, health), s) \<Rightarrow> Some ((Inl er, health), s)
         | (Inr (request, caps, window), s) \<Rightarrow>
             (case ready_with_attempt fuel e 0x16 True deadline (set_stage e Reserve s) of
                None \<Rightarrow> None
              | Some ((Inl er, attempted), s) \<Rightarrow>
                  (case fail_job e (unconfirmed (synchronized s) er) ''RESERVE'' s of
                     (r, s) \<Rightarrow> Some ((r, if attempted then NeedsReconnect else Ready), s))
              | Some ((Inr _, _), s) \<Rightarrow>
                  (case reserved_job fuel e deadline request caps window s of
                     None \<Rightarrow> None
                   | Some ((result, first_failed), s) \<Rightarrow>
                       Some (clean_up e result first_failed s))))"

text \<open>
  \<open>run_prepared_job_profiled_with_health\<close>: validation, a fresh set of diagnostics and
  metrics, the job, and the profile it leaves behind. A rejected tuning never touches the
  device and leaves the default profile.
\<close>

definition start_job :: "scan_tuning \<Rightarrow> nat \<Rightarrow> nat \<Rightarrow> 'w \<Rightarrow> 'w job" where
  "start_job tuning t0 t1 w =
     (let d = new_diagnostics t0 t1;
          d = d\<lparr>read_poll_interval := tuning_poll_interval tuning,
               read_buffer_bytes := tuning_buffer_bytes tuning,
               profile := (profile d)\<lparr>profile_buffer_bytes := tuning_buffer_bytes tuning\<rparr>\<rparr>
      in \<lparr>world = w, diag = d, synchronized = True, metrics = empty_usb_profile\<rparr>)"

lemma world_start_job [simp]: "world (start_job tuning t0 t1 w) = w"
  by (simp add: start_job_def Let_def)

definition run_job ::
    "nat \<Rightarrow> 'w env \<Rightarrow> scan_tuning \<Rightarrow> 'w \<Rightarrow>
     ((scan_summary io \<times> session_health) \<times> scan_profile \<times> 'w) option" where
  "run_job fuel e tuning w =
     (case validate_tuning tuning of
        Inl er \<Rightarrow> Some ((Inl er, Ready), default_profile, w)
      | Inr _ \<Rightarrow>
          let (t0, w) = clock e w;
              (t1, w) = clock e w;
              s = start_job tuning t0 t1 w
          in case run_observed fuel e s of
               None \<Rightarrow> None
             | Some (r, s) \<Rightarrow>
                 let s = set_stage e (stage (diag s)) s;
                     (t, s) = now e s;
                     p = (profile (diag s))\<lparr>total := t - started (diag s), usb := metrics s\<rparr>
                 in Some (r, p, world s))"

text \<open>
  \<open>scan_in_session\<close>: the pipe's transfer limit is a query of the opened USB session, so
  it is a parameter. Its failures and a cancellation seen first leave the session ready.
\<close>

definition scan_in_session ::
    "nat \<Rightarrow> ('w \<Rightarrow> nat io \<times> 'w) \<Rightarrow> 'w env \<Rightarrow> scan_request \<Rightarrow> 'w \<Rightarrow>
     ((scan_summary io \<times> session_health) \<times> 'w) option" where
  "scan_in_session fuel max_transfer e request w =
     (case cancel_flag e w of
        (True, w) \<Rightarrow> Some ((Inl host_cancelled, Ready), w)
      | (False, w) \<Rightarrow>
          (case max_transfer w of
             (Inl er, w) \<Rightarrow> Some ((Inl er, Ready), w)
           | (Inr limit, w) \<Rightarrow>
               (case record_read_buffer_limit default_profile
                       (tuning_buffer_bytes default_tuning) limit of
                  (Inl er, _) \<Rightarrow> Some ((Inl er, Ready), w)
                | (Inr _, _) \<Rightarrow>
                    map_option (\<lambda>(r, _, w). (r, w))
                      (run_job fuel (e\<lparr>prepare := (\<lambda>_ w. (Returned (Inr request), w))\<rparr>)
                        default_tuning w))))"

end
