(* ===== verification/Scan_Conversation.thy ===== *)
theory Scan_Conversation
  imports Scan_Job
begin

text \<open>
  The contract of a scan job with the device and with the image consumer, and the proof
  that \<open>src/scan.rs\<close> keeps it. The contract is a state machine over observable events
  (writes, reads, calls of the consumer): \<open>device_step\<close> and its closure \<open>talk\<close>. The locale
  \<open>recorded\<close> is the interface between the job and what is observed of its environment:
  a trace that the transport and the consumer extend and that nothing else changes. It
  is interpreted on \<open>logged e\<close>, which adds a log to the world of any environment \<open>e\<close>, so
  the properties hold for every transport, clock, cancellation and consumer.
\<close>

section \<open>Events and phases\<close>

datatype event =
    Wrote bytes "unit io"
  | Received nat "bytes io"
  | Consumed image_band "unit io outcome"

text \<open>
  \<open>Streaming m acc\<close>: the image announced by the metadata reply \<open>m\<close> is being read and
  \<open>acc\<close> has arrived. \<open>Lost\<close>: the position in the reply stream is unknown.
\<close>

datatype phase =
    Fresh
  | Awaiting u8
  | Replied u8 bytes
  | Streaming bytes bytes
  | Delivered bool
  | Rejected
  | Lost

definition band_length :: "bytes \<Rightarrow> nat" where
  "band_length m = be_nat (subslice 4 8 m)"

definition well_framed :: "u8 \<Rightarrow> bytes \<Rightarrow> bool" where
  "well_framed op b \<longleftrightarrow> 32 \<le> length b \<and> length b \<le> 1024 \<and> b ! 0 = 0xa8
     \<and> length b = unat (b ! 2) + 3 \<and> expected_message op (b ! 3)"

definition good_reply :: "bytes \<Rightarrow> bool" where
  "good_reply b \<longleftrightarrow> response_status b False = Inr Good"

text \<open>
  Which command may be sent in which phase. The argument \<open>job\<close> is the INQUIRY reply the
  job was prepared from and its SET_WINDOW command, or \<open>None\<close> when the preparation
  failed: then nothing follows the INQUIRY. A reservation is used only after a good RESERVE reply, START follows an
  accepted window, an image is read only after good metadata, and every failure inside
  the reservation is followed by ABORT and RELEASE while the stream is in step.
\<close>

fun may_send :: "(bytes \<times> bytes) option \<Rightarrow> phase \<Rightarrow> bytes \<Rightarrow> bool" where
  "may_send job Fresh c \<longleftrightarrow> c = plain_command 0x12"
| "may_send job (Replied op b) c \<longleftrightarrow>
     (if op = 0x12 then (\<exists>w. job = Some (b, w)) \<and> c = plain_command 0x16
      else if op = 0x16 then
        response_status b False = Inr Busy \<and> c = plain_command 0x16
        \<or> good_reply b \<and> ((\<exists>raw. job = Some (raw, c)) \<or> c = plain_command 0x06)
      else if op = 0x24 then
        c = plain_command 0x06
        \<or> (\<exists>st. response_status b False = Inr st) \<and> c = plain_command 0x31
      else if op = 0x31 then
        c = plain_command 0x06
        \<or> response_status b False = Inr Busy \<and> c = plain_command 0x31
        \<or> good_reply b \<and> c = plain_command 0x28
      else if op = 0x28 then
        c = plain_command 0x06
        \<or> response_status b True = Inr Busy \<and> c = plain_command 0x28
        \<or> response_status b True = Inr Good \<and> b ! 3 \<in> {0x80, 0x81} \<and> c = plain_command 0x29
      else op = 0x06 \<and> c = plain_command 0x17)"
| "may_send job (Streaming m acc) c \<longleftrightarrow>
     length acc = band_length m \<and> c = plain_command 0x06"
| "may_send job (Delivered fin) c \<longleftrightarrow>
     c = plain_command 0x06 \<or> c = plain_command (if fin then 0x17 else 0x28)"
| "may_send job Rejected c \<longleftrightarrow> c = plain_command 0x06"
| "may_send job (Awaiting op) c \<longleftrightarrow> False"
| "may_send job Lost c \<longleftrightarrow> False"

fun after_command :: "phase \<Rightarrow> bytes \<Rightarrow> phase" where
  "after_command (Replied op m) c =
     (if c ! 2 = 0x29 then Streaming m [] else Awaiting (c ! 2))"
| "after_command p c = Awaiting (c ! 2)"

inductive device_step :: "(bytes \<times> bytes) option \<Rightarrow> phase \<Rightarrow> event \<Rightarrow> phase \<Rightarrow> bool" for win where
  command_sent: "may_send win p c \<Longrightarrow>
     device_step win p (Wrote c (Inr ())) (after_command p c)"
| command_lost: "may_send win p c \<Longrightarrow> device_step win p (Wrote c (Inl er)) Lost"
| reply_ok: "well_framed op b \<Longrightarrow>
     device_step win (Awaiting op) (Received 1024 (Inr b)) (Replied op b)"
| reply_bad: "\<not> well_framed op b \<Longrightarrow>
     device_step win (Awaiting op) (Received 1024 (Inr b)) Lost"
| reply_lost: "device_step win (Awaiting op) (Received 1024 (Inl er)) Lost"
| stream_more: "length acc < band_length m \<Longrightarrow> cap \<le> band_length m - length acc + 1023 \<Longrightarrow>
     length chunk \<le> cap \<Longrightarrow> length acc + length chunk \<le> band_length m \<Longrightarrow>
     device_step win (Streaming m acc) (Received cap (Inr chunk)) (Streaming m (acc @ chunk))"
| stream_over: "length acc < band_length m \<Longrightarrow> cap \<le> band_length m - length acc + 1023 \<Longrightarrow>
     cap < length chunk \<or> band_length m < length acc + length chunk \<Longrightarrow>
     device_step win (Streaming m acc) (Received cap (Inr chunk)) Lost"
| stream_lost: "length acc < band_length m \<Longrightarrow> cap \<le> band_length m - length acc + 1023 \<Longrightarrow>
     device_step win (Streaming m acc) (Received cap (Inl er)) Lost"
| consumed: "length acc = band_length m \<Longrightarrow> wire_data img = acc \<Longrightarrow>
     device_step win (Streaming m acc) (Consumed img (Returned (Inr ()))) (Delivered (m ! 3 = 0x81))"
| refused: "length acc = band_length m \<Longrightarrow> wire_data img = acc \<Longrightarrow> r \<noteq> Returned (Inr ()) \<Longrightarrow>
     device_step win (Streaming m acc) (Consumed img r) Rejected"

inductive_cases Lost_stepE: "device_step win Lost ev q"
inductive_cases Rejected_stepE: "device_step win Rejected ev q"
inductive_simps consumed_step_iff: "device_step win p (Consumed img r) q"
inductive_simps wrote_step_iff: "device_step win p (Wrote c r) q"

inductive talk :: "(bytes \<times> bytes) option \<Rightarrow> phase \<Rightarrow> event list \<Rightarrow> phase \<Rightarrow> bool" for win where
  talk_Nil [intro!]: "talk win p [] p"
| talk_snoc [intro]: "talk win p evs q \<Longrightarrow> device_step win q ev q' \<Longrightarrow> talk win p (evs @ [ev]) q'"

text \<open>The bands the consumer has accepted.\<close>

fun accepted_bands :: "event list \<Rightarrow> image_band list" where
  "accepted_bands [] = []"
| "accepted_bands (Consumed img (Returned (Inr _)) # evs) = img # accepted_bands evs"
| "accepted_bands (_ # evs) = accepted_bands evs"

lemma accepted_bands_append [simp]:
  "accepted_bands (xs @ ys) = accepted_bands xs @ accepted_bands ys"
  by (induction xs rule: accepted_bands.induct) auto

lemma accepted_bands_refused: "q \<noteq> Returned (Inr ()) \<Longrightarrow> accepted_bands [Consumed img q] = []"
proof (cases q)
  case (Returned x)
  moreover assume "q \<noteq> Returned (Inr ())"
  ultimately show ?thesis by (cases x) auto
qed simp

definition summarises :: "image_band list \<Rightarrow> scan_summary \<Rightarrow> bool" where
  "summarises bands sm \<longleftrightarrow>
     sm_bands sm = length bands
     \<and> sm_height sm = sum_list (map ib_rows bands)
     \<and> sm_bytes sm = sum_list (map (\<lambda>b. length (pixels b)) bands)
     \<and> (\<forall>b \<in> set bands. ib_width b = sm_width sm)
     \<and> (bands = [] \<longrightarrow> sm_width sm = 0)"

text \<open>What the consumer may rely on for one band, given the job's mode and line order.\<close>

definition band_ok :: "color_mode \<Rightarrow> u8 \<Rightarrow> image_band \<Rightarrow> bool" where
  "band_ok m lo img \<longleftrightarrow>
     ib_mode img = m \<and> 0 < ib_width img \<and> 0 < ib_rows img
     \<and> length (pixels img) = ib_rows img * ib_width img * channels m
     \<and> length (wire_data img) \<le> MAX_BAND_BYTES
     \<and> (\<exists>md bi. parse_band md m = Inr bi \<and> ib_width img = bi_width bi \<and> ib_rows img = bi_rows bi
          \<and> decode bi (wire_data img) m lo = Inr (pixels img))"

definition within_limits :: "scan_summary \<Rightarrow> bool" where
  "within_limits sm \<longleftrightarrow>
     sm_bands sm \<le> 4096 \<and> sm_bytes sm \<le> MAX_JOB_BYTES \<and> sm_height sm < 2 ^ 32"

lemma summarises_snoc:
  assumes "summarises bs sm" and "sm_width sm \<noteq> 0 \<longrightarrow> sm_width sm = ib_width img"
    and "\<forall>b \<in> set bs. 0 < ib_width b"
  shows "summarises (bs @ [img]) \<lparr>sm_width = ib_width img, sm_height = sm_height sm + ib_rows img,
     sm_bands = sm_bands sm + 1, sm_bytes = sm_bytes sm + length (pixels img)\<rparr>"
  using assms by (cases bs) (auto simp: summarises_def)

section \<open>The recorded environment\<close>

text \<open>
  \<open>reached trace win bs p s\<close>: in the job state \<open>s\<close> the events seen so far are a
  conversation that ends in phase \<open>p\<close>, in which the consumer has accepted the bands \<open>bs\<close>.
\<close>

definition reached ::
    "('w \<Rightarrow> event list) \<Rightarrow> (bytes \<times> bytes) option \<Rightarrow> image_band list \<Rightarrow> phase \<Rightarrow> 'w job \<Rightarrow> bool" where
  "reached trace win bs p s \<longleftrightarrow>
     talk win Fresh (trace (world s)) p \<and> accepted_bands (trace (world s)) = bs"

definition quiet :: "('w \<Rightarrow> event list) \<Rightarrow> 'w job \<Rightarrow> 'w job \<Rightarrow> bool" where
  "quiet trace s s' \<longleftrightarrow>
     trace (world s') = trace (world s) \<and> synchronized s' = synchronized s"

lemma quiet_refl [intro!, simp]: "quiet trace s s"
  by (simp add: quiet_def)

lemma quiet_trans [trans]: "quiet trace s t \<Longrightarrow> quiet trace t u \<Longrightarrow> quiet trace s u"
  by (simp add: quiet_def)

lemma reached_quiet: "quiet trace s s' \<Longrightarrow> reached trace win bs p s' = reached trace win bs p s"
  by (simp add: quiet_def reached_def)

lemma quiet_synchronized: "quiet trace s s' \<Longrightarrow> synchronized s' = synchronized s"
  by (simp add: quiet_def)

lemma reached_synchronized_update [simp]:
  "reached trace win bs p (s\<lparr>synchronized := b\<rparr>) = reached trace win bs p s"
  by (simp add: reached_def)

lemma reached_step:
  "reached trace win bs p s \<Longrightarrow> device_step win p ev q \<Longrightarrow>
     trace (world s') = trace (world s) @ [ev] \<Longrightarrow> accepted_bands [ev] = [] \<Longrightarrow>
     reached trace win bs q s'"
  by (auto simp: reached_def)

lemma reached_accept:
  "reached trace win bs p s \<Longrightarrow> device_step win p (Consumed img (Returned (Inr ()))) q \<Longrightarrow>
     trace (world s') = trace (world s) @ [Consumed img (Returned (Inr ()))] \<Longrightarrow>
     reached trace win (bs @ [img]) q s'"
  by (auto simp: reached_def)

lemma check_reply_Inr_iff:
  "check_reply cmd b = Inr b' \<longleftrightarrow>
     b' = b \<and> 32 \<le> length b \<and> b ! 0 = 0xa8 \<and> length b = unat (b ! 2) + 3
     \<and> expected_message (cmd ! 2) (b ! 3)"
  by (auto simp: check_reply_def get_def Let_def split: if_splits)

definition polled :: "u8 \<Rightarrow> bool" where
  "polled op \<longleftrightarrow> op = 0x16 \<or> op = 0x31 \<or> op = 0x28"

lemma may_poll_again:
  "polled op \<Longrightarrow> response_status b (op = 0x28) = Inr Busy \<Longrightarrow>
     may_send win (Replied op b) (plain_command op)"
  by (auto simp: polled_def)

text \<open>The facts the job guarantees when it ends, whatever its result.\<close>

definition job_guarantee ::
    "event list \<Rightarrow> scan_summary io \<Rightarrow> session_health \<Rightarrow> bool" where
  "job_guarantee log r health \<longleftrightarrow>
     (\<exists>job p. talk job Fresh log p
        \<and> (case job of
             None \<Rightarrow> accepted_bands log = []
           | Some (raw, w) \<Rightarrow> (\<exists>caps request. parse raw = Inr caps \<and> command request caps = Inr w
               \<and> (\<forall>b \<in> set (accepted_bands log). band_ok (mode request) (line_order caps) b)))
        \<and> (health = Ready \<longrightarrow> p = Fresh \<or> (\<exists>raw. p = Replied 0x12 raw)
             \<or> (\<exists>b. p = Replied 0x17 b \<and> good_reply b))
        \<and> (\<forall>sm. r = Inr sm \<longrightarrow> health = Ready \<and> accepted_bands log \<noteq> []
             \<and> summarises (accepted_bands log) sm \<and> within_limits sm
             \<and> (\<exists>b. p = Replied 0x17 b \<and> good_reply b)))"

lemma cleanup_result_Inr_iff [simp]: "cleanup_result (Inr b) = Inr () \<longleftrightarrow> good_reply b"
proof (cases "response_status b False")
  case (Inr st)
  then show ?thesis by (cases st) (auto simp: cleanup_result_def good_reply_def)
qed (simp add: cleanup_result_def good_reply_def)

locale recorded =
  fixes e :: "'w env" and trace :: "'w \<Rightarrow> event list"
  assumes write_trace:
      "usb_write e c w = (r, w') \<Longrightarrow> trace w' = trace w @ [Wrote c r]"
    and read_trace:
      "usb_read e n w = (b, w') \<Longrightarrow> trace w' = trace w @ [Received n b]"
    and sink_trace:
      "sink e img w = (q, w') \<Longrightarrow> trace w' = trace w @ [Consumed img q]"
    and clock_trace: "clock e w = (t, w') \<Longrightarrow> trace w' = trace w"
    and cancel_trace: "cancel_flag e w = (c', w') \<Longrightarrow> trace w' = trace w"
    and sleep_trace: "trace (thread_sleep e d w) = trace w"
    and prepare_trace: "prepare e raw w = (p, w') \<Longrightarrow> trace w' = trace w"
begin

lemma quiet_now: "now e s = (t, s') \<Longrightarrow> quiet trace s s'"
  by (auto simp: now_def on_world_def quiet_def clock_trace split: prod.splits)

lemma quiet_cancelled: "cancelled e s = (c, s') \<Longrightarrow> quiet trace s s'"
  by (auto simp: cancelled_def on_world_def quiet_def cancel_trace split: prod.splits)

lemma quiet_prepare: "on_world (prepare e raw) s = (p, s') \<Longrightarrow> quiet trace s s'"
  by (auto simp: on_world_def quiet_def prepare_trace split: prod.splits)

lemma quiet_on_diag [simp]: "quiet trace (on_diag f s) t = quiet trace s t"
  "quiet trace t (on_diag f s) = quiet trace t s"
  by (simp_all add: on_diag_def quiet_def)

lemma quiet_set_stage [simp]: "quiet trace s (set_stage e st s)"
  by (auto simp: set_stage_def split: prod.splits dest: quiet_now)

lemma quiet_diag_error: "diag_error e er d s = (er', s') \<Longrightarrow> quiet trace s s'"
  by (auto simp: diag_error_def split: prod.splits dest: quiet_now)

lemma quiet_fail_job: "fail_job e er d s = (r, s') \<Longrightarrow> quiet trace s s' \<and> (\<exists>er'. r = Inl er')"
  by (auto simp: fail_job_def Let_def split: prod.splits dest: quiet_diag_error)

lemma quiet_checkpoint_deadline: "checkpoint_deadline e d s = (r, s') \<Longrightarrow> quiet trace s s'"
  by (auto simp: checkpoint_deadline_def split: prod.splits dest: quiet_now)

lemma quiet_checkpoint: "checkpoint e d s = (r, s') \<Longrightarrow> quiet trace s s'"
  by (auto simp: checkpoint_def split: prod.splits bool.splits
      dest: quiet_cancelled quiet_checkpoint_deadline intro: quiet_trans)

lemma quiet_busy_pause: "quiet trace s (busy_pause e op s)"
  unfolding busy_pause_def
  by (auto simp: Let_def on_diag_def quiet_def sleep_trace split: prod.splits
      dest!: quiet_now)

lemma timed_write_trace:
  "timed_write e c s = (r, s') \<Longrightarrow>
     trace (world s') = trace (world s) @ [Wrote c r] \<and> synchronized s' = synchronized s"
  unfolding timed_write_def
  by (auto simp: Let_def on_world_def quiet_def split: prod.splits
      dest!: quiet_now write_trace)

lemma timed_read_trace:
  "timed_read e n s = (r, s') \<Longrightarrow>
     trace (world s') = trace (world s) @ [Received n r] \<and> synchronized s' = synchronized s"
  unfolding timed_read_def
  by (auto simp: Let_def on_world_def quiet_def split: prod.splits
      dest!: quiet_now read_trace)

lemma exchange_talk:
  assumes "exchange e cmd s = (r, s')" and "reached trace win bs p s" and "may_send win p cmd"
    and "cmd ! 2 \<noteq> 0x29"
  shows "(\<exists>b. r = Inr b \<and> well_framed (cmd ! 2) b \<and> synchronized s'
            \<and> reached trace win bs (Replied (cmd ! 2) b) s')
       \<or> (\<exists>er. r = Inl er \<and> \<not> synchronized s' \<and> reached trace win bs Lost s')"
proof -
  let ?s = "s\<lparr>synchronized := False\<rparr>"
  have after: "after_command p cmd = Awaiting (cmd ! 2)"
    using assms(4) by (cases p) auto
  obtain wr s1 where w: "timed_write e cmd ?s = (wr, s1)" by fastforce
  note t1 = timed_write_trace [OF w]
  show ?thesis
  proof (cases wr)
    case (Inl er)
    have "reached trace win bs Lost s1"
      using assms(2) command_lost [OF assms(3), of er] t1 Inl by (auto intro: reached_step)
    then show ?thesis using assms(1) w t1 Inl by (auto simp: exchange_def)
  next
    case (Inr u)
    have aw: "reached trace win bs (Awaiting (cmd ! 2)) s1"
      using assms(2) command_sent [OF assms(3)] t1 Inr after by (auto intro: reached_step)
    obtain rr s2 where rd: "timed_read e 1024 s1 = (rr, s2)" by fastforce
    note t2 = timed_read_trace [OF rd]
    show ?thesis
    proof (cases rr)
      case (Inl er)
      have "reached trace win bs Lost s2"
        using aw reply_lost [of win "cmd ! 2" er] t2 Inl by (auto intro: reached_step)
      then show ?thesis using assms(1) w t1 t2 rd Inl \<open>wr = Inr u\<close> by (auto simp: exchange_def)
    next
      case (Inr b)
      show ?thesis
      proof (cases "well_framed (cmd ! 2) b")
        case True
        then have "reached trace win bs (Replied (cmd ! 2) b) s2"
          using aw reply_ok [OF True, of win] t2 Inr by (auto intro: reached_step)
        moreover have "check_reply cmd b = Inr b"
          using True by (simp add: check_reply_Inr_iff well_framed_def)
        ultimately show ?thesis
          using assms(1) True w rd Inr \<open>wr = Inr u\<close>
          by (auto simp: exchange_def well_framed_def reached_def)
      next
        case False
        then have "reached trace win bs Lost s2"
          using aw reply_bad [OF False, of win] t2 Inr by (auto intro: reached_step)
        moreover have "\<exists>er. check_reply cmd b = Inl er" if "length b \<le> 1024"
          using False that by (cases "check_reply cmd b")
            (auto simp: check_reply_Inr_iff well_framed_def)
        ultimately show ?thesis
          using assms(1) w t1 t2 rd Inr \<open>wr = Inr u\<close>
          by (cases "length b \<le> 1024"; cases "check_reply cmd b") (auto simp: exchange_def)
      qed
    qed
  qed
qed


lemma ready_loop_talk:
  assumes "ready_loop fuel e op stoppable deadline att s = Some ((r, att'), s')"
    and "reached trace win bs p s" and "may_send win p (plain_command op)" and "polled op"
    and "synchronized s"
  shows "(\<exists>b. r = Inr b \<and> att' \<and> synchronized s' \<and> response_status b (op = 0x28) = Inr Good
            \<and> reached trace win bs (Replied op b) s')
       \<or> (\<exists>er. r = Inl er \<and> \<not> synchronized s' \<and> att' \<and> reached trace win bs Lost s')
       \<or> (\<exists>er. r = Inl er \<and> synchronized s'
            \<and> (reached trace win bs p s' \<and> att' = att
               \<or> (\<exists>b. att' \<and> reached trace win bs (Replied op b) s')))"
  using assms
proof (induction fuel arbitrary: att s p)
  case (Suc fuel)
  obtain c s1 where c: "(if stoppable then checkpoint e deadline s
      else checkpoint_deadline e deadline s) = (c, s1)" by fastforce
  then have q: "quiet trace s s1"
    by (auto split: if_splits dest: quiet_checkpoint quiet_checkpoint_deadline)
  have r1: "reached trace win bs p s1" and y1: "synchronized s1"
    using Suc.prems q by (auto simp: reached_quiet quiet_synchronized)
  have op: "plain_command op ! 2 = op" "plain_command op ! 2 \<noteq> 0x29"
    using Suc.prems(4) by (auto simp: plain_command_def polled_def)
  show ?case
  proof (cases c)
    case (Inl er)
    then show ?thesis using Suc.prems(1) c r1 y1 by auto
  next
    case (Inr u)
    obtain x s2 where x: "exchange e (plain_command op) s1 = (x, s2)" by fastforce
    note t = exchange_talk [OF x r1 Suc.prems(3) op(2), unfolded op(1)]
    show ?thesis
    proof (cases x)
      case (Inl er)
      then show ?thesis using Suc.prems(1) c \<open>c = Inr u\<close> x t by auto
    next
      case (Inr b)
      with t have b: "reached trace win bs (Replied op b) s2" "synchronized s2" by auto
      show ?thesis
      proof (cases "response_status b (op = 0x28)")
        case (Inl er)
        then show ?thesis using Suc.prems(1) c \<open>c = Inr u\<close> x b Inr by auto
      next
        case st: (Inr st)
        show ?thesis
        proof (cases st)
          case Good
          then show ?thesis using Suc.prems(1) c \<open>c = Inr u\<close> x b Inr st by auto
        next
          case Busy
          define s3 where "s3 = busy_pause e op (on_diag (record_busy_reply op b (op = 0x28)) s2)"
          have "quiet trace (on_diag (record_busy_reply op b (op = 0x28)) s2) s3"
            unfolding s3_def by (rule quiet_busy_pause)
          then have s3: "reached trace win bs (Replied op b) s3" "synchronized s3"
            using b by (auto simp: reached_quiet quiet_synchronized)
          have "ready_loop fuel e op stoppable deadline True s3 = Some ((r, att'), s')"
            using Suc.prems(1) c \<open>c = Inr u\<close> x Inr st Busy by (simp add: s3_def)
          moreover have "may_send win (Replied op b) (plain_command op)"
            using st Busy Suc.prems(4) by (intro may_poll_again) simp_all
          ultimately show ?thesis
            using Suc.IH [of True s3 "Replied op b"] s3 Suc.prems(4) by blast
        qed
      qed
    qed
  qed
qed simp

lemma ready_with_attempt_talk:
  assumes "ready_with_attempt fuel e op stoppable deadline s = Some ((r, att), s')"
    and "reached trace win bs p s" and "may_send win p (plain_command op)" and "polled op"
    and "synchronized s"
  shows "(\<exists>b. r = Inr b \<and> synchronized s' \<and> response_status b (op = 0x28) = Inr Good
            \<and> reached trace win bs (Replied op b) s')
       \<or> (\<exists>er. r = Inl er \<and> \<not> synchronized s' \<and> att \<and> reached trace win bs Lost s')
       \<or> (\<exists>er. r = Inl er \<and> synchronized s'
            \<and> (reached trace win bs p s' \<and> \<not> att
               \<or> (\<exists>b. att \<and> reached trace win bs (Replied op b) s')))"
proof -
  have "reached trace win bs p (on_diag (set_opcode op) s)"
    using assms(2) by (simp add: reached_def on_diag_def)
  with ready_loop_talk [OF assms(1) [unfolded ready_with_attempt_def] this assms(3,4)] assms(5)
  show ?thesis by (auto simp: on_diag_def)
qed

lemma quiet_progress_error:
  "progress_error e er n len t s = (er', s') \<Longrightarrow> quiet trace s s'"
  by (auto simp: progress_error_def split: prod.splits
      dest!: quiet_now quiet_diag_error intro: quiet_trans)

lemma quiet_fail_read:
  "fail_read e f er raw len t s = (r, s') \<Longrightarrow> quiet trace s s' \<and> (\<exists>er'. r = Inl er')"
  by (auto simp: fail_read_def split: prod.splits dest!: quiet_progress_error)

lemma quiet_observe_failure: "observe_failure e d f s = (f', s') \<Longrightarrow> quiet trace s s'"
  by (auto simp: observe_failure_def split: option.splits prod.splits sum.splits
      dest: quiet_checkpoint)

lemma quiet_start_drain: "start_drain e f d s = (d', s') \<Longrightarrow> quiet trace s s'"
  by (auto simp: start_drain_def split: if_splits prod.splits dest: quiet_now)

lemma quiet_drain_expired: "drain_expired e d s = (b, s') \<Longrightarrow> quiet trace s s'"
  by (auto simp: drain_expired_def split: option.splits prod.splits dest: quiet_now)

lemma read_loop_talk:
  assumes "read_loop e (band_length m) deadline raw f d n t s = (r, s')"
    and "reached trace win bs (Streaming m raw) s" and "length raw \<le> band_length m"
    and "\<not> synchronized s"
  shows "\<not> synchronized s' \<and>
     ((\<exists>raw' f' t'. r = Inr (raw', f', t') \<and> length raw' = band_length m
         \<and> reached trace win bs (Streaming m raw') s')
      \<or> (\<exists>er p. r = Inl er \<and> reached trace win bs p s'))"
  using assms
proof (induction "(band_length m - length raw) + (2 - n)" arbitrary: raw f d n t s
    rule: less_induct)
  case less
  let ?len = "band_length m"
  show ?case
  proof (cases "?len \<le> length raw")
    case True
    then show ?thesis using less.prems by (auto simp: read_loop.simps)
  next
    case False
    obtain f1 s1 where o1: "observe_failure e deadline f s = (f1, s1)" by fastforce
    obtain d1 s2 where o2: "start_drain e f1 d s1 = (d1, s2)" by fastforce
    obtain x s3 where o3: "drain_expired e d1 s2 = (x, s3)" by fastforce
    have q: "quiet trace s s3"
      using quiet_observe_failure [OF o1] quiet_start_drain [OF o2] quiet_drain_expired [OF o3]
      by (blast intro: quiet_trans)
    then have r3: "reached trace win bs (Streaming m raw) s3" "\<not> synchronized s3"
      using less.prems by (auto simp: reached_quiet quiet_synchronized)
    define cap where "cap = read_capacity (?len - length raw) (read_buffer_bytes (diag s3))"
    have cap: "cap \<le> ?len - length raw + 1023"
      unfolding cap_def read_capacity_def
      using div_times_less_eq_dividend [of "?len - length raw + 1023" 1024] by linarith
    obtain y s4 where o4: "timed_read e cap s3 = (y, s4)" by fastforce
    note t4 = timed_read_trace [OF o4]
    have failed: ?thesis
      if "reached trace win bs p u" and "\<not> synchronized u"
        and "fail_read e f2 er2 raw ?len t u = (r, s')" for p u f2 er2
      using that quiet_fail_read [OF that(3)] by (auto simp: reached_quiet quiet_synchronized)
    note step = read_loop.simps [of e ?len deadline raw f d n t s]
    show ?thesis
    proof (cases x)
      case True
      then show ?thesis using less.prems(1) False o1 o2 o3 r3
        by (intro failed [of _ s3]) (auto simp: step)
    next
      case nx: False
      show ?thesis
      proof (cases y)
        case (Inl er)
        have "reached trace win bs Lost s4"
          using r3(1) stream_lost [of raw m cap win er] False cap t4 Inl
          by (auto intro: reached_step)
        then show ?thesis using less.prems(1) False nx o1 o2 o3 o4 t4 r3 Inl
          by (intro failed [of _ s4]) (auto simp: step cap_def)
      next
        case (Inr chunk)
        show ?thesis
        proof (cases "cap < length chunk \<or> ?len - length raw < length chunk")
          case True
          then have "cap < length chunk \<or> band_length m < length raw + length chunk"
            using False by linarith
          then have "reached trace win bs Lost s4"
            using r3(1) stream_over [of raw m cap chunk win] False cap t4 Inr
            by (auto intro: reached_step)
          then show ?thesis using less.prems(1) False nx o1 o2 o3 o4 t4 r3 Inr True
            by (intro failed [of _ s4]) (auto simp: step cap_def)
        next
          case fits: False
          then have "length raw + length chunk \<le> band_length m"
            using False by linarith
          then have r4: "reached trace win bs (Streaming m (raw @ chunk)) s4" "\<not> synchronized s4"
            using r3 stream_more [of raw m cap chunk win] False cap t4 Inr fits
            by (auto intro: reached_step)
          show ?thesis
          proof (cases "chunk = []")
            case empty: True
            show ?thesis
            proof (cases "2 \<le> n + 1")
              case True
              then show ?thesis using less.prems(1) False nx o1 o2 o3 o4 r4 Inr empty
                by (intro failed [of _ s4]) (auto simp: step cap_def Let_def split: option.splits)
            next
              case again: False
              obtain f2 where "read_loop e ?len deadline raw f2 d1 (n + 1) t s4 = (r, s')"
                using less.prems(1) False nx o1 o2 o3 o4 Inr empty again
                by (auto simp: step cap_def Let_def split: option.splits)
              then show ?thesis
                using r4 empty again less.prems(3) by (intro less.hyps) auto
            qed
          next
            case more: False
            obtain t' s5 where o5: "now e s4 = (t', s5)" by fastforce
            have r5: "reached trace win bs (Streaming m (raw @ chunk)) s5" "\<not> synchronized s5"
              using r4 quiet_now [OF o5] by (auto simp: reached_quiet quiet_synchronized)
            have "read_loop e ?len deadline (raw @ chunk) f1 d1 n t' s5 = (r, s')"
              using less.prems(1) False nx o1 o2 o3 o4 Inr fits more o5
              by (auto simp: step cap_def Let_def)
            moreover have "0 < length chunk" using more by simp
            then have "?len - length (raw @ chunk) + (2 - n) < ?len - length raw + (2 - n)"
              and "length (raw @ chunk) \<le> ?len"
              using fits False unfolding length_append by linarith+
            ultimately show ?thesis
              using less.hyps [OF _ _ r5(1) _ r5(2)] by blast
          qed
        qed
      qed
    qed
  qed
qed

lemma read_image_band_talk:
  assumes "read_image_band e (band_length m) deadline s = (r, s')"
    and "reached trace win bs (Streaming m []) s"
  shows "(\<exists>raw. r = Inr raw \<and> synchronized s' \<and> length raw = band_length m
            \<and> reached trace win bs (Streaming m raw) s')
       \<or> (\<exists>er raw. r = Inl er \<and> synchronized s' \<and> length raw = band_length m
            \<and> reached trace win bs (Streaming m raw) s')
       \<or> (\<exists>er p. r = Inl er \<and> \<not> synchronized s' \<and> reached trace win bs p s')"
proof -
  obtain t s1 where o1: "now e ((set_stage e ReadImage s)\<lparr>synchronized := False\<rparr>) = (t, s1)"
    by fastforce
  have "reached trace win bs (Streaming m []) (set_stage e ReadImage s)"
    using assms(2) reached_quiet [OF quiet_set_stage] by simp
  then have r1: "reached trace win bs (Streaming m []) s1" "\<not> synchronized s1"
    using quiet_now [OF o1] by (auto simp: reached_quiet quiet_synchronized)
  obtain x s2 where o2: "read_loop e (band_length m) deadline [] None None 0 t s1 = (x, s2)"
    by fastforce
  note t2 = read_loop_talk [OF o2 r1(1) _ r1(2)]
  show ?thesis
  proof (cases x)
    case (Inl er)
    then show ?thesis using assms(1) o1 o2 t2 by (auto simp: read_image_band_def)
  next
    case (Inr y)
    obtain raw f u where y: "y = (raw, f, u)" by (cases y)
    have r2: "length raw = band_length m" "reached trace win bs (Streaming m raw) s2"
      using t2 Inr y by auto
    have *: "read_image_band e (band_length m) deadline s =
      (let s = s2\<lparr>synchronized := True\<rparr> in case f of
         Some er \<Rightarrow> (case progress_error e er (length raw) (band_length m) u s of
            (er', s) \<Rightarrow> (Inl er', s))
       | None \<Rightarrow> (case checkpoint e deadline s of
            (Inl er, s) \<Rightarrow> (case progress_error e er (length raw) (band_length m) u s of
               (er', s) \<Rightarrow> (Inl er', s))
          | (Inr _, s) \<Rightarrow> (Inr raw, s)))"
      using o1 o2 Inr y by (simp add: read_image_band_def)
    have "quiet trace (s2\<lparr>synchronized := True\<rparr>) s' \<and> (r = Inr raw \<or> (\<exists>er. r = Inl er))"
      using assms(1) unfolding *
      by (auto simp: Let_def split: option.splits prod.splits sum.splits
          dest!: quiet_progress_error quiet_checkpoint intro: quiet_trans)
    then show ?thesis
      using r2 by (auto simp: reached_quiet quiet_synchronized)
  qed
qed

lemma take_image_talk:
  assumes "take_image e deadline request caps sm band s = (r, s')"
    and "parse_band m (mode request) = Inr band"
    and "reached trace win bs (Replied 0x28 m) s" and "synchronized s"
  shows "(\<exists>img h n. r = Inr (img, h, n) \<and> synchronized s'
            \<and> reached trace win bs (Streaming m (wire_data img)) s'
            \<and> length (wire_data img) = band_length m
            \<and> ib_rows img = bi_rows band \<and> ib_width img = bi_width band
            \<and> ib_mode img = mode request
            \<and> decode band (wire_data img) (mode request) (line_order caps) = Inr (pixels img)
            \<and> h = sm_height sm + ib_rows img \<and> h < 2 ^ 32
            \<and> n = sm_bytes sm + length (pixels img) \<and> \<not> over_limits sm band)
       \<or> (\<exists>er p. r = Inl er \<and> reached trace win bs p s'
            \<and> (synchronized s' \<longrightarrow> may_send win p (plain_command 0x06)))"
proof (cases "over_limits sm band")
  case True
  then show ?thesis using assms
    by (auto simp: take_image_def reached_quiet quiet_synchronized dest!: quiet_fail_job)
next
  case False
  have len: "bi_length band = band_length m" and fin: "final_band band = (m ! 3 = 0x81)"
    and good: "response_status m True = Inr Good" "m ! 3 \<in> {0x80, 0x81}"
    using assms(2) by (auto simp: parse_band_Inr_iff band_length_def)
  define s1 where "s1 = on_diag (set_opcode 0x29) (set_stage e ReadImage (s\<lparr>synchronized := False\<rparr>))"
  have "quiet trace (s\<lparr>synchronized := False\<rparr>) s1" by (simp add: s1_def)
  then have r1: "reached trace win bs (Replied 0x28 m) s1" "\<not> synchronized s1"
    using assms(3) by (auto simp: reached_quiet quiet_synchronized)
  have may: "may_send win (Replied 0x28 m) (plain_command 0x29)"
    using good by simp
  obtain w s2 where w: "timed_write e (plain_command 0x29) s1 = (w, s2)" by fastforce
  note t2 = timed_write_trace [OF w]
  show ?thesis
  proof (cases w)
    case (Inl er)
    have "reached trace win bs Lost s2" "\<not> synchronized s2"
      using r1 command_lost [OF may, of er] t2 Inl by (auto intro: reached_step)
    then show ?thesis using assms(1) False w Inl
      by (auto simp: take_image_def s1_def [symmetric] reached_quiet quiet_synchronized
          dest!: quiet_fail_job)
  next
    case (Inr u)
    have r2: "reached trace win bs (Streaming m []) s2"
      using r1 command_sent [OF may] t2 Inr
      by (auto intro: reached_step simp: plain_command_def)
    obtain x s3 where x: "read_image_band e (bi_length band) deadline s2 = (x, s3)" by fastforce
    note t3 = read_image_band_talk [OF x [unfolded len] r2]
    show ?thesis
    proof (cases x)
      case (Inl er)
      then show ?thesis using assms(1) False w x t3 \<open>w = Inr u\<close>
        by (auto simp: take_image_def s1_def [symmetric])
    next
      case (Inr raw)
      then have r3: "reached trace win bs (Streaming m raw) s3" "synchronized s3"
        "length raw = band_length m" using t3 by auto
      have q: "quiet trace s3 (set_stage e Decode s3)" by simp
      have r4: "reached trace win bs (Streaming m raw) (set_stage e Decode s3)"
        "synchronized (set_stage e Decode s3)"
        using r3 reached_quiet [OF q] quiet_synchronized [OF q] by auto
      show ?thesis using assms(1) False w x \<open>w = Inr u\<close> Inr r3(3) r4
        by (auto simp: take_image_def s1_def [symmetric] Let_def reached_quiet quiet_synchronized
            split: sum.splits if_splits dest!: quiet_fail_job)
    qed
  qed
qed

lemma read_band_talk:
  assumes "read_band fuel e deadline request caps sm s = Some ((r, f), s')"
    and "reached trace win bs p s" and "may_send win p (plain_command 0x28)" and "synchronized s"
    and "may_send win p (plain_command 0x06)"
  shows "(\<exists>band img h n m. r = Inr (band, img, h, n) \<and> synchronized s' \<and> \<not> f
            \<and> reached trace win bs (Streaming m (wire_data img)) s'
            \<and> length (wire_data img) = band_length m \<and> final_band band = (m ! 3 = 0x81)
            \<and> band_ok (mode request) (line_order caps) img
            \<and> h = sm_height sm + ib_rows img \<and> h < 2 ^ 32
            \<and> n = sm_bytes sm + length (pixels img) \<and> n \<le> MAX_JOB_BYTES
            \<and> sm_bands sm < 4096 \<and> (sm_width sm \<noteq> 0 \<longrightarrow> sm_width sm = ib_width img))
       \<or> (\<exists>er p. r = Inl er \<and> reached trace win bs p s'
            \<and> (synchronized s' \<longrightarrow> may_send win p (plain_command 0x06)))"
proof -
  have q: "quiet trace s (set_stage e ReadMetadata s)" by simp
  have r0: "reached trace win bs p (set_stage e ReadMetadata s)"
    "synchronized (set_stage e ReadMetadata s)"
    using assms(2,4) reached_quiet [OF q] quiet_synchronized [OF q] by auto
  obtain x att s1 where x: "ready_with_attempt fuel e 0x28 (sm_bands sm \<noteq> 0) deadline
      (set_stage e ReadMetadata s) = Some ((x, att), s1)"
    using assms(1) by (auto simp: read_band_def split: option.splits)
  have "polled 0x28" by (simp add: polled_def)
  note t1 = ready_with_attempt_talk [OF x r0(1) assms(3) this r0(2)]
  show ?thesis
  proof (cases x)
    case (Inl er)
    then obtain p' where p': "reached trace win bs p' s1"
      "synchronized s1 \<longrightarrow> may_send win p' (plain_command 0x06)"
      using t1 assms(5) by auto
    have "\<exists>er'. r = Inl er'" "quiet trace s1 s'"
      using assms(1) x Inl
      by (auto simp: read_band_def split: prod.splits if_splits bool.splits
          dest!: quiet_fail_job quiet_cancelled intro: quiet_trans)
    then show ?thesis using p' by (auto simp: reached_quiet quiet_synchronized)
  next
    case (Inr m)
    then have r1: "reached trace win bs (Replied 0x28 m) s1" "synchronized s1"
      using t1 by auto
    show ?thesis
    proof (cases "parse_band m (mode request)")
      case (Inl er)
      then have "\<exists>er'. r = Inl er'" "quiet trace s1 s'"
        using assms(1) x Inr
        by (auto simp: read_band_def split: prod.splits dest!: quiet_fail_job)
      moreover have "may_send win (Replied 0x28 m) (plain_command 0x06)" by simp
      ultimately show ?thesis
        using r1 by (auto simp: reached_quiet quiet_synchronized simp del: may_send.simps)
    next
      case band: (Inr band)
      obtain y s2 where y: "take_image e deadline request caps sm band s1 = (y, s2)" by fastforce
      note t2 = take_image_talk [OF y band r1]
      have fin: "final_band band = (m ! 3 = 0x81)" and pos: "0 < bi_width band" "0 < bi_rows band"
        and max: "bi_length band \<le> MAX_BAND_BYTES"
        "bi_width band * bi_rows band * channels (mode request) \<le> bi_length band"
        using band by (auto simp: parse_band_Inr_iff)
      show ?thesis
      proof (cases y)
        case (Inl er)
        then show ?thesis using assms(1) x Inr band y t2 by (auto simp: read_band_def)
      next
        case img: (Inr z)
        obtain img h n where z: "z = (img, h, n)" by (cases z)
        note t2 = t2 [unfolded img z, simplified]
        have dec: "decode band (wire_data img) (mode request) (line_order caps) = Inr (pixels img)"
          using t2 by simp
        note dl = decode_length [OF band dec]
        have "band_ok (mode request) (line_order caps) img"
          using t2 band dec dl pos max unfolding band_ok_def by auto
        moreover have "\<not> over_limits sm band" "length (pixels img) \<le> bi_length band"
          using t2 dl max by (auto simp: mult.commute)
        then have "sm_bytes sm + length (pixels img) \<le> MAX_JOB_BYTES" "sm_bands sm < 4096"
          "sm_width sm \<noteq> 0 \<longrightarrow> sm_width sm = ib_width img"
          using t2 by (auto simp: over_limits_def checked_add64_def split: if_splits)
        ultimately show ?thesis
          using assms(1) x Inr band y img z t2 fin by (auto simp: read_band_def)
      qed
    qed
  qed
qed

lemma sink_job_trace:
  "on_world (sink e img) s = (q, s') \<Longrightarrow>
     trace (world s') = trace (world s) @ [Consumed img q] \<and> synchronized s' = synchronized s"
  by (auto simp: on_world_def split: prod.splits dest: sink_trace)

lemma deliver_band_talk:
  assumes "deliver_band e deadline img h n sm s = (r, s')"
    and "reached trace win bs (Streaming m (wire_data img)) s" and "synchronized s"
    and "length (wire_data img) = band_length m"
  shows "synchronized s' \<and>
     ((r = Inr \<lparr>sm_width = ib_width img, sm_height = h, sm_bands = sm_bands sm + 1, sm_bytes = n\<rparr>
        \<and> reached trace win (bs @ [img]) (Delivered (m ! 3 = 0x81)) s')
      \<or> (\<exists>er p bs'. r = Inl er \<and> reached trace win bs' p s' \<and> (bs' = bs \<or> bs' = bs @ [img])
           \<and> may_send win p (plain_command 0x06)))"
proof -
  have qs: "quiet trace s (set_stage e Consumer s)" by simp
  have r0: "reached trace win bs (Streaming m (wire_data img)) (set_stage e Consumer s)"
    "synchronized (set_stage e Consumer s)"
    using assms(2,3) reached_quiet [OF qs] quiet_synchronized [OF qs] by auto
  obtain q s1 where q: "on_world (sink e img) (set_stage e Consumer s) = (q, s1)" by fastforce
  note t1 = sink_job_trace [OF q]
  show ?thesis
  proof (cases "q = Returned (Inr ())")
    case True
    let ?p = "Delivered (m ! 3 = 0x81)"
    let ?sm = "\<lparr>sm_width = ib_width img, sm_height = h, sm_bands = sm_bands sm + 1, sm_bytes = n\<rparr>"
    have r1: "reached trace win (bs @ [img]) ?p s1" "synchronized s1"
      using r0 consumed [OF assms(4) refl, of win] t1 True by (auto intro: reached_accept)
    obtain c s2 where c: "checkpoint e deadline (on_diag (record_band (sm_bands sm + 1) n) s1) = (c, s2)"
      by fastforce
    have "quiet trace s1 s2" using quiet_checkpoint [OF c] by simp
    then have r2: "reached trace win (bs @ [img]) ?p s2" "synchronized s2"
      using r1 by (auto simp: reached_quiet quiet_synchronized)
    have may: "may_send win ?p (plain_command 0x06)" by simp
    show ?thesis
    proof (cases c)
      case (Inl er)
      then have "fail_job e er ''after image consumer'' s2 = (r, s')"
        using assms(1) q True c by (simp add: deliver_band_def Let_def)
      from quiet_fail_job [OF this] obtain er' where "r = Inl er'"
        "reached trace win (bs @ [img]) ?p s'" "synchronized s'"
        using r2 by (auto simp: reached_quiet quiet_synchronized)
      with may show ?thesis by blast
    next
      case (Inr u)
      then have "(Inr ?sm, s2) = (r, s')"
        using assms(1) q True c by (simp add: deliver_band_def Let_def)
      with r2 show ?thesis by auto
    qed
  next
    case False
    have "reached trace win bs Rejected s1"
      using r0(1) refused [OF assms(4) refl False, of win] t1 False
      by (auto intro: reached_step simp: accepted_bands_refused)
    moreover have "synchronized s1" using t1 r0 by simp
    moreover have "(\<exists>er. r = Inl er) \<and> quiet trace s1 s'"
    proof (cases q)
      case (Returned x)
      with False obtain er where "q = Returned (Inl er)" by (cases x) auto
      then have "fail_job e er ''image consumer'' s1 = (r, s')"
        using assms(1) q by (simp add: deliver_band_def)
      from quiet_fail_job [OF this] show ?thesis by simp
    next
      case Panicked
      then have "fail_job e (io_other (Lit ''Image consumer panicked; job cancelled''))
          ''image consumer'' s1 = (r, s')"
        using assms(1) q by (simp add: deliver_band_def)
      from quiet_fail_job [OF this] show ?thesis by simp
    qed
    moreover have "may_send win Rejected (plain_command 0x06)" by simp
    ultimately show ?thesis
      by (metis reached_quiet quiet_synchronized)
  qed
qed

lemma band_loop_talk:
  assumes "band_loop fuel e deadline request caps sm s = Some ((r, f), s')"
    and "reached trace win bs p s" and "may_send win p (plain_command 0x28)" and "synchronized s"
    and "may_send win p (plain_command 0x06)"
    and "summarises bs sm" and "within_limits sm"
    and "\<forall>b \<in> set bs. band_ok (mode request) (line_order caps) b"
  shows "\<exists>bs'. (\<forall>b \<in> set bs'. band_ok (mode request) (line_order caps) b) \<and>
     ((\<exists>sm'. r = Inr sm' \<and> synchronized s' \<and> \<not> f \<and> summarises bs' sm' \<and> within_limits sm'
         \<and> bs' \<noteq> [] \<and> reached trace win bs' (Delivered True) s')
      \<or> (\<exists>er p. r = Inl er \<and> reached trace win bs' p s'
           \<and> (synchronized s' \<longrightarrow> may_send win p (plain_command 0x06))))"
  using assms
proof (induction "4096 - sm_bands sm" arbitrary: sm s p bs rule: less_induct)
  case less
  obtain x f1 s1 where x: "read_band fuel e deadline request caps sm s = Some ((x, f1), s1)"
    using less.prems(1) by (subst (asm) band_loop.simps) (auto split: option.splits)
  note t1 = read_band_talk [OF x less.prems(2-5)]
  note step = less.prems(1) [unfolded band_loop.simps [of fuel e deadline request caps sm s] x]
  show ?case
  proof (cases x)
    case (Inl er)
    then show ?thesis using step t1 less.prems(8) by auto
  next
    case (Inr z)
    obtain band img h n where z: "z = (band, img, h, n)" by (cases z)
    obtain m where m: "synchronized s1" "reached trace win bs (Streaming m (wire_data img)) s1"
      "length (wire_data img) = band_length m" "final_band band = (m ! 3 = 0x81)"
      and ok: "band_ok (mode request) (line_order caps) img" "h = sm_height sm + ib_rows img"
      "h < 2 ^ 32" "n = sm_bytes sm + length (pixels img)" "n \<le> MAX_JOB_BYTES"
      "sm_bands sm < 4096" "sm_width sm \<noteq> 0 \<longrightarrow> sm_width sm = ib_width img"
      using t1 Inr z by auto
    let ?sm = "\<lparr>sm_width = ib_width img, sm_height = h, sm_bands = sm_bands sm + 1, sm_bytes = n\<rparr>"
    obtain y s2 where y: "deliver_band e deadline img h n sm s1 = (y, s2)" by fastforce
    note t2 = deliver_band_talk [OF y m(2,1,3)]
    have all: "\<forall>b \<in> set (bs @ [img]). band_ok (mode request) (line_order caps) b"
      using less.prems(8) ok(1) by auto
    have sums: "summarises (bs @ [img]) ?sm"
      unfolding ok(2,4) using less.prems(6,8) ok(7)
      by (intro summarises_snoc) (auto simp: band_ok_def)
    have lim: "within_limits ?sm" using ok by (auto simp: within_limits_def)
    show ?thesis
    proof (cases y)
      case (Inl er)
      then obtain p' bs' where "r = Inl er" "s' = s2" "reached trace win bs' p' s2"
        "bs' = bs \<or> bs' = bs @ [img]" "may_send win p' (plain_command 0x06)"
        using step t2 Inr z y by auto
      then show ?thesis using all less.prems(8) by (intro exI [of _ bs']) auto
    next
      case (Inr sm')
      then have y': "sm' = ?sm" "synchronized s2"
        "reached trace win (bs @ [img]) (Delivered (final_band band)) s2"
        using t2 m(4) by auto
      show ?thesis
      proof (cases "final_band band")
        case True
        then have "r = Inr ?sm" "s' = s2" "\<not> f"
          using step \<open>x = Inr z\<close> z y Inr y' by auto
        then show ?thesis
          using y' True sums lim all by (intro exI [of _ "bs @ [img]"]) auto
      next
        case False
        then have next_loop: "band_loop fuel e deadline request caps ?sm s2 = Some ((r, f), s')"
          using step \<open>x = Inr z\<close> z y Inr y' by auto
        have "4096 - sm_bands ?sm < 4096 - sm_bands sm" using ok(6) by simp
        from less.hyps [OF this next_loop y'(3) _ y'(2) _ sums lim all] False
        show ?thesis by simp
      qed
    qed
  qed
qed

lemma exchange_job:
  assumes "exchange e cmd s = (r, s')" and "reached trace win bs p s" and "may_send win p cmd"
    and "cmd ! 2 = op" and "op \<noteq> 0x29"
  shows "(\<exists>b. r = Inr b \<and> well_framed op b \<and> synchronized s' \<and> reached trace win bs (Replied op b) s')
       \<or> (\<exists>er. r = Inl er \<and> \<not> synchronized s' \<and> reached trace win bs Lost s')"
  using exchange_talk [OF assms(1-3)] assms(4,5) by simp

lemma reserved_job_talk:
  assumes "reserved_job fuel e deadline request caps w s = Some ((r, f), s')"
    and "reached trace (Some (raw, w)) [] (Replied 0x16 b) s" and "good_reply b" and "synchronized s"
    and "w ! 2 = 0x24"
  shows "\<exists>bs'. (\<forall>b \<in> set bs'. band_ok (mode request) (line_order caps) b) \<and>
     ((\<exists>sm'. r = Inr sm' \<and> synchronized s' \<and> \<not> f \<and> summarises bs' sm' \<and> within_limits sm'
         \<and> bs' \<noteq> [] \<and> reached trace (Some (raw, w)) bs' (Delivered True) s')
      \<or> (\<exists>er p. r = Inl er \<and> reached trace (Some (raw, w)) bs' p s'
           \<and> (synchronized s' \<longrightarrow> may_send (Some (raw, w)) p (plain_command 0x06))))"
proof -
  have early: ?thesis
    if "fail_job e er d u = (r, s')" and "reached trace (Some (raw, w)) [] p u"
      and "synchronized u \<longrightarrow> may_send (Some (raw, w)) p (plain_command 0x06)" for er d p u
    using quiet_fail_job [OF that(1)] that(2,3)
    by (intro exI [of _ "[]"]) (auto simp: reached_quiet quiet_synchronized)
  define s1 where "s1 = on_diag (set_opcode 0x24) (set_stage e SetWindow s)"
  have "quiet trace s s1" by (simp add: s1_def)
  then have r1: "reached trace (Some (raw, w)) [] (Replied 0x16 b) s1" "synchronized s1"
    using assms(2,4) by (auto simp: reached_quiet quiet_synchronized)
  obtain c s2 where c: "checkpoint e deadline s1 = (c, s2)" by fastforce
  have r2: "reached trace (Some (raw, w)) [] (Replied 0x16 b) s2" "synchronized s2"
    using r1 quiet_checkpoint [OF c] by (auto simp: reached_quiet quiet_synchronized)
  have may16: "may_send (Some (raw, w)) (Replied 0x16 b) w"
    "may_send (Some (raw, w)) (Replied 0x16 b) (plain_command 0x06)" using assms(3) by simp_all
  have may24: "may_send (Some (raw, w)) (Replied 0x24 m) (plain_command 0x06)" for m by simp
  have may31: "may_send (Some (raw, w)) (Replied 0x31 m) (plain_command 0x06)" for m by simp
  show ?thesis
  proof (cases c)
    case (Inl er)
    then have "fail_job e er ''before SET_WINDOW'' s2 = (r, s')"
      using assms(1) c by (auto simp: reserved_job_def s1_def Let_def split: prod.splits)
    from early [OF this r2(1)] may16 show ?thesis by blast
  next
    case (Inr u)
    obtain x s3 where x: "exchange e w s2 = (x, s3)" by fastforce
    note t3 = exchange_job [OF x r2(1) may16(1) assms(5), simplified]
    show ?thesis
    proof (cases x)
      case (Inl er)
      then have "fail_job e er ''SET_WINDOW'' s3 = (r, s')"
        using assms(1) c x \<open>c = Inr u\<close> by (auto simp: reserved_job_def s1_def Let_def split: prod.splits)
      with early t3 Inl show ?thesis by blast
    next
      case (Inr m)
      then have r3: "reached trace (Some (raw, w)) [] (Replied 0x24 m) s3" "synchronized s3" using t3 by auto
      show ?thesis
      proof (cases "response_status m False")
        case (Inl er)
        then have "fail_job e er ''SET_WINDOW response'' s3 = (r, s')"
          using assms(1) c x \<open>c = Inr u\<close> Inr by (auto simp: reserved_job_def s1_def Let_def split: prod.splits)
        from early [OF this r3(1)] may24 show ?thesis by blast
      next
        case st: (Inr st)
        have q: "quiet trace s3 (set_stage e scan_stage.Start s3)" by simp
        have r4: "reached trace (Some (raw, w)) [] (Replied 0x24 m) (set_stage e scan_stage.Start s3)"
          "synchronized (set_stage e scan_stage.Start s3)"
          using r3 reached_quiet [OF q] quiet_synchronized [OF q] by auto
        have may: "may_send (Some (raw, w)) (Replied 0x24 m) (plain_command 0x31)" using st by auto
        obtain y att s5 where y: "ready_with_attempt fuel e 0x31 True deadline
            (set_stage e scan_stage.Start s3) = Some ((y, att), s5)"
          using assms(1) c x \<open>c = Inr u\<close> Inr st
          by (auto simp: reserved_job_def s1_def Let_def ready_def split: option.splits)
        have "polled 0x31" by (simp add: polled_def)
        note t5 = ready_with_attempt_talk [OF y r4(1) may this r4(2)]
        note job = assms(1) [unfolded reserved_job_def Let_def, folded s1_def]
        show ?thesis
        proof (cases y)
          case (Inl er)
          then have "fail_job e er ''START'' s5 = (r, s')"
            using job c x y \<open>c = Inr u\<close> Inr st by (auto simp: ready_def split: prod.splits)
          with early t5 Inl may24 may31 show ?thesis by blast
        next
          case (Inr n)
          then have r5: "reached trace (Some (raw, w)) [] (Replied 0x31 n) s5" "synchronized s5" "good_reply n"
            using t5 by (auto simp: good_reply_def)
          have loop: "band_loop fuel e deadline request caps empty_summary s5 = Some ((r, f), s')"
            using job c x y \<open>c = Inr u\<close> \<open>x = Inr m\<close> st Inr by (auto simp: ready_def)
          have "summarises [] empty_summary" "within_limits empty_summary"
            by (simp_all add: summarises_def within_limits_def empty_summary_def)
          from band_loop_talk [OF loop r5(1) _ r5(2) may31 this] r5(3) show ?thesis by simp
        qed
      qed
    qed
  qed
qed

lemma prepare_job_talk:
  assumes "prepare_job e deadline s = (r, s')" and "trace (world s) = []"
  shows "(\<exists>er health p. r = Inl (er, health) \<and> reached trace None [] p s'
            \<and> (health = Ready \<longrightarrow> p = Fresh \<or> (\<exists>raw. p = Replied 0x12 raw)))
       \<or> (\<exists>request caps w raw. r = Inr (request, caps, w) \<and> parse raw = Inr caps
            \<and> command request caps = Inr w \<and> synchronized s'
            \<and> reached trace (Some (raw, w)) [] (Replied 0x12 raw) s')"
proof -
  have early: ?thesis
    if "(let (er', s) = diag_error e er d u in (Inl (er', health), s)) = (r, s')"
      and "reached trace None [] p u"
      and "health = Ready \<longrightarrow> p = Fresh \<or> (\<exists>raw. p = Replied 0x12 raw)" for er d p u health
  proof -
    obtain er' v where v: "diag_error e er d u = (er', v)" by fastforce
    then have "r = Inl (er', health)" and "quiet trace u s'"
      using that(1) quiet_diag_error [OF v] by auto
    moreover have "reached trace None [] p s'"
      using that(2) \<open>quiet trace u s'\<close> by (simp add: reached_quiet)
    ultimately show ?thesis using that(3) by blast
  qed
  define s1 where "s1 = on_diag (set_opcode 0x12) (set_stage e Inquiry s)"
  have "quiet trace s s1" by (simp add: s1_def)
  then have r1: "reached trace win [] Fresh s1" for win
    using assms(2) by (auto simp: reached_def quiet_def)
  obtain c s2 where c: "checkpoint e deadline s1 = (c, s2)" by fastforce
  have r2: "reached trace win [] Fresh (s2\<lparr>synchronized := True\<rparr>)" for win
    using r1 quiet_checkpoint [OF c] by (simp add: reached_quiet)
  note job = assms(1) [unfolded prepare_job_def Let_def, folded s1_def]
  show ?thesis
  proof (cases c)
    case (Inl er)
    then show ?thesis using job c r2
      by (intro early [of er "Lit ''before inquiry''" s2 Ready Fresh]) (auto simp: Let_def)
  next
    case (Inr u)
    obtain x s3 where x: "exchange e (plain_command 0x12) (s2\<lparr>synchronized := True\<rparr>) = (x, s3)"
      by fastforce
    have op: "plain_command 0x12 ! 2 = 0x12" by (simp add: plain_command_def)
    have "may_send win Fresh (plain_command 0x12)" for win by simp
    note t3 = exchange_job [OF x r2 this op]
    show ?thesis
    proof (cases x)
      case (Inl er)
      then have "reached trace None [] Lost s3" using t3 by auto
      then show ?thesis using job c x \<open>c = Inr u\<close> Inl
        by (intro early [of er "Lit ''INQUIRY''" s3 NeedsReconnect Lost]) (auto simp: Let_def)
    next
      case (Inr raw)
      then have r3: "reached trace win [] (Replied 0x12 raw) s3" "synchronized s3" for win
        using t3 [of win] by auto
      show ?thesis
      proof (cases "parse raw")
        case (Inl er)
        then show ?thesis using job c x \<open>c = Inr u\<close> Inr r3
          by (intro early [of er "Lit ''capability response''" s3 NeedsReconnect "Replied 0x12 raw"])
            (auto simp: Let_def)
      next
        case caps: (Inr caps)
        define s4 where "s4 = on_diag (set_opcode 0x24) (set_stage e Prepare s3)"
        obtain y s5 where y: "on_world (prepare e raw) s4 = (y, s5)" by fastforce
        have "quiet trace s3 s4" by (simp add: s4_def)
        then have "quiet trace s3 s5" using quiet_prepare [OF y] by (rule quiet_trans)
        then have r5: "reached trace win [] (Replied 0x12 raw) s5" "synchronized s5" for win
          using r3 by (auto simp: reached_quiet quiet_synchronized)
        note run = job c x \<open>c = Inr u\<close> Inr caps y [unfolded s4_def]
        show ?thesis
        proof (cases y)
          case Panicked
          then show ?thesis using run r5
            by (intro early [of "io_other (Lit ''Scan preparation panicked'')"
                "Lit ''scan request''" s5 NeedsReconnect "Replied 0x12 raw"]) (auto simp: Let_def)
        next
          case (Returned z)
          show ?thesis
          proof (cases z)
            case (Inl er)
            then show ?thesis using run r5 Returned
              by (intro early [of er "Lit ''scan request''" s5 Ready "Replied 0x12 raw"]) (auto simp: Let_def)
          next
            case (Inr request)
            show ?thesis
            proof (cases "command request caps")
              case (Inl er)
              then show ?thesis using run r5 Returned \<open>z = Inr request\<close>
                by (intro early [of er "Lit ''SET_WINDOW command construction''" s5 Ready "Replied 0x12 raw"]) (auto simp: Let_def)
            next
              case (Inr w)
              then have "r = Inr (request, caps, w)" "s' = s5"
                using run Returned \<open>z = Inr request\<close> by simp_all
              with Inr caps r5 show ?thesis by blast
            qed
          qed
        qed
      qed
    qed
  qed
qed

lemma finish_loop_last:
  assumes "finish_loop e [0x17] errors s = (errors', s')"
    and "reached trace job bs p s" and "may_send job p (plain_command 0x17)"
  shows "\<exists>p'. reached trace job bs p' s'
    \<and> (errors' = [] \<longrightarrow> errors = [] \<and> (\<exists>b. p' = Replied 0x17 b \<and> good_reply b))"
proof -
  obtain r s1 where x: "exchange e (plain_command 0x17) (on_diag (set_opcode 0x17) s) = (r, s1)"
    by fastforce
  have r0: "reached trace job bs p (on_diag (set_opcode 0x17) s)"
    using assms(2) by (simp add: reached_def on_diag_def)
  have t: "(\<exists>b. r = Inr b \<and> well_framed 0x17 b \<and> synchronized s1
          \<and> reached trace job bs (Replied 0x17 b) s1)
       \<or> (\<exists>er. r = Inl er \<and> \<not> synchronized s1 \<and> reached trace job bs Lost s1)"
    by (rule exchange_job [OF x r0 assms(3)]) (simp_all add: plain_command_def)
  have "s' = s1"
    "errors' = (case cleanup_result r of Inl er \<Rightarrow> errors @ [Shown er] | Inr _ \<Rightarrow> errors)"
    using assms(1) x by (auto simp: Let_def split: if_splits)
  then show ?thesis
    using t by (cases r) (auto simp: cleanup_result_def [of "Inl _"] split: sum.splits
        simp flip: cleanup_result_Inr_iff)
qed

lemma finish_talk:
  assumes "finish e abort s = (r, s')" and "reached trace job bs p s"
    and "synchronized s \<longrightarrow> may_send job p (plain_command (if abort then 0x06 else 0x17))"
  shows "\<exists>p'. reached trace job bs p' s'
    \<and> (r = Inr () \<longrightarrow> (\<exists>b. p' = Replied 0x17 b \<and> good_reply b))"
proof (cases "synchronized s")
  case False
  then show ?thesis using assms(1,2) by (auto simp: finish_def)
next
  case True
  then obtain errors where l: "finish_loop e (if abort then [0x06, 0x17] else [0x17]) [] s = (errors, s')"
    and r: "r = Inr () \<longrightarrow> errors = []"
    using assms(1) by (auto simp: finish_def Let_def split: prod.splits if_splits)
  show ?thesis
  proof (cases abort)
    case False
    then have "finish_loop e [0x17] [] s = (errors, s')" using l by simp
    from finish_loop_last [OF this assms(2)] False r True assms(3) show ?thesis by auto
  next
    case abort: True
    obtain x s1 where x: "exchange e (plain_command 0x06) (on_diag (set_opcode 0x06) s) = (x, s1)"
      by fastforce
    let ?errors = "case cleanup_result x of Inl er \<Rightarrow> [Shown er] | Inr _ \<Rightarrow> []"
    have "reached trace job bs p (on_diag (set_opcode 0x06) s)"
      using assms(2) by (simp add: reached_def on_diag_def)
    moreover have "may_send job p (plain_command 0x06)" using assms(3) True abort by simp
    ultimately have t: "(\<exists>b. x = Inr b \<and> well_framed 0x06 b \<and> synchronized s1
          \<and> reached trace job bs (Replied 0x06 b) s1)
       \<or> (\<exists>er. x = Inl er \<and> \<not> synchronized s1 \<and> reached trace job bs Lost s1)"
      by (intro exchange_job [OF x]) (simp_all add: plain_command_def)
    show ?thesis
    proof (cases "synchronized s1")
      case False
      then show ?thesis using l abort x t r by (auto simp: cleanup_result_def)
    next
      case sync: True
      then obtain b where b: "reached trace job bs (Replied 0x06 b) s1" using t by auto
      have "finish_loop e [0x17] ?errors s1 = (errors, s')"
        using l abort x sync by (cases "cleanup_result x") (simp_all add: Let_def)
      from finish_loop_last [OF this b] r show ?thesis by auto
    qed
  qed
qed

lemma clean_up_talk:
  assumes "clean_up e result f s = ((r, health), s')" and "reached trace job bs p s"
    and "synchronized s \<longrightarrow> may_send job p (plain_command (if is_err result then 0x06 else 0x17))"
  shows "\<exists>p'. reached trace job bs p' s'
    \<and> (health = Ready \<longrightarrow> \<not> f \<and> (\<exists>b. p' = Replied 0x17 b \<and> good_reply b))
    \<and> (\<forall>sm. r = Inr sm \<longrightarrow> result = Inr sm \<and> (\<exists>b. p' = Replied 0x17 b \<and> good_reply b)
          \<and> (\<not> f \<longrightarrow> health = Ready))"
proof -
  have q: "quiet trace s (set_stage e Cleanup s)" by simp
  obtain c s1 where fin: "finish e (is_err result) (set_stage e Cleanup s) = (c, s1)" by fastforce
  have r0: "reached trace job bs p (set_stage e Cleanup s)"
    using assms(2) reached_quiet [OF q] by simp
  have "synchronized (set_stage e Cleanup s) \<longrightarrow>
      may_send job p (plain_command (if is_err result then 0x06 else 0x17))"
    using assms(3) quiet_synchronized [OF q] by simp
  from finish_talk [OF fin r0 this] obtain p' where p': "reached trace job bs p' s1"
    "c = Inr () \<longrightarrow> (\<exists>b. p' = Replied 0x17 b \<and> good_reply b)" by blast
  show ?thesis
  proof (cases c)
    case (Inl er)
    obtain x :: "unit io" and s2 where x: "fail_job e er ''cleanup'' s1 = (x, s2)" by fastforce
    then obtain er' where x': "x = Inl er'" "quiet trace s1 s2" using quiet_fail_job by blast
    then have "s' = s2" "health = NeedsReconnect" "\<exists>er. r = Inl er"
      using assms(1) fin Inl x by (auto simp: clean_up_def Let_def is_err_def merge_output_def
          split: sum.splits)
    moreover have "reached trace job bs p' s2" using p' x' by (simp add: reached_quiet)
    ultimately show ?thesis by auto
  next
    case (Inr u)
    then have "s' = s1" "health = (if f then NeedsReconnect else Ready)" "r = result"
      using assms(1) fin by (auto simp: clean_up_def Let_def is_err_def merge_output_def
          split: sum.splits)
    with p' Inr show ?thesis by auto
  qed
qed

lemma run_observed_talk:
  assumes "run_observed fuel e s = Some ((r, health), s')" and "trace (world s) = []"
  shows "job_guarantee (trace (world s')) r health"
proof -
  obtain t s1 where t: "now e s = (t, s1)" by fastforce
  have "trace (world s1) = []" using quiet_now [OF t] assms(2) by (simp add: quiet_def)
  moreover obtain x s2 where x: "prepare_job e (t + seconds 120) s1 = (x, s2)" by fastforce
  ultimately have x': "(\<exists>er health p. x = Inl (er, health) \<and> reached trace None [] p s2
            \<and> (health = Ready \<longrightarrow> p = Fresh \<or> (\<exists>raw. p = Replied 0x12 raw)))
       \<or> (\<exists>request caps w raw. x = Inr (request, caps, w) \<and> parse raw = Inr caps
            \<and> command request caps = Inr w \<and> synchronized s2
            \<and> reached trace (Some (raw, w)) [] (Replied 0x12 raw) s2)"
    using prepare_job_talk by blast
  note run = assms(1) [unfolded run_observed_def] t x
  show ?thesis
  proof (cases x)
    case (Inl y)
    then show ?thesis using run x'
      by (auto simp: Let_def job_guarantee_def reached_def intro!: exI [of _ None])
  next
    case (Inr y)
    then obtain request caps w raw where y: "y = (request, caps, w)" "parse raw = Inr caps"
      "command request caps = Inr w" "synchronized s2"
      "reached trace (Some (raw, w)) [] (Replied 0x12 raw) s2"
      using x' by auto
    have w: "w ! 2 = 0x24"
      using y(3) by (auto simp: command_Inr_iff window_bytes_eq)
    let ?s = "set_stage e Reserve s2"
    have q: "quiet trace s2 ?s" by simp
    have r2: "reached trace (Some (raw, w)) [] (Replied 0x12 raw) ?s" "synchronized ?s"
      using y(4,5) reached_quiet [OF q] quiet_synchronized [OF q] by auto
    obtain z att s3 where z: "ready_with_attempt fuel e 0x16 True (t + seconds 120) ?s
        = Some ((z, att), s3)"
      using run Inr y(1) by (auto simp: Let_def split: option.splits)
    have "may_send (Some (raw, w)) (Replied 0x12 raw) (plain_command 0x16)" by simp
    note t3 = ready_with_attempt_talk [OF z r2(1) this _ r2(2)]
    show ?thesis
    proof (cases z)
      case (Inl er)
      then obtain er' where "quiet trace s3 s'" "r = Inl er'" "health = (if att then NeedsReconnect else Ready)"
        using run Inr y(1) z by (auto simp: Let_def split: prod.splits dest!: quiet_fail_job)
      moreover obtain p where "reached trace (Some (raw, w)) [] p s3" "\<not> att \<longrightarrow> p = Replied 0x12 raw"
        using t3 Inl by (auto simp: polled_def)
      ultimately have "reached trace (Some (raw, w)) [] p s'" "health = Ready \<longrightarrow> p = Replied 0x12 raw"
        by (auto simp: reached_quiet)
      then show ?thesis using y(2,3) \<open>r = Inl er'\<close>
        unfolding job_guarantee_def reached_def by (intro exI [of _ "Some (raw, w)"]) auto
    next
      case (Inr b)
      then have b: "reached trace (Some (raw, w)) [] (Replied 0x16 b) s3" "good_reply b"
        "synchronized s3"
        using t3 by (auto simp: polled_def good_reply_def)
      obtain result f s4 where job: "reserved_job fuel e (t + seconds 120) request caps w s3
          = Some ((result, f), s4)"
        and clean: "clean_up e result f s4 = ((r, health), s')"
        using run \<open>x = Inr y\<close> y(1) z Inr by (auto simp: Let_def split: option.splits)
      obtain bs p where bs: "\<forall>b \<in> set bs. band_ok (mode request) (line_order caps) b"
        and p: "reached trace (Some (raw, w)) bs p s4"
          "synchronized s4 \<longrightarrow> may_send (Some (raw, w)) p
             (plain_command (if is_err result then 0x06 else 0x17))"
        and sm: "\<forall>sm. result = Inr sm \<longrightarrow> \<not> f \<and> summarises bs sm \<and> within_limits sm \<and> bs \<noteq> []"
        using reserved_job_talk [OF job b w] by (fastforce simp: is_err_def)
      from clean_up_talk [OF clean p] obtain p' where "reached trace (Some (raw, w)) bs p' s'"
        "health = Ready \<longrightarrow> \<not> f \<and> (\<exists>b. p' = Replied 0x17 b \<and> good_reply b)"
        "\<forall>sm. r = Inr sm \<longrightarrow> result = Inr sm \<and> (\<exists>b. p' = Replied 0x17 b \<and> good_reply b)
          \<and> (\<not> f \<longrightarrow> health = Ready)" by (elim exE conjE) (rule that)
      then show ?thesis using y(2,3) bs sm
        unfolding job_guarantee_def reached_def by (intro exI [of _ "Some (raw, w)"]) auto
    qed
  qed
qed

lemma run_job_talk:
  assumes "run_job fuel e tuning w = Some ((r, health), p, w')" and "trace w = []"
  shows "job_guarantee (trace w') r health"
proof (cases "validate_tuning tuning")
  case (Inl er)
  then show ?thesis using assms
    by (auto simp: run_job_def job_guarantee_def intro!: exI [of _ None])
next
  case (Inr u)
  obtain t0 w0 where c0: "clock e w = (t0, w0)" by fastforce
  obtain t1 w1 where c1: "clock e w0 = (t1, w1)" by fastforce
  have w1: "trace w1 = []"
    using clock_trace [OF c0] clock_trace [OF c1] assms(2) by simp
  let ?s = "start_job tuning t0 t1 w1"
  obtain s1 t s2 where r: "run_observed fuel e ?s = Some ((r, health), s1)"
    and n: "now e (set_stage e (stage (diag s1)) s1) = (t, s2)" and w': "w' = world s2"
    using assms(1) Inr c0 c1
    by (auto simp: run_job_def Let_def split: option.splits prod.splits)
  have "quiet trace s1 s2"
    using quiet_trans [OF quiet_set_stage quiet_now [OF n]] .
  then have "trace w' = trace (world s1)" by (simp add: w' quiet_def)
  with run_observed_talk [OF r] w1 show ?thesis by simp
qed

end

section \<open>Every environment, with a log\<close>

definition logged :: "'w env \<Rightarrow> ('w \<times> event list) env" where
  "logged e =
     \<lparr>usb_write = (\<lambda>c (w, log). case usb_write e c w of (r, w') \<Rightarrow> (r, (w', log @ [Wrote c r]))),
      usb_read = (\<lambda>n (w, log). case usb_read e n w of (r, w') \<Rightarrow> (r, (w', log @ [Received n r]))),
      clock = (\<lambda>(w, log). case clock e w of (t, w') \<Rightarrow> (t, (w', log))),
      cancel_flag = (\<lambda>(w, log). case cancel_flag e w of (c, w') \<Rightarrow> (c, (w', log))),
      thread_sleep = (\<lambda>d (w, log). (thread_sleep e d w, log)),
      sink = (\<lambda>img (w, log). case sink e img w of (r, w') \<Rightarrow> (r, (w', log @ [Consumed img r]))),
      prepare = (\<lambda>raw (w, log). case prepare e raw w of (r, w') \<Rightarrow> (r, (w', log)))\<rparr>"

interpretation log: recorded "logged e" snd for e :: "'w env"
  by unfold_locales (auto simp: logged_def split: prod.splits)

lemma logged_job:
  "run_job fuel (logged e) tuning (w, []) = Some ((r, health), p, (w', log)) \<Longrightarrow>
     job_guarantee log r health"
  using log.run_job_talk [of fuel e tuning "(w, [])" r health p "(w', log)"] by simp

end
