(* ===== verification/Scan_Properties.thy ===== *)
theory Scan_Properties
  imports Scan_Conversation
begin

text \<open>
  What follows from the contract of \<open>Scan_Conversation\<close> for every scan job: the order of
  commands, the reservation, failures, the consumer and the summary. A scripted device
  gives the concrete run that the witnesses use.
\<close>

section \<open>Histories of conversations\<close>

lemma talk_append:
  "talk job p (xs @ ys) q \<longleftrightarrow> (\<exists>r. talk job p xs r \<and> talk job r ys q)"
proof (induction ys arbitrary: q rule: rev_induct)
  case Nil
  then show ?case by (auto elim: talk.cases)
next
  case (snoc y ys)
  have "talk job p ((xs @ ys) @ [y]) q \<longleftrightarrow> (\<exists>r. talk job p (xs @ ys) r \<and> device_step job r y q)"
    by (subst talk.simps) auto
  moreover have "talk job r (ys @ [y]) q \<longleftrightarrow> (\<exists>u. talk job r ys u \<and> device_step job u y q)" for r
    by (subst talk.simps) auto
  ultimately show ?case using snoc by auto
qed

lemma talk_Cons: "talk job p (ev # evs) q \<longleftrightarrow> (\<exists>r. device_step job p ev r \<and> talk job r evs q)"
proof -
  have "talk job p [ev] r \<longleftrightarrow> device_step job p ev r" for r
    by (subst talk.simps) (auto elim: talk.cases)
  with talk_append [of job p "[ev]" evs q] show ?thesis by simp
qed

text \<open>A set of phases that no event leaves, and what its events have in common.\<close>

lemma talk_closed:
  assumes "talk job p evs q" and "P p"
    and "\<And>p ev q. P p \<Longrightarrow> device_step job p ev q \<Longrightarrow> P q \<and> E ev"
  shows "P q \<and> (\<forall>ev \<in> set evs. E ev)"
  using assms(1,2) by (induction rule: talk.induct) (auto dest: assms(3))

lemma talk_Lost: "talk job Lost evs q \<Longrightarrow> evs = []"
  by (cases evs) (auto simp: talk_Cons elim: Lost_stepE)

definition broken :: "event \<Rightarrow> bool" where
  "broken ev \<longleftrightarrow> (case ev of
     Wrote c r \<Rightarrow> is_err r
   | Received n r \<Rightarrow> (case r of Inl er \<Rightarrow> True | Inr b \<Rightarrow> n < length b)
   | Consumed img r \<Rightarrow> False)"

lemma broken_step: "device_step job p ev q \<Longrightarrow> broken ev \<Longrightarrow> q = Lost"
  by (cases rule: device_step.cases) (auto simp: broken_def is_err_def well_framed_def)

text \<open>After a refusal only ABORT, RELEASE and their replies follow.\<close>

definition closing :: "phase \<Rightarrow> bool" where
  "closing p \<longleftrightarrow> p \<in> {Rejected, Lost, Awaiting 0x06, Awaiting 0x17}
     \<or> (\<exists>b. p = Replied 0x06 b \<or> p = Replied 0x17 b)"

definition closing_event :: "event \<Rightarrow> bool" where
  "closing_event ev \<longleftrightarrow> (case ev of
     Wrote c r \<Rightarrow> c = plain_command 0x06 \<or> c = plain_command 0x17
   | Received n r \<Rightarrow> n = 1024
   | Consumed img r \<Rightarrow> False)"

lemma closing_step:
  "closing p \<Longrightarrow> device_step job p ev q \<Longrightarrow> closing q \<and> closing_event ev"
  by (cases rule: device_step.cases)
    (auto simp: closing_def closing_event_def plain_command_def)

text \<open>The phases in which the scanner is reserved for this job.\<close>

definition holds_reservation :: "phase \<Rightarrow> bool" where
  "holds_reservation p \<longleftrightarrow> (case p of
     Fresh \<Rightarrow> False
   | Awaiting op \<Rightarrow> op \<notin> {0x12, 0x16}
   | Replied op b \<Rightarrow> op \<noteq> 0x12 \<and> (op = 0x16 \<longrightarrow> good_reply b)
   | Lost \<Rightarrow> False
   | _ \<Rightarrow> True)"

definition reserved_in :: "event list \<Rightarrow> bool" where
  "reserved_in log \<longleftrightarrow> (\<exists>xs b ys. good_reply b \<and>
     log = xs @ [Wrote (plain_command 0x16) (Inr ()), Received 1024 (Inr b)] @ ys)"

lemma reserved_in_snoc: "reserved_in log \<Longrightarrow> reserved_in (log @ [ev])"
  unfolding reserved_in_def by (metis append.assoc)

section \<open>A scripted device\<close>

text \<open>
  An environment for witnesses: the world is the list of replies still to come, time
  stands still, the host never cancels and the consumer always answers \<open>v\<close>.
\<close>

definition colour_request :: scan_request where
  "colour_request = sample_request\<lparr>mode := Rgb\<rparr>"

definition colour_caps :: capabilities where
  "colour_caps = sample_caps\<lparr>identity := ''Xerox WorkCentre 3119''\<rparr>"

definition colour_window :: bytes where
  "colour_window = sample_window[19 := 5]"

lemma colour_command: "command colour_request colour_caps = Inr colour_window"
  by (simp add: command_Inr_iff colour_request_def sample_request_def colour_caps_def
      sample_caps_def colour_window_def sample_window_def resolution_code_def window_bytes_eq
      unsupported_format_def bad_region_def within_iff set_resolutions dpi_bits_def be_bytes_4)

lemma colour_frame_parses: "parse sample_frame = Inr colour_caps"
  by (simp add: sample_frame_parses colour_caps_def sample_caps_def)

definition scripted :: "unit io outcome \<Rightarrow> bytes io list env" where
  "scripted v =
     \<lparr>usb_write = (\<lambda>c w. (Inr (), w)),
      usb_read = (\<lambda>n w. case w of [] \<Rightarrow> (Inr [], []) | r # w' \<Rightarrow> (r, w')),
      clock = (\<lambda>w. (0, w)),
      cancel_flag = (\<lambda>w. (False, w)),
      thread_sleep = (\<lambda>d w. w),
      sink = (\<lambda>img w. (v, w)),
      prepare = (\<lambda>raw w. (Returned (Inr colour_request), w))\<rparr>"

definition ack :: bytes where
  "ack = [0xa8, 0, 29] @ replicate 29 0"

definition sample_script :: "bytes io list \<Rightarrow> bytes io list" where
  "sample_script tail = [Inr sample_frame, Inr ack, Inr ack, Inr ack, Inr sample_metadata,
     Inr sample_raw] @ tail"

definition at :: "bytes io list \<Rightarrow> event list \<Rightarrow> bool \<Rightarrow> (bytes io list \<times> event list) job \<Rightarrow> bool" where
  "at script log sync s \<longleftrightarrow>
     world s = (script, log) \<and> synchronized s = sync \<and> read_buffer_bytes (diag s) = 65536"

text \<open>
  The recorded scripted device, with a consumer whose answer may depend on what has
  happened so far.
\<close>

definition answering ::
    "(event list \<Rightarrow> image_band \<Rightarrow> unit io outcome) \<Rightarrow> (bytes io list \<times> event list) env" where
  "answering f = (logged (scripted (Returned (Inr ()))))
     \<lparr>sink := (\<lambda>img (w, log). (f log img, (w, log @ [Consumed img (f log img)])))\<rparr>"

abbreviation logged_script :: "unit io outcome \<Rightarrow> (bytes io list \<times> event list) env" where
  "logged_script v \<equiv> logged (scripted v)"

lemma answering_constant: "logged_script v = answering (\<lambda>log img. v)"
  by (simp add: answering_def logged_def scripted_def)

lemma answering_simps [simp]:
  "usb_write (answering f) c (w, log) = (Inr (), (w, log @ [Wrote c (Inr ())]))"
  "usb_read (answering f) n (r # w, log) = (r, (w, log @ [Received n r]))"
  "clock (answering f) x = (0, x)"
  "cancel_flag (answering f) x = (False, x)"
  "sink (answering f) img (w, log) = (f log img, (w, log @ [Consumed img (f log img)]))"
  "prepare (answering f) raw x = (Returned (Inr colour_request), x)"
  by (simp_all add: answering_def logged_def scripted_def split: prod.splits)

lemma at_now [simp]: "now (answering f) s = (0, s)"
  by (simp add: now_def on_world_def)

lemma at_cancelled [simp]: "cancelled (answering f) s = (False, s)"
  by (simp add: cancelled_def on_world_def)

lemma at_checkpoint [simp]: "0 < d \<Longrightarrow> checkpoint (answering f) d s = (Inr (), s)"
  by (simp add: checkpoint_def checkpoint_deadline_def)

lemma at_checkpoint_deadline [simp]: "0 < d \<Longrightarrow> checkpoint_deadline (answering f) d s = (Inr (), s)"
  by (simp add: checkpoint_deadline_def)

lemma at_set_stage [simp]: "at sc l y (set_stage (answering f) st s) = at sc l y s"
  by (simp add: set_stage_def on_diag_def at_def enter_stage_def Let_def)

lemma at_set_opcode [simp]: "at sc l y (on_diag (set_opcode op) s) = at sc l y s"
  by (simp add: on_diag_def at_def set_opcode_def)

lemma at_record_band [simp]: "at sc l y (on_diag (record_band n b) s) = at sc l y s"
  by (simp add: on_diag_def at_def record_band_def)

lemma at_synchronized [simp]: "at sc l y (s\<lparr>synchronized := z\<rparr>) \<longleftrightarrow> y = z \<and> (\<exists>y. at sc l y s)"
  by (auto simp: at_def)

lemma at_write:
  "at sc l y s \<Longrightarrow> \<exists>s'. timed_write (answering f) c s = (Inr (), s') \<and> at sc (l @ [Wrote c (Inr ())]) y s'"
  by (auto simp: timed_write_def at_def on_world_def Let_def)

lemma at_read:
  "at (r # sc) l y s \<Longrightarrow> \<exists>s'. timed_read (answering f) n s = (r, s') \<and> at sc (l @ [Received n r]) y s'"
  by (auto simp: timed_read_def at_def on_world_def Let_def)

lemma at_exchange:
  assumes "at (Inr b # sc) l y s" and "check_reply c b = Inr b" and "length b \<le> 1024"
  shows "\<exists>s'. exchange (answering f) c s = (Inr b, s')
    \<and> at sc (l @ [Wrote c (Inr ()), Received 1024 (Inr b)]) True s'"
proof -
  have "at (Inr b # sc) l False (s\<lparr>synchronized := False\<rparr>)" using assms(1) by auto
  from at_write [OF this, of f c] obtain s1 where w: "timed_write (answering f) c (s\<lparr>synchronized := False\<rparr>)
      = (Inr (), s1)" "at (Inr b # sc) (l @ [Wrote c (Inr ())]) False s1" by blast
  from at_read [OF this(2), of f 1024] obtain s2 where
    "timed_read (answering f) 1024 s1 = (Inr b, s2)"
    "at sc ((l @ [Wrote c (Inr ())]) @ [Received 1024 (Inr b)]) False s2" by blast
  with w assms(2,3) show ?thesis by (auto simp: exchange_def)
qed

lemma at_ready:
  assumes "at (Inr b # sc) l y s" and "check_reply (plain_command op) b = Inr b"
    and "length b \<le> 1024" and "response_status b (op = 0x28) = Inr Good" and "0 < d"
  shows "\<exists>s'. ready_with_attempt (Suc n) (answering f) op stop d s = Some ((Inr b, True), s')
    \<and> at sc (l @ [Wrote (plain_command op) (Inr ()), Received 1024 (Inr b)]) True s'"
proof -
  have "at (Inr b # sc) l y (on_diag (set_opcode op) s)" using assms(1) by simp
  from at_exchange [OF this assms(2,3), of f] show ?thesis
    using assms(4,5) by (auto simp: ready_with_attempt_def)
qed

lemma ack_simps [simp]:
  "length ack = 32" "response_status ack r = Inr Good" "good_reply ack"
  "cleanup_result (Inr ack) = Inr ()"
  "check_reply (plain_command 0x16) ack = Inr ack" "check_reply (plain_command 0x31) ack = Inr ack"
  "check_reply (plain_command 0x06) ack = Inr ack" "check_reply (plain_command 0x17) ack = Inr ack" "check_reply colour_window ack = Inr ack"
  by (simp_all add: ack_def response_status_def good_reply_def check_reply_Inr_iff plain_command_def
      expected_message_def colour_window_def sample_window_def nth_append)

lemma sample_replies:
  "check_reply (plain_command 0x12) sample_frame = Inr sample_frame" "length sample_frame \<le> 1024"
  "check_reply (plain_command 0x28) sample_metadata = Inr sample_metadata"
  "length sample_metadata \<le> 1024" "response_status sample_metadata True = Inr Good"
proof -
  have len: "length sample_frame = 70"
    using sample_name(1) by (simp add: sample_frame_def inquiry_frame_def)
  then show "length sample_frame \<le> 1024" by simp
  have "sample_frame ! 0 = 0xa8 \<and> sample_frame ! 2 = 67 \<and> sample_frame ! 3 = 0x10"
    by (simp add: sample_frame_def inquiry_frame_def)
  with len show "check_reply (plain_command 0x12) sample_frame = Inr sample_frame"
    by (simp add: check_reply_Inr_iff plain_command_def expected_message_def)
qed (simp_all add: check_reply_Inr_iff plain_command_def expected_message_def sample_metadata_def
    response_status_def)

text \<open>The run of a whole job on the scripted device.\<close>

definition sample_pixels :: bytes where
  "sample_pixels = [1, 11, 21, 2, 12, 22, 3, 13, 23, 4, 14, 24]"

definition sample_image :: image_band where
  "sample_image = \<lparr>ib_width = 2, ib_rows = 2, ib_mode = Rgb, pixels = sample_pixels,
     wire_data = sample_raw\<rparr>"

definition sample_summary :: scan_summary where
  "sample_summary = \<lparr>sm_width = 2, sm_height = 2, sm_bands = 1, sm_bytes = 12\<rparr>"

definition turn :: "bytes \<Rightarrow> bytes \<Rightarrow> event list" where
  "turn c b = [Wrote c (Inr ()), Received 1024 (Inr b)]"

definition sample_before :: "event list" where
  "sample_before = turn (plain_command 0x12) sample_frame @ turn (plain_command 0x16) ack
     @ turn colour_window ack @ turn (plain_command 0x31) ack
     @ turn (plain_command 0x28) sample_metadata
     @ [Wrote (plain_command 0x29) (Inr ()), Received 1024 (Inr sample_raw)]"

definition sample_prefix :: "unit io outcome \<Rightarrow> event list" where
  "sample_prefix v = sample_before @ [Consumed sample_image v]"

definition sample_log :: "event list" where
  "sample_log = sample_prefix (Returned (Inr ())) @ turn (plain_command 0x17) ack"

lemma sample_decode: "decode sample_band_info sample_raw Rgb 1 = Inr sample_pixels"
proof -
  have rows: "chunks_exact 6 sample_raw = [[1, 2, 11, 12, 21, 22], [3, 4, 13, 14, 23, 24]]"
    by (simp add: sample_raw_def chunks_exact.simps)
  have "[0..<6] = [0, 1, 2, 3, 4, 5 :: nat]" by (simp add: upt_rec)
  then show ?thesis
    using rows by (simp add: decode_def sample_band_info_def sample_raw_def sample_pixels_def
        reorder_row_eq planar_def)
qed

lemma at_take_image:
  assumes "at (Inr sample_raw # sc) l y s" and "mode request = Rgb" and "line_order caps = 1"
    and "0 < d"
  shows "\<exists>s'. take_image (answering f) d request caps empty_summary sample_band_info s
       = (Inr (sample_image, 2, 12), s')
    \<and> at sc (l @ [Wrote (plain_command 0x29) (Inr ()), Received 1024 (Inr sample_raw)]) True s'"
proof -
  let ?s1 = "on_diag (set_opcode 0x29) (set_stage (answering f) ReadImage (s\<lparr>synchronized := False\<rparr>))"
  have "at (Inr sample_raw # sc) l False ?s1" using assms(1) by auto
  from at_write [OF this, of f "plain_command 0x29"] obtain s2 where
    s2: "timed_write (answering f) (plain_command 0x29) ?s1 = (Inr (), s2)"
      "at (Inr sample_raw # sc) (l @ [Wrote (plain_command 0x29) (Inr ())]) False s2" by blast
  let ?s3 = "(set_stage (answering f) ReadImage s2)\<lparr>synchronized := False\<rparr>"
  have s3: "at (Inr sample_raw # sc) (l @ [Wrote (plain_command 0x29) (Inr ())]) False ?s3"
    using s2(2) by auto
  from at_read [OF s3, of f 1024] obtain s4 where
    s4: "timed_read (answering f) 1024 ?s3 = (Inr sample_raw, s4)"
      "at sc ((l @ [Wrote (plain_command 0x29) (Inr ())]) @ [Received 1024 (Inr sample_raw)]) False s4"
    by blast
  have len: "length sample_raw = 12" "sample_raw \<noteq> []" by (simp_all add: sample_raw_def)
  have cap: "read_capacity 12 65536 = 1024" by (simp add: read_capacity_def)
  have buffer: "read_buffer_bytes (diag ?s3) = 65536" using s3 by (simp add: at_def)
  have loop: "read_loop (answering f) 12 d [] None None 0 0 ?s3 = (Inr (sample_raw, None, 0), s4)"
    using assms(4) s4(1) len cap buffer
    by (simp add: read_loop.simps [of _ _ _ "[]"] read_loop.simps [of _ _ _ sample_raw]
        observe_failure_def start_drain_def drain_expired_def)
  have "read_image_band (answering f) 12 d s2 = (Inr sample_raw, s4\<lparr>synchronized := True\<rparr>)"
    using loop assms(4) by (simp add: read_image_band_def)
  moreover have "\<not> over_limits empty_summary sample_band_info"
    by (simp add: over_limits_def empty_summary_def sample_band_info_def checked_add64_def
        MAX_JOB_BYTES_def)
  ultimately show ?thesis
    using s2 s4(2) assms(2,3) sample_decode
    by (auto simp: take_image_def sample_band_info_def [THEN arg_cong, of bi_length]
        sample_band_info_def [THEN arg_cong, of bi_rows] sample_band_info_def [THEN arg_cong, of bi_width]
        empty_summary_def checked_add64_def sample_pixels_def sample_image_def)
qed

text \<open>The result of the band, given the consumer's answer.\<close>

definition judged :: "unit io outcome \<Rightarrow> scan_summary io \<Rightarrow> bool" where
  "judged v r \<longleftrightarrow> (if v = Returned (Inr ()) then r = Inr sample_summary else is_err r)"

lemma at_fail_job:
  "\<exists>r s'. fail_job (answering f) er d s = (r, s') \<and> is_err r \<and> s' = s"
  by (simp add: fail_job_def diag_error_def is_err_def)

lemma at_deliver:
  assumes "at sc l True s" and "0 < d" and "f l sample_image = v"
  shows "\<exists>r s'. deliver_band (answering f) d sample_image 2 12 empty_summary s = (r, s')
    \<and> judged v r \<and> at sc (l @ [Consumed sample_image v]) True s'"
proof -
  let ?s1 = "set_stage (answering f) Consumer s"
  let ?s2 = "?s1\<lparr>world := (sc, l @ [Consumed sample_image v])\<rparr>"
  have s1: "at sc l True ?s1" using assms(1) by simp
  then have call: "on_world (sink (answering f) sample_image) ?s1 = (v, ?s2)"
    using assms(3) by (simp add: on_world_def at_def)
  have s2: "at sc (l @ [Consumed sample_image v]) True ?s2" using s1 by (simp add: at_def)
  show ?thesis
  proof (cases "v = Returned (Inr ())")
    case True
    then show ?thesis using call s2 assms(2)
      by (simp add: deliver_band_def Let_def sample_image_def sample_summary_def empty_summary_def
          judged_def)
  next
    case False
    have "\<exists>er txt. deliver_band (answering f) d sample_image 2 12 empty_summary s
        = fail_job (answering f) er txt ?s2"
    proof (cases v)
      case (Returned x)
      with False obtain er where "v = Returned (Inl er)" by (cases x) auto
      then show ?thesis using call by (auto simp: deliver_band_def)
    qed (use call in \<open>auto simp: deliver_band_def\<close>)
    then show ?thesis
      using at_fail_job [where s = ?s2 and f = f] s2 False unfolding judged_def by fastforce
  qed
qed

lemma at_bands:
  assumes "at (Inr sample_metadata # Inr sample_raw # sc) l y s" and "mode request = Rgb"
    and "line_order caps = 1" and "0 < d"
    and "f (l @ turn (plain_command 0x28) sample_metadata
        @ [Wrote (plain_command 0x29) (Inr ()), Received 1024 (Inr sample_raw)]) sample_image = v"
  shows "\<exists>r s'. band_loop (Suc n) (answering f) d request caps empty_summary s
       = Some ((r, False), s') \<and> judged v r
    \<and> at sc (l @ turn (plain_command 0x28) sample_metadata
        @ [Wrote (plain_command 0x29) (Inr ()), Received 1024 (Inr sample_raw),
           Consumed sample_image v]) True s'"
proof -
  have "at (Inr sample_metadata # Inr sample_raw # sc) l y (set_stage (answering f) ReadMetadata s)"
    using assms(1) by simp
  from at_ready [OF this sample_replies(3,4) _ assms(4), of n f False] sample_replies(5)
  obtain s1 where s1: "ready_with_attempt (Suc n) (answering f) 0x28 False d
        (set_stage (answering f) ReadMetadata s) = Some ((Inr sample_metadata, True), s1)"
      "at (Inr sample_raw # sc) (l @ turn (plain_command 0x28) sample_metadata) True s1"
    by (auto simp: turn_def)
  from at_take_image [OF s1(2) assms(2-4), of f] obtain s2 where
    s2: "take_image (answering f) d request caps empty_summary sample_band_info s1
        = (Inr (sample_image, 2, 12), s2)"
      "at sc ((l @ turn (plain_command 0x28) sample_metadata)
        @ [Wrote (plain_command 0x29) (Inr ()), Received 1024 (Inr sample_raw)]) True s2" by blast
  have "f ((l @ turn (plain_command 0x28) sample_metadata)
        @ [Wrote (plain_command 0x29) (Inr ()), Received 1024 (Inr sample_raw)]) sample_image = v"
    using assms(5) by simp
  from at_deliver [where f = f, OF s2(2) assms(4) this] obtain r s3 where
    s3: "deliver_band (answering f) d sample_image 2 12 empty_summary s2 = (r, s3)" "judged v r"
      "at sc (((l @ turn (plain_command 0x28) sample_metadata)
        @ [Wrote (plain_command 0x29) (Inr ()), Received 1024 (Inr sample_raw)])
        @ [Consumed sample_image v]) True s3" by blast
  have bands: "sm_bands empty_summary = 0" by (simp add: empty_summary_def)
  have "read_band (Suc n) (answering f) d request caps empty_summary s
      = Some ((Inr (sample_band_info, sample_image, 2, 12), False), s2)"
    using s1(1) s2(1) sample_metadata_parses assms(2) bands by (simp add: read_band_def)
  then show ?thesis
    using s3 by (subst band_loop.simps) (cases r; auto simp: sample_band_info_def)
qed

lemma at_reserved:
  assumes "at (Inr ack # Inr ack # Inr sample_metadata # Inr sample_raw # sc) l True s"
    and "mode request = Rgb" and "line_order caps = 1" and "0 < d"
    and "f (l @ turn colour_window ack @ turn (plain_command 0x31) ack
        @ turn (plain_command 0x28) sample_metadata
        @ [Wrote (plain_command 0x29) (Inr ()), Received 1024 (Inr sample_raw)]) sample_image = v"
  shows "\<exists>r s'. reserved_job (Suc n) (answering f) d request caps colour_window s
       = Some ((r, False), s') \<and> judged v r
    \<and> at sc (l @ turn colour_window ack @ turn (plain_command 0x31) ack
        @ turn (plain_command 0x28) sample_metadata
        @ [Wrote (plain_command 0x29) (Inr ()), Received 1024 (Inr sample_raw),
           Consumed sample_image v]) True s'"
proof -
  let ?rest = "Inr sample_metadata # Inr sample_raw # sc"
  have "at (Inr ack # Inr ack # ?rest) l True
      (on_diag (set_opcode 0x24) (set_stage (answering f) SetWindow s))" using assms(1) by simp
  from at_exchange [OF this, of colour_window f] obtain s1 where
    s1: "exchange (answering f) colour_window
          (on_diag (set_opcode 0x24) (set_stage (answering f) SetWindow s)) = (Inr ack, s1)"
      "at (Inr ack # ?rest) (l @ turn colour_window ack) True s1" by (auto simp: turn_def)
  have "at (Inr ack # ?rest) (l @ turn colour_window ack) True (set_stage (answering f) scan_stage.Start s1)"
    using s1(2) by simp
  from at_ready [OF this, of "0x31" d n f True] assms(4) obtain s2 where
    s2: "ready_with_attempt (Suc n) (answering f) 0x31 True d
          (set_stage (answering f) scan_stage.Start s1) = Some ((Inr ack, True), s2)"
      "at ?rest ((l @ turn colour_window ack) @ turn (plain_command 0x31) ack) True s2"
    by (auto simp: turn_def)
  from at_bands [OF s2(2) assms(2-4), of f v n] assms(5) show ?thesis
    using s1(1) s2(1) assms(4) by (auto simp: reserved_job_def ready_def Let_def)
qed

lemma sample_until_cleanup:
  assumes "f sample_before sample_image = v"
  shows "\<exists>r s. judged v r \<and> at tail (sample_prefix v) True s
     \<and> run_observed 1 (answering f) (start_job default_tuning 0 0 (sample_script tail, []))
       = Some (clean_up (answering f) r False s)"
proof -
  let ?d = "seconds 120"
  let ?s0 = "start_job default_tuning 0 0 (sample_script tail, [])"
  let ?rest = "[Inr ack, Inr ack, Inr sample_metadata, Inr sample_raw] @ tail"
  have d: "0 < ?d" by (simp add: seconds_def)
  have "at (sample_script tail) [] True ?s0"
    by (simp add: at_def start_job_def Let_def default_tuning_def)
  then have "at (sample_script tail) [] True ((on_diag (set_opcode 0x12) (set_stage (answering f) Inquiry ?s0))
      \<lparr>synchronized := True\<rparr>)" by auto
  from at_exchange [OF this [unfolded sample_script_def append_Cons] sample_replies(1,2), of f] obtain s1 where
    s1: "exchange (answering f) (plain_command 0x12)
          ((on_diag (set_opcode 0x12) (set_stage (answering f) Inquiry ?s0))\<lparr>synchronized := True\<rparr>)
        = (Inr sample_frame, s1)"
      "at (Inr ack # ?rest) (turn (plain_command 0x12) sample_frame) True s1"
    by (auto simp: turn_def sample_script_def)
  let ?s2 = "on_diag (set_opcode 0x24) (set_stage (answering f) Prepare s1)"
  have prep: "prepare_job (answering f) ?d ?s0
      = (Inr (colour_request, colour_caps, colour_window), ?s2)"
    using s1(1) d colour_command colour_frame_parses
    by (simp add: prepare_job_def Let_def on_world_def)
  have "at (Inr ack # ?rest) (turn (plain_command 0x12) sample_frame) True
      (set_stage (answering f) Reserve ?s2)" using s1(2) by simp
  from at_ready [OF this, of "0x16" ?d 0 f True] d obtain s3 where
    s3: "ready_with_attempt 1 (answering f) 0x16 True ?d (set_stage (answering f) Reserve ?s2)
        = Some ((Inr ack, True), s3)"
      "at ?rest (turn (plain_command 0x12) sample_frame @ turn (plain_command 0x16) ack) True s3"
    by (auto simp: turn_def)
  have rgb: "mode colour_request = Rgb" "line_order colour_caps = 1"
    by (simp_all add: colour_request_def colour_caps_def sample_caps_def)
  have "f ((turn (plain_command 0x12) sample_frame @ turn (plain_command 0x16) ack)
        @ turn colour_window ack @ turn (plain_command 0x31) ack
        @ turn (plain_command 0x28) sample_metadata
        @ [Wrote (plain_command 0x29) (Inr ()), Received 1024 (Inr sample_raw)]) sample_image = v"
    using assms by (simp add: sample_before_def)
  from at_reserved [where f = f, OF s3(2) [simplified] rgb d this, of 0] obtain r s4 where
    s4: "reserved_job 1 (answering f) ?d colour_request colour_caps colour_window s3
        = Some ((r, False), s4)" "judged v r"
    and l4: "at tail ((turn (plain_command 0x12) sample_frame @ turn (plain_command 0x16) ack)
        @ turn colour_window ack @ turn (plain_command 0x31) ack
        @ turn (plain_command 0x28) sample_metadata
        @ [Wrote (plain_command 0x29) (Inr ()), Received 1024 (Inr sample_raw),
           Consumed sample_image v]) True s4" by auto
  have "run_observed 1 (answering f) ?s0 = Some (clean_up (answering f) r False s4)"
    using prep s3(1) s4 by (simp add: run_observed_def Let_def)
  with s4 l4 show ?thesis by (auto simp: sample_prefix_def sample_before_def)
qed

lemma sample_tuning: "validate_tuning default_tuning = Inr ()"
  by (simp add: validate_tuning_def validate_poll_interval_def default_tuning_def millis_def)

lemma run_job_of_observed:
  assumes "run_observed 1 (answering f) (start_job default_tuning 0 0 (script, []))
     = Some (r, s)" and "at [] log True s"
  shows "\<exists>p. run_job 1 (answering f) default_tuning (script, []) = Some (r, p, ([], log))"
proof -
  have "world (set_stage (answering f) (stage (diag s)) s) = ([], log)"
    using assms(2) at_set_stage [of "[]" log True f "stage (diag s)" s] by (simp add: at_def)
  then show ?thesis
    using assms(1) sample_tuning by (simp add: run_job_def Let_def)
qed

abbreviation accepting :: "unit io outcome" where
  "accepting \<equiv> Returned (Inr ())"

lemma answering_run:
  assumes "f sample_before sample_image = accepting"
  shows "\<exists>p. run_job 1 (answering f) default_tuning (sample_script [Inr ack], [])
     = Some ((Inr sample_summary, Ready), p, ([], sample_log))"
proof -
  obtain s where s: "at [Inr ack] (sample_prefix accepting) True s"
    and run: "run_observed 1 (answering f)
        (start_job default_tuning 0 0 (sample_script [Inr ack], []))
       = Some (clean_up (answering f) (Inr sample_summary) False s)"
    using sample_until_cleanup [where f = f, OF assms, of "[Inr ack]"] by (auto simp: judged_def)
  let ?s5 = "on_diag (set_opcode 0x17) (set_stage (answering f) Cleanup s)"
  have "at [Inr ack] (sample_prefix accepting) True ?s5" using s by simp
  from at_exchange [OF this, of "plain_command 0x17" f] obtain s6 where
    s6: "exchange (answering f) (plain_command 0x17) ?s5 = (Inr ack, s6)"
      "at [] sample_log True s6"
    by (auto simp: turn_def sample_log_def)
  have "clean_up (answering f) (Inr sample_summary) False s
      = ((Inr sample_summary, Ready), s6)"
    using s6 s at_set_stage [of "[Inr ack]" _ True f Cleanup s]
    by (auto simp: clean_up_def finish_def Let_def is_err_def merge_output_def at_def)
  with run s6(2) show ?thesis using run_job_of_observed by simp
qed

lemma sample_run:
  "\<exists>p. run_job 1 (logged_script accepting) default_tuning (sample_script [Inr ack], [])
     = Some ((Inr sample_summary, Ready), p, ([], sample_log))"
  unfolding answering_constant by (rule answering_run) simp

lemma refused_run:
  "\<exists>r p. run_job 1 (logged_script Panicked) default_tuning (sample_script [Inr ack, Inr ack], [])
     = Some ((r, Ready), p, ([], sample_prefix Panicked @ turn (plain_command 0x06) ack
         @ turn (plain_command 0x17) ack))"
proof -
  let ?f = "\<lambda>log img. Panicked"
  have f: "?f sample_before sample_image = Panicked" by simp
  obtain r s where r: "is_err r" and s: "at [Inr ack, Inr ack] (sample_prefix Panicked) True s"
    and run: "run_observed 1 (answering ?f)
        (start_job default_tuning 0 0 (sample_script [Inr ack, Inr ack], []))
       = Some (clean_up (answering ?f) r False s)"
    using sample_until_cleanup [where f = ?f, OF f, of "[Inr ack, Inr ack]"] by (auto simp: judged_def)
  let ?s5 = "on_diag (set_opcode 0x06) (set_stage (answering ?f) Cleanup s)"
  have "at [Inr ack, Inr ack] (sample_prefix Panicked) True ?s5" using s by simp
  from at_exchange [OF this, of "plain_command 0x06" ?f] obtain s6 where
    s6: "exchange (answering ?f) (plain_command 0x06) ?s5 = (Inr ack, s6)"
      "at [Inr ack] (sample_prefix Panicked @ turn (plain_command 0x06) ack) True s6"
    by (auto simp: turn_def)
  let ?s7 = "on_diag (set_opcode 0x17) s6"
  have "at [Inr ack] (sample_prefix Panicked @ turn (plain_command 0x06) ack) True ?s7"
    using s6(2) by simp
  from at_exchange [OF this, of "plain_command 0x17" ?f] obtain s8 where
    s8: "exchange (answering ?f) (plain_command 0x17) ?s7 = (Inr ack, s8)"
      "at [] (sample_prefix Panicked @ turn (plain_command 0x06) ack
         @ turn (plain_command 0x17) ack) True s8"
    by (auto simp: turn_def)
  have "clean_up (answering ?f) r False s = ((r, Ready), s8)"
    using r s6 s8 s at_set_stage [of "[Inr ack, Inr ack]" _ True ?f Cleanup s]
    by (auto simp: clean_up_def finish_def Let_def is_err_def merge_output_def at_def
        split: sum.splits)
  with run have "run_observed 1 (answering ?f)
      (start_job default_tuning 0 0 (sample_script [Inr ack, Inr ack], [])) = Some ((r, Ready), s8)"
    by simp
  from run_job_of_observed [OF this s8(2)] show ?thesis unfolding answering_constant by blast
qed

section \<open>Properties of every job\<close>

lemma reserved_step:
  assumes "device_step job p ev q" and "holds_reservation q"
  shows "holds_reservation p \<or> (\<exists>b. p = Awaiting 0x16 \<and> ev = Received 1024 (Inr b) \<and> good_reply b)"
  using assms
  by (cases rule: device_step.cases)
    (auto simp: holds_reservation_def plain_command_def split: phase.splits if_splits)

lemma guaranteed_band:
  assumes "job_guarantee log r health" and "img \<in> set (accepted_bands log)"
  shows "\<exists>raw caps m. parse raw = Inr caps \<and> band_ok m (line_order caps) img"
proof -
  obtain job where "case job of
       None \<Rightarrow> accepted_bands log = []
     | Some (raw, w) \<Rightarrow> (\<exists>caps request. parse raw = Inr caps \<and> command request caps = Inr w
         \<and> (\<forall>b \<in> set (accepted_bands log). band_ok (mode request) (line_order caps) b))"
    using assms(1) unfolding job_guarantee_def by (elim exE conjE) (rule that)
  with assms(2) show ?thesis by (cases job) auto
qed

lemma guaranteed_talk:
  assumes "job_guarantee log r health"
  shows "\<exists>job q. talk job Fresh log q
    \<and> (\<forall>raw win. job = Some (raw, win) \<longrightarrow>
         (\<exists>caps request. parse raw = Inr caps \<and> command request caps = Inr win))
    \<and> (health = Ready \<longrightarrow> q = Fresh \<or> (\<exists>raw. q = Replied 0x12 raw)
         \<or> (\<exists>b. q = Replied 0x17 b \<and> good_reply b))"
proof -
  obtain job q where "talk job Fresh log q" and job: "case job of
             None \<Rightarrow> accepted_bands log = []
           | Some (raw, w) \<Rightarrow> (\<exists>caps request. parse raw = Inr caps \<and> command request caps = Inr w
               \<and> (\<forall>b \<in> set (accepted_bands log). band_ok (mode request) (line_order caps) b))"
    and "health = Ready \<longrightarrow> q = Fresh \<or> (\<exists>raw. q = Replied 0x12 raw)
             \<or> (\<exists>b. q = Replied 0x17 b \<and> good_reply b)"
    using assms unfolding job_guarantee_def by (elim exE conjE) (rule that)
  moreover have "\<exists>caps request. parse raw = Inr caps \<and> command request caps = Inr win"
    if "job = Some (raw, win)" for raw win
    using job unfolding that by auto
  ultimately show ?thesis by blast
qed

text \<open>
  Property C1: every event of a job obeys the protocol: INQUIRY, RESERVE until it is
  granted, the validated SET_WINDOW, START, then metadata and image reads and calls of
  the consumer, then ABORT after any failure and RELEASE. The session is reported ready
  only if nothing was sent, or nothing but an answered INQUIRY, or the scanner
  acknowledged RELEASE.
\<close>

theorem job_obeys_protocol:
  assumes "run_job fuel (logged e) tuning (w, []) = Some ((r, health), p, (w', log))"
  shows "\<exists>job q. talk job Fresh log q
    \<and> (\<forall>raw win. job = Some (raw, win) \<longrightarrow>
         (\<exists>caps request. parse raw = Inr caps \<and> command request caps = Inr win))
    \<and> (health = Ready \<longrightarrow> q = Fresh \<or> (\<exists>raw. q = Replied 0x12 raw)
         \<or> (\<exists>b. q = Replied 0x17 b \<and> good_reply b))"
  using logged_job [OF assms] by (rule guaranteed_talk)

lemma job_obeys_protocol_witness:
  "\<exists>job q. talk job Fresh sample_log q \<and> (q = Fresh \<or> (\<exists>raw. q = Replied 0x12 raw)
     \<or> (\<exists>b. q = Replied 0x17 b \<and> good_reply b))"
proof -
  obtain p where "run_job 1 (logged_script accepting) default_tuning (sample_script [Inr ack], [])
     = Some ((Inr sample_summary, Ready), p, ([], sample_log))" using sample_run by blast
  from job_obeys_protocol [OF this] show ?thesis by blast
qed

text \<open>
  A job that succeeds leaves the session ready and has delivered at least
  one band, and its summary is the exact account of the bands the consumer accepted:
  their number, the sum of their heights, of their sample bytes, and their common width;
  at most 4096 bands, 256 MiB and a height below \<open>2 ^ 32\<close>.
\<close>

theorem summary_accounts_for_bands:
  assumes "run_job fuel (logged e) tuning (w, []) = Some ((Inr sm, health), p, (w', log))"
  shows "health = Ready \<and> accepted_bands log \<noteq> []
    \<and> sm_bands sm = length (accepted_bands log)
    \<and> sm_height sm = sum_list (map ib_rows (accepted_bands log))
    \<and> sm_bytes sm = sum_list (map (\<lambda>b. length (pixels b)) (accepted_bands log))
    \<and> (\<forall>b \<in> set (accepted_bands log). ib_width b = sm_width sm)
    \<and> sm_bands sm \<le> 4096 \<and> sm_bytes sm \<le> 256 * 1024 * 1024 \<and> sm_height sm < 2 ^ 32"
  using logged_job [OF assms]
  by (auto simp: job_guarantee_def summarises_def within_limits_def MAX_JOB_BYTES_def)

lemma summary_accounts_for_bands_witness:
  "sm_bands sample_summary = length (accepted_bands sample_log)"
proof -
  obtain p where "run_job 1 (logged_script accepting) default_tuning (sample_script [Inr ack], [])
     = Some ((Inr sample_summary, Ready), p, ([], sample_log))" using sample_run by blast
  from summary_accounts_for_bands [OF this] show ?thesis by (elim conjE)
qed



text \<open>
  A failed write, a failed read, or a reply longer than the buffer it was
  read into is the last thing that happens on the wire: no command, no read and no band
  follows, whatever the rest of the job.
\<close>

theorem nothing_follows_a_failure:
  assumes "run_job fuel (logged e) tuning (w, []) = Some ((r, health), p, (w', log))"
    and "log = xs @ ev # ys" and "broken ev"
  shows "ys = []"
proof -
  obtain job q where "talk job Fresh log q"
    using guaranteed_talk [OF logged_job [OF assms(1)]] by blast
  then obtain q' where "device_step job q' ev Lost" "talk job Lost ys q"
    using assms(2,3) by (auto simp: talk_append talk_Cons dest: broken_step)
  then show ?thesis by (simp add: talk_Lost)
qed

definition unplugged :: "bytes io list" where
  "unplugged = [Inl (Os 31 OtherKind)]"

lemma unplugged_run:
  "\<exists>r p. run_job 1 (logged_script accepting) default_tuning (unplugged, [])
     = Some ((r, NeedsReconnect), p, ([], [Wrote (plain_command 0x12) (Inr ()),
         Received 1024 (Inl (Os 31 OtherKind))]))"
proof -
  let ?f = "\<lambda>log img. accepting"
  let ?s0 = "start_job default_tuning 0 0 (unplugged, [])"
  let ?s1 = "(on_diag (set_opcode 0x12) (set_stage (answering ?f) Inquiry ?s0))\<lparr>synchronized := True\<rparr>"
  let ?log = "[Wrote (plain_command 0x12) (Inr ()), Received 1024 (Inl (Os 31 OtherKind))]"
  have d: "0 < seconds 120" by (simp add: seconds_def)
  have "at [Inl (Os 31 OtherKind)] [] True ?s0"
    by (simp add: at_def start_job_def Let_def default_tuning_def unplugged_def)
  then have "at [Inl (Os 31 OtherKind)] [] False (?s1\<lparr>synchronized := False\<rparr>)" by auto
  from at_write [OF this, of ?f "plain_command 0x12"] obtain s2 where
    s2: "timed_write (answering ?f) (plain_command 0x12) (?s1\<lparr>synchronized := False\<rparr>) = (Inr (), s2)"
      "at [Inl (Os 31 OtherKind)] [Wrote (plain_command 0x12) (Inr ())] False s2" by auto
  from at_read [OF s2(2), of ?f 1024] obtain s3 where
    s3: "timed_read (answering ?f) 1024 s2 = (Inl (Os 31 OtherKind), s3)" "at [] ?log False s3" by auto
  have "exchange (answering ?f) (plain_command 0x12) ?s1
      = (Inl (command_context (plain_command 0x12) (Os 31 OtherKind)), s3)"
    using s2(1) s3(1) by (simp add: exchange_def)
  then obtain r where "run_observed 1 (answering ?f) ?s0 = Some ((r, NeedsReconnect), s3)"
    using d by (auto simp: run_observed_def prepare_job_def Let_def diag_error_def)
  moreover have "validate_tuning default_tuning = Inr ()"
    by (simp add: validate_tuning_def validate_poll_interval_def default_tuning_def millis_def)
  moreover have "world (set_stage (answering ?f) (stage (diag s3)) s3) = ([], ?log)"
    using s3(2) at_set_stage [of "[]" ?log False ?f "stage (diag s3)" s3] by (simp add: at_def)
  ultimately show ?thesis
    unfolding answering_constant by (simp add: run_job_def Let_def)
qed

lemma nothing_follows_a_failure_witness:
  "\<exists>r p log. run_job 1 (logged_script accepting) default_tuning (unplugged, []) = Some ((r, NeedsReconnect), p, ([], log))
     \<and> broken (log ! 1) \<and> log = [log ! 0] @ log ! 1 # drop 2 log \<and> drop 2 log = []"
proof -
  obtain r p where run: "run_job 1 (logged_script accepting) default_tuning (unplugged, [])
     = Some ((r, NeedsReconnect), p, ([], [Wrote (plain_command 0x12) (Inr ()),
         Received 1024 (Inl (Os 31 OtherKind))]))" using unplugged_run by blast
  have b: "broken (Received 1024 (Inl (Os 31 OtherKind)))" by (simp add: broken_def)
  let ?log = "[Wrote (plain_command 0x12) (Inr ()), Received 1024 (Inl (Os 31 OtherKind))]"
  have "drop 2 ?log = []"
    by (rule nothing_follows_a_failure [OF run _ b, of "[?log ! 0]"]) simp
  then show ?thesis
    using run b by (intro exI [of _ r] exI [of _ p] exI [of _ ?log]) simp
qed

text \<open>
  Once the consumer has refused a band, by an error or a panic, it is never
  called again and nothing but ABORT, RELEASE and their replies happens on the wire.
\<close>

theorem refusal_stops_delivery:
  assumes "run_job fuel (logged e) tuning (w, []) = Some ((r, health), p, (w', log))"
    and "log = xs @ Consumed img q # ys" and "q \<noteq> Returned (Inr ())"
  shows "\<forall>ev \<in> set ys. closing_event ev"
proof -
  obtain job end_phase where "talk job Fresh log end_phase"
    using guaranteed_talk [OF logged_job [OF assms(1)]] by blast
  then have "talk job Rejected ys end_phase"
    using assms(2,3) by (auto simp: talk_append talk_Cons consumed_step_iff)
  moreover have "closing Rejected" by (simp add: closing_def)
  ultimately show ?thesis
    using talk_closed [of job Rejected ys end_phase closing closing_event] closing_step by blast
qed

lemma refusal_stops_delivery_witness:
  "list_all closing_event (turn (plain_command 0x06) ack @ turn (plain_command 0x17) ack)"
proof -
  obtain r p where "run_job 1 (logged_script Panicked) default_tuning
      (sample_script [Inr ack, Inr ack], [])
     = Some ((r, Ready), p, ([], sample_prefix Panicked @ turn (plain_command 0x06) ack
         @ turn (plain_command 0x17) ack))" using refused_run by blast
  moreover have "sample_prefix Panicked @ turn (plain_command 0x06) ack @ turn (plain_command 0x17) ack
      = take 12 (sample_prefix Panicked) @ Consumed sample_image Panicked
        # turn (plain_command 0x06) ack @ turn (plain_command 0x17) ack"
    by (simp add: sample_prefix_def sample_before_def turn_def)
  ultimately have "\<forall>ev \<in> set (turn (plain_command 0x06) ack @ turn (plain_command 0x17) ack).
      closing_event ev"
    by (rule refusal_stops_delivery) simp
  then show ?thesis by (simp only: list_all_iff)
qed

text \<open>
  The reservation held in a phase was granted in the history that led there.
\<close>

lemma reserved_in_last:
  "good_reply b \<Longrightarrow>
     reserved_in (xs @ [Wrote (plain_command 0x16) (Inr ()), Received 1024 (Inr b)])"
  by (force simp: reserved_in_def)

lemma awaiting_reserve:
  assumes "device_step job q ev (Awaiting 0x16)"
    and "\<forall>raw win. job = Some (raw, win) \<longrightarrow> win ! 2 = 0x24"
  shows "ev = Wrote (plain_command 0x16) (Inr ())"
  using assms
proof (cases rule: device_step.cases)
  case (command_sent c)
  then have "c ! 2 = 0x16" by (cases q) (auto split: if_splits)
  then have "c = plain_command 0x16"
    using command_sent(3) assms(2) by (cases q) (auto simp: plain_command_def split: if_splits)
  with command_sent show ?thesis by simp
qed

lemma talk_reserved:
  assumes "talk job Fresh log q" and "\<forall>raw win. job = Some (raw, win) \<longrightarrow> win ! 2 = 0x24"
  shows "(holds_reservation q \<longrightarrow> reserved_in log)
    \<and> (q = Awaiting 0x16 \<longrightarrow> (\<exists>xs. log = xs @ [Wrote (plain_command 0x16) (Inr ())]))"
  using assms(1)
proof (induction Fresh log q rule: talk.induct)
  case talk_Nil
  then show ?case by (simp add: holds_reservation_def)
next
  case (talk_snoc evs q ev q')
  show ?case
  proof (intro conjI impI)
    assume "holds_reservation q'"
    from reserved_step [OF talk_snoc(3) this] show "reserved_in (evs @ [ev])"
      using talk_snoc(2) by (auto intro: reserved_in_snoc reserved_in_last)
  next
    assume "q' = Awaiting 0x16"
    with talk_snoc(3) assms(2) show "\<exists>xs. evs @ [ev] = xs @ [Wrote (plain_command 0x16) (Inr ())]"
      by (auto dest: awaiting_reserve)
  qed
qed

lemma may_send_reserved:
  "may_send job p c \<Longrightarrow> c \<notin> {plain_command 0x12, plain_command 0x16} \<Longrightarrow> holds_reservation p"
  by (cases p) (auto simp: holds_reservation_def split: if_splits)

text \<open>
  The job never touches a scanner it does not own: every command other than
  INQUIRY and RESERVE, in particular ABORT and RELEASE, comes after a RESERVE that the
  scanner granted to this job.
\<close>

theorem commands_need_a_reservation:
  assumes "run_job fuel (logged e) tuning (w, []) = Some ((r, health), p, (w', log))"
    and "log = xs @ Wrote c result # ys"
    and "c \<notin> {plain_command 0x12, plain_command 0x16}"
  shows "reserved_in xs"
proof -
  obtain job q where talk: "talk job Fresh log q" and "\<forall>raw win. job = Some (raw, win) \<longrightarrow>
         (\<exists>caps request. parse raw = Inr caps \<and> command request caps = Inr win)"
    using guaranteed_talk [OF logged_job [OF assms(1)]] by blast
  then have win: "\<forall>raw win. job = Some (raw, win) \<longrightarrow> win ! 2 = 0x24"
    by (auto simp: command_Inr_iff window_bytes_eq)
  obtain p where "talk job Fresh xs p" "may_send job p c"
    using talk assms(2) by (auto simp: talk_append talk_Cons wrote_step_iff)
  with talk_reserved [OF _ win] may_send_reserved assms(3) show ?thesis by blast
qed

lemma commands_need_a_reservation_witness:
  "reserved_in (take 13 sample_log)"
proof -
  obtain p where run: "run_job 1 (logged_script accepting) default_tuning (sample_script [Inr ack], [])
     = Some ((Inr sample_summary, Ready), p, ([], sample_log))" using sample_run by blast
  have "sample_log = take 13 sample_log @ Wrote (plain_command 0x17) (Inr ()) # [Received 1024 (Inr ack)]"
    by (simp add: sample_log_def sample_prefix_def sample_before_def turn_def)
  from commands_need_a_reservation [OF run this] show ?thesis
    by (simp add: plain_command_def)
qed

end
