(* ===== verification/Scan_Frame.thy ===== *)
theory Scan_Frame
  imports Scan_Properties
begin

text \<open>
  What a job may do to its state. Every function of the job is made of a few actions: it reads
  the clock and the cancellation flag, writes, reads blocks of allowed sizes, calls the consumer
  and the preparation, sleeps, and updates its diagnostics, flag and metrics. A relation on
  states that is reflexive, transitive and closed under these actions (the locale \<open>job_frame\<close>)
  holds between the start and the end of every function of \<open>src/scan.rs\<close>.
\<close>

definition keeps_setup :: "(diagnostics \<Rightarrow> diagnostics) \<Rightarrow> bool" where
  "keeps_setup f \<longleftrightarrow> (\<forall>d. read_poll_interval (f d) = read_poll_interval d
     \<and> read_buffer_bytes (f d) = read_buffer_bytes d)"

lemma keeps_setup_simps [simp, intro!]:
  "keeps_setup (set_opcode op)" "keeps_setup (enter_stage st t)"
  "keeps_setup (record_band n m)" "keeps_setup (record_busy_reply op b read)"
  "keeps_setup (\<lambda>d. d\<lparr>profile := f d\<rparr>)"
  by (auto simp: keeps_setup_def set_opcode_def enter_stage_def record_band_def
      record_busy_reply_def Let_def split: option.splits)

text \<open>The size of a reply buffer, and of a read of what is left of a band.\<close>

definition allowed_read :: "nat \<Rightarrow> 'w job \<Rightarrow> bool" where
  "allowed_read n s \<longleftrightarrow>
     n = 1024 \<or> (\<exists>k. 0 < k \<and> n = read_capacity k (read_buffer_bytes (diag s)))"

lemma allowed_read_1024 [simp]: "allowed_read 1024 s"
  by (simp add: allowed_read_def)

locale job_frame =
  fixes e :: "'w env" and R :: "'w job \<Rightarrow> 'w job \<Rightarrow> bool"
  assumes R_refl [simp, intro!]: "R s s"
    and R_trans: "R s s1 \<Longrightarrow> R s1 s2 \<Longrightarrow> R s s2"
    and R_now: "now e s = (t, s') \<Longrightarrow> R s s'"
    and R_cancelled: "cancelled e s = (c, s') \<Longrightarrow> R s s'"
    and R_write: "on_world (usb_write e bs) s = (w, s') \<Longrightarrow> R s s'"
    and R_read: "on_world (usb_read e n) s = (b, s') \<Longrightarrow> allowed_read n s \<Longrightarrow> R s s'"
    and R_sink: "on_world (sink e img) s = (q, s') \<Longrightarrow> R s s'"
    and R_prepare: "on_world (prepare e raw) s = (p, s') \<Longrightarrow> R s s'"
    and R_sleep: "R s (s\<lparr>world := thread_sleep e d (world s)\<rparr>)"
    and R_diag: "keeps_setup f \<Longrightarrow> R s (on_diag f s)"
    and R_synchronized: "R s (s\<lparr>synchronized := x\<rparr>)"
    and R_metrics: "R s (s\<lparr>metrics := m\<rparr>)"
begin

lemma now_frame: "now e s = (t, s') \<Longrightarrow> R s0 s \<Longrightarrow> R s0 s'"
  by (blast intro: R_trans R_now)

lemma cancelled_frame: "cancelled e s = (c, s') \<Longrightarrow> R s0 s \<Longrightarrow> R s0 s'"
  by (blast intro: R_trans R_cancelled)

lemma write_frame: "on_world (usb_write e bs) s = (w, s') \<Longrightarrow> R s0 s \<Longrightarrow> R s0 s'"
  by (blast intro: R_trans R_write)

lemma read_frame:
  "on_world (usb_read e n) s = (b, s') \<Longrightarrow> allowed_read n s \<Longrightarrow> R s0 s \<Longrightarrow> R s0 s'"
  by (blast intro: R_trans R_read)

lemma sink_frame: "on_world (sink e img) s = (q, s') \<Longrightarrow> R s0 s \<Longrightarrow> R s0 s'"
  by (blast intro: R_trans R_sink)

lemma prepare_frame: "on_world (prepare e raw) s = (p, s') \<Longrightarrow> R s0 s \<Longrightarrow> R s0 s'"
  by (blast intro: R_trans R_prepare)

lemma diag_frame: "R s0 s \<Longrightarrow> keeps_setup f \<Longrightarrow> R s0 (on_diag f s)"
  by (blast intro: R_trans R_diag)

lemma synchronized_frame: "R s0 s \<Longrightarrow> R s0 (s\<lparr>synchronized := x\<rparr>)"
  by (blast intro: R_trans R_synchronized)

lemma metrics_frame: "R s0 s \<Longrightarrow> R s0 (s\<lparr>metrics := m\<rparr>)"
  by (blast intro: R_trans R_metrics)

lemma set_stage_frame: "R s0 s \<Longrightarrow> R s0 (set_stage e st s)"
  by (auto simp: set_stage_def split: prod.splits intro: diag_frame now_frame)

lemma timed_write_frame: "timed_write e c s = (r, s') \<Longrightarrow> R s0 s \<Longrightarrow> R s0 s'"
  by (auto simp: timed_write_def Let_def split: prod.splits)
    (blast intro: metrics_frame now_frame write_frame)

lemma now_diag: "now e s = (t, s') \<Longrightarrow> diag s' = diag s"
  by (auto simp: now_def on_world_def split: prod.splits)

lemma timed_read_frame:
  "timed_read e n s = (r, s') \<Longrightarrow> allowed_read n s \<Longrightarrow> R s0 s \<Longrightarrow> R s0 s'"
  by (auto simp: timed_read_def Let_def allowed_read_def dest: now_diag split: prod.splits)
    (metis metrics_frame now_frame read_frame allowed_read_def now_diag)+

lemma diag_error_frame: "diag_error e er d s = (r, s') \<Longrightarrow> R s0 s \<Longrightarrow> R s0 s'"
  by (auto simp: diag_error_def split: prod.splits intro: now_frame)

lemma fail_job_frame: "fail_job e er d s = (r, s') \<Longrightarrow> R s0 s \<Longrightarrow> R s0 s'"
  by (auto simp: fail_job_def split: prod.splits intro: diag_error_frame)

lemma checkpoint_deadline_frame: "checkpoint_deadline e d s = (r, s') \<Longrightarrow> R s0 s \<Longrightarrow> R s0 s'"
  by (auto simp: checkpoint_deadline_def split: prod.splits intro: now_frame)

lemma checkpoint_frame: "checkpoint e d s = (r, s') \<Longrightarrow> R s0 s \<Longrightarrow> R s0 s'"
  by (auto simp: checkpoint_def split: prod.splits bool.splits
      intro: cancelled_frame checkpoint_deadline_frame)

lemma exchange_frame: "exchange e c s = (r, s') \<Longrightarrow> R s0 s \<Longrightarrow> R s0 s'"
  by (auto simp: exchange_def Let_def split: prod.splits sum.splits if_splits
      intro!: synchronized_frame intro: timed_write_frame timed_read_frame)

lemmas frame_intros = set_stage_frame diag_frame synchronized_frame keeps_setup_simps

lemmas frame_elims = now_frame cancelled_frame sink_frame prepare_frame timed_write_frame
  diag_error_frame fail_job_frame checkpoint_frame exchange_frame

section \<open>The busy wait\<close>

lemma busy_pause_frame: "R s0 s \<Longrightarrow> R s0 (busy_pause e op s)"
  by (auto simp: busy_pause_def Let_def split: prod.splits
      intro!: diag_frame intro: now_frame R_trans [OF _ R_sleep])

lemma ready_loop_frame:
  "ready_loop fuel e op stop d a s = Some (r, s') \<Longrightarrow> R s0 s \<Longrightarrow> R s0 s'"
proof (induction fuel arbitrary: a s)
  case (Suc fuel)
  obtain c s1 where c: "(if stop then checkpoint e d s else checkpoint_deadline e d s) = (c, s1)"
    by fastforce
  then have s1: "R s0 s1"
    using Suc.prems(2) by (auto split: if_splits intro: checkpoint_frame checkpoint_deadline_frame)
  obtain x s2 where x: "exchange e (plain_command op) s1 = (x, s2)" by fastforce
  have s2: "R s0 s2" using exchange_frame [OF x s1] .
  from Suc.prems(1) show ?case
    using c x s1 s2 by (auto split: sum.splits reply_status.splits
        intro: Suc.IH busy_pause_frame diag_frame)
qed simp

lemma ready_frame:
  "ready_with_attempt fuel e op stop d s = Some (r, s') \<Longrightarrow> R s0 s \<Longrightarrow> R s0 s'"
  unfolding ready_with_attempt_def by (erule ready_loop_frame) (rule diag_frame, simp_all)

section \<open>Reading a band\<close>

lemma progress_error_frame: "progress_error e er n len t s = (er', s') \<Longrightarrow> R s0 s \<Longrightarrow> R s0 s'"
  by (auto simp: progress_error_def split: prod.splits intro: diag_error_frame now_frame)

lemma fail_read_frame: "fail_read e f er raw len t s = (r, s') \<Longrightarrow> R s0 s \<Longrightarrow> R s0 s'"
  by (auto simp: fail_read_def split: prod.splits intro: progress_error_frame)

lemma observe_failure_frame: "observe_failure e d f s = (f', s') \<Longrightarrow> R s0 s \<Longrightarrow> R s0 s'"
  by (auto simp: observe_failure_def split: option.splits prod.splits sum.splits
      intro: checkpoint_frame)

lemma start_drain_frame: "start_drain e f d s = (d', s') \<Longrightarrow> R s0 s \<Longrightarrow> R s0 s'"
  by (auto simp: start_drain_def split: if_splits prod.splits intro: now_frame)

lemma drain_expired_frame: "drain_expired e d s = (b, s') \<Longrightarrow> R s0 s \<Longrightarrow> R s0 s'"
  by (auto simp: drain_expired_def split: option.splits prod.splits intro: now_frame)

lemma read_loop_frame:
  "read_loop e len deadline raw f d n t s = (r, s') \<Longrightarrow> R s0 s \<Longrightarrow> R s0 s'"
proof (induction "(len - length raw) + (2 - n)" arbitrary: raw f d n t s rule: less_induct)
  case less
  show ?case
  proof (cases "len \<le> length raw")
    case True
    then show ?thesis using less.prems by (auto simp: read_loop.simps)
  next
    case False
    obtain f1 s1 where o1: "observe_failure e deadline f s = (f1, s1)" by fastforce
    obtain d1 s2 where o2: "start_drain e f1 d s1 = (d1, s2)" by fastforce
    obtain x s3 where o3: "drain_expired e d1 s2 = (x, s3)" by fastforce
    define cap where "cap = read_capacity (len - length raw) (read_buffer_bytes (diag s3))"
    obtain y s4 where o4: "timed_read e cap s3 = (y, s4)" by fastforce
    have l3: "R s0 s3"
      using o1 o2 o3 less.prems(2)
      by (blast intro: observe_failure_frame start_drain_frame drain_expired_frame)
    have "allowed_read cap s3" using False
      unfolding allowed_read_def cap_def by (intro disjI2 exI [of _ "len - length raw"]) simp
    then have l4: "R s0 s4" using timed_read_frame [OF o4 _ l3] by simp
    note step = less.prems(1) [unfolded read_loop.simps [of e len deadline raw f d n t s]]
    note eqs = False o1 o2 o3 o4 [unfolded cap_def]
    show ?thesis
    proof (cases x)
      case True
      then show ?thesis using step eqs l3 by (auto intro: fail_read_frame)
    next
      case nx: False
      show ?thesis
      proof (cases y)
        case (Inl er)
        then show ?thesis using step eqs nx l4 by (auto intro: fail_read_frame)
      next
        case (Inr chunk)
        show ?thesis
        proof (cases "cap < length chunk \<or> len - length raw < length chunk")
          case True
          then show ?thesis using step eqs nx l4 Inr by (auto simp: cap_def intro: fail_read_frame)
        next
          case fits: False
          show ?thesis
          proof (cases "chunk = []")
            case empty: True
            show ?thesis
            proof (cases "2 \<le> n + 1")
              case True
              then show ?thesis using step eqs nx l4 Inr empty
                by (auto simp: Let_def intro: fail_read_frame)
            next
              case again: False
              obtain f2 where "read_loop e len deadline raw f2 d1 (n + 1) t s4 = (r, s')"
                using step eqs nx Inr empty again by (auto simp: Let_def)
              then show ?thesis using again l4 by (intro less.hyps) auto
            qed
          next
            case more: False
            obtain t' s5 where o5: "now e s4 = (t', s5)" by fastforce
            have rest: "read_loop e len deadline (raw @ chunk) f1 d1 n t' s5 = (r, s')"
              using step eqs nx Inr fits more o5 by (auto simp: Let_def cap_def)
            have "0 < length chunk" using more by simp
            then have "len - length (raw @ chunk) + (2 - n) < len - length raw + (2 - n)"
              using False unfolding length_append by linarith
            from less.hyps [OF this rest now_frame [OF o5 l4]] show ?thesis .
          qed
        qed
      qed
    qed
  qed
qed

lemma read_image_band_frame: "read_image_band e len d s = (r, s') \<Longrightarrow> R s0 s \<Longrightarrow> R s0 s'"
  unfolding read_image_band_def Let_def
  by (auto split: prod.splits sum.splits option.splits)
    (assumption | rule frame_intros | erule frame_elims read_loop_frame progress_error_frame)+

lemma take_image_frame: "take_image e d request caps sm band s = (r, s') \<Longrightarrow> R s0 s \<Longrightarrow> R s0 s'"
  unfolding take_image_def Let_def
  by (auto split: prod.splits sum.splits if_splits)
    (assumption | rule frame_intros | erule frame_elims read_image_band_frame)+

lemma deliver_band_frame: "deliver_band e d img h n sm s = (r, s') \<Longrightarrow> R s0 s \<Longrightarrow> R s0 s'"
  unfolding deliver_band_def Let_def
  by (auto split: prod.splits sum.splits outcome.splits)
    (assumption | rule frame_intros | erule frame_elims)+

lemma read_band_frame:
  "read_band fuel e d request caps sm s = Some (r, s') \<Longrightarrow> R s0 s \<Longrightarrow> R s0 s'"
  unfolding read_band_def
  by (auto split: option.splits prod.splits sum.splits if_splits bool.splits)
    (assumption | rule frame_intros | erule frame_elims ready_frame take_image_frame)+

section \<open>The job\<close>

lemma band_loop_frame:
  "band_loop fuel e d request caps sm s = Some (r, s') \<Longrightarrow> R s0 s \<Longrightarrow> R s0 s'"
proof (induction "4096 - sm_bands sm" arbitrary: sm s rule: less_induct)
  case less
  note loop = less.prems(1) [unfolded band_loop.simps [of fuel e d request caps sm s]]
  from loop obtain x f s1 where x: "read_band fuel e d request caps sm s = Some ((x, f), s1)"
    by (auto split: option.splits)
  have s1: "R s0 s1" by (rule read_band_frame [OF x less.prems(2)])
  show ?case
  proof (cases x)
    case (Inl er)
    then show ?thesis using loop x s1 by simp
  next
    case (Inr z)
    obtain band img h n where z: "z = (band, img, h, n)" by (cases z)
    obtain y s2 where y: "deliver_band e d img h n sm s1 = (y, s2)" by fastforce
    have s2: "R s0 s2" by (rule deliver_band_frame [OF y s1])
    show ?thesis
    proof (cases y)
      case (Inl er)
      then show ?thesis using loop x Inr z y s2 by auto
    next
      case next_sm: (Inr sm')
      have "4096 - sm_bands sm' < 4096 - sm_bands sm"
        using read_band_limit [of fuel e d request caps sm s z f s1] x Inr
          deliver_band_count [of e d img h n sm s1 sm' s2] y next_sm by simp
      then show ?thesis using loop x Inr z y next_sm s2 less.hyps [of sm' s2]
        by (auto split: if_splits)
    qed
  qed
qed

lemma reserved_job_frame:
  "reserved_job fuel e d request caps w s = Some (r, s') \<Longrightarrow> R s0 s \<Longrightarrow> R s0 s'"
  unfolding reserved_job_def Let_def ready_def
  by (auto split: option.splits prod.splits sum.splits)
    (assumption | rule frame_intros | erule frame_elims ready_frame band_loop_frame)+

lemma prepare_job_frame: "prepare_job e d s = (r, s') \<Longrightarrow> R s0 s \<Longrightarrow> R s0 s'"
  unfolding prepare_job_def Let_def
  by (auto split: prod.splits sum.splits outcome.splits)
    (assumption | rule frame_intros | erule frame_elims)+

lemma finish_loop_frame: "finish_loop e ops errors s = (r, s') \<Longrightarrow> R s0 s \<Longrightarrow> R s0 s'"
proof (induction ops arbitrary: errors s)
  case (Cons op ops)
  from Cons.prems show ?case
    by (auto simp: Let_def split: prod.splits sum.splits if_splits)
      (assumption | rule frame_intros | erule frame_elims Cons.IH)+
qed simp

lemma finish_frame: "finish e abort s = (r, s') \<Longrightarrow> R s0 s \<Longrightarrow> R s0 s'"
  by (auto simp: finish_def Let_def simp del: finish_loop.simps split: prod.splits if_splits
      intro: finish_loop_frame)

lemma clean_up_frame:
  assumes "clean_up e result f s = (r, s')" and "R s0 s"
  shows "R s0 s'"
proof -
  obtain x s1 where x: "finish e (is_err result) (set_stage e Cleanup s) = (x, s1)" by fastforce
  have "R s0 s1" using finish_frame [OF x set_stage_frame [OF assms(2)]] .
  then show ?thesis
    using assms(1) x by (auto simp: clean_up_def Let_def split: sum.splits prod.splits
        intro: fail_job_frame)
qed

lemma run_observed_frame:
  "run_observed fuel e s = Some (r, s') \<Longrightarrow> R s0 s \<Longrightarrow> R s0 s'"
  unfolding run_observed_def Let_def
  by (auto split: option.splits prod.splits sum.splits)
    (assumption | rule frame_intros | erule frame_elims prepare_job_frame ready_frame reserved_job_frame clean_up_frame)+

end

end
