(* ===== verification/Scan_Termination.thy ===== *)
theory Scan_Termination
  imports Scan_Frame
begin

text \<open>
  The scan job always returns. The one loop of \<open>src/scan.rs\<close> without a structural bound
  is the wait for a busy device; the locale \<open>ticking\<close> says what it needs of its
  environment: the clock never goes back and a sleep lasts at least as long as asked.
  It is interpreted on \<open>simulated e\<close>, which runs any environment on a virtual clock. The
  deadline of 120 s and the shortest pause of 1 ms bound the wait by 120001 rounds.
\<close>

definition later :: "('w \<Rightarrow> nat) \<Rightarrow> 'w job \<Rightarrow> 'w job \<Rightarrow> bool" where
  "later time s s' \<longleftrightarrow> time (world s) \<le> time (world s')
     \<and> read_poll_interval (diag s') = read_poll_interval (diag s)"

lemma later_refl [simp, intro!]: "later time s s"
  by (simp add: later_def)

lemma later_trans [trans]: "later time s t \<Longrightarrow> later time t u \<Longrightarrow> later time s u"
  by (simp add: later_def)

lemma later_on_diag [simp]:
  "keeps_setup f \<Longrightarrow> later time (on_diag f s) t = later time s t"
  "keeps_setup f \<Longrightarrow> later time t (on_diag f s) = later time t s"
  by (simp_all add: on_diag_def later_def keeps_setup_def)

lemma later_synchronized [simp]:
  "later time (s\<lparr>synchronized := b\<rparr>) t = later time s t"
  "later time t (s\<lparr>synchronized := b\<rparr>) = later time t s"
  by (simp_all add: later_def)

locale ticking =
  fixes e :: "'w env" and time :: "'w \<Rightarrow> nat"
  assumes clock_time: "clock e w = (t, w') \<Longrightarrow> t = time w \<and> time w \<le> time w'"
    and write_time: "usb_write e c w = (r, w') \<Longrightarrow> time w \<le> time w'"
    and read_time: "usb_read e n w = (b, w') \<Longrightarrow> time w \<le> time w'"
    and cancel_time: "cancel_flag e w = (c', w') \<Longrightarrow> time w \<le> time w'"
    and sink_time: "sink e img w = (q, w') \<Longrightarrow> time w \<le> time w'"
    and prepare_time: "prepare e raw w = (p, w') \<Longrightarrow> time w \<le> time w'"
    and sleep_time: "time w + d \<le> time (thread_sleep e d w)"
begin

lemma later_now: "now e s = (t, s') \<Longrightarrow> t = time (world s) \<and> later time s s'"
  by (auto simp: now_def on_world_def later_def clock_time split: prod.splits)

lemma later_cancelled: "cancelled e s = (c, s') \<Longrightarrow> later time s s'"
  by (auto simp: cancelled_def on_world_def later_def cancel_time split: prod.splits)

end

sublocale ticking \<subseteq> frame: job_frame e "later time"
  by unfold_locales
    (auto simp: on_world_def later_def on_diag_def keeps_setup_def split: prod.splits
      intro: later_trans add_leD1 [OF sleep_time]
      dest: later_now later_cancelled sink_time prepare_time write_time read_time)

context ticking
begin

lemmas later_set_stage [simp] = frame.set_stage_frame [OF later_refl]
  and later_diag_error = frame.diag_error_frame [OF _ later_refl]
  and later_fail_job = frame.fail_job_frame [OF _ later_refl]
  and later_exchange = frame.exchange_frame [OF _ later_refl]
  and later_take_image = frame.take_image_frame [OF _ later_refl]
  and later_deliver_band = frame.deliver_band_frame [OF _ later_refl]
  and later_prepare_job = frame.prepare_job_frame [OF _ later_refl]

lemma later_checkpoint_deadline:
  "checkpoint_deadline e d s = (r, s') \<Longrightarrow>
     later time s s' \<and> (d \<le> time (world s) \<longrightarrow> (\<exists>er. r = Inl er))"
  by (auto simp: checkpoint_deadline_def split: prod.splits dest: later_now)

lemma later_checkpoint:
  assumes "checkpoint e d s = (r, s')"
  shows "later time s s' \<and> (d \<le> time (world s) \<longrightarrow> (\<exists>er. r = Inl er))"
proof -
  obtain c s1 where c: "cancelled e s = (c, s1)" by fastforce
  note l = later_cancelled [OF c]
  show ?thesis
  proof (cases c)
    case True
    then show ?thesis using assms c l by (auto simp: checkpoint_def)
  next
    case False
    then have "checkpoint_deadline e d s1 = (r, s')" using assms c by (simp add: checkpoint_def)
    from later_checkpoint_deadline [OF this] l show ?thesis by (auto simp: later_def)
  qed
qed

lemma busy_pause_time:
  "time (world s) + busy_poll_interval op (read_poll_interval (diag s))
     \<le> time (world (busy_pause e op s))
   \<and> read_poll_interval (diag (busy_pause e op s)) = read_poll_interval (diag s)"
proof -
  obtain t s1 where n: "now e s = (t, s1)" by fastforce
  let ?d = "busy_poll_interval op (read_poll_interval (diag s1))"
  obtain t' s2 where n': "now e (s1\<lparr>world := thread_sleep e ?d (world s1)\<rparr>) = (t', s2)" by fastforce
  show ?thesis
    using later_now [OF n] later_now [OF n'] sleep_time [of "world s1" ?d] n n'
    by (simp add: busy_pause_def Let_def on_diag_def later_def)
qed

lemma ready_loop_returns:
  assumes "millis 1 \<le> read_poll_interval (diag s)" and "0 < fuel"
    and "deadline \<le> time (world s) + (fuel - 1) * millis 1"
  shows "\<exists>r s'. ready_loop fuel e op stop deadline att s = Some (r, s') \<and> later time s s'"
  using assms
proof (induction fuel arbitrary: s att)
  case (Suc fuel)
  obtain c s1 where c: "(if stop then checkpoint e deadline s
      else checkpoint_deadline e deadline s) = (c, s1)" by fastforce
  then have l1: "later time s s1" "deadline \<le> time (world s) \<longrightarrow> (\<exists>er. c = Inl er)"
    by (auto split: if_splits dest: later_checkpoint later_checkpoint_deadline)
  show ?case
  proof (cases c)
    case (Inl er)
    then show ?thesis using c l1 by simp
  next
    case (Inr u)
    with l1(2) have early: "time (world s) < deadline" by auto
    obtain x s2 where x: "exchange e (plain_command op) s1 = (x, s2)" by fastforce
    have l2: "later time s s2" using later_trans [OF l1(1) later_exchange [OF x]] .
    show ?thesis
    proof (cases x)
      case (Inl er)
      then show ?thesis using c \<open>c = Inr u\<close> x l2 by auto
    next
      case (Inr b)
      show ?thesis
      proof (cases "response_status b (op = 0x28)")
        case (Inl er)
        then show ?thesis using c \<open>c = Inr u\<close> x Inr l2 by auto
      next
        case st: (Inr st)
        show ?thesis
        proof (cases st)
          case Good
          then show ?thesis using c \<open>c = Inr u\<close> x Inr l2 st by auto
        next
          case Busy
          let ?s3 = "on_diag (record_busy_reply op b (op = 0x28)) s2"
          define s4 where "s4 = busy_pause e op ?s3"
          have l3: "later time s ?s3" using l2 by simp
          have pause: "millis 1 \<le> busy_poll_interval op (read_poll_interval (diag ?s3))"
            using Suc.prems(1) l3 by (simp add: busy_poll_interval_def later_def millis_def)
          have t4: "time (world s) + millis 1 \<le> time (world s4)"
            "read_poll_interval (diag s4) = read_poll_interval (diag s)"
            using busy_pause_time [of ?s3 op] pause l3 by (auto simp: s4_def later_def)
          have l4: "later time s s4" using t4 by (simp add: later_def)
          have "fuel \<noteq> 0" using early Suc.prems(3) by (cases fuel) auto
          then have "fuel * millis 1 = (fuel - 1) * millis 1 + millis 1" by (cases fuel) auto
          then have "deadline \<le> time (world s4) + (fuel - 1) * millis 1"
            using Suc.prems(3) t4(1) by simp
          then obtain r s' where "ready_loop fuel e op stop deadline True s4 = Some (r, s')"
            "later time s4 s'"
            using Suc.IH [of s4 True] Suc.prems(1) t4(2) \<open>fuel \<noteq> 0\<close> by auto
          then show ?thesis using c \<open>c = Inr u\<close> x Inr st Busy l4
            by (auto simp: s4_def intro: later_trans)
        qed
      qed
    qed
  qed
qed simp

text \<open>Enough fuel for a wait that starts within 120 s of the deadline.\<close>

lemma ready_returns:
  assumes "millis 1 \<le> read_poll_interval (diag s)" and "120001 \<le> fuel"
    and "deadline \<le> time (world s) + seconds 120"
  shows "\<exists>r att s'. ready_with_attempt fuel e op stop deadline s = Some ((r, att), s')
    \<and> later time s s'"
proof -
  let ?s = "on_diag (set_opcode op) s"
  have "seconds 120 = 120000 * millis 1" by (simp add: seconds_def millis_def)
  also have "\<dots> \<le> (fuel - 1) * millis 1" using assms(2) by (intro mult_le_mono1) simp
  finally have "deadline \<le> time (world ?s) + (fuel - 1) * millis 1"
    using assms(3) by (simp add: on_diag_def)
  moreover have "millis 1 \<le> read_poll_interval (diag ?s)"
    using assms(1) by (simp add: on_diag_def set_opcode_def)
  ultimately obtain r s' where "ready_loop fuel e op stop deadline False ?s = Some (r, s')"
    "later time ?s s'"
    using ready_loop_returns [of ?s fuel deadline op stop False] assms(2) by auto
  then show ?thesis by (cases r) (auto simp: ready_with_attempt_def)
qed

lemma read_band_returns:
  assumes "millis 1 \<le> read_poll_interval (diag s)" and "120001 \<le> fuel"
    and "d \<le> time (world s) + seconds 120"
  shows "\<exists>r s'. read_band fuel e d request caps sm s = Some (r, s') \<and> later time s s'"
proof -
  let ?s = "set_stage e ReadMetadata s"
  have l: "later time s ?s" by (rule later_set_stage)
  then obtain r att s1 where r: "ready_with_attempt fuel e 0x28 (sm_bands sm \<noteq> 0) d ?s
      = Some ((r, att), s1)" "later time ?s s1"
    using ready_returns [of ?s fuel d "0x28" "sm_bands sm \<noteq> 0"] assms by (auto simp: later_def)
  have l1: "later time s s1" using later_trans [OF l r(2)] .
  show ?thesis
    using r(1) l1
    by (auto simp: read_band_def split: sum.splits prod.splits if_splits bool.splits
        dest!: later_fail_job later_cancelled later_take_image intro: later_trans)
qed

lemma band_loop_returns:
  assumes "millis 1 \<le> read_poll_interval (diag s)" and "120001 \<le> fuel"
    and "d \<le> time (world s) + seconds 120"
  shows "\<exists>r. band_loop fuel e d request caps sm s = Some r"
  using assms
proof (induction "4096 - sm_bands sm" arbitrary: sm s rule: less_induct)
  case less
  obtain r f s1 where r: "read_band fuel e d request caps sm s = Some ((r, f), s1)" "later time s s1"
    using read_band_returns [OF less.prems] by fastforce
  show ?case
  proof (cases r)
    case (Inl er)
    then show ?thesis using r(1) by (simp add: band_loop.simps)
  next
    case (Inr z)
    obtain band img h n where z: "z = (band, img, h, n)" by (cases z)
    obtain y s2 where y: "deliver_band e d img h n sm s1 = (y, s2)" by fastforce
    have l2: "later time s s2" using later_trans [OF r(2) later_deliver_band [OF y]] .
    show ?thesis
    proof (cases y)
      case (Inl er)
      then show ?thesis using r(1) Inr z y by (subst band_loop.simps) auto
    next
      case next_sm: (Inr sm')
      have "4096 - sm_bands sm' < 4096 - sm_bands sm"
        using read_band_limit [of fuel e d request caps sm s z f s1] r(1) Inr
          deliver_band_count [of e d img h n sm s1 sm' s2] y next_sm by simp
      then have "\<exists>r. band_loop fuel e d request caps sm' s2 = Some r"
        using less.prems l2 by (intro less.hyps) (auto simp: later_def)
      then show ?thesis using r(1) Inr z y next_sm
        by (subst band_loop.simps) auto
    qed
  qed
qed

lemma reserved_job_returns:
  assumes "millis 1 \<le> read_poll_interval (diag s)" and "120001 \<le> fuel"
    and "d \<le> time (world s) + seconds 120"
  shows "\<exists>r. reserved_job fuel e d request caps w s = Some r"
proof -
  define s1 where "s1 = on_diag (set_opcode 0x24) (set_stage e SetWindow s)"
  have l1: "later time s s1" by (simp add: s1_def)
  obtain c s2 where c: "checkpoint e d s1 = (c, s2)" by fastforce
  obtain x s3 where x: "exchange e w s2 = (x, s3)" by fastforce
  let ?s4 = "set_stage e scan_stage.Start s3"
  have "later time s2 s3" using later_exchange [OF x] .
  then have l3: "later time s ?s4"
    using l1 later_checkpoint [OF c] later_set_stage [of s3 scan_stage.Start]
    by (blast intro: later_trans)
  then obtain r att s5 where r: "ready_with_attempt fuel e 0x31 True d ?s4 = Some ((r, att), s5)"
    "later time ?s4 s5"
    using ready_returns [of ?s4 fuel d "0x31" True] assms by (auto simp: later_def)
  have "later time s s5" using later_trans [OF l3 r(2)] .
  then have "\<exists>r. band_loop fuel e d request caps empty_summary s5 = Some r"
    using assms by (intro band_loop_returns) (auto simp: later_def)
  then show ?thesis
    using c x r(1)
    by (auto simp: reserved_job_def Let_def ready_def s1_def [symmetric]
        split: sum.splits prod.splits)
qed

lemma run_observed_returns:
  assumes "millis 1 \<le> read_poll_interval (diag s)" and "120001 \<le> fuel"
  shows "\<exists>r. run_observed fuel e s = Some r"
proof -
  obtain t s1 where t: "now e s = (t, s1)" by fastforce
  note n = later_now [OF t]
  obtain x s2 where x: "prepare_job e (t + seconds 120) s1 = (x, s2)" by fastforce
  have l2: "later time s (set_stage e Reserve s2)"
    using n later_prepare_job [OF x] later_set_stage [of s2 Reserve] by (blast intro: later_trans)
  then obtain r att s3 where r: "ready_with_attempt fuel e 0x16 True (t + seconds 120)
        (set_stage e Reserve s2) = Some ((r, att), s3)" "later time (set_stage e Reserve s2) s3"
    using ready_returns [of "set_stage e Reserve s2" fuel "t + seconds 120" "0x16" True] assms n
    by (auto simp: later_def)
  have l3: "later time s s3" using later_trans [OF l2 r(2)] .
  have "\<exists>y. reserved_job fuel e (t + seconds 120) request caps w s3 = Some y" for request caps w
    using assms l3 n by (intro reserved_job_returns) (auto simp: later_def)
  then have job: "reserved_job fuel e (t + seconds 120) request caps w s3 \<noteq> None" for request caps w
    by fastforce
  show ?thesis
  proof (cases x)
    case (Inl y)
    then show ?thesis using t x by (cases y) (simp add: run_observed_def Let_def)
  next
    case (Inr y)
    obtain request caps w where y: "y = (request, caps, w)" by (cases y)
    obtain v f s4 where "reserved_job fuel e (t + seconds 120) request caps w s3 = Some ((v, f), s4)"
      using job [of request caps w] by auto
    then show ?thesis using t x r(1) Inr y
      by (cases r) (auto simp: run_observed_def Let_def split: prod.splits)
  qed
qed

lemma run_job_returns:
  assumes "120001 \<le> fuel"
  shows "\<exists>r. run_job fuel e tuning w = Some r"
proof (cases "validate_tuning tuning")
  case (Inl er)
  then show ?thesis by (simp add: run_job_def)
next
  case (Inr u)
  then have "millis 1 \<le> tuning_poll_interval tuning"
    by (auto simp: validate_tuning_def validate_poll_interval_def result_simps)
  then have "\<exists>r. run_observed fuel e (start_job tuning t0 t1 w) = Some r" for t0 t1 w
    using assms by (intro run_observed_returns) (simp_all add: start_job_def Let_def)
  moreover obtain t0 w0 where c0: "clock e w = (t0, w0)" by fastforce
  moreover obtain t1 w1 where c1: "clock e w0 = (t1, w1)" by fastforce
  ultimately obtain r where "run_observed fuel e (start_job tuning t0 t1 w1) = Some r" by blast
  then show ?thesis using Inr c0 c1
    by (auto simp: run_job_def Let_def split: prod.splits)
qed

end

section \<open>Any environment on a virtual clock\<close>

definition simulated :: "'w env \<Rightarrow> ('w \<times> nat) env" where
  "simulated e =
     \<lparr>usb_write = (\<lambda>c (w, t). case usb_write e c w of (r, w') \<Rightarrow> (r, (w', t))),
      usb_read = (\<lambda>n (w, t). case usb_read e n w of (r, w') \<Rightarrow> (r, (w', t))),
      clock = (\<lambda>(w, t). (t, (w, t))),
      cancel_flag = (\<lambda>(w, t). case cancel_flag e w of (c, w') \<Rightarrow> (c, (w', t))),
      thread_sleep = (\<lambda>d (w, t). (thread_sleep e d w, t + d)),
      sink = (\<lambda>img (w, t). case sink e img w of (r, w') \<Rightarrow> (r, (w', t))),
      prepare = (\<lambda>raw (w, t). case prepare e raw w of (r, w') \<Rightarrow> (r, (w', t)))\<rparr>"

interpretation sim: ticking "simulated e" snd for e :: "'w env"
  by unfold_locales (auto simp: simulated_def split: prod.splits)

text \<open>
  Property C38: where the clock does not go back and a sleep lasts as long as asked, a
  job with any tuning returns, whatever the device, the consumer and the host do: 120001
  rounds of waiting, one per millisecond of the deadline and one more, are enough fuel.
\<close>

theorem scan_job_returns:
  assumes "ticking e time" and "120001 \<le> fuel"
  shows "\<exists>r. run_job fuel e tuning w = Some r"
  using assms by (rule ticking.run_job_returns)

lemma scan_job_returns_witness:
  "\<exists>r. run_job 120001 (simulated (scripted accepting)) default_tuning ([], 0) = Some r"
  using scan_job_returns [OF sim.ticking_axioms, of 120001] by simp

text \<open>More fuel changes nothing, so the result at the bound is the result of the code.\<close>

lemma ready_loop_fuel:
  "ready_loop fuel e op stop d att s = Some r \<Longrightarrow> fuel \<le> fuel' \<Longrightarrow>
     ready_loop fuel' e op stop d att s = Some r"
proof (induction fuel arbitrary: fuel' att s)
  case (Suc fuel)
  then obtain n where n: "fuel' = Suc n" "fuel \<le> n" by (cases fuel') auto
  show ?case
    using Suc.prems(1) unfolding n(1) ready_loop.simps
    by (auto split: prod.split_asm sum.split_asm reply_status.split_asm
        dest!: Suc.IH [OF _ n(2)])
qed simp

lemma ready_with_attempt_fuel:
  "ready_with_attempt fuel e op stop d s = Some r \<Longrightarrow> fuel \<le> fuel' \<Longrightarrow>
     ready_with_attempt fuel' e op stop d s = Some r"
  unfolding ready_with_attempt_def by (rule ready_loop_fuel)

lemma read_band_fuel:
  "read_band fuel e d request caps sm s = Some r \<Longrightarrow> fuel \<le> fuel' \<Longrightarrow>
     read_band fuel' e d request caps sm s = Some r"
  unfolding read_band_def
  by (cases "ready_with_attempt fuel e 0x28 (sm_bands sm \<noteq> 0) d (set_stage e ReadMetadata s)")
    (auto dest: ready_with_attempt_fuel)

lemma band_loop_fuel:
  assumes "fuel \<le> fuel'"
  shows "band_loop fuel e d request caps sm s = Some r \<Longrightarrow>
     band_loop fuel' e d request caps sm s = Some r"
proof (induction "4096 - sm_bands sm" arbitrary: sm s rule: less_induct)
  case less
  obtain x s1 where x: "read_band fuel e d request caps sm s = Some (x, s1)"
    using less.prems by (subst (asm) band_loop.simps) (auto split: option.splits)
  note x' = read_band_fuel [OF x assms]
  show ?case
  proof (cases "\<exists>band img h n f sm' s2. x = (Inr (band, img, h, n), f) \<and> \<not> final_band band
      \<and> deliver_band e d img h n sm s1 = (Inr sm', s2)")
    case True
    then obtain band img h n f sm' s2 where z: "x = (Inr (band, img, h, n), f)"
      "\<not> final_band band" "deliver_band e d img h n sm s1 = (Inr sm', s2)" by blast
    have "4096 - sm_bands sm' < 4096 - sm_bands sm"
      using read_band_limit [of fuel e d request caps sm s "(band, img, h, n)" f s1] x z
        deliver_band_count [OF z(3)] by simp
    moreover have "band_loop fuel e d request caps sm' s2 = Some r"
      using less.prems x z by (subst (asm) band_loop.simps) simp
    ultimately have "band_loop fuel' e d request caps sm' s2 = Some r" by (rule less.hyps)
    then show ?thesis using x' z by (subst band_loop.simps) simp
  next
    case False
    then show ?thesis using less.prems x x'
      by (subst band_loop.simps, subst (asm) band_loop.simps)
        (auto split: prod.splits sum.splits if_splits)
  qed
qed

lemma reserved_job_fuel:
  assumes "reserved_job fuel e d request caps w s = Some r" and "fuel \<le> fuel'"
  shows "reserved_job fuel' e d request caps w s = Some r"
  using assms(1) unfolding reserved_job_def ready_def Let_def
  by (auto split: prod.split_asm sum.split_asm option.split_asm
      dest!: ready_with_attempt_fuel [OF _ assms(2)] band_loop_fuel [OF assms(2)])

lemma run_observed_fuel:
  assumes "run_observed fuel e s = Some r" and "fuel \<le> fuel'"
  shows "run_observed fuel' e s = Some r"
  using assms(1) unfolding run_observed_def Let_def
  by (auto split: prod.split_asm sum.split_asm option.split_asm
      dest!: ready_with_attempt_fuel [OF _ assms(2)] reserved_job_fuel [OF _ assms(2)])

text \<open>
  The result does not depend on the fuel: a run that returns with some fuel
  returns the same with any more.
\<close>

theorem scan_job_fuel_irrelevant:
  assumes "run_job fuel e tuning w = Some r" and "fuel \<le> fuel'"
  shows "run_job fuel' e tuning w = Some r"
  using assms(1) unfolding run_job_def Let_def
  by (auto split: prod.split_asm sum.split_asm option.split_asm
      dest!: run_observed_fuel [OF _ assms(2)])

lemma scan_job_fuel_irrelevant_witness:
  "\<exists>p. run_job 120001 (logged_script accepting) default_tuning (sample_script [Inr ack], [])
     = Some ((Inr sample_summary, Ready), p, ([], sample_log))"
proof -
  obtain p where "run_job 1 (logged_script accepting) default_tuning (sample_script [Inr ack], [])
     = Some ((Inr sample_summary, Ready), p, ([], sample_log))" using sample_run by blast
  from scan_job_fuel_irrelevant [OF this, of 120001] show ?thesis by auto
qed

end
