(* ===== verification/Bmp.thy ===== *)
theory Bmp
  imports Scan_Conversation
begin

text \<open>
  The incremental BMP encoder of \<open>src/bitmap.rs\<close>. The output stream \<open>W: Write + Seek\<close> is
  a parameter: a record of its operations over an arbitrary state. A write may accept
  fewer bytes than offered, none, or claim more, and may fail. The encoder's own state is
  a record beside the stream. The locale \<open>byte_stream\<close> says what a stream owes the
  encoder; it is interpreted on the in-memory cursor of the standard library.
\<close>

section \<open>Streams\<close>

datatype seek_from = From_start nat | From_end int | From_current int

record 'o stream =
  stream_write :: "bytes \<Rightarrow> 'o \<Rightarrow> nat io \<times> 'o"
  stream_seek :: "seek_from \<Rightarrow> 'o \<Rightarrow> nat io \<times> 'o"

definition invalid_data_num :: "message list \<Rightarrow> io_error" where
  "invalid_data_num ms = Custom InvalidData (Message (Fmt ms))"

function write_bounded :: "'o stream \<Rightarrow> bytes \<Rightarrow> 'o \<Rightarrow> unit io \<times> 'o" where
  "write_bounded wr bs st =
     (if bs = [] then (Inr (), st)
      else case stream_write wr bs st of
             (Inl er, st) \<Rightarrow> (Inl er, st)
           | (Inr n, st) \<Rightarrow>
               if n = 0 then (Inl (Custom WriteZero (Message (Lit ''BMP writer made no progress''))), st)
               else if n \<le> length bs then write_bounded wr (drop n bs) st
               else (Inl (invalid_data_num [Lit ''BMP writer returned more bytes ('', Num (int n),
                       Lit '') than provided'']), st))"
  by pat_completeness auto
termination
  by (relation "measure (\<lambda>(wr, bs, st). length bs)") auto

declare write_bounded.simps [simp del]

section \<open>Geometry\<close>

definition FILE_HEADER_BYTES :: nat where "FILE_HEADER_BYTES = 14"
definition INFO_HEADER_BYTES :: nat where "INFO_HEADER_BYTES = 40"
definition GRAY_PALETTE_BYTES :: nat where "GRAY_PALETTE_BYTES = 256 * 4"
definition MAX_INPUT_ROW_BYTES :: nat where "MAX_INPUT_ROW_BYTES = 65536"
definition MAX_PIXEL_BYTES :: nat where "MAX_PIXEL_BYTES = 256 * 1024 * 1024"
definition MAX_BANDS :: nat where "MAX_BANDS = 4096"

definition dpi_to_ppm :: "u32 \<Rightarrow> int io" where
  "dpi_to_ppm d =
     (if d = 0 then Inl (invalid_input ''BMP DPI must be non-zero'')
      else and_then (ok_or (invalid_input ''BMP DPI conversion overflow'')
             (Option.bind (checked_mul64 (unat d) 10000) (\<lambda>v. checked_add64 v 127)))
           (\<lambda>v. ok_or (invalid_input ''BMP pixels-per-metre does not fit i32'')
             (i32_of_nat (v div 254))))"

record band_geometry =
  row_bytes :: nat
  geo_stride :: nat
  pixel_count :: nat

text \<open>\<open>& !3\<close> clears the two low bits.\<close>

definition align4 :: "nat \<Rightarrow> nat" where
  "align4 n = n - n mod 4"

definition validate_band_geometry :: "image_band \<Rightarrow> color_mode \<Rightarrow> band_geometry io" where
  "validate_band_geometry band m =
     (if ib_mode band \<noteq> m then Inl (invalid ''Image band mode differs from BMP mode'')
      else if ib_width band = 0 \<or> ib_rows band = 0
      then Inl (invalid ''Image band width and rows must be non-zero'')
      else if ib_width band > 2 ^ 31 - 1 then Inl (invalid ''BMP width does not fit i32'')
      else and_then (ok_or (invalid ''Image row size overflow'')
             (checked_mul64 (ib_width band) (channels m))) (\<lambda>rb.
           if rb = 0 \<or> rb > MAX_INPUT_ROW_BYTES
           then Inl (invalid ''Image row exceeds the 65536-byte limit'')
           else and_then (ok_or (invalid ''Image pixel size overflow'')
                  (checked_mul64 rb (ib_rows band))) (\<lambda>pb.
                if length (pixels band) \<noteq> pb
                then Inl (invalid_data_num [Lit ''Image band pixel length '',
                       Num (int (length (pixels band))), Lit '' does not match expected '',
                       Num (int pb)])
                else and_then (ok_or (invalid ''BMP row stride overflow'') (checked_add64 rb 3))
                       (\<lambda>padded. Inr \<lparr>row_bytes = rb, geo_stride = align4 padded,
                          pixel_count = pb\<rparr>))))"

definition checked_add_u32 :: "nat \<Rightarrow> nat \<Rightarrow> nat option" where
  "checked_add_u32 a b = (if a + b < 2 ^ 32 then Some (a + b) else None)"

definition validate_accumulation ::
    "nat \<Rightarrow> nat \<Rightarrow> nat \<Rightarrow> nat \<Rightarrow> nat \<Rightarrow> nat \<Rightarrow> nat \<Rightarrow> (nat \<times> nat \<times> nat) io" where
  "validate_accumulation height bands byte_count width rows pb stride =
     (if width = 0 \<or> width > 2 ^ 31 - 1 \<or> rows = 0 \<or> stride = 0
      then Inl (invalid ''Invalid BMP image geometry'')
      else if stride > MAX_INPUT_ROW_BYTES + 3
      then Inl (invalid ''BMP row stride exceeds the bounded row limit'')
      else if bands \<ge> MAX_BANDS then Inl (invalid ''BMP image exceeds the 4096-band limit'')
      else and_then (ok_or (invalid ''BMP band count overflow'') (checked_add_u32 bands 1))
           (\<lambda>next_bands.
           and_then (ok_or (invalid ''BMP image height overflow'') (checked_add_u32 height rows))
           (\<lambda>next_height.
             if next_height > 2 ^ 31 - 1
             then Inl (invalid ''BMP image height does not fit i32'')
             else and_then (ok_or (invalid ''BMP pixel byte count overflow'')
                              (checked_add64 byte_count pb)) (\<lambda>next_bytes.
                  if next_bytes > MAX_PIXEL_BYTES
                  then Inl (invalid ''BMP image exceeds the 256 MiB pixel limit'')
                  else Inr (next_height, next_bands, next_bytes)))))"

section \<open>The encoder\<close>

text \<open>\<open>poisoned\<close> keeps the kind and the text of the first error.\<close>

record encoder =
  enc_mode :: color_mode
  pixels_per_metre :: int
  enc_width :: "nat option"
  enc_height :: nat
  enc_bands :: nat
  enc_bytes :: nat
  row_stride :: nat
  pixel_offset :: nat
  header_written :: bool
  poisoned :: "(error_kind \<times> message) option"

definition poison_capture :: "io_error \<Rightarrow> error_kind \<times> message" where
  "poison_capture er = (kind er, Shown er)"

definition poison_error :: "error_kind \<times> message \<Rightarrow> io_error" where
  "poison_error p = Custom (fst p) (Message (snd p))"

definition offset_of_mode :: "color_mode \<Rightarrow> nat" where
  "offset_of_mode m = FILE_HEADER_BYTES + INFO_HEADER_BYTES
     + (if m = Gray then GRAY_PALETTE_BYTES else 0)"

definition encoder_new :: "'o stream \<Rightarrow> u32 \<Rightarrow> color_mode \<Rightarrow> 'o \<Rightarrow> encoder io \<times> 'o" where
  "encoder_new wr d m st =
     (case dpi_to_ppm d of
        Inl er \<Rightarrow> (Inl er, st)
      | Inr p \<Rightarrow>
          (case stream_seek wr (From_current 0) st of
             (Inl er, st) \<Rightarrow> (Inl er, st)
           | (Inr original, st) \<Rightarrow>
               (case stream_seek wr (From_end 0) st of
                  (Inl er, st) \<Rightarrow> (Inl er, st)
                | (Inr last_pos, st) \<Rightarrow>
                    if last_pos \<noteq> 0
                    then (Inl (invalid_input ''BMP output stream must be empty''),
                          snd (stream_seek wr (From_start original) st))
                    else (Inr \<lparr>enc_mode = m, pixels_per_metre = p, enc_width = None,
                            enc_height = 0, enc_bands = 0, enc_bytes = 0, row_stride = 0,
                            pixel_offset = offset_of_mode m, header_written = False,
                            poisoned = None\<rparr>, st))))"

definition file_header :: "nat \<Rightarrow> bytes" where
  "file_header offset = put_slice 10 (le_bytes 4 (offset mod 2 ^ 32)) (replicate 14 0)"

definition info_header :: "color_mode \<Rightarrow> int \<Rightarrow> nat \<Rightarrow> bytes" where
  "info_header m p width =
     (let b = replicate 40 0;
          b = put_slice 0 (le_bytes 4 40) b;
          b = put_slice 4 (le_bytes 4 width) b;
          b = put_slice 8 (le_bytes 4 0) b;
          b = put_slice 12 (le_bytes 2 1) b;
          b = put_slice 14 (le_bytes 2 (case m of Gray \<Rightarrow> 8 | Rgb \<Rightarrow> 24)) b;
          b = put_slice 16 (le_bytes 4 0) b;
          b = put_slice 20 (le_bytes 4 0) b;
          b = put_slice 24 (i32_le_bytes p) b;
          b = put_slice 28 (i32_le_bytes p) b;
          b = put_slice 32 (le_bytes 4 (if m = Gray then 256 else 0)) b;
          b = put_slice 36 (le_bytes 4 0) b
      in b)"

definition palette :: bytes where
  "palette = concat (map (\<lambda>v. [word_of_nat v, word_of_nat v, word_of_nat v, 0]) [0..<256])"

definition write_initial_header ::
    "'o stream \<Rightarrow> nat \<Rightarrow> encoder \<Rightarrow> 'o \<Rightarrow> unit io \<times> encoder \<times> 'o" where
  "write_initial_header wr width en st =
     (case stream_seek wr (From_start 0) st of
        (Inl er, st) \<Rightarrow> (Inl er, en, st)
      | (Inr _, st) \<Rightarrow>
          (case write_bounded wr (file_header (pixel_offset en)) st of
             (Inl er, st) \<Rightarrow> (Inl er, en, st)
           | (Inr _, st) \<Rightarrow>
               (case write_bounded wr (info_header (enc_mode en) (pixels_per_metre en) width) st of
                  (Inl er, st) \<Rightarrow> (Inl er, en, st)
                | (Inr _, st) \<Rightarrow>
                    (case (if enc_mode en = Gray then write_bounded wr palette st else (Inr (), st)) of
                       (Inl er, st) \<Rightarrow> (Inl er, en, st)
                     | (Inr _, st) \<Rightarrow> (Inr (), en\<lparr>header_written := True\<rparr>, st)))))"

text \<open>One input row as it is stored: colour samples in the order blue, green, red.\<close>

definition stored_row :: "color_mode \<Rightarrow> bytes \<Rightarrow> bytes" where
  "stored_row m row = (case m of
     Gray \<Rightarrow> row
   | Rgb \<Rightarrow> concat (map (\<lambda>s. [s ! 2, s ! 1, s ! 0]) (chunks_exact 3 row)))"

fun write_rows :: "'o stream \<Rightarrow> color_mode \<Rightarrow> nat \<Rightarrow> bytes list \<Rightarrow> 'o \<Rightarrow> unit io \<times> 'o" where
  "write_rows wr m padding [] st = (Inr (), st)"
| "write_rows wr m padding (row # rows) st =
     (case write_bounded wr (stored_row m row) st of
        (Inl er, st) \<Rightarrow> (Inl er, st)
      | (Inr _, st) \<Rightarrow>
          (case write_bounded wr (replicate padding 0) st of
             (Inl er, st) \<Rightarrow> (Inl er, st)
           | (Inr _, st) \<Rightarrow> write_rows wr m padding rows st))"

definition write_band ::
    "'o stream \<Rightarrow> image_band \<Rightarrow> band_geometry \<Rightarrow> encoder \<Rightarrow> 'o \<Rightarrow> unit io \<times> 'o" where
  "write_band wr band g en st =
     write_rows wr (enc_mode en) (geo_stride g - row_bytes g)
       (chunks_exact (row_bytes g) (pixels band)) st"

definition poison :: "encoder \<Rightarrow> io_error \<Rightarrow> 'o \<Rightarrow> unit io \<times> encoder \<times> 'o" where
  "poison en er st = (Inl er, en\<lparr>poisoned := Some (poison_capture er)\<rparr>, st)"

definition push :: "'o stream \<Rightarrow> image_band \<Rightarrow> encoder \<Rightarrow> 'o \<Rightarrow> unit io \<times> encoder \<times> 'o" where
  "push wr band en st =
     (case poisoned en of
        Some p \<Rightarrow> (Inl (poison_error p), en, st)
      | None \<Rightarrow>
        (case validate_band_geometry band (enc_mode en) of
           Inl er \<Rightarrow> poison en er st
         | Inr g \<Rightarrow>
           if enc_width en \<noteq> None \<and> enc_width en \<noteq> Some (ib_width band)
           then poison en (invalid ''Image band width changed'') st
           else
             (case validate_accumulation (enc_height en) (enc_bands en) (enc_bytes en)
                     (ib_width band) (ib_rows band) (pixel_count g) (geo_stride g) of
                Inl er \<Rightarrow> poison en er st
              | Inr (next_height, next_bands, next_bytes) \<Rightarrow>
                  (case (if enc_width en = None
                         then case write_initial_header wr (ib_width band) en st of
                                (Inl er, en, st) \<Rightarrow> (Inl er, en, st)
                              | (Inr _, en, st) \<Rightarrow>
                                  (Inr (), en\<lparr>enc_width := Some (ib_width band),
                                              row_stride := geo_stride g\<rparr>, st)
                         else (Inr (), en, st)) of
                     (Inl er, en, st) \<Rightarrow> poison en er st
                   | (Inr _, en, st) \<Rightarrow>
                       (case write_band wr band g en st of
                          (Inl er, st) \<Rightarrow> poison en er st
                        | (Inr _, st) \<Rightarrow>
                            (Inr (), en\<lparr>enc_height := next_height, enc_bands := next_bands,
                                        enc_bytes := next_bytes\<rparr>, st))))))"

definition write_at :: "'o stream \<Rightarrow> nat \<Rightarrow> bytes \<Rightarrow> 'o \<Rightarrow> unit io \<times> 'o" where
  "write_at wr offset bs st =
     (case stream_seek wr (From_start offset) st of
        (Inl er, st) \<Rightarrow> (Inl er, st)
      | (Inr _, st) \<Rightarrow> write_bounded wr bs st)"

definition progress :: "encoder \<Rightarrow> nat \<times> nat" where
  "progress en =
     (enc_height en, if enc_height en = 0 then 0 else pixel_offset en + enc_height en * row_stride en)"

definition u32_of_nat :: "nat \<Rightarrow> nat option" where
  "u32_of_nat n = (if n < 2 ^ 32 then Some n else None)"

text \<open>The sizes that \<open>finish\<close> computes before it touches the stream.\<close>

definition final_sizes :: "encoder \<Rightarrow> scan_summary \<Rightarrow> (nat \<times> int \<times> nat) io" where
  "final_sizes en sm =
     (case poisoned en of
        Some p \<Rightarrow> Inl (poison_error p)
      | None \<Rightarrow>
        and_then (ok_or (invalid ''Cannot finish BMP without an image band'') (enc_width en))
        (\<lambda>width.
          if \<not> header_written en \<or> sm_width sm \<noteq> width \<or> sm_height sm \<noteq> enc_height en
             \<or> sm_bands sm \<noteq> enc_bands en \<or> sm_bytes sm \<noteq> enc_bytes en
          then Inl (invalid ''BMP scan summary does not match delivered image data'')
          else
            and_then (ok_or (invalid ''BMP image size overflow'')
                        (checked_mul64 (row_stride en) (enc_height en))) (\<lambda>image_size.
            and_then (ok_or (invalid ''BMP file size overflow'')
                        (checked_add64 (pixel_offset en) image_size)) (\<lambda>file_size.
            and_then (ok_or (invalid ''BMP file size does not fit u32'') (u32_of_nat file_size))
                     (\<lambda>file_size.
            and_then (ok_or (invalid ''BMP image height does not fit i32'')
                        (i32_of_nat (enc_height en))) (\<lambda>height.
            and_then (ok_or (invalid ''BMP image size does not fit u32'') (u32_of_nat image_size))
                     (\<lambda>image_size. Inr (file_size, height, image_size))))))))"

definition encoder_finish :: "'o stream \<Rightarrow> scan_summary \<Rightarrow> encoder \<Rightarrow> 'o \<Rightarrow> unit io \<times> 'o" where
  "encoder_finish wr sm en st =
     (case final_sizes en sm of
        Inl er \<Rightarrow> (Inl er, st)
      | Inr (file_size, height, image_size) \<Rightarrow>
          (case write_at wr 2 (le_bytes 4 file_size) st of
             (Inl er, st) \<Rightarrow> (Inl er, st)
           | (Inr _, st) \<Rightarrow>
               (case write_at wr 22 (i32_le_bytes (- height)) st of
                  (Inl er, st) \<Rightarrow> (Inl er, st)
                | (Inr _, st) \<Rightarrow>
                    (case write_at wr 34 (le_bytes 4 image_size) st of
                       (Inl er, st) \<Rightarrow> (Inl er, st)
                     | (Inr _, st) \<Rightarrow> write_at wr 0 [0x42, 0x4d] st))))"

section \<open>What a stream owes the encoder\<close>

text \<open>
  Writing at a position replaces the bytes there; beyond the end the gap is zero-filled.
  The laws speak of successful calls only: a failed one may leave any contents.
\<close>

definition overwrite :: "nat \<Rightarrow> bytes \<Rightarrow> bytes \<Rightarrow> bytes" where
  "overwrite p bs data = take p data @ replicate (p - length data) 0 @ bs @ drop (p + length bs) data"

lemma overwrite_at_end: "overwrite (length data) bs data = data @ bs"
  by (simp add: overwrite_def)

lemma overwrite_inside:
  "p + length bs \<le> length data \<Longrightarrow> overwrite p bs data = put_slice p bs data"
  by (simp add: overwrite_def put_slice_def)

lemma overwrite_Nil [simp]: "p \<le> length data \<Longrightarrow> overwrite p [] data = data"
  by (simp add: overwrite_def)

lemma overwrite_append:
  assumes "p \<le> length data"
  shows "overwrite (p + length xs) ys (overwrite p xs data) = overwrite p (xs @ ys) data"
  using assms by (simp add: overwrite_def min_def add.commute add.left_commute)

locale byte_stream =
  fixes wr :: "'o stream" and contents :: "'o \<Rightarrow> bytes" and position :: "'o \<Rightarrow> nat"
  assumes write_law: "stream_write wr bs st = (Inr n, st') \<Longrightarrow> n \<le> length bs \<Longrightarrow>
      position st \<le> length (contents st) \<Longrightarrow>
      contents st' = overwrite (position st) (take n bs) (contents st)
      \<and> position st' = position st + n"
    and seek_start_law: "stream_seek wr (From_start p) st = (Inr q, st') \<Longrightarrow>
      p < 2 ^ 64 \<Longrightarrow> contents st' = contents st \<and> position st' = p"
    and seek_end_law: "stream_seek wr (From_end 0) st = (Inr q, st') \<Longrightarrow>
      contents st' = contents st \<and> position st' = length (contents st) \<and> q = length (contents st)"
    and seek_current_law: "stream_seek wr (From_current 0) st = (Inr q, st') \<Longrightarrow>
      contents st' = contents st \<and> position st' = position st \<and> q = position st"
begin

lemma write_bounded_contents:
  "write_bounded wr bs st = (Inr u, st') \<Longrightarrow> position st \<le> length (contents st) \<Longrightarrow>
     contents st' = overwrite (position st) bs (contents st)
     \<and> position st' = position st + length bs"
proof (induction bs arbitrary: st rule: length_induct)
  case (1 bs)
  show ?case
  proof (cases "bs = []")
    case True
    then show ?thesis using 1 by (simp add: write_bounded.simps)
  next
    case False
    with "1.prems"(1) obtain n st1 where w: "stream_write wr bs st = (Inr n, st1)" "n \<noteq> 0"
      "n \<le> length bs" and rest: "write_bounded wr (drop n bs) st1 = (Inr u, st')"
      by (subst (asm) write_bounded.simps) (auto split: prod.splits sum.splits if_splits)
    note law = write_law [OF w(1,3) "1.prems"(2)]
    have "length (contents st1) \<ge> position st1"
      using law "1.prems"(2) w(3) by (auto simp: overwrite_def)
    moreover have "length (drop n bs) < length bs" using False w(2) by simp
    ultimately have "contents st' = overwrite (position st1) (drop n bs) (contents st1)
        \<and> position st' = position st1 + length (drop n bs)"
      using "1.IH" rest by blast
    then show ?thesis
      using law w(3) overwrite_append [OF "1.prems"(2), of "take n bs" "drop n bs"]
      by (simp add: min_absorb2)
  qed
qed

text \<open>Appending at the end of the file, the only way the encoder adds bytes.\<close>

lemma write_bounded_append:
  assumes "write_bounded wr bs st = (Inr u, st')" and "position st = length (contents st)"
  shows "contents st' = contents st @ bs \<and> position st' = length (contents st')"
  using write_bounded_contents [OF assms(1)] assms(2) by (simp add: overwrite_at_end)

lemma write_at_contents:
  assumes "write_at wr p bs st = (Inr u, st')" and "p + length bs \<le> length (contents st)"
    and "p < 2 ^ 64"
  shows "contents st' = put_slice p bs (contents st)"
proof -
  obtain q st1 where s: "stream_seek wr (From_start p) st = (Inr q, st1)"
    and w: "write_bounded wr bs st1 = (Inr u, st')"
    using assms(1) by (auto simp: write_at_def split: prod.splits sum.splits)
  show ?thesis
    using write_bounded_contents [OF w] seek_start_law [OF s assms(3)] assms(2)
    by (simp add: overwrite_inside)
qed

end

text \<open>The standard library's in-memory cursor.\<close>

definition cursor :: "(bytes \<times> nat) stream" where
  "cursor =
     \<lparr>stream_write = (\<lambda>bs (data, p). (Inr (length bs), (overwrite p bs data, p + length bs))),
      stream_seek = (\<lambda>f (data, p). case f of
          From_start n \<Rightarrow> (Inr n, (data, n))
        | From_end i \<Rightarrow> if int (length data) + i < 0
            then (Inl (invalid_input ''invalid seek to a negative or overflowing position''), (data, p))
            else let n = nat (int (length data) + i) in (Inr n, (data, n))
        | From_current i \<Rightarrow> if int p + i < 0
            then (Inl (invalid_input ''invalid seek to a negative or overflowing position''), (data, p))
            else let n = nat (int p + i) in (Inr n, (data, n)))\<rparr>"

interpretation mem: byte_stream cursor fst snd
  by unfold_locales (auto simp: cursor_def Let_def split: prod.splits)

section \<open>The file format\<close>

definition stride_of :: "color_mode \<Rightarrow> nat \<Rightarrow> nat" where
  "stride_of m w = align4 (w * channels m + 3)"

definition padded_row :: "color_mode \<Rightarrow> nat \<Rightarrow> bytes \<Rightarrow> bytes" where
  "padded_row m w row = stored_row m row @ replicate (stride_of m w - w * channels m) 0"

definition band_data :: "color_mode \<Rightarrow> nat \<Rightarrow> image_band \<Rightarrow> bytes" where
  "band_data m w band = concat (map (padded_row m w) (chunks_exact (w * channels m) (pixels band)))"

definition headers :: "color_mode \<Rightarrow> int \<Rightarrow> nat \<Rightarrow> bytes" where
  "headers m p w = file_header (offset_of_mode m) @ info_header m p w
     @ (if m = Gray then palette else [])"

definition unfinished :: "color_mode \<Rightarrow> int \<Rightarrow> nat \<Rightarrow> image_band list \<Rightarrow> bytes" where
  "unfinished m p w bands = headers m p w @ concat (map (band_data m w) bands)"

definition valid_band :: "color_mode \<Rightarrow> nat \<Rightarrow> image_band \<Rightarrow> bool" where
  "valid_band m w band \<longleftrightarrow> ib_mode band = m \<and> ib_width band = w \<and> 0 < w \<and> 0 < ib_rows band
     \<and> w < 2 ^ 31 \<and> w * channels m \<le> MAX_INPUT_ROW_BYTES
     \<and> length (pixels band) = w * channels m * ib_rows band"

lemma length_palette [simp]: "length palette = 1024"
proof -
  have "length (concat (map (\<lambda>v. [word_of_nat v, word_of_nat v, word_of_nat v, 0 :: u8]) xs))
      = length xs * 4" for xs
    by (induction xs) auto
  then show ?thesis by (simp add: palette_def)
qed

lemma length_file_header [simp]: "length (file_header n) = 14"
  by (simp add: file_header_def)

lemma length_info_header [simp]: "length (info_header m p w) = 40"
  by (simp add: info_header_def Let_def)

lemma length_headers: "length (headers m p w) = offset_of_mode m"
  by (simp add: headers_def offset_of_mode_def FILE_HEADER_BYTES_def INFO_HEADER_BYTES_def
      GRAY_PALETTE_BYTES_def)

lemma align4_bounds: "n \<le> align4 (n + 3) \<and> align4 (n + 3) \<le> n + 3 \<and> 4 dvd align4 (n + 3)"
  unfolding align4_def by presburger

lemma stride_bounds: "w * channels m \<le> stride_of m w \<and> stride_of m w \<le> w * channels m + 3"
  using align4_bounds [of "w * channels m"] by (simp add: stride_of_def)

lemma validate_band_geometry_Inr_iff:
  "validate_band_geometry band m = Inr g \<longleftrightarrow>
     valid_band m (ib_width band) band
     \<and> g = \<lparr>row_bytes = ib_width band * channels m, geo_stride = stride_of m (ib_width band),
            pixel_count = ib_width band * channels m * ib_rows band\<rparr>
     \<and> ib_width band * channels m * ib_rows band < 2 ^ 64"
proof -
  have c: "0 < channels m" by (cases m) auto
  show ?thesis
    using c
    by (auto simp: validate_band_geometry_def valid_band_def result_simps stride_of_def
        MAX_INPUT_ROW_BYTES_def split: if_splits)
qed

lemma validate_accumulation_Inr_iff:
  "validate_accumulation h b n w r pb st = Inr (h', b', n') \<longleftrightarrow>
     0 < w \<and> w < 2 ^ 31 \<and> 0 < r \<and> 0 < st \<and> st \<le> MAX_INPUT_ROW_BYTES + 3 \<and> b < MAX_BANDS
     \<and> h' = h + r \<and> h' < 2 ^ 31 \<and> b' = b + 1 \<and> n' = n + pb \<and> n' \<le> MAX_PIXEL_BYTES"
  by (auto simp: validate_accumulation_def result_simps checked_add_u32_def MAX_BANDS_def
      MAX_PIXEL_BYTES_def split: if_splits)

section \<open>What has been written\<close>

text \<open>
  \<open>tracks m p bands en data\<close>: the encoder \<open>en\<close> for mode \<open>m\<close> and resolution \<open>p\<close> has taken
  the bands \<open>bands\<close>, and the stream holds \<open>data\<close>.
\<close>

definition tracks :: "color_mode \<Rightarrow> int \<Rightarrow> image_band list \<Rightarrow> encoder \<Rightarrow> bytes \<Rightarrow> bool" where
  "tracks m p bands en data \<longleftrightarrow>
     enc_mode en = m \<and> pixels_per_metre en = p \<and> pixel_offset en = offset_of_mode m
     \<and> poisoned en = None
     \<and> enc_height en = sum_list (map ib_rows bands) \<and> enc_height en < 2 ^ 31
     \<and> enc_bands en = length bands
     \<and> enc_bytes en = sum_list (map (\<lambda>b. length (pixels b)) bands)
     \<and> (if bands = [] then enc_width en = None \<and> data = []
        else (\<exists>w. enc_width en = Some w \<and> header_written en \<and> row_stride en = stride_of m w
               \<and> (\<forall>b \<in> set bands. valid_band m w b) \<and> data = unfinished m p w bands))"

lemma concat_rows_length:
  "\<forall>row \<in> set rows. length (f row) = n \<Longrightarrow> length (concat (map f rows)) = n * length rows"
  by (induction rows) auto

lemma length_stored_row:
  assumes "length row = w * channels m"
  shows "length (stored_row m row) = length row"
proof (cases m)
  case Gray
  then show ?thesis by (simp add: stored_row_def)
next
  case Rgb
  have "length (chunks_exact 3 row) = w"
    using concat_chunks_exact [of row w 3] assms Rgb by simp
  then show ?thesis
    using assms Rgb by (simp add: stored_row_def concat_rows_length [where n = 3])
qed

lemma length_padded_row:
  "length row = w * channels m \<Longrightarrow> length (padded_row m w row) = stride_of m w"
  using stride_bounds [of w m] length_stored_row [of row w m] by (simp add: padded_row_def)

lemma band_rows:
  assumes "valid_band m w band"
  shows "concat (chunks_exact (w * channels m) (pixels band)) = pixels band
    \<and> length (chunks_exact (w * channels m) (pixels band)) = ib_rows band
    \<and> (\<forall>row \<in> set (chunks_exact (w * channels m) (pixels band)). length row = w * channels m)"
proof -
  have "0 < w * channels m" using assms by (cases m) (auto simp: valid_band_def)
  then show ?thesis
    using assms by (intro concat_chunks_exact) (auto simp: valid_band_def mult.commute)
qed

lemma length_band_data:
  "valid_band m w band \<Longrightarrow> length (band_data m w band) = ib_rows band * stride_of m w"
  using band_rows [of m w band]
  by (simp add: band_data_def concat_rows_length [where n = "stride_of m w"] length_padded_row)

lemma length_unfinished:
  "\<forall>b \<in> set bands. valid_band m w b \<Longrightarrow>
     length (unfinished m p w bands)
       = offset_of_mode m + sum_list (map ib_rows bands) * stride_of m w"
proof (induction bands rule: rev_induct)
  case Nil
  then show ?case by (simp add: unfinished_def length_headers)
next
  case (snoc b bands)
  then show ?case
    by (simp add: unfinished_def length_band_data algebra_simps)
qed

context byte_stream
begin

lemma write_rows_append:
  assumes "write_rows wr m pad rows st = (Inr u, st')" and "position st = length (contents st)"
  shows "contents st' = contents st @ concat (map (\<lambda>r. stored_row m r @ replicate pad 0) rows)
    \<and> position st' = length (contents st')"
  using assms
proof (induction rows arbitrary: st)
  case (Cons row rows)
  obtain u1 st1 u2 st2 where w: "write_bounded wr (stored_row m row) st = (Inr u1, st1)"
    "write_bounded wr (replicate pad 0) st1 = (Inr u2, st2)"
    and rest: "write_rows wr m pad rows st2 = (Inr u, st')"
    using Cons.prems(1) by (auto split: prod.splits sum.splits)
  have c1: "contents st1 = contents st @ stored_row m row" "position st1 = length (contents st1)"
    using write_bounded_append [OF w(1) Cons.prems(2)] by auto
  have c2: "contents st2 = contents st1 @ replicate pad 0" "position st2 = length (contents st2)"
    using write_bounded_append [OF w(2) c1(2)] by auto
  show ?case using Cons.IH [OF rest c2(2)] c1 c2 by simp
qed simp

lemma write_initial_header_contents:
  assumes "write_initial_header wr w en st = (Inr u, en', st')" and "contents st = []"
    and "pixel_offset en = offset_of_mode (enc_mode en)"
  shows "en' = en\<lparr>header_written := True\<rparr>
    \<and> contents st' = headers (enc_mode en) (pixels_per_metre en) w
    \<and> position st' = length (contents st')"
proof -
  obtain q s1 u1 s2 u2 s3 u3 where sk: "stream_seek wr (From_start 0) st = (Inr q, s1)"
    and w1: "write_bounded wr (file_header (pixel_offset en)) s1 = (Inr u1, s2)"
    and w2: "write_bounded wr (info_header (enc_mode en) (pixels_per_metre en) w) s2 = (Inr u2, s3)"
    and w3: "(if enc_mode en = Gray then write_bounded wr palette s3 else (Inr (), s3)) = (Inr u3, st')"
    and en': "en' = en\<lparr>header_written := True\<rparr>"
    using assms(1) by (auto simp: write_initial_header_def split: prod.splits sum.splits)
  have c1: "contents s1 = []" "position s1 = length (contents s1)"
    using seek_start_law [OF sk] assms(2) by auto
  note c2 = write_bounded_append [OF w1 c1(2)]
  note c3 = write_bounded_append [OF w2 conjunct2 [OF c2]]
  show ?thesis
  proof (cases "enc_mode en = Gray")
    case True
    then have "write_bounded wr palette s3 = (Inr u3, st')" using w3 by simp
    from write_bounded_append [OF this] c1 c2 c3 show ?thesis
      using en' True assms(3) by (simp add: headers_def)
  next
    case False
    then show ?thesis using w3 c1 c2 c3 en' assms(3) by (simp add: headers_def)
  qed
qed

lemma push_tracks:
  assumes "push wr band en st = (Inr u, en', st')" and "tracks m p bands en (contents st)"
    and "position st = length (contents st) \<or> bands = []"
  shows "tracks m p (bands @ [band]) en' (contents st') \<and> position st' = length (contents st')"
proof -
  let ?w = "ib_width band"
  let ?g = "\<lparr>row_bytes = ?w * channels m, geo_stride = stride_of m ?w,
      pixel_count = ?w * channels m * ib_rows band\<rparr>"
  have t: "enc_mode en = m" "pixels_per_metre en = p" "pixel_offset en = offset_of_mode m"
    "poisoned en = None" "enc_height en = sum_list (map ib_rows bands)"
    "enc_bands en = length bands" "enc_bytes en = sum_list (map (\<lambda>b. length (pixels b)) bands)"
    using assms(2) by (auto simp: tracks_def)
  obtain g where "validate_band_geometry band m = Inr g"
    using assms(1) t by (auto simp: push_def poison_def split: sum.splits)
  then have g: "validate_band_geometry band m = Inr ?g" "valid_band m ?w band"
    by (auto simp: validate_band_geometry_Inr_iff)
  have same: "enc_width en = None \<or> enc_width en = Some ?w"
    using assms(1) t g by (auto simp: push_def poison_def split: if_splits)
  obtain h b n where acc: "validate_accumulation (enc_height en) (enc_bands en) (enc_bytes en) ?w
      (ib_rows band) (?w * channels m * ib_rows band) (stride_of m ?w) = Inr (h, b, n)"
    using assms(1) t g same by (auto simp: push_def poison_def split: if_splits sum.splits)
  then have hbn: "h = enc_height en + ib_rows band" "h < 2 ^ 31" "b = enc_bands en + 1"
    "n = enc_bytes en + ?w * channels m * ib_rows band"
    by (auto simp: validate_accumulation_Inr_iff)
  define start where "start = (if enc_width en = None
      then case write_initial_header wr ?w en st of
             (Inl er, en, st) \<Rightarrow> (Inl er, en, st)
           | (Inr _, en, st) \<Rightarrow> (Inr (), en\<lparr>enc_width := Some ?w, row_stride := geo_stride ?g\<rparr>, st)
      else (Inr (), en, st))"
  have run: "(case start of
        (Inl er, en, st) \<Rightarrow> poison en er st
      | (Inr _, en, st) \<Rightarrow> (case write_band wr band ?g en st of
            (Inl er, st) \<Rightarrow> poison en er st
          | (Inr _, st) \<Rightarrow> (Inr (), en\<lparr>enc_height := h, enc_bands := b, enc_bytes := n\<rparr>, st)))
      = (Inr u, en', st')"
    using assms(1) t g same acc unfolding start_def by (simp add: push_def) (auto split: if_splits)
  obtain v en1 s1 where start: "start = (Inr v, en1, s1)"
    using run by (cases start) (auto simp: poison_def split: sum.splits)
  have s1: "enc_mode en1 = m \<and> pixels_per_metre en1 = p \<and> pixel_offset en1 = offset_of_mode m
      \<and> poisoned en1 = None \<and> enc_width en1 = Some ?w \<and> header_written en1
      \<and> row_stride en1 = stride_of m ?w \<and> contents s1 = unfinished m p ?w bands
      \<and> position s1 = length (contents s1) \<and> (\<forall>b \<in> set bands. valid_band m ?w b)"
  proof (cases "bands = []")
    case True
    then have new: "enc_width en = None" "contents st = []" using assms(2) by (auto simp: tracks_def)
    then obtain v' en0 where w: "write_initial_header wr ?w en st = (Inr v', en0, s1)"
      and en1: "en1 = en0\<lparr>enc_width := Some ?w, row_stride := stride_of m ?w\<rparr>"
      using start unfolding start_def by (auto split: prod.splits sum.splits)
    from write_initial_header_contents [OF w new(2)] t en1 True show ?thesis
      by (simp add: unfinished_def)
  next
    case False
    then obtain w where w: "enc_width en = Some w" "header_written en" "row_stride en = stride_of m w"
      "\<forall>b \<in> set bands. valid_band m w b" "contents st = unfinished m p w bands"
      using assms(2) by (auto simp: tracks_def)
    with same have "w = ?w" by auto
    moreover have "en1 = en" "s1 = st" using start w(1) by (auto simp: start_def)
    ultimately show ?thesis using t w assms(3) False by auto
  qed
  obtain x where wb: "write_band wr band ?g en1 s1 = (Inr x, st')"
    and en': "en' = en1\<lparr>enc_height := h, enc_bands := b, enc_bytes := n\<rparr>"
    using run start by (auto simp: poison_def split: prod.splits sum.splits)
  have "write_rows wr m (stride_of m ?w - ?w * channels m)
      (chunks_exact (?w * channels m) (pixels band)) s1 = (Inr x, st')"
    using wb s1 by (simp add: write_band_def)
  from write_rows_append [OF this] have "contents st' = contents s1 @ concat (map
      (\<lambda>r. stored_row m r @ replicate (stride_of m ?w - ?w * channels m) 0)
      (chunks_exact (?w * channels m) (pixels band)))
    \<and> position st' = length (contents st')"
    using s1 by simp
  then have "contents st' = unfinished m p ?w (bands @ [band])" "position st' = length (contents st')"
    using s1 by (simp_all add: unfinished_def band_data_def padded_row_def [abs_def])
  moreover have "length (pixels band) = ?w * channels m * ib_rows band"
    using g(2) by (simp add: valid_band_def)
  ultimately show ?thesis
    using s1 en' hbn t g(2) by (auto simp: tracks_def)
qed

lemma finish_contents:
  assumes "encoder_finish wr sm en st = (Inr u, st')" and "tracks m p bands en (contents st)"
  shows "\<exists>w. bands \<noteq> [] \<and> (\<forall>b \<in> set bands. valid_band m w b)
    \<and> summarises bands sm \<and> sm_width sm = w
    \<and> sum_list (map ib_rows bands) < 2 ^ 31
    \<and> length (unfinished m p w bands) < 2 ^ 32
    \<and> contents st' = put_slice 0 [0x42, 0x4d]
        (put_slice 34 (le_bytes 4 (stride_of m w * sum_list (map ib_rows bands)))
        (put_slice 22 (i32_le_bytes (- int (sum_list (map ib_rows bands))))
        (put_slice 2 (le_bytes 4 (length (unfinished m p w bands))) (unfinished m p w bands))))"
proof -
  let ?h = "sum_list (map ib_rows bands)"
  have t: "poisoned en = None" "pixel_offset en = offset_of_mode m" "enc_height en = ?h" "?h < 2 ^ 31"
    using assms(2) by (auto simp: tracks_def)
  obtain fs hh isz where sizes: "final_sizes en sm = Inr (fs, hh, isz)"
    using assms(1) by (auto simp: encoder_finish_def split: sum.splits)
  then have wd: "enc_width en \<noteq> None" using t by (auto simp: final_sizes_def result_simps)
  then have ne: "bands \<noteq> []" using assms(2) by (auto simp: tracks_def)
  then obtain w where w: "enc_width en = Some w" "row_stride en = stride_of m w"
    "\<forall>b \<in> set bands. valid_band m w b" "contents st = unfinished m p w bands"
    using assms(2) by (auto simp: tracks_def)
  have len: "length (unfinished m p w bands) = offset_of_mode m + ?h * stride_of m w"
    using w(3) by (rule length_unfinished)
  have sz: "fs = offset_of_mode m + stride_of m w * ?h" "hh = int ?h" "isz = stride_of m w * ?h"
    "fs < 2 ^ 32" "sm_width sm = w" "sm_height sm = enc_height en" "sm_bands sm = enc_bands en"
    "sm_bytes sm = enc_bytes en"
    using sizes t w by (auto simp: final_sizes_def result_simps u32_of_nat_def split: if_splits)
  have "summarises bands sm"
    using sz t assms(2) ne w(3) by (auto simp: summarises_def tracks_def valid_band_def)
  moreover obtain s1 s2 s3 u1 u2 u3 where
    w1: "write_at wr 2 (le_bytes 4 fs) st = (Inr u1, s1)"
    and w2: "write_at wr 22 (i32_le_bytes (- hh)) s1 = (Inr u2, s2)"
    and w3: "write_at wr 34 (le_bytes 4 isz) s2 = (Inr u3, s3)"
    and w4: "write_at wr 0 [0x42, 0x4d] s3 = (Inr u, st')"
    using assms(1) sizes by (auto simp: encoder_finish_def split: prod.splits sum.splits)
  have big: "54 \<le> length (contents st)"
    using len w(4) by (simp add: offset_of_mode_def FILE_HEADER_BYTES_def INFO_HEADER_BYTES_def)
  have c1: "contents s1 = put_slice 2 (le_bytes 4 fs) (contents st)"
    using write_at_contents [OF w1] big by simp
  then have c2: "contents s2 = put_slice 22 (i32_le_bytes (- hh)) (contents s1)"
    using write_at_contents [OF w2] big by simp
  then have c3: "contents s3 = put_slice 34 (le_bytes 4 isz) (contents s2)"
    using write_at_contents [OF w3] c1 big by simp
  then have c4: "contents st' = put_slice 0 [0x42, 0x4d] (contents s3)"
    using write_at_contents [OF w4] c1 c2 big by simp
  ultimately show ?thesis
    using ne w sz t len c1 c2 c3 by (intro exI [of _ w]) (simp add: mult.commute)
qed

end

section \<open>Reading a file back\<close>

text \<open>
  An independent reader of the format: mode, width, height (negative for rows stored top
  down) and samples in the order red, green, blue.
\<close>

definition read_row :: "color_mode \<Rightarrow> bytes \<Rightarrow> bytes" where
  "read_row m row = (if m = Rgb then concat (map rev (chunks_exact 3 row)) else row)"

definition read_bmp :: "bytes \<Rightarrow> (color_mode \<times> nat \<times> int \<times> bytes) option" where
  "read_bmp f =
     (let offset = le_nat (subslice 10 14 f);
          w = le_nat (subslice 18 22 f);
          bits = le_nat (subslice 28 30 f);
          m = (if bits = 24 then Rgb else Gray)
      in if subslice 0 2 f \<noteq> [0x42, 0x4d] \<or> le_nat (subslice 2 6 f) \<noteq> length f
            \<or> bits \<notin> {8, 24} \<or> w = 0
         then None
         else Some (m, w, i32_le (subslice 22 26 f),
           concat (map (\<lambda>row. read_row m (take (w * channels m) row))
             (chunks_exact (stride_of m w) (drop offset f)))))"

lemma read_row_stored_row:
  assumes "length row = w * channels m"
  shows "read_row m (stored_row m row) = row"
proof (cases m)
  case Gray
  then show ?thesis by (simp add: stored_row_def read_row_def)
next
  case Rgb
  let ?swap = "\<lambda>s :: bytes. [s ! 2, s ! 1, s ! 0]"
  have c: "concat (chunks_exact 3 row) = row" "\<forall>s \<in> set (chunks_exact 3 row). length s = 3"
    using concat_chunks_exact [of row w 3] assms Rgb by auto
  have "chunks_exact 3 (concat (map ?swap (chunks_exact 3 row))) = map ?swap (chunks_exact 3 row)"
    by (rule chunks_exact_concat) auto
  moreover have "map (rev \<circ> ?swap) (chunks_exact 3 row) = chunks_exact 3 row"
    using c(2) by (intro map_idI) (auto simp: length_Suc_conv numeral_3_eq_3)
  ultimately show ?thesis
    using c(1) Rgb by (simp add: stored_row_def read_row_def)
qed

lemma chunks_exact_rows:
  assumes "\<forall>row \<in> set rows. length (f row) = n" and "0 < n"
  shows "chunks_exact n (concat (map f rows)) = map f rows"
  using assms by (intro chunks_exact_concat) auto

lemma chunks_of_bands:
  assumes "\<forall>b \<in> set bands. valid_band m w b" and "0 < w"
  shows "concat (map (\<lambda>row. read_row m (take (w * channels m) row))
      (chunks_exact (stride_of m w) (concat (map (band_data m w) bands))))
    = concat (map pixels bands)"
proof -
  let ?rows = "concat (map (\<lambda>b. chunks_exact (w * channels m) (pixels b)) bands)"
  have len: "\<forall>row \<in> set ?rows. length row = w * channels m"
    using assms(1) band_rows by fastforce
  have "0 < stride_of m w"
    using assms(2) stride_bounds [of w m] by (cases m) auto
  then have "chunks_exact (stride_of m w) (concat (map (padded_row m w) ?rows))
      = map (padded_row m w) ?rows"
    using len length_padded_row by (intro chunks_exact_rows) auto
  moreover have "concat (map (band_data m w) bands) = concat (map (padded_row m w) ?rows)"
    by (induction bands) (auto simp: band_data_def)
  moreover have "read_row m (take (w * channels m) (padded_row m w row)) = row" if "row \<in> set ?rows" for row
  proof -
    have "length row = w * channels m" using len that by blast
    then show ?thesis
      using length_stored_row [of row w m] read_row_stored_row [of row w m]
      by (simp add: padded_row_def)
  qed
  then have "map ((\<lambda>row. read_row m (take (w * channels m) row)) \<circ> padded_row m w) ?rows = ?rows"
    by (intro map_idI) simp
  moreover have "concat ?rows = concat (map pixels bands)"
    using assms(1) by (induction bands) (auto simp: band_rows)
  ultimately show ?thesis by (simp only: map_map)
qed

lemma header_slices:
  "subslice 10 14 (file_header (offset_of_mode m)) = le_bytes 4 (offset_of_mode m)"
  "subslice 4 8 (info_header m p w) = le_bytes 4 w"
  "subslice 14 16 (info_header m p w) = le_bytes 2 (case m of Gray \<Rightarrow> 8 | Rgb \<Rightarrow> 24)"
proof -
  have "offset_of_mode m mod 2 ^ 32 = offset_of_mode m"
    by (simp add: offset_of_mode_def FILE_HEADER_BYTES_def INFO_HEADER_BYTES_def GRAY_PALETTE_BYTES_def)
  then show "subslice 10 14 (file_header (offset_of_mode m)) = le_bytes 4 (offset_of_mode m)"
    by (simp add: file_header_def wire_simps)
qed (simp_all add: info_header_def Let_def wire_simps)

text \<open>The file that \<open>encoder_finish\<close> leaves, read back.\<close>

definition finished :: "color_mode \<Rightarrow> int \<Rightarrow> nat \<Rightarrow> image_band list \<Rightarrow> bytes" where
  "finished m p w bands =
     (let data = unfinished m p w bands; h = sum_list (map ib_rows bands)
      in put_slice 0 [0x42, 0x4d] (put_slice 34 (le_bytes 4 (stride_of m w * h))
           (put_slice 22 (i32_le_bytes (- int h)) (put_slice 2 (le_bytes 4 (length data)) data))))"

lemma finished_fields:
  assumes "54 \<le> length (unfinished m p w bands)"
  shows "length (finished m p w bands) = length (unfinished m p w bands)
    \<and> subslice 0 2 (finished m p w bands) = [0x42, 0x4d]
    \<and> subslice 2 6 (finished m p w bands) = le_bytes 4 (length (unfinished m p w bands))
    \<and> subslice 22 26 (finished m p w bands) = i32_le_bytes (- int (sum_list (map ib_rows bands)))
    \<and> subslice 10 14 (finished m p w bands) = subslice 10 14 (unfinished m p w bands)
    \<and> subslice 18 22 (finished m p w bands) = subslice 18 22 (unfinished m p w bands)
    \<and> subslice 28 30 (finished m p w bands) = subslice 28 30 (unfinished m p w bands)
    \<and> (\<forall>n \<ge> 54. drop n (finished m p w bands) = drop n (unfinished m p w bands))"
proof -
  have drop_put: "drop n (put_slice i ys xs) = drop n xs"
    if "i + length ys \<le> n" "i + length ys \<le> length xs" for n i and ys xs :: bytes
    using that by (simp add: put_slice_def)
  show ?thesis
    using assms by (simp add: finished_def Let_def wire_simps drop_put)
qed

lemma read_finished:
  assumes "\<forall>b \<in> set bands. valid_band m w b" and "bands \<noteq> []"
    and "length (unfinished m p w bands) < 2 ^ 32" and "sum_list (map ib_rows bands) < 2 ^ 31"
  shows "read_bmp (finished m p w bands)
    = Some (m, w, - int (sum_list (map ib_rows bands)), concat (map pixels bands))"
proof -
  let ?data = "unfinished m p w bands" and ?file = "finished m p w bands"
  let ?h = "sum_list (map ib_rows bands)"
  have w: "0 < w" "w < 2 ^ 31"
    using assms(1,2) by (auto simp: valid_band_def neq_Nil_conv)
  have big: "54 \<le> length ?data"
    using length_unfinished [OF assms(1), of p]
    by (simp add: offset_of_mode_def FILE_HEADER_BYTES_def INFO_HEADER_BYTES_def)
  note f = finished_fields [OF big]
  have off: "offset_of_mode m < 2 ^ 32" "54 \<le> offset_of_mode m"
    by (simp_all add: offset_of_mode_def FILE_HEADER_BYTES_def INFO_HEADER_BYTES_def
        GRAY_PALETTE_BYTES_def)
  have s10: "subslice 10 14 ?data = le_bytes 4 (offset_of_mode m)"
    and s18: "subslice 18 22 ?data = le_bytes 4 w"
    and s28: "subslice 28 30 ?data = le_bytes 2 (case m of Gray \<Rightarrow> 8 | Rgb \<Rightarrow> 24)"
    by (simp_all add: unfinished_def headers_def subslice_append header_slices)
  have "drop (offset_of_mode m) ?file = concat (map (band_data m w) bands)"
    using f off by (simp add: unfinished_def length_headers)
  moreover have "i32_le (i32_le_bytes (- int ?h)) = - int ?h"
    using assms(4) by (intro i32_le_i32_le_bytes) (simp add: is_i32_def)
  moreover have "le_nat (le_bytes 4 (length ?data)) = length ?data"
    using assms(3) by simp
  moreover have "le_nat (le_bytes 4 w) = w" "le_nat (le_bytes 4 (offset_of_mode m)) = offset_of_mode m"
    using w(2) off(1) by simp_all
  moreover have "le_nat (le_bytes 2 (case m of Gray \<Rightarrow> 8 | Rgb \<Rightarrow> 24)) = (case m of Gray \<Rightarrow> 8 | Rgb \<Rightarrow> 24)"
    by (simp split: color_mode.splits)
  ultimately show ?thesis
    using f s10 s18 s28 w(1) chunks_of_bands [OF assms(1) w(1)]
    by (cases m) (simp_all add: read_bmp_def Let_def)
qed

fun push_all :: "'o stream \<Rightarrow> image_band list \<Rightarrow> encoder \<Rightarrow> 'o \<Rightarrow> unit io \<times> encoder \<times> 'o" where
  "push_all wr [] en st = (Inr (), en, st)"
| "push_all wr (b # bs) en st =
     (case push wr b en st of
        (Inl er, en, st) \<Rightarrow> (Inl er, en, st)
      | (Inr _, en, st) \<Rightarrow> push_all wr bs en st)"

definition encode ::
    "'o stream \<Rightarrow> u32 \<Rightarrow> color_mode \<Rightarrow> image_band list \<Rightarrow> scan_summary \<Rightarrow> 'o \<Rightarrow> unit io \<times> 'o" where
  "encode wr d m bands sm st =
     (case encoder_new wr d m st of
        (Inl er, st) \<Rightarrow> (Inl er, st)
      | (Inr en, st) \<Rightarrow>
          (case push_all wr bands en st of
             (Inl er, en, st) \<Rightarrow> (Inl er, st)
           | (Inr _, en, st) \<Rightarrow> encoder_finish wr sm en st))"

context byte_stream
begin

lemma encoder_new_tracks:
  assumes "encoder_new wr d m st = (Inr en, st')"
  shows "\<exists>p. dpi_to_ppm d = Inr p \<and> tracks m p [] en (contents st')"
proof -
  obtain p q s1 s2 where p: "dpi_to_ppm d = Inr p"
    and s1: "stream_seek wr (From_current 0) st = (Inr q, s1)"
    and s2: "stream_seek wr (From_end 0) s1 = (Inr 0, s2)" and st': "st' = s2"
    and en: "en = \<lparr>enc_mode = m, pixels_per_metre = p, enc_width = None,
                   enc_height = 0, enc_bands = 0, enc_bytes = 0, row_stride = 0,
                   pixel_offset = offset_of_mode m, header_written = False, poisoned = None\<rparr>"
    using assms by (auto simp: encoder_new_def split: sum.splits prod.splits if_splits)
  have "contents st' = []" using seek_end_law [OF s2] st' by auto
  then show ?thesis using p en by (simp add: tracks_def)
qed

lemma push_all_tracks:
  assumes "push_all wr bs en st = (Inr u, en', st')" and "tracks m p bands en (contents st)"
    and "position st = length (contents st) \<or> bands = []"
  shows "tracks m p (bands @ bs) en' (contents st')"
  using assms
proof (induction bs arbitrary: bands en st)
  case (Cons b bs)
  obtain v en1 s1 where push: "push wr b en st = (Inr v, en1, s1)"
    and rest: "push_all wr bs en1 s1 = (Inr u, en', st')"
    using Cons.prems(1) by (auto split: prod.splits sum.splits)
  from push_tracks [OF push Cons.prems(2,3)] Cons.IH [OF rest, of "bands @ [b]"]
  show ?case by simp
qed simp

lemma encode_contents:
  assumes "encode wr d m bands sm st = (Inr u, st')"
  shows "\<exists>p w. dpi_to_ppm d = Inr p \<and> bands \<noteq> [] \<and> summarises bands sm \<and> sm_width sm = w
    \<and> contents st' = finished m p w bands
    \<and> read_bmp (contents st') = Some (m, w, - int (sm_height sm), concat (map pixels bands))"
proof -
  obtain en s1 v en2 s2 where new: "encoder_new wr d m st = (Inr en, s1)"
    and all: "push_all wr bands en s1 = (Inr v, en2, s2)"
    and fin: "encoder_finish wr sm en2 s2 = (Inr u, st')"
    using assms by (auto simp: encode_def split: prod.splits sum.splits)
  obtain p where p: "dpi_to_ppm d = Inr p" "tracks m p [] en (contents s1)"
    using encoder_new_tracks [OF new] by blast
  from push_all_tracks [OF all p(2)] have "tracks m p bands en2 (contents s2)" by simp
  from finish_contents [OF fin this] obtain w where w: "bands \<noteq> []"
    "\<forall>b \<in> set bands. valid_band m w b" "summarises bands sm" "sm_width sm = w"
    "sum_list (map ib_rows bands) < 2 ^ 31" "length (unfinished m p w bands) < 2 ^ 32"
    "contents st' = finished m p w bands"
    by (auto simp: finished_def Let_def)
  from read_finished [OF w(2,1,6,5)] w p show ?thesis
    by (intro exI [of _ p] exI [of _ w]) (simp add: summarises_def)
qed

end

end
