(* ===== verification/Com_Stream.thy ===== *)
theory Com_Stream
  imports Bmp
begin

text \<open>
  COM results and the output stream of \<open>src/com_stream.rs\<close>, which makes a COM \<open>IStream\<close>
  a \<open>Write + Seek\<close>. The \<open>IStream\<close> behind the pointer is a parameter: its two calls return
  an \<open>HRESULT\<close>, a 32-bit signed integer, beside their output argument. The kind that the
  standard library gives a Windows error code is a parameter as well.
\<close>

section \<open>Results\<close>

definition as_i32 :: "nat \<Rightarrow> int" where
  "as_i32 n = (if n < 2 ^ 31 then int n else int n - 2 ^ 32)"

definition as_u32 :: "int \<Rightarrow> nat" where
  "as_u32 i = nat (i mod 2 ^ 32)"

lemma as_u32_as_i32 [simp]: "n < 2 ^ 32 \<Longrightarrow> as_u32 (as_i32 n) = n"
proof (cases "n < 2 ^ 31")
  case True
  then show ?thesis by (simp add: as_u32_def as_i32_def)
next
  case False
  assume "n < 2 ^ 32"
  moreover have "(int n - 2 ^ 32) mod 2 ^ 32 = int n mod 2 ^ 32" by simp
  ultimately show ?thesis using False by (simp add: as_u32_def as_i32_def)
qed

definition S_OK :: int where "S_OK = 0"
definition S_FALSE :: int where "S_FALSE = 1"

section \<open>The adapter\<close>

record 'o istream =
  is_write :: "bytes \<Rightarrow> 'o \<Rightarrow> (int \<times> nat) \<times> 'o"
  is_seek :: "int \<Rightarrow> nat \<Rightarrow> 'o \<Rightarrow> (int \<times> nat) \<times> 'o"

definition check_result :: "(nat \<Rightarrow> error_kind) \<Rightarrow> string \<Rightarrow> int \<Rightarrow> unit io" where
  "check_result os_kind operation hr =
     (if hr = 0 then Inr ()
      else
        let value = as_u32 hr;
            k = (if value = 0x80004004 then Interrupted
                 else if value = 0x80030070 then StorageFull
                 else if value = 0x80030005 then PermissionDenied
                 else if value = 0x80030001 then InvalidInput
                 else if value = 0x800704C7 then Interrupted
                 else if value div 2 ^ 16 = 0x8007 then os_kind (value mod 2 ^ 16)
                 else OtherKind)
        in Inl (Custom k (StreamError operation hr)))"

definition from_raw_owned :: "'o option \<Rightarrow> 'o io" where
  "from_raw_owned raw = ok_or (invalid_input ''IStream pointer is null'') raw"

definition com_write ::
    "(nat \<Rightarrow> error_kind) \<Rightarrow> 'o istream \<Rightarrow> bytes \<Rightarrow> 'o \<Rightarrow> nat io \<times> 'o" where
  "com_write os_kind ist bs st =
     (if bs = [] then (Inr 0, st)
      else
        let count = min (length bs) (2 ^ 32 - 1);
            ((hr, written), st) = is_write ist (take count bs) st
        in case check_result os_kind ''Write'' hr of
             Inl er \<Rightarrow> (Inl er, st)
           | Inr _ \<Rightarrow>
               if written > count
               then (Inl (invalid ''IStream wrote more bytes than provided''), st)
               else if written = 0
               then (Inl (Custom WriteZero (Message (Lit ''IStream writer made no progress''))), st)
               else (Inr written, st))"

text \<open>\<open>write_all\<close> ends: a successful write takes at least one byte.\<close>

lemma com_write_progress:
  "com_write os_kind ist bs st = (Inr n, st') \<Longrightarrow> bs \<noteq> [] \<Longrightarrow> 0 < n \<and> n \<le> length bs"
  by (auto simp: com_write_def Let_def split: prod.splits sum.splits if_splits)

function com_write_all ::
    "(nat \<Rightarrow> error_kind) \<Rightarrow> 'o istream \<Rightarrow> bytes \<Rightarrow> 'o \<Rightarrow> unit io \<times> 'o" where
  "com_write_all os_kind ist bs st =
     (if bs = [] then (Inr (), st)
      else case com_write os_kind ist bs st of
             (Inl er, st) \<Rightarrow> (Inl er, st)
           | (Inr written, st) \<Rightarrow> com_write_all os_kind ist (drop written bs) st)"
  by pat_completeness auto
termination
  by (relation "measure (\<lambda>(os_kind, ist, bs, st). length bs)")
    (auto dest!: sym [THEN com_write_progress])

declare com_write_all.simps [simp del]

definition com_flush :: "unit io" where
  "com_flush = Inl (Custom Unsupported (Message (Lit ''WIA output does not guarantee IStream::Commit'')))"

text \<open>\<open>value as i64\<close> for a position reinterprets the 64 bits.\<close>

definition as_i64 :: "nat \<Rightarrow> int" where
  "as_i64 n = (if n < 2 ^ 63 then int n else int n - 2 ^ 64)"

definition com_seek ::
    "(nat \<Rightarrow> error_kind) \<Rightarrow> 'o istream \<Rightarrow> seek_from \<Rightarrow> 'o \<Rightarrow> nat io \<times> 'o" where
  "com_seek os_kind ist f st =
     (let (offset, origin) = (case f of
            From_start v \<Rightarrow> (as_i64 v, 0) | From_current v \<Rightarrow> (v, 1) | From_end v \<Rightarrow> (v, 2));
          ((hr, position), st) = is_seek ist offset origin st
      in case check_result os_kind ''Seek'' hr of
           Inl er \<Rightarrow> (Inl er, st)
         | Inr _ \<Rightarrow> (Inr position, st))"

definition com_stream :: "(nat \<Rightarrow> error_kind) \<Rightarrow> 'o istream \<Rightarrow> 'o stream" where
  "com_stream os_kind ist =
     \<lparr>stream_write = com_write os_kind ist, stream_seek = com_seek os_kind ist\<rparr>"

section \<open>What an IStream owes the adapter\<close>

text \<open>
  The documented effect of \<open>Write\<close> and \<open>Seek\<close> when they return \<open>S_OK\<close>; a \<open>Seek\<close> from the
  start reads its offset as an unsigned 64-bit number. Nothing is assumed of a call that
  fails. Every such \<open>IStream\<close> makes the adapter a stream that the encoder can rely on.
\<close>

locale com_istream =
  fixes ist :: "'o istream" and contents :: "'o \<Rightarrow> bytes" and position :: "'o \<Rightarrow> nat"
  assumes is_write_law: "is_write ist bs st = ((0, n), st') \<Longrightarrow> n \<le> length bs \<Longrightarrow>
      position st \<le> length (contents st) \<Longrightarrow>
      contents st' = overwrite (position st) (take n bs) (contents st)
      \<and> position st' = position st + n"
    and is_seek_set_law: "is_seek ist v 0 st = ((0, q), st') \<Longrightarrow>
      contents st' = contents st \<and> position st' = nat (v mod 2 ^ 64)"
    and is_seek_end_law: "is_seek ist 0 2 st = ((0, q), st') \<Longrightarrow>
      contents st' = contents st \<and> position st' = length (contents st) \<and> q = length (contents st)"
    and is_seek_cur_law: "is_seek ist 0 1 st = ((0, q), st') \<Longrightarrow>
      contents st' = contents st \<and> position st' = position st \<and> q = position st"

lemma check_result_Inr_iff [simp]: "check_result k op hr = Inr u \<longleftrightarrow> hr = 0"
  by (simp add: check_result_def Let_def)

lemma com_write_Inr:
  assumes "com_write k ist bs st = (Inr n, st')" and "bs \<noteq> []"
  shows "\<exists>c. c \<le> length bs \<and> is_write ist (take c bs) st = ((0, n), st') \<and> 0 < n \<and> n \<le> c"
  using assms
  by (intro exI [of _ "min (length bs) (2 ^ 32 - 1)"])
    (auto simp: com_write_def Let_def split: prod.splits sum.splits if_splits)

lemma as_i64_unsigned: "n < 2 ^ 64 \<Longrightarrow> nat (as_i64 n mod 2 ^ 64) = n"
  by (simp add: as_i64_def mod_pos_pos_trivial) 

context com_istream
begin

lemma seek_to:
  assumes "is_seek ist (as_i64 p) 0 st = ((0, q), st')" and "p < 18446744073709551616"
  shows "contents st' = contents st \<and> position st' = p"
  using is_seek_set_law [OF assms(1)] as_i64_unsigned [of p] assms(2) by simp

end

sublocale com_istream \<subseteq> com: byte_stream "com_stream k ist" contents position for k
proof
  fix bs st n st'
  assume w: "stream_write (com_stream k ist) bs st = (Inr n, st')" "n \<le> length bs"
    "position st \<le> length (contents st)"
  show "contents st' = overwrite (position st) (take n bs) (contents st)
      \<and> position st' = position st + n"
  proof (cases "bs = []")
    case True
    then show ?thesis using w by (simp add: com_stream_def com_write_def)
  next
    case False
    then obtain c where "c \<le> length bs" "is_write ist (take c bs) st = ((0, n), st')" "n \<le> c"
      using com_write_Inr [of k ist bs st n st'] w(1) by (auto simp: com_stream_def)
    then show ?thesis using is_write_law [of "take c bs" st n st'] w(3) by (simp add: min_def)
  qed
qed (auto simp: com_stream_def com_seek_def Let_def simp del: One_nat_def
    split: prod.splits sum.splits dest: seek_to is_seek_end_law is_seek_cur_law)

context com_istream
begin

lemma adapter_is_stream: "byte_stream (com_stream k ist) contents position"
  by unfold_locales

end

text \<open>An \<open>IStream\<close> over memory.\<close>

definition mem_istream :: "(bytes \<times> nat) istream" where
  "mem_istream =
     \<lparr>is_write = (\<lambda>bs (data, p). ((0, length bs), (overwrite p bs data, p + length bs))),
      is_seek = (\<lambda>v origin (data, p).
        let target = (if origin = 0 then v mod 2 ^ 64
                      else v + int (if origin = 1 then p else length data))
        in if target < 0 then ((as_i32 0x80030001, 0), (data, p))
           else ((0, nat target), (data, nat target)))\<rparr>"

interpretation mem_com: com_istream mem_istream fst snd
  by unfold_locales (auto simp: mem_istream_def Let_def as_i32_def split: if_splits)

section \<open>Properties\<close>

text \<open>
  Property C39: the adapter refines the stream the encoder is written against: over any
  \<open>IStream\<close> that does what COM documents, every successful write and seek of the adapter
  has the effect of \<open>Write\<close> and \<open>Seek\<close> on a file, short writes and writes of more than
  4 GiB included.
\<close>

theorem com_adapter_is_a_stream:
  assumes "com_istream ist contents position"
  shows "byte_stream (com_stream k ist) contents position"
  using assms by (rule com_istream.adapter_is_stream)

theorem com_adapter_is_a_stream_witness:
  "byte_stream (com_stream (\<lambda>_. OtherKind) mem_istream) fst snd"
  by (rule com_adapter_is_a_stream [OF mem_com.com_istream_axioms])

text \<open>
  The two loops that write a whole buffer agree. The encoder's
  \<open>write_bounded\<close> on the adapter and the adapter's own \<open>write_all\<close> make the same calls
  and give the same result, errors included: neither retries after any error.
\<close>

theorem write_loops_agree:
  "write_bounded (com_stream k ist) bs st = com_write_all k ist bs st"
proof (induction bs arbitrary: st rule: length_induct)
  case (1 bs)
  show ?case
  proof (cases "bs = []")
    case True
    then show ?thesis by (simp add: write_bounded.simps com_write_all.simps)
  next
    case False
    obtain r st' where w: "com_write k ist bs st = (r, st')" by fastforce
    show ?thesis
    proof (cases r)
      case (Inl er)
      then show ?thesis using False w
        by (simp add: write_bounded.simps [of _ bs] com_write_all.simps [of _ _ bs] com_stream_def)
    next
      case (Inr n)
      then have n: "0 < n" "n \<le> length bs" using com_write_progress [of k ist bs st n st'] w False by auto
      then have "write_bounded (com_stream k ist) (drop n bs) st' = com_write_all k ist (drop n bs) st'"
        using "1.IH" False by simp
      then show ?thesis using False w Inr n
        by (simp add: write_bounded.simps [of _ bs] com_write_all.simps [of _ _ bs]) 
          (simp add: com_stream_def)
    qed
  qed
qed

end
