(* ===== verification/Wia_Callback.thy ===== *)
theory Wia_Callback
  imports Com_Stream
begin

text \<open>
  The WIA transfer callback of \<open>src/wia_callback.rs\<close>. The COM object is a parameter: a
  record of its calls and of the BSTR allocator over a world \<open>'w\<close>. A destination stream is
  handed over as its state \<open>'o\<close>, which the driver owns until it releases it: the safety
  contract of the adapter rules out concurrent changes. BSTR guards are freed when the
  call returns, which is \<open>free_bstr\<close>.
\<close>

definition E_POINTER :: int where "E_POINTER = as_i32 0x80004003"
definition E_NOINTERFACE :: int where "E_NOINTERFACE = as_i32 0x80004002"
definition E_INVALIDARG :: int where "E_INVALIDARG = as_i32 0x80070057"
definition E_OUTOFMEMORY :: int where "E_OUTOFMEMORY = as_i32 0x8007000E"
definition WIA_STATUS_SKIP_ITEM :: int where "WIA_STATUS_SKIP_ITEM = 0x00210009"
definition WIA_TRANSFER_MSG_STATUS :: int where "WIA_TRANSFER_MSG_STATUS = 1"
definition MAX_BSTR_CODE_UNITS :: nat where "MAX_BSTR_CODE_UNITS = 16 * 1024"

record wia_transfer_params =
  wtp_message :: int
  percent_complete :: int
  transferred_bytes :: nat
  error_status :: int

datatype 'o destination = Stream 'o | Cancelled_stream | Skipped_stream

datatype callback_status = Continue | Cancelled_status

record ('o, 'w) callback =
  query_interface :: "'w \<Rightarrow> (int \<times> bool) \<times> 'w"
  alloc_bstr :: "u16 list \<Rightarrow> 'w \<Rightarrow> bool \<times> 'w"
  free_bstr :: "u16 list \<Rightarrow> 'w \<Rightarrow> 'w"
  get_next_stream :: "u16 list \<Rightarrow> u16 list \<Rightarrow> 'w \<Rightarrow> (int \<times> 'o option) \<times> 'w"
  send_wia_message :: "wia_transfer_params \<Rightarrow> 'w \<Rightarrow> int \<times> 'w"
  release_stream :: "'o \<Rightarrow> 'w \<Rightarrow> 'w"
  release_callback :: "'w \<Rightarrow> 'w"

definition callback_error :: "string \<Rightarrow> int \<Rightarrow> io_error" where
  "callback_error operation hr =
     Custom (if hr = E_POINTER \<or> hr = E_INVALIDARG then InvalidInput
             else if hr = E_OUTOFMEMORY then OutOfMemory
             else if hr = E_NOINTERFACE then Unsupported
             else OtherKind)
       (CallbackError operation hr)"

text \<open>\<open>raw\<close> says whether the borrowed pointer is non-null.\<close>

definition query_from_borrowed :: "('o, 'w) callback \<Rightarrow> bool \<Rightarrow> 'w \<Rightarrow> unit io \<times> 'w" where
  "query_from_borrowed cb raw w =
     (if \<not> raw then (Inl (callback_error ''QueryInterface'' E_POINTER), w)
      else
        let ((hr, queried), w) = query_interface cb w
        in if hr \<noteq> S_OK then (Inl (callback_error ''QueryInterface'' hr), w)
           else if \<not> queried then (Inl (callback_error ''QueryInterface'' E_POINTER), w)
           else (Inr (), w))"

text \<open>A \<open>&str\<close> is kept as its UTF-16 code units, all that the code looks at.\<close>

definition bstring_new :: "('o, 'w) callback \<Rightarrow> u16 list \<Rightarrow> 'w \<Rightarrow> unit io \<times> 'w" where
  "bstring_new cb value w =
     (if length value > MAX_BSTR_CODE_UNITS
      then (Inl (callback_error ''BSTR allocation'' E_INVALIDARG), w)
      else
        let (allocated, w) = alloc_bstr cb value w
        in if allocated then (Inr (), w)
           else (Inl (callback_error ''BSTR allocation'' E_OUTOFMEMORY), w))"

definition release_optional_interface :: "('o, 'w) callback \<Rightarrow> 'o option \<Rightarrow> 'w \<Rightarrow> 'w" where
  "release_optional_interface cb raw w =
     (case raw of None \<Rightarrow> w | Some st \<Rightarrow> release_stream cb st w)"

definition next_stream ::
    "('o, 'w) callback \<Rightarrow> u16 list \<Rightarrow> u16 list \<Rightarrow> 'w \<Rightarrow> 'o destination io \<times> 'w" where
  "next_stream cb item full w =
     (case bstring_new cb item w of
        (Inl er, w) \<Rightarrow> (Inl er, w)
      | (Inr _, w) \<Rightarrow>
          (case bstring_new cb full w of
             (Inl er, w) \<Rightarrow> (Inl er, free_bstr cb item w)
           | (Inr _, w) \<Rightarrow>
               let ((hr, raw), w) = get_next_stream cb item full w;
                   free = (\<lambda>w. free_bstr cb item (free_bstr cb full w))
               in if hr = S_OK then
                    (case raw of
                       None \<Rightarrow> (Inl (callback_error ''GetNextStream'' E_POINTER), free w)
                     | Some p \<Rightarrow> (map_sum id Stream (from_raw_owned (Some p)), free w))
                  else if hr = S_FALSE
                  then (Inr Cancelled_stream, free (release_optional_interface cb raw w))
                  else if hr = WIA_STATUS_SKIP_ITEM
                  then (Inr Skipped_stream, free (release_optional_interface cb raw w))
                  else (Inl (callback_error ''GetNextStream'' hr),
                        free (release_optional_interface cb raw w))))"

definition send_message ::
    "('o, 'w) callback \<Rightarrow> int \<Rightarrow> nat \<Rightarrow> nat \<Rightarrow> 'w \<Rightarrow> callback_status io \<times> 'w" where
  "send_message cb message percent byte_count w =
     (if percent > 100 then (Inl (callback_error ''SendMessage'' E_INVALIDARG), w)
      else
        let params = \<lparr>wtp_message = message, percent_complete = int percent,
              transferred_bytes = byte_count, error_status = S_OK\<rparr>;
            (hr, w) = send_wia_message cb params w
        in (if hr = S_OK then Inr Continue
            else if hr = S_FALSE then Inr Cancelled_status
            else Inl (callback_error ''SendMessage'' hr), w))"

definition status :: "('o, 'w) callback \<Rightarrow> nat \<Rightarrow> nat \<Rightarrow> 'w \<Rightarrow> callback_status io \<times> 'w" where
  "status cb percent byte_count w = send_message cb WIA_TRANSFER_MSG_STATUS percent byte_count w"

end
