(* ===== verification/Wia_Settings.thy ===== *)
theory Wia_Settings
  imports Bmp
begin

text \<open>
  The mapping of WIA settings to a scan request in \<open>src/wia.rs\<close>: validation of the
  scalar properties, conversion of pixels to 1/1200 inch, the brightness and contrast
  lookup, and the encoding of a scan into a BMP stream. \<open>i32\<close> settings are integers;
  the two conversions of a negative number are branches of their own.
\<close>

section \<open>Settings\<close>

definition BMP_FORMAT :: bytes where
  "BMP_FORMAT = [0xab, 0x3c, 0x6b, 0xb9, 0x28, 0x07, 0xd3, 0x11, 0x9d, 0x7b, 0x00, 0x00,
     0xf8, 0x1e, 0xf3, 0x2e]"

definition WIA_DATA_GRAYSCALE :: int where "WIA_DATA_GRAYSCALE = 2"
definition WIA_DATA_COLOR :: int where "WIA_DATA_COLOR = 3"
definition DEVICE_UNITS_PER_INCH :: nat where "DEVICE_UNITS_PER_INCH = 1200"
definition PROTOCOL_MAX_OFFSET_INCHES :: nat where "PROTOCOL_MAX_OFFSET_INCHES = 255"

record flatbed_settings =
  x_resolution :: int
  y_resolution :: int
  x_position :: int
  y_position :: int
  x_extent :: int
  y_extent :: int
  data_type :: int
  depth :: int
  fs_brightness :: int
  fs_contrast :: int
  compression :: int
  format :: bytes

section \<open>Tone\<close>

record tone =
  brightness :: int
  contrast :: int

definition NEUTRAL :: tone where
  "NEUTRAL = \<lparr>brightness = 0, contrast = 0\<rparr>"

definition tone_validate :: "tone \<Rightarrow> tone io" where
  "tone_validate t =
     (if \<not> (- 1000 \<le> brightness t \<and> brightness t \<le> 1000)
         \<or> \<not> (- 1000 \<le> contrast t \<and> contrast t \<le> 1000)
      then Inl (invalid_input ''WIA brightness and contrast must lie within -1000..=1000'')
      else Inr t)"

text \<open>One entry of the table; \<open>div_euclid\<close> by 1000 is \<open>div\<close>.\<close>

definition tone_entry :: "tone \<Rightarrow> nat \<Rightarrow> u8" where
  "tone_entry t input =
     (let gain = contrast t + 1000;
          offset = brightness t * 255;
          centred = (int input - 128) * gain + 128 * 1000 + offset;
          rounded = (centred + 500) div 1000
      in word_of_int (max 0 (min 255 rounded)))"

definition tone_lut :: "tone \<Rightarrow> bytes option" where
  "tone_lut t = (if t = NEUTRAL then None else Some (map (tone_entry t) [0..<256]))"

definition tone_adjust :: "tone \<Rightarrow> image_band \<Rightarrow> image_band option" where
  "tone_adjust t band =
     Option.bind (tone_lut t)
       (\<lambda>lut. Some (band\<lparr>pixels := map (\<lambda>v. lut ! unat v) (pixels band)\<rparr>))"

section \<open>Conversion to protocol units\<close>

definition invalid_input_fmt :: "message list \<Rightarrow> io_error" where
  "invalid_input_fmt ms = Custom InvalidInput (Message (Fmt ms))"

definition supported_resolution :: "int \<Rightarrow> bool" where
  "supported_resolution d \<longleftrightarrow> d \<in> set [75, 100, 150, 200, 300, 600]"

text \<open>
  The code divides by the resolution only after \<open>to_request\<close> has found it supported, so
  the division is never by zero.
\<close>

definition pixels_to_units :: "int \<Rightarrow> int \<Rightarrow> string \<Rightarrow> u32 io" where
  "pixels_to_units px d name =
     (if px < 0
      then Inl (invalid_input_fmt [Lit ''WIA '', Lit name, Lit '' must be non-negative''])
      else if d < 0 then Inl (invalid_input ''WIA resolution must be positive'')
      else and_then
        (ok_or (invalid_input_fmt [Lit ''WIA '', Lit name, Lit '' conversion overflow''])
          (checked_mul64 (nat px) DEVICE_UNITS_PER_INCH))
        (\<lambda>scaled.
          if scaled mod nat d \<noteq> 0
          then Inl (invalid_input_fmt [Lit ''WIA '', Lit name, Lit '' cannot be represented at '',
                 Num d, Lit '' DPI''])
          else map_sum id word_of_nat
            (ok_or (invalid_input_fmt [Lit ''WIA '', Lit name, Lit '' exceeds protocol geometry''])
              (u32_of_nat (scaled div nat d)))))"

definition validate_offset :: "u32 \<Rightarrow> string \<Rightarrow> unit io" where
  "validate_offset units name =
     (if unat units mod 12 \<noteq> 0
      then Inl (invalid_input_fmt [Lit ''WIA '', Lit name,
             Lit '' does not align to the protocol's 1/100-inch offset''])
      else if unat units div 1200 > PROTOCOL_MAX_OFFSET_INCHES
      then Inl (invalid_input_fmt [Lit ''WIA '', Lit name, Lit '' exceeds protocol offset range''])
      else Inr ())"

definition validate_end :: "u32 \<Rightarrow> u32 \<Rightarrow> string \<Rightarrow> unit io" where
  "validate_end start extent name =
     and_then
       (ok_or (invalid_input_fmt [Lit ''WIA '', Lit name, Lit '' range overflow''])
         (checked_add64 (unat start) (unat extent)))
       (\<lambda>last_unit. if last_unit > 2 ^ 32 - 1
          then Inl (invalid_input_fmt [Lit ''WIA '', Lit name,
                 Lit '' range exceeds protocol geometry''])
          else Inr ())"

definition settings_tone :: "flatbed_settings \<Rightarrow> tone" where
  "settings_tone s = \<lparr>brightness = fs_brightness s, contrast = fs_contrast s\<rparr>"

definition settings_mode :: "flatbed_settings \<Rightarrow> color_mode io" where
  "settings_mode s =
     (if data_type s = WIA_DATA_GRAYSCALE \<and> depth s = 8 then Inr Gray
      else if data_type s = WIA_DATA_COLOR \<and> depth s = 24 then Inr Rgb
      else Inl (invalid_input ''WIA data type/depth must be grayscale 8 bpp or color 24 bpp''))"

definition to_request :: "flatbed_settings \<Rightarrow> scan_request io" where
  "to_request s =
     (if \<not> supported_resolution (x_resolution s) \<or> x_resolution s \<noteq> y_resolution s
      then Inl (invalid_input ''WIA X/Y resolution must match and be one of 75, 100, 150, 200, 300 or 600 DPI'')
      else and_then (settings_mode s) (\<lambda>m.
           and_then (tone_validate (settings_tone s)) (\<lambda>_.
             if compression s \<noteq> 0
             then Inl (invalid_input ''WIA compression is unsupported; use uncompressed data'')
             else if format s \<noteq> BMP_FORMAT
             then Inl (invalid_input ''WIA format is unsupported; use BMP'')
             else if x_extent s \<le> 0 \<or> y_extent s \<le> 0
             then Inl (invalid_input ''WIA extents must be positive'')
             else
               and_then (pixels_to_units (x_position s) (x_resolution s) ''XPOS'') (\<lambda>x.
               and_then (pixels_to_units (y_position s) (y_resolution s) ''YPOS'') (\<lambda>y.
               and_then (pixels_to_units (x_extent s) (x_resolution s) ''XEXTENT'') (\<lambda>w.
               and_then (pixels_to_units (y_extent s) (y_resolution s) ''YEXTENT'') (\<lambda>h.
               and_then (validate_offset x ''XPOS'') (\<lambda>_.
               and_then (validate_offset y ''YPOS'') (\<lambda>_.
               and_then (validate_end x w ''XPOS + XEXTENT'') (\<lambda>_.
               and_then (validate_end y h ''YPOS + YEXTENT'') (\<lambda>_.
                 Inr \<lparr>dpi = word_of_int (x_resolution s), mode = m, x_units = x, y_units = y,
                      width_units = w, height_units = h\<rparr>)))))))))))"

section \<open>From the scanner to the file\<close>

text \<open>The sink of a scan, with the lookup in front of it.\<close>

definition toned_sink ::
    "tone \<Rightarrow> (image_band \<Rightarrow> 's \<Rightarrow> 'r \<times> 's) \<Rightarrow> image_band \<Rightarrow> 's \<Rightarrow> 'r \<times> 's" where
  "toned_sink t sk band =
     (case tone_adjust t band of Some adjusted \<Rightarrow> sk adjusted | None \<Rightarrow> sk band)"

text \<open>
  \<open>encode_bmp\<close> runs a scan, given as a function of its sink, against a fresh encoder. The
  sink's state is the encoder and the stream beside whatever world the scan runs in.
\<close>

definition push_sink ::
    "'o stream \<Rightarrow> image_band \<Rightarrow> 'w \<times> encoder \<times> 'o \<Rightarrow> unit io \<times> 'w \<times> encoder \<times> 'o" where
  "push_sink wr band = (\<lambda>(w, en, st). case push wr band en st of (r, en, st) \<Rightarrow> (r, w, en, st))"

definition encode_bmp ::
    "'o stream \<Rightarrow> scan_request \<Rightarrow>
     ((image_band \<Rightarrow> 'w \<times> encoder \<times> 'o \<Rightarrow> unit io \<times> 'w \<times> encoder \<times> 'o) \<Rightarrow>
        'w \<times> encoder \<times> 'o \<Rightarrow> (scan_summary io \<times> 'w \<times> encoder \<times> 'o) option) \<Rightarrow>
     'w \<times> 'o \<Rightarrow> (scan_summary io \<times> 'w \<times> 'o) option" where
  "encode_bmp wr request run = (\<lambda>(w, st).
     case encoder_new wr (dpi request) (mode request) st of
       (Inl er, st) \<Rightarrow> Some (Inl er, w, st)
     | (Inr en, st) \<Rightarrow>
         map_option (\<lambda>(summary, w, en, st).
             case summary of
               Inl er \<Rightarrow> (Inl er, w, st)
             | Inr sm \<Rightarrow>
                 (case encoder_finish wr sm en st of
                    (Inl er, st) \<Rightarrow> (Inl er, w, st)
                  | (Inr _, st) \<Rightarrow> (Inr sm, w, st)))
           (run (push_sink wr) (w, en, st)))"

text \<open>
  \<open>scan_bmp\<close>; the session-opening \<open>scan_to\<close> is a parameter, as is the cancellation flag.
\<close>

definition scan_bmp ::
    "'o stream \<Rightarrow> ('w \<Rightarrow> bool \<times> 'w) \<Rightarrow>
     (scan_request \<Rightarrow> (image_band \<Rightarrow> 'w \<times> encoder \<times> 'o \<Rightarrow> unit io \<times> 'w \<times> encoder \<times> 'o) \<Rightarrow>
        'w \<times> encoder \<times> 'o \<Rightarrow> (scan_summary io \<times> 'w \<times> encoder \<times> 'o) option) \<Rightarrow>
     flatbed_settings \<Rightarrow> 'w \<times> 'o \<Rightarrow> (scan_summary io \<times> 'w \<times> 'o) option" where
  "scan_bmp wr cancel scan_to s = (\<lambda>(w, st).
     case to_request s of
       Inl er \<Rightarrow> Some (Inl er, w, st)
     | Inr request \<Rightarrow>
         (case cancel w of
            (True, w) \<Rightarrow> Some (Inl (Custom Interrupted (Message (Lit ''Scan cancelled''))), w, st)
          | (False, w) \<Rightarrow>
              encode_bmp wr request
                (\<lambda>sk. scan_to request (toned_sink (settings_tone s) sk)) (w, st)))"

section \<open>A scan in the world of its sink\<close>

text \<open>
  A sink that closes over mutable state makes the scan run in a world that holds that
  state: the transport, the clock and the cancellation flag act on the part of it that
  \<open>view\<close> and \<open>upd\<close> select, the sink on the whole. The closures of the program do not panic.
\<close>

definition through :: "('d \<Rightarrow> 'w) \<Rightarrow> ('w \<Rightarrow> 'd \<Rightarrow> 'd) \<Rightarrow> ('w \<Rightarrow> 'a \<times> 'w) \<Rightarrow> 'd \<Rightarrow> 'a \<times> 'd" where
  "through view upd f d = (case f (view d) of (a, w) \<Rightarrow> (a, upd w d))"

definition session_env ::
    "('d \<Rightarrow> 'w) \<Rightarrow> ('w \<Rightarrow> 'd \<Rightarrow> 'd) \<Rightarrow> 'w env \<Rightarrow> (image_band \<Rightarrow> 'd \<Rightarrow> unit io \<times> 'd) \<Rightarrow> 'd env" where
  "session_env view upd e sk =
     \<lparr>usb_write = (\<lambda>c. through view upd (usb_write e c)),
      usb_read = (\<lambda>n. through view upd (usb_read e n)),
      clock = through view upd (clock e),
      cancel_flag = through view upd (cancel_flag e),
      thread_sleep = (\<lambda>t d. upd (thread_sleep e t (view d)) d),
      sink = (\<lambda>band d. case sk band d of (r, d) \<Rightarrow> (Returned r, d)),
      prepare = (\<lambda>raw. through view upd (prepare e raw))\<rparr>"

text \<open>
  \<open>scan_request_bmp_in_session\<close>; the health variable that the closure assigns travels
  beside the world.
\<close>

definition scan_request_bmp_in_session ::
    "nat \<Rightarrow> 'o stream \<Rightarrow> ('w \<Rightarrow> nat io \<times> 'w) \<Rightarrow> 'w env \<Rightarrow> scan_request \<Rightarrow> tone \<Rightarrow> 'w \<times> 'o \<Rightarrow>
     ((scan_summary io \<times> session_health) \<times> 'w \<times> 'o) option" where
  "scan_request_bmp_in_session fuel wr max_transfer e request t = (\<lambda>(w, st).
     (let view = (\<lambda>((w, h), en, st). w);
          upd = (\<lambda>w ((_, h), en, st). ((w, h), en, st))
      in map_option (\<lambda>(r, (w, health), st). ((r, health), w, st))
           (encode_bmp wr request
              (\<lambda>sk d. map_option (\<lambda>((r, current), (w, _), en, st). (r, (w, current), en, st))
                 (scan_in_session fuel (through view upd max_transfer)
                    (session_env view upd e (toned_sink t sk)) request d))
              ((w, Ready), st))))"

end
