(* ===== verification/Wia_Transfer.thy ===== *)
theory Wia_Transfer
  imports Wia_Callback Wia_Settings
begin

text \<open>
  One image through the WIA callback, \<open>src/wia_transfer.rs\<close>. The scan is a function of
  its sink, as in the code; its result is optional because a scan of the model may run
  out of fuel. The sink closes over the callback's world, the encoder, the stream and two
  flags, kept in the record \<open>delivery\<close>.
\<close>

datatype transfer_outcome = Completed scan_summary | Cancelled | Skipped

record ('o, 'w) delivery =
  outside :: 'w
  enc :: encoder
  out :: 'o
  callback_cancelled :: bool
  output_failure :: "io_error option"

definition deliver_result ::
    "'o stream \<Rightarrow> ('o, 'w) callback \<Rightarrow> nat \<Rightarrow> image_band \<Rightarrow> ('o, 'w) delivery \<Rightarrow>
     unit io \<times> ('o, 'w) delivery" where
  "deliver_result wr cb expected_rows band d =
     (case push wr band (enc d) (out d) of
        (Inl er, en, st) \<Rightarrow> (Inl er, d\<lparr>enc := en, out := st\<rparr>)
      | (Inr _, en, st) \<Rightarrow>
          let d = d\<lparr>enc := en, out := st\<rparr>;
              (rows, byte_count) = progress en;
              percent = min (rows * 100 div expected_rows) 99
          in case status cb percent byte_count (outside d) of
               (Inl er, w) \<Rightarrow> (Inl er, d\<lparr>outside := w\<rparr>)
             | (Inr Cancelled_status, w) \<Rightarrow>
                 (Inl (Custom Interrupted (Message (Lit ''WIA callback cancelled transfer''))),
                  d\<lparr>outside := w, callback_cancelled := True\<rparr>)
             | (Inr Continue, w) \<Rightarrow> (Inr (), d\<lparr>outside := w\<rparr>))"

definition deliver ::
    "'o stream \<Rightarrow> ('o, 'w) callback \<Rightarrow> nat \<Rightarrow> image_band \<Rightarrow> ('o, 'w) delivery \<Rightarrow>
     unit io \<times> ('o, 'w) delivery" where
  "deliver wr cb expected_rows band d =
     (case deliver_result wr cb expected_rows band d of
        (Inl er, d) \<Rightarrow> (Inl (Custom (kind er) (Message (Shown er))), d\<lparr>output_failure := Some er\<rparr>)
      | (Inr _, d) \<Rightarrow> (Inr (), d))"

text \<open>What a failed scan becomes, given how the output went.\<close>

definition scan_failure ::
    "session_health \<Rightarrow> bool \<Rightarrow> io_error option \<Rightarrow> io_error \<Rightarrow> transfer_outcome io" where
  "scan_failure health was_cancelled failure er =
     (if health = Ready \<and> (was_cancelled \<or> failure = None \<and> is_host_cancelled er)
      then Inr Cancelled
      else Inl (case failure of
          Some original \<Rightarrow> Custom (kind original) (TransferError original (Shown er))
        | None \<Rightarrow> er))"

text \<open>
  What follows the scan while the stream is still owned. \<open>Inr (Inr (sm, n))\<close> says that the
  image is complete and has \<open>n\<close> bytes; \<open>Inr (Inl o)\<close> is an early outcome.
\<close>

definition after_scan ::
    "'o stream \<Rightarrow> ('w \<Rightarrow> bool \<times> 'w) \<Rightarrow> scan_summary io \<Rightarrow> session_health \<Rightarrow> ('o, 'w) delivery \<Rightarrow>
     (transfer_outcome + scan_summary \<times> nat) io \<times> 'o \<times> 'w" where
  "after_scan wr cancel summary health d =
     (case summary of
        Inl er \<Rightarrow>
          (map_sum id Inl (scan_failure health (callback_cancelled d) (output_failure d) er),
           out d, outside d)
      | Inr sm \<Rightarrow>
          (case output_failure d of
             Some er \<Rightarrow> (Inl er, out d, outside d)
           | None \<Rightarrow>
               (case cancel (outside d) of
                  (True, w) \<Rightarrow> (Inr (Inl Cancelled), out d, w)
                | (False, w) \<Rightarrow>
                    let (_, byte_count) = progress (enc d)
                    in case encoder_finish wr sm (enc d) (out d) of
                         (Inl er, st) \<Rightarrow> (Inl er, st, w)
                       | (Inr _, st) \<Rightarrow> (Inr (Inr (sm, byte_count)), st, w))))"

definition with_stream ::
    "'o stream \<Rightarrow> ('o, 'w) callback \<Rightarrow> ('w \<Rightarrow> bool \<times> 'w) \<Rightarrow> nat \<Rightarrow> scan_request \<Rightarrow>
     ((image_band \<Rightarrow> ('o, 'w) delivery \<Rightarrow> unit io \<times> ('o, 'w) delivery) \<Rightarrow> ('o, 'w) delivery \<Rightarrow>
        ((scan_summary io \<times> session_health) \<times> ('o, 'w) delivery) option) \<Rightarrow>
     'o \<Rightarrow> 'w \<Rightarrow>
     (session_health \<times> (transfer_outcome + scan_summary \<times> nat) io \<times> 'o \<times> 'w) option" where
  "with_stream wr cb cancel expected_rows request run st w =
     (case status cb 0 0 w of
        (Inl er, w) \<Rightarrow> Some (Ready, Inl er, st, w)
      | (Inr s, w) \<Rightarrow>
          (case (if s = Cancelled_status then (True, w) else cancel w) of
             (True, w) \<Rightarrow> Some (Ready, Inr (Inl Cancelled), st, w)
           | (False, w) \<Rightarrow>
               (case encoder_new wr (dpi request) (mode request) st of
                  (Inl er, st) \<Rightarrow> Some (Ready, Inl er, st, w)
                | (Inr en, st) \<Rightarrow>
                    (case run (deliver wr cb expected_rows)
                        \<lparr>outside = w, enc = en, out = st, callback_cancelled = False,
                         output_failure = None\<rparr> of
                       None \<Rightarrow> None
                     | Some ((summary, health), d) \<Rightarrow>
                         Some (health, after_scan wr cancel summary health d)))))"

text \<open>The end of the transfer: the stream is handed back, then the callback hears of it.\<close>

definition after_stream ::
    "('o, 'w) callback \<Rightarrow> (transfer_outcome + scan_summary \<times> nat) io \<Rightarrow> 'o \<Rightarrow> 'w \<Rightarrow>
     transfer_outcome io \<times> 'w" where
  "after_stream cb r st w =
     (let w = release_stream cb st w
      in case r of
           Inl er \<Rightarrow> (Inl er, w)
         | Inr (Inl oc) \<Rightarrow> (Inr oc, w)
         | Inr (Inr (sm, byte_count)) \<Rightarrow>
             (case status cb 100 byte_count w of
                (Inl er, w) \<Rightarrow> (Inl er, w)
              | (Inr Cancelled_status, w) \<Rightarrow> (Inr Cancelled, w)
              | (Inr Continue, w) \<Rightarrow> (Inr (Completed sm), w)))"

definition transfer ::
    "'o stream \<Rightarrow> ('o, 'w) callback \<Rightarrow> ('w \<Rightarrow> bool \<times> 'w) \<Rightarrow> scan_request \<Rightarrow> nat \<Rightarrow>
     u16 list \<Rightarrow> u16 list \<Rightarrow>
     ((image_band \<Rightarrow> ('o, 'w) delivery \<Rightarrow> unit io \<times> ('o, 'w) delivery) \<Rightarrow> ('o, 'w) delivery \<Rightarrow>
        ((scan_summary io \<times> session_health) \<times> ('o, 'w) delivery) option) \<Rightarrow>
     'w \<Rightarrow> ((transfer_outcome io \<times> session_health) \<times> 'w) option" where
  "transfer wr cb cancel request expected_rows item full_item run w =
     (if expected_rows = 0
      then Some ((Inl (invalid_input ''Expected image height is zero''), Ready), w)
      else case cancel w of
        (True, w) \<Rightarrow> Some ((Inr Cancelled, Ready), w)
      | (False, w) \<Rightarrow>
          (case next_stream cb item full_item w of
             (Inl er, w) \<Rightarrow> Some ((Inl er, Ready), w)
           | (Inr Cancelled_stream, w) \<Rightarrow> Some ((Inr Cancelled, Ready), w)
           | (Inr Skipped_stream, w) \<Rightarrow> Some ((Inr Skipped, Ready), w)
           | (Inr (Stream st), w) \<Rightarrow>
               (case with_stream wr cb cancel expected_rows request run st w of
                  None \<Rightarrow> None
                | Some (health, r, st, w) \<Rightarrow>
                    (case after_stream cb r st w of (oc, w) \<Rightarrow> Some ((oc, health), w)))))"

section \<open>The transfer over a USB session\<close>

text \<open>The scan runs in the world of the delivery; the scanner is part of the outside.\<close>

abbreviation put_outside :: "'w \<Rightarrow> ('o, 'w) delivery \<Rightarrow> ('o, 'w) delivery" where
  "put_outside w d \<equiv> d\<lparr>outside := w\<rparr>"

definition transfer_in_session ::
    "nat \<Rightarrow> 'o stream \<Rightarrow> ('o, 'w) callback \<Rightarrow> ('w \<Rightarrow> nat io \<times> 'w) \<Rightarrow> 'w env \<Rightarrow> bool \<Rightarrow>
     scan_request \<Rightarrow> tone \<Rightarrow> nat \<Rightarrow> u16 list \<Rightarrow> u16 list \<Rightarrow> 'w \<Rightarrow>
     ((transfer_outcome io \<times> session_health) \<times> 'w) option" where
  "transfer_in_session fuel wr cb max_transfer e raw_callback request t expected_rows item full_item w =
     (case query_from_borrowed cb raw_callback w of
        (Inl er, w) \<Rightarrow> Some ((Inl er, Ready), w)
      | (Inr _, w) \<Rightarrow>
          map_option (\<lambda>(r, w). (r, release_callback cb w))
            (transfer wr cb (cancel_flag e) request expected_rows item full_item
              (\<lambda>sk. scan_in_session fuel (through outside put_outside max_transfer)
                 (session_env outside put_outside e (toned_sink t sk)) request) w))"

end
