(* ===== verification/Scan_Simulation.thy ===== *)
theory Scan_Simulation
  imports Scan_Properties
begin

text \<open>
  The job treats the world of its environment as a black box: run in two environments
  whose operations are related, it gives equal results and related worlds. This is
  parametricity, proved once for every operation of the job with the \<open>transfer_prover\<close>
  method; a loop is split into one round, with the recursive call as an argument, and an
  induction. Two consequences are used: recording the events of a job does not change it,
  and an invariant of the world that every operation of the environment keeps is kept by
  the job.
\<close>

text \<open>The same argument on both sides.\<close>

abbreviation any :: "('b \<Rightarrow> 'c \<Rightarrow> bool) \<Rightarrow> ('a \<Rightarrow> 'b) \<Rightarrow> ('a \<Rightarrow> 'c) \<Rightarrow> bool" where
  "any \<equiv> rel_fun (=)"

section \<open>Related jobs and environments\<close>

inductive rel_job :: "('v \<Rightarrow> 'w \<Rightarrow> bool) \<Rightarrow> 'v job \<Rightarrow> 'w job \<Rightarrow> bool" for S where
  "S v w \<Longrightarrow> rel_job S \<lparr>world = v, diag = d, synchronized = y, metrics = m\<rparr>
     \<lparr>world = w, diag = d, synchronized = y, metrics = m\<rparr>"

abbreviation rel_result :: "('v \<Rightarrow> 'w \<Rightarrow> bool) \<Rightarrow> 'a \<times> 'v job \<Rightarrow> 'a \<times> 'w job \<Rightarrow> bool" where
  "rel_result S \<equiv> rel_prod (=) (rel_job S)"

definition rel_env :: "('v \<Rightarrow> 'w \<Rightarrow> bool) \<Rightarrow> 'v env \<Rightarrow> 'w env \<Rightarrow> bool" where
  "rel_env S d e \<longleftrightarrow>
     (any (rel_fun S (rel_prod (=) S))) (usb_write d) (usb_write e)
   \<and> (any (rel_fun S (rel_prod (=) S))) (usb_read d) (usb_read e)
   \<and> (rel_fun S (rel_prod (=) S)) (clock d) (clock e)
   \<and> (rel_fun S (rel_prod (=) S)) (cancel_flag d) (cancel_flag e)
   \<and> (any (rel_fun S S)) (thread_sleep d) (thread_sleep e)
   \<and> (any (rel_fun S (rel_prod (=) S))) (sink d) (sink e)
   \<and> (any (rel_fun S (rel_prod (=) S))) (prepare d) (prepare e)"

lemma case_reply_status_param [transfer_rule]:
  "(rel_fun A (rel_fun A (any A))) case_reply_status case_reply_status" by (auto simp: rel_fun_def split: reply_status.splits)

lemma case_bool_param [transfer_rule]:
  "(rel_fun A (rel_fun A (any A))) case_bool case_bool" by (auto simp: rel_fun_def split: bool.splits)

lemma rel_fun2D: "(rel_fun A (rel_fun B C)) f g \<Longrightarrow> A x y \<Longrightarrow> B u v \<Longrightarrow> C (f x u) (g y v)"
  by (blast dest: rel_funD)

lemma rel_fun4D:
  "(rel_fun A (rel_fun B (rel_fun C (rel_fun D E)))) f g \<Longrightarrow> A a a' \<Longrightarrow> B b b' \<Longrightarrow> C c c' \<Longrightarrow> D d d' \<Longrightarrow>
     E (f a b c d) (g a' b' c' d')"
  by (blast dest: rel_fun2D)

lemma rel_fun8D:
  "(rel_fun A (rel_fun B (rel_fun C (rel_fun D (rel_fun E (rel_fun F (rel_fun G (rel_fun H I)))))))) f g \<Longrightarrow>
     A a a' \<Longrightarrow> B b b' \<Longrightarrow> C c c' \<Longrightarrow> D d d' \<Longrightarrow> E i i' \<Longrightarrow> F j j' \<Longrightarrow> G k k' \<Longrightarrow> H l l' \<Longrightarrow>
     I (f a b c d i j k l) (g a' b' c' d' i' j' k' l')"
  by (blast dest: rel_fun4D)

lemma env_transfer [transfer_rule]:
  "(rel_fun (rel_env S) (any (rel_fun S (rel_prod (=) S)))) usb_write usb_write"
  "(rel_fun (rel_env S) (any (rel_fun S (rel_prod (=) S)))) usb_read usb_read"
  "(rel_fun (rel_env S) (rel_fun S (rel_prod (=) S))) clock clock"
  "(rel_fun (rel_env S) (rel_fun S (rel_prod (=) S))) cancel_flag cancel_flag"
  "(rel_fun (rel_env S) (any (rel_fun S S))) thread_sleep thread_sleep"
  "(rel_fun (rel_env S) (any (rel_fun S (rel_prod (=) S)))) sink sink"
  "(rel_fun (rel_env S) (any (rel_fun S (rel_prod (=) S)))) prepare prepare"
  by (auto simp: rel_env_def rel_fun_def)

lemma job_transfer [transfer_rule]:
  "(rel_fun (rel_job S) S) world world"
  "(rel_fun (rel_job S) (=)) diag diag"
  "(rel_fun (rel_job S) (=)) synchronized synchronized"
  "(rel_fun (rel_job S) (=)) metrics metrics"
  "(rel_fun (rel_fun S S) (rel_fun (rel_job S) (rel_job S))) world_update world_update"
  "(rel_fun (any (=)) (rel_fun (rel_job S) (rel_job S))) diag_update diag_update"
  "(rel_fun (any (=)) (rel_fun (rel_job S) (rel_job S))) synchronized_update synchronized_update"
  "(rel_fun (any (=)) (rel_fun (rel_job S) (rel_job S))) metrics_update metrics_update"
  by (auto simp: rel_fun_def rel_job.simps)

lemma on_world_rel [transfer_rule]:
  "(rel_fun (rel_fun S (rel_prod R S)) (rel_fun (rel_job S) (rel_prod R (rel_job S)))) on_world on_world"
  unfolding on_world_def [abs_def] by transfer_prover

lemma on_diag_rel [transfer_rule]:
  "(any (rel_fun (rel_job S) (rel_job S))) on_diag on_diag"
  unfolding on_diag_def [abs_def] by transfer_prover

lemma now_rel [transfer_rule]:
  "(rel_fun (rel_env S) (rel_fun (rel_job S) (rel_result S))) now now"
  unfolding now_def [abs_def] by transfer_prover

lemma cancelled_rel [transfer_rule]:
  "(rel_fun (rel_env S) (rel_fun (rel_job S) (rel_result S))) cancelled cancelled"
  unfolding cancelled_def [abs_def] by transfer_prover

lemma set_stage_rel [transfer_rule]:
  "(rel_fun (rel_env S) (any (rel_fun (rel_job S) (rel_job S)))) set_stage set_stage"
  unfolding set_stage_def [abs_def] by transfer_prover

lemma diag_error_rel [transfer_rule]:
  "(rel_fun (rel_env S) (any (any (rel_fun (rel_job S) (rel_result S))))) diag_error diag_error"
  unfolding diag_error_def [abs_def] by transfer_prover

lemma timed_write_rel [transfer_rule]:
  "(rel_fun (rel_env S) (any (rel_fun (rel_job S) (rel_result S)))) timed_write timed_write"
  unfolding timed_write_def [abs_def] by transfer_prover

lemma checkpoint_deadline_rel [transfer_rule]:
  "(rel_fun (rel_env S) (any (rel_fun (rel_job S) (rel_result S)))) checkpoint_deadline checkpoint_deadline"
  unfolding checkpoint_deadline_def [abs_def] by transfer_prover

lemma checkpoint_rel [transfer_rule]:
  "(rel_fun (rel_env S) (any (rel_fun (rel_job S) (rel_result S)))) checkpoint checkpoint"
  unfolding checkpoint_def [abs_def] by transfer_prover

lemma timed_read_rel [transfer_rule]:
  "(rel_fun (rel_env S) (any (rel_fun (rel_job S) (rel_result S)))) timed_read timed_read"
  unfolding timed_read_def [abs_def] by transfer_prover

lemma exchange_rel [transfer_rule]:
  "(rel_fun (rel_env S) (any (rel_fun (rel_job S) (rel_result S)))) exchange exchange"
  unfolding exchange_def [abs_def] by transfer_prover

lemma progress_error_rel [transfer_rule]:
  "(rel_fun (rel_env S) (any (any (any (any (rel_fun (rel_job S) (rel_result S))))))) progress_error progress_error"
  unfolding progress_error_def [abs_def] by transfer_prover

lemma observe_failure_rel [transfer_rule]:
  "(rel_fun (rel_env S) (any (any (rel_fun (rel_job S) (rel_result S))))) observe_failure observe_failure"
  unfolding observe_failure_def [abs_def] by transfer_prover

lemma start_drain_rel [transfer_rule]:
  "(rel_fun (rel_env S) (any (any (rel_fun (rel_job S) (rel_result S))))) start_drain start_drain"
  unfolding start_drain_def [abs_def] by transfer_prover

lemma drain_expired_rel [transfer_rule]:
  "(rel_fun (rel_env S) (any (rel_fun (rel_job S) (rel_result S)))) drain_expired drain_expired"
  unfolding drain_expired_def [abs_def] by transfer_prover

lemma fail_read_rel [transfer_rule]:
  "(rel_fun (rel_env S) (any (any (any (any (any (rel_fun (rel_job S) (rel_result S)))))))) fail_read fail_read"
  unfolding fail_read_def [abs_def] by transfer_prover

lemma fail_job_rel [transfer_rule]:
  "(rel_fun (rel_env S) (any (any (rel_fun (rel_job S) (rel_result S))))) fail_job fail_job"
  unfolding fail_job_def [abs_def] by transfer_prover

lemma busy_pause_rel [transfer_rule]:
  "(rel_fun (rel_env S) (any (rel_fun (rel_job S) (rel_job S)))) busy_pause busy_pause"
  unfolding busy_pause_def [abs_def] by transfer_prover

section \<open>Loops, one round at a time\<close>

definition ready_body where
  "ready_body loop e op stoppable deadline attempted s =
     (case (if stoppable then checkpoint e deadline s else checkpoint_deadline e deadline s) of
        (Inl er, s) \<Rightarrow> Some ((Inl er, attempted), s)
      | (Inr _, s) \<Rightarrow>
          (case exchange e (plain_command op) s of
             (Inl er, s) \<Rightarrow> Some ((Inl er, True), s)
           | (Inr b, s) \<Rightarrow>
               (case response_status b (op = 0x28) of
                  Inl er \<Rightarrow> Some ((Inl er, True), s)
                | Inr Good \<Rightarrow> Some ((Inr b, True), s)
                | Inr Busy \<Rightarrow>
                    loop True
                      (busy_pause e op (on_diag (record_busy_reply op b (op = 0x28)) s)))))"

lemma ready_body_rel:
  "(rel_fun (any (rel_fun (rel_job S) (rel_option (rel_result S)))) (rel_fun (rel_env S) (any (any (any (any (rel_fun (rel_job S) (rel_option (rel_result S))))))))) ready_body ready_body"
  unfolding ready_body_def [abs_def] by transfer_prover

lemma ready_loop_rel [transfer_rule]:
  "(any (rel_fun (rel_env S) (any (any (any (any (rel_fun (rel_job S) (rel_option (rel_result S))))))))) ready_loop ready_loop"
proof (intro rel_funI; hypsubst)
  fix fuel d e op stop dl att s t
  assume e: "rel_env S d e"
  assume "rel_job S s t"
  then show "rel_option (rel_result S) (ready_loop fuel d op stop dl att s) (ready_loop fuel e op stop dl att t)"
  proof (induction fuel arbitrary: att s t)
    case (Suc fuel)
    have "(any (rel_fun (rel_job S) (rel_option (rel_result S)))) (ready_loop fuel d op stop dl) (ready_loop fuel e op stop dl)"
      using Suc.IH by (auto intro!: rel_funI)
    from ready_body_rel [THEN rel_fun4D, THEN rel_fun2D, THEN rel_funD,
        OF this e refl refl refl refl Suc.prems]
    show ?case unfolding ready_body_def by simp
  qed simp
qed

definition finish_body where
  "finish_body loop e op errors s =
     (let s = on_diag (set_opcode op) s;
          (r, s) = exchange e (plain_command op) s;
          errors = (case cleanup_result r of Inl er \<Rightarrow> errors @ [Shown er] | Inr _ \<Rightarrow> errors)
      in if \<not> synchronized s then (errors, s) else loop errors s)"

lemma finish_body_rel:
  "(rel_fun (any (rel_fun (rel_job S) (rel_result S))) (rel_fun (rel_env S) (any (any (rel_fun (rel_job S) (rel_result S)))))) finish_body finish_body"
  unfolding finish_body_def [abs_def] by transfer_prover

lemma finish_loop_rel [transfer_rule]:
  "(rel_fun (rel_env S) (any (any (rel_fun (rel_job S) (rel_result S))))) finish_loop finish_loop"
proof (intro rel_funI; hypsubst)
  fix d e ops errors s t
  assume e: "rel_env S d e"
  assume "rel_job S s t"
  then show "rel_result S (finish_loop d ops errors s) (finish_loop e ops errors t)"
  proof (induction ops arbitrary: errors s t)
    case (Cons op ops)
    have "(any (rel_fun (rel_job S) (rel_result S))) (finish_loop d ops) (finish_loop e ops)"
      using Cons.IH by (auto intro!: rel_funI)
    from finish_body_rel [THEN rel_fun4D, THEN rel_funD, OF this e refl refl Cons.prems]
    show ?case unfolding finish_body_def by simp
  qed simp
qed

lemma finish_rel [transfer_rule]:
  "(rel_fun (rel_env S) (any (rel_fun (rel_job S) (rel_result S)))) finish finish"
  unfolding finish_def [abs_def] by transfer_prover

lemma ready_with_attempt_rel [transfer_rule]:
  "(any (rel_fun (rel_env S) (any (any (any (rel_fun (rel_job S) (rel_option (rel_result S)))))))) ready_with_attempt ready_with_attempt"
  unfolding ready_with_attempt_def [abs_def] by transfer_prover

lemma ready_rel [transfer_rule]:
  "(any (rel_fun (rel_env S) (any (any (rel_fun (rel_job S) (rel_option (rel_result S))))))) ready ready"
  unfolding ready_def [abs_def] by transfer_prover

definition read_body where
  "read_body loop e len deadline raw failure drain empty_reads last_progress s =
     (if length raw \<ge> len then (Inr (raw, failure, last_progress), s)
      else
        let (failure, s) = observe_failure e deadline failure s;
            (drain, s) = start_drain e failure drain s;
            (expired, s) = drain_expired e drain s
        in if expired then
             fail_read e failure
               (timed_out ''Image drain exceeded 10 seconds; stream synchronization lost'')
               raw len last_progress s
           else
             let remaining = len - length raw;
                 capacity = read_capacity remaining (read_buffer_bytes (diag s))
             in case timed_read e capacity s of
                  (Inl er, s) \<Rightarrow> fail_read e failure er raw len last_progress s
                | (Inr chunk, s) \<Rightarrow>
                    if length chunk > capacity \<or> length chunk > remaining then
                      fail_read e failure
                        (invalid ''Image read exceeded advertised band length; stream synchronization lost'')
                        raw len last_progress s
                    else if chunk = [] then
                      let empty_reads = empty_reads + 1;
                          failure = (case failure of
                              None \<Rightarrow> Some (invalid ''Image read made no progress'')
                            | Some er \<Rightarrow> Some er)
                      in if empty_reads \<ge> 2 then
                           fail_read e failure
                             (invalid ''Image drain made no progress twice; stream synchronization lost'')
                             raw len last_progress s
                         else loop raw failure drain empty_reads last_progress s
                    else
                      let (t, s) = now e s
                      in loop (raw @ chunk) failure drain empty_reads t s)"

lemma read_body_rel:
  "(rel_fun (any (any (any (any (any (rel_fun (rel_job S) (rel_result S))))))) (rel_fun (rel_env S) (any (any (any (any (any (any (any (rel_fun (rel_job S) (rel_result S))))))))))) read_body read_body"
  unfolding read_body_def [abs_def] by transfer_prover

lemma read_loop_guarded:
  "read_loop e len dl raw failure drain er lp s =
     read_body (\<lambda>raw' failure drain er' lp s.
        if (len - length raw') + (2 - er') < (len - length raw) + (2 - er)
        then read_loop e len dl raw' failure drain er' lp s else (Inr (raw', failure, lp), s))
      e len dl raw failure drain er lp s"
  unfolding read_body_def
  by (subst read_loop.simps) (auto simp: Let_def neq_Nil_conv split: prod.splits sum.splits)

lemma read_loop_rel [transfer_rule]:
  "(rel_fun (rel_env S) (any (any (any (any (any (any (any (rel_fun (rel_job S) (rel_result S)))))))))) read_loop read_loop"
proof (intro rel_funI; hypsubst)
  fix d e len dl raw failure drain er lp s t
  assume e: "rel_env S d e"
  assume "rel_job S s t"
  then show "rel_result S (read_loop d len dl raw failure drain er lp s) (read_loop e len dl raw failure drain er lp t)"
  proof (induction "(len - length raw) + (2 - er)" arbitrary: raw failure drain er lp s t rule: less_induct)
    case less
    show ?case
      unfolding read_loop_guarded [of _ len dl raw failure drain er lp]
      by (rule read_body_rel [THEN rel_fun8D, THEN rel_fun2D,
          OF _ e refl refl refl refl refl refl refl less.prems])
        (auto intro!: rel_funI less.hyps)
  qed
qed

lemma read_image_band_rel [transfer_rule]:
  "(rel_fun (rel_env S) (any (any (rel_fun (rel_job S) (rel_result S))))) read_image_band read_image_band"
  unfolding read_image_band_def [abs_def] by transfer_prover

lemma take_image_rel [transfer_rule]:
  "(rel_fun (rel_env S) (any (any (any (any (any (rel_fun (rel_job S) (rel_result S)))))))) take_image take_image"
  unfolding take_image_def [abs_def] by transfer_prover

lemma read_band_rel [transfer_rule]:
  "(any (rel_fun (rel_env S) (any (any (any (any (rel_fun (rel_job S) (rel_option (rel_result S))))))))) read_band read_band"
  unfolding read_band_def [abs_def] by transfer_prover

lemma deliver_band_rel [transfer_rule]:
  "(rel_fun (rel_env S) (any (any (any (any (any (rel_fun (rel_job S) (rel_result S)))))))) deliver_band deliver_band"
  unfolding deliver_band_def [abs_def] by transfer_prover

definition band_body where
  "band_body loop fuel e deadline request caps sm s =
     (case read_band fuel e deadline request caps sm s of
        None \<Rightarrow> None
      | Some ((Inl er, f), s) \<Rightarrow> Some ((Inl er, f), s)
      | Some ((Inr (band, img, h, n), _), s) \<Rightarrow>
          (case deliver_band e deadline img h n sm s of
             (Inl er, s) \<Rightarrow> Some ((Inl er, False), s)
           | (Inr sm', s) \<Rightarrow>
               if final_band band then Some ((Inr sm', False), s)
               else loop sm' s))"

lemma band_body_rel:
  "(rel_fun (any (rel_fun (rel_job S) (rel_option (rel_result S)))) (any (rel_fun (rel_env S) (any (any (any (any (rel_fun (rel_job S) (rel_option (rel_result S)))))))))) band_body band_body"
  unfolding band_body_def [abs_def] by transfer_prover

lemma band_loop_guarded:
  "band_loop fuel e dl request caps sm s =
     band_body (\<lambda>sm' s.
        if 4096 - sm_bands sm' < 4096 - sm_bands sm
        then band_loop fuel e dl request caps sm' s else None)
      fuel e dl request caps sm s"
  unfolding band_body_def
  by (subst band_loop.simps) (auto dest!: read_band_limit deliver_band_count split: option.splits prod.splits sum.splits)

lemma band_loop_rel [transfer_rule]:
  "(any (rel_fun (rel_env S) (any (any (any (any (rel_fun (rel_job S) (rel_option (rel_result S))))))))) band_loop band_loop"
proof (intro rel_funI; hypsubst)
  fix fuel d e dl request caps sm s t
  assume e: "rel_env S d e"
  assume "rel_job S s t"
  then show "rel_option (rel_result S) (band_loop fuel d dl request caps sm s) (band_loop fuel e dl request caps sm t)"
  proof (induction "4096 - sm_bands sm" arbitrary: sm s t rule: less_induct)
    case less
    show ?case
      unfolding band_loop_guarded [of fuel _ dl request caps sm]
      by (rule band_body_rel [THEN rel_fun8D, OF _ refl e refl refl refl refl less.prems])
        (auto intro!: rel_funI less.hyps)
  qed
qed

lemma reserved_job_rel [transfer_rule]:
  "(any (rel_fun (rel_env S) (any (any (any (any (rel_fun (rel_job S) (rel_option (rel_result S))))))))) reserved_job reserved_job"
  unfolding reserved_job_def [abs_def] by transfer_prover

lemma prepare_job_rel [transfer_rule]:
  "(rel_fun (rel_env S) (any (rel_fun (rel_job S) (rel_result S)))) prepare_job prepare_job"
  unfolding prepare_job_def [abs_def] by transfer_prover

lemma clean_up_rel [transfer_rule]:
  "(rel_fun (rel_env S) (any (any (rel_fun (rel_job S) (rel_result S))))) clean_up clean_up"
  unfolding clean_up_def [abs_def] by transfer_prover

lemma run_observed_rel [transfer_rule]:
  "(any (rel_fun (rel_env S) (rel_fun (rel_job S) (rel_option (rel_result S))))) run_observed run_observed"
  unfolding run_observed_def [abs_def] by transfer_prover

lemma start_job_rel [transfer_rule]:
  "(any (any (any (rel_fun S (rel_job S))))) start_job start_job"
  by (auto simp: rel_fun_def start_job_def Let_def rel_job.simps)

lemma run_job_rel [transfer_rule]:
  "(any (rel_fun (rel_env S) (any (rel_fun S (rel_option (rel_prod (=) (rel_prod (=) S))))))) run_job run_job"
  unfolding run_job_def [abs_def] by transfer_prover

lemma prepare_update_rel [transfer_rule]:
  "(rel_fun (any (rel_fun S (rel_prod (=) S))) (rel_fun (rel_env S) (rel_env S)))
     (\<lambda>p. prepare_update (\<lambda>_. p)) (\<lambda>p. prepare_update (\<lambda>_. p))"
  by (auto simp: rel_env_def rel_fun_def)

section \<open>Recording a job does not change it\<close>

lemma rel_env_logged: "rel_env (\<lambda>(w, log) v. w = v) (logged e) e"
  by (auto simp: rel_env_def rel_fun_def logged_def split: prod.splits)

lemma run_job_logged:
  "rel_option (rel_prod (=) (rel_prod (=) (\<lambda>(w, log) v. w = v)))
     (run_job fuel (logged e) tuning (w, log)) (run_job fuel e tuning w)"
  by (rule run_job_rel [THEN rel_fun4D]) (auto simp: rel_env_logged)

text \<open>
  Recording is transparent. A job on the recording environment gives exactly
  the result, the session health, the profile and the world of the job on the environment
  itself, for any device, consumer and host; so what is proved of the recorded
  conversation holds of every job.
\<close>

theorem recording_is_transparent:
  "map_option (\<lambda>(r, p, w, log). (r, p, w)) (run_job fuel (logged e) tuning (w, []))
     = run_job fuel e tuning w"
  using run_job_logged [of fuel e tuning w "[]"]
  by (cases "run_job fuel (logged e) tuning (w, [])"; cases "run_job fuel e tuning w")
    (auto simp: rel_prod_conv split: prod.splits)

section \<open>Invariants of the world\<close>

text \<open>Every operation of the environment keeps \<open>P\<close>.\<close>

definition keeps :: "('w \<Rightarrow> bool) \<Rightarrow> 'w env \<Rightarrow> bool" where
  "keeps P e \<longleftrightarrow>
     (\<forall>c w. P w \<longrightarrow> P (snd (usb_write e c w))) \<and> (\<forall>n w. P w \<longrightarrow> P (snd (usb_read e n w)))
     \<and> (\<forall>w. P w \<longrightarrow> P (snd (clock e w))) \<and> (\<forall>w. P w \<longrightarrow> P (snd (cancel_flag e w)))
     \<and> (\<forall>t w. P w \<longrightarrow> P (thread_sleep e t w)) \<and> (\<forall>b w. P w \<longrightarrow> P (snd (sink e b w)))
     \<and> (\<forall>raw w. P w \<longrightarrow> P (snd (prepare e raw w)))"

lemma rel_env_keeps: "keeps P e \<Longrightarrow> rel_env (\<lambda>v w. v = w \<and> P v) e e"
  by (simp add: keeps_def rel_env_def rel_fun_def rel_prod_sel)

lemma run_job_keeps:
  assumes "keeps P e" and "run_job fuel e tuning w = Some (r, p, w')" and "P w"
  shows "P w'"
proof -
  have "rel_option (rel_prod (=) (rel_prod (=) (\<lambda>v w. v = w \<and> P v)))
      (run_job fuel e tuning w) (run_job fuel e tuning w)"
    by (rule run_job_rel [THEN rel_fun4D]) (use assms in \<open>auto intro: rel_env_keeps\<close>)
  then show ?thesis using assms(2) by (auto simp: rel_prod_conv)
qed

end
