(* ===== verification/Bmp_Properties.thy ===== *)
theory Bmp_Properties
  imports Bmp
begin

text \<open>
  What the encoder guarantees: every image within the limits can be encoded on the
  in-memory stream, a finished file reads back as the image on every stream that keeps
  its contract, an unfinished one is no file, and an error is final.
\<close>

section \<open>Encoding succeeds on the in-memory stream\<close>

lemma cursor_write_bounded:
  "p \<le> length data \<Longrightarrow>
     write_bounded cursor bs (data, p) = (Inr (), (overwrite p bs data, p + length bs))"
  by (subst write_bounded.simps) (auto simp: cursor_def write_bounded.simps [of _ "[]"])

lemma cursor_seek: "stream_seek cursor (From_start n) (data, p) = (Inr n, (data, n))"
  by (simp add: cursor_def)

lemma cursor_append:
  "p = length data \<Longrightarrow>
     write_bounded cursor bs (data, p) = (Inr (), (data @ bs, p + length bs))"
  by (simp add: cursor_write_bounded overwrite_at_end)

lemma cursor_write_rows:
  "p = length data \<Longrightarrow> \<exists>st'. write_rows cursor m pad rows (data, p) = (Inr (), st')"
proof (induction rows arbitrary: data p)
  case (Cons row rows)
  let ?data = "data @ stored_row m row @ replicate pad 0"
  have "\<exists>st'. write_rows cursor m pad rows (?data, length data + length (stored_row m row) + pad)
      = (Inr (), st')"
    by (rule Cons.IH) simp
  then show ?case using Cons.prems by (simp add: cursor_append)
qed simp

lemma cursor_header:
  assumes "enc_mode en = m"
  shows "\<exists>st'. write_initial_header cursor w en ([], q) = (Inr (), en\<lparr>header_written := True\<rparr>, st')"
  by (simp add: write_initial_header_def cursor_seek cursor_append)

lemma cursor_write_at:
  "n + length bs \<le> length data \<Longrightarrow>
     write_at cursor n bs (data, q) = (Inr (), (put_slice n bs data, n + length bs))"
  by (simp add: write_at_def cursor_seek cursor_write_bounded overwrite_inside)

lemma push_cursor:
  assumes "tracks m p bands en (fst st)" and "snd st = length (fst st) \<or> bands = []"
    and "valid_band m w band" and "\<forall>b \<in> set bands. ib_width b = w"
    and "length bands < 4096"
    and "sum_list (map ib_rows (bands @ [band])) < 2 ^ 31"
    and "sum_list (map (\<lambda>b. length (pixels b)) (bands @ [band])) \<le> MAX_PIXEL_BYTES"
  shows "\<exists>en' st'. push cursor band en st = (Inr (), en', st')"
proof -
  let ?g = "\<lparr>row_bytes = w * channels m, geo_stride = stride_of m w,
      pixel_count = w * channels m * ib_rows band\<rparr>"
  have v: "ib_width band = w" "0 < w" "w < 2 ^ 31" "0 < ib_rows band"
    "w * channels m \<le> MAX_INPUT_ROW_BYTES" "length (pixels band) = w * channels m * ib_rows band"
    using assms(3) by (auto simp: valid_band_def)
  have t: "enc_mode en = m" "poisoned en = None" "enc_height en = sum_list (map ib_rows bands)"
    "enc_bands en = length bands" "enc_bytes en = sum_list (map (\<lambda>b. length (pixels b)) bands)"
    using assms(1) by (auto simp: tracks_def)
  have "w * channels m * ib_rows band < 2 ^ 64"
    using assms(7) v(6) by (simp add: MAX_PIXEL_BYTES_def)
  then have g: "validate_band_geometry band m = Inr ?g"
    using assms(3) v(1) by (simp add: validate_band_geometry_Inr_iff)
  have same: "enc_width en = None \<or> enc_width en = Some w"
    using assms(1,4) by (cases bands) (auto simp: tracks_def valid_band_def)
  have st: "0 < stride_of m w" "stride_of m w \<le> MAX_INPUT_ROW_BYTES + 3"
    using stride_bounds [of w m] v(2,5) by (cases m; auto)+
  have acc: "validate_accumulation (enc_height en) (enc_bands en) (enc_bytes en) w (ib_rows band)
      (w * channels m * ib_rows band) (stride_of m w)
    = Inr (enc_height en + ib_rows band, enc_bands en + 1, enc_bytes en + w * channels m * ib_rows band)"
    using assms(5-7) v st t by (simp add: validate_accumulation_Inr_iff MAX_BANDS_def)
  obtain en1 st1 where first: "(if enc_width en = None
      then case write_initial_header cursor w en st of
             (Inl er, en, st) \<Rightarrow> (Inl er, en, st)
           | (Inr _, en, st) \<Rightarrow> (Inr (), en\<lparr>enc_width := Some w, row_stride := geo_stride ?g\<rparr>, st)
      else (Inr (), en, st)) = (Inr (), en1, st1)" "enc_mode en1 = m" "snd st1 = length (fst st1)"
  proof (cases "enc_width en = None")
    case True
    then have "fst st = []" using assms(1) by (auto simp: tracks_def split: if_splits)
    then obtain q where q: "st = ([], q)" by (cases st) auto
    from cursor_header [OF t(1), of w q] obtain st' where
      h: "write_initial_header cursor w en st = (Inr (), en\<lparr>header_written := True\<rparr>, st')"
      unfolding q by blast
    have "pixel_offset en = offset_of_mode (enc_mode en)" using assms(1) t by (simp add: tracks_def)
    from mem.write_initial_header_contents [OF h _ this] q have "snd st' = length (fst st')" by simp
    with True h t(1) show ?thesis
      by (intro that [of "en\<lparr>header_written := True, enc_width := Some w,
          row_stride := geo_stride ?g\<rparr>" st']) auto
  next
    case False
    then have "bands \<noteq> []" using assms(1) by (auto simp: tracks_def)
    then show ?thesis using False assms(2) t(1) by (intro that [of en st]) auto
  qed
  have "\<exists>st'. write_rows cursor m (stride_of m w - w * channels m)
      (chunks_exact (w * channels m) (pixels band)) (fst st1, snd st1) = (Inr (), st')"
    using first(3) by (rule cursor_write_rows)
  then obtain st2 where "write_band cursor band ?g en1 st1 = (Inr (), st2)"
    using first(2) by (auto simp: write_band_def)
  then show ?thesis
    using t(1,2) g v(1) same acc first(1) by (simp add: push_def) (auto split: if_splits)
qed

lemma push_all_cursor:
  assumes "tracks m p done en (fst st)" and "snd st = length (fst st) \<or> done = []"
    and "\<forall>b \<in> set (done @ bands). valid_band m w b" and "length (done @ bands) \<le> 4096"
    and "sum_list (map ib_rows (done @ bands)) < 2 ^ 31"
    and "sum_list (map (\<lambda>b. length (pixels b)) (done @ bands)) \<le> MAX_PIXEL_BYTES"
  shows "\<exists>en' st'. push_all cursor bands en st = (Inr (), en', st')"
  using assms
proof (induction bands arbitrary: "done" en st)
  case (Cons b bands)
  have "\<forall>x \<in> set done. ib_width x = w" using Cons.prems(3) by (auto simp: valid_band_def)
  then obtain en1 st1 where push: "push cursor b en st = (Inr (), en1, st1)"
    using push_cursor [OF Cons.prems(1,2), of w b] Cons.prems(3-6) by auto
  from mem.push_tracks [OF push Cons.prems(1,2)] have
    "tracks m p (done @ [b]) en1 (fst st1)" "snd st1 = length (fst st1)" by auto
  then obtain en' st' where "push_all cursor bands en1 st1 = (Inr (), en', st')"
    using Cons.IH [of "done @ [b]" en1 st1] Cons.prems(3-6) by auto
  with push show ?case by simp
qed simp

lemma dpi_to_ppm_ok:
  "0 < unat d \<Longrightarrow> unat d \<le> 50000000 \<Longrightarrow> \<exists>p. dpi_to_ppm d = Inr p"
proof -
  assume d: "0 < unat d" "unat d \<le> 50000000"
  have "(unat d * 10000 + 127) div 254 \<le> (50000000 * 10000 + 127) div 254"
    using d(2) by (intro div_le_mono) simp
  then have "(unat d * 10000 + 127) div 254 < 2 ^ 31" by simp
  moreover have "d \<noteq> 0" using d(1) by auto
  ultimately show ?thesis
    using d(2) by (auto simp: dpi_to_ppm_def checked_mul64_def checked_add64_def i32_of_nat_def)
qed

lemma encode_cursor:
  assumes "0 < unat d" and "unat d \<le> 50000000" and "bands \<noteq> []"
    and "\<forall>b \<in> set bands. valid_band m w b" and "length bands \<le> 4096"
    and "sum_list (map ib_rows bands) < 2 ^ 31"
    and "sum_list (map (\<lambda>b. length (pixels b)) bands) \<le> 256 * 1024 * 1024"
    and "summarises bands sm"
  shows "\<exists>file q. encode cursor d m bands sm ([], 0) = (Inr (), (file, q))"
proof -
  obtain p where p: "dpi_to_ppm d = Inr p" using dpi_to_ppm_ok assms(1,2) by blast
  obtain en q1 where new: "encoder_new cursor d m ([], 0) = (Inr en, ([], q1))"
    using p by (simp add: encoder_new_def cursor_def Let_def)
  have t0: "tracks m p [] en []"
    using mem.encoder_new_tracks [OF new] p by simp
  obtain en' st' where all: "push_all cursor bands en ([], q1) = (Inr (), en', st')"
    using push_all_cursor [of m p "[]" en "([], q1)" bands w] t0 assms
    by (auto simp: MAX_PIXEL_BYTES_def)
  have t: "tracks m p bands en' (fst st')"
    using mem.push_all_tracks [OF all, of m p "[]"] t0 by simp
  let ?h = "sum_list (map ib_rows bands)" and ?c = "channels m"
  have w: "enc_width en' = Some w" "header_written en'" "row_stride en' = stride_of m w"
    "fst st' = unfinished m p w bands"
    using t assms(3,4) by (cases bands; auto simp: tracks_def valid_band_def)+
  have len: "length (fst st') = offset_of_mode m + ?h * stride_of m w"
    unfolding w(4) using assms(4) by (rule length_unfinished)
  have c: "1 \<le> w * ?c" using assms(3,4) by (cases m; cases bands) (auto simp: valid_band_def)
  have "sum_list (map (\<lambda>b. length (pixels b)) bands) = ?h * (w * ?c)"
    using assms(4) by (induction bands) (auto simp: valid_band_def algebra_simps)
  then have area: "?h * (w * ?c) \<le> 256 * 1024 * 1024" using assms(7) by simp
  have "stride_of m w \<le> 4 * (w * ?c)" using stride_bounds [of w m] c by linarith
  then have "stride_of m w * ?h \<le> 4 * (w * ?c) * ?h" by (rule mult_le_mono1)
  also have "\<dots> = 4 * (?h * (w * ?c))" by (simp only: mult.assoc mult.commute mult.left_commute)
  also have "\<dots> \<le> 4 * (256 * 1024 * 1024)" using area by (rule mult_le_mono2)
  finally have size: "stride_of m w * ?h \<le> 4 * (256 * 1024 * 1024)" .
  moreover have "offset_of_mode m \<le> 1078"
    by (simp add: offset_of_mode_def FILE_HEADER_BYTES_def INFO_HEADER_BYTES_def GRAY_PALETTE_BYTES_def)
  moreover have "sm_width sm = w" using assms(3,4,8)
    by (cases bands) (auto simp: summarises_def valid_band_def)
  ultimately have "final_sizes en' sm = Inr (offset_of_mode m + stride_of m w * ?h, int ?h, stride_of m w * ?h)"
    using size t w assms(6,8)
    by (simp add: final_sizes_def tracks_def summarises_def checked_mul64_def checked_add64_def
        u32_of_nat_def i32_of_nat_def)
  moreover have "54 \<le> length (fst st')"
    unfolding len by (simp add: offset_of_mode_def FILE_HEADER_BYTES_def INFO_HEADER_BYTES_def)
  ultimately show ?thesis
    using new all by (cases st') (simp add: encode_def encoder_finish_def cursor_write_at)
qed

section \<open>Errors are final\<close>

lemma push_failure_poisons:
  assumes "push wr band en st = (Inl er, en', st')"
  shows "\<exists>p. poisoned en' = Some p \<and> fst p = kind er"
proof (cases "poisoned en")
  case None
  then show ?thesis
    using assms unfolding push_def poison_def
    by (auto simp: poison_capture_def split: prod.split_asm sum.split_asm if_split_asm)
next
  case (Some p)
  then show ?thesis using assms by (auto simp: push_def poison_error_def)
qed

lemma poisoned_push [simp]:
  "poisoned en = Some p \<Longrightarrow> push wr b en st = (Inl (poison_error p), en, st)"
  by (simp add: push_def)

lemma poisoned_finish [simp]:
  "poisoned en = Some p \<Longrightarrow> encoder_finish wr sm en st = (Inl (poison_error p), st)"
  by (simp add: encoder_finish_def final_sizes_def)

section \<open>No signature before the end\<close>

lemma unfinished_unsigned: "subslice 0 2 (unfinished m p w bands) = [0, 0]"
  by (simp add: unfinished_def headers_def subslice_append file_header_def wire_simps)
    (simp add: subslice_def numeral_2_eq_2)

context byte_stream
begin

lemma unsigned_contents:
  assumes "encoder_new wr d m st = (Inr en, st1)" and "push_all wr bands en st1 = (Inr u, en2, st2)"
  shows "read_bmp (contents st2) = None"
proof -
  obtain p where "tracks m p [] en (contents st1)" using encoder_new_tracks [OF assms(1)] by blast
  from push_all_tracks [OF assms(2) this] have "tracks m p bands en2 (contents st2)" by simp
  then have "contents st2 = [] \<or> (\<exists>w. contents st2 = unfinished m p w bands)"
    by (auto simp: tracks_def split: if_splits)
  then show ?thesis
    by (elim disjE exE) (simp_all add: read_bmp_def unfinished_unsigned subslice_def [of _ _ "[]"])
qed

end

section \<open>A sample file\<close>

definition gray_band :: image_band where
  "gray_band = \<lparr>ib_width = 2, ib_rows = 1, ib_mode = Gray, pixels = [7, 9], wire_data = [7, 9]\<rparr>"

definition gray_summary :: scan_summary where
  "gray_summary = \<lparr>sm_width = 2, sm_height = 2, sm_bands = 2, sm_bytes = 4\<rparr>"

lemma gray_band_valid:
  "list_all (valid_band Gray 2) [gray_band, gray_band]" "valid_band Gray 2 gray_band"
  by (simp_all add: gray_band_def valid_band_def MAX_INPUT_ROW_BYTES_def)

lemma gray_summarises: "summarises [gray_band, gray_band] gray_summary"
  by (simp add: summarises_def gray_band_def gray_summary_def)

lemma gray_file: "\<exists>file q. encode cursor 150 Gray [gray_band, gray_band] gray_summary ([], 0) = (Inr (), (file, q))"
  by (rule encode_cursor [where w = 2])
    (use gray_summarises gray_band_valid in \<open>auto simp: gray_band_def\<close>)

lemma gray_pushed:
  "\<exists>en st en' st'. encoder_new cursor 150 Gray ([], 0) = (Inr en, st)
     \<and> push_all cursor [gray_band, gray_band] en st = (Inr (), en', st')"
  using gray_file by (simp only: encode_def) (fastforce split: prod.split_asm sum.split_asm)

section \<open>Properties\<close>

text \<open>
  Property C3: on any stream that keeps its contract, with short writes and failures
  allowed, an encoding that succeeds leaves a file that reads back as exactly the samples
  of the bands, in order, with their width and the summed height, stored top down; and
  the summary it was finished with is the account of those bands.
\<close>

theorem bmp_roundtrip:
  assumes "byte_stream wr contents position" and "encode wr d m bands sm st = (Inr u, st')"
  shows "read_bmp (contents st') = Some (m, sm_width sm, - int (sm_height sm), concat (map pixels bands))
    \<and> sm_bands sm = length bands \<and> sm_height sm = sum_list (map ib_rows bands)
    \<and> sm_bytes sm = sum_list (map (\<lambda>b. length (pixels b)) bands)"
  using byte_stream.encode_contents [OF assms] by (auto simp: summarises_def)

theorem bmp_roundtrip_witness:
  "\<exists>file q. encode cursor 150 Gray [gray_band, gray_band] gray_summary ([], 0) = (Inr (), (file, q))
     \<and> read_bmp file = Some (Gray, 2, - 2, [7, 9, 7, 9])"
proof -
  obtain f q where f:
    "encode cursor 150 Gray [gray_band, gray_band] gray_summary ([], 0) = (Inr (), (f, q))"
    using gray_file by blast
  from bmp_roundtrip [OF mem.byte_stream_axioms f] f show ?thesis
    by (intro exI [of _ f] exI [of _ q]) (simp add: gray_summary_def gray_band_def)
qed

text \<open>
  Property C40: on an empty in-memory stream every image within the limits can be encoded:
  bands of one mode and width with all their samples, at most 4096 of them, 256 MiB of
  samples and fewer than \<open>2 ^ 31\<close> rows. None of the overflow checks of \<open>finish\<close> can fire.
\<close>

theorem encode_succeeds:
  assumes "0 < unat d" and "unat d \<le> 50000000" and "bands \<noteq> []"
    and "\<forall>b \<in> set bands. valid_band m w b" and "length bands \<le> 4096"
    and "sum_list (map ib_rows bands) < 2 ^ 31"
    and "sum_list (map (\<lambda>b. length (pixels b)) bands) \<le> 256 * 1024 * 1024"
    and "summarises bands sm"
  shows "\<exists>file q. encode cursor d m bands sm ([], 0) = (Inr (), (file, q))"
  using assms by (rule encode_cursor)

theorem encode_succeeds_witness:
  "\<exists>file q. encode cursor 150 Gray [gray_band, gray_band] gray_summary ([], 0) = (Inr (), (file, q))"
  by (rule encode_succeeds [where w = 2])
    (use gray_summarises gray_band_valid in \<open>auto simp: gray_band_def\<close>)

text \<open>
  Until \<open>finish\<close> writes the signature the stream holds no file: whatever has
  been pushed, on any stream that keeps its contract, a reader rejects the contents.
\<close>

theorem unfinished_is_no_file:
  assumes "byte_stream wr contents position" and "encoder_new wr d m st = (Inr en, st1)"
    and "push_all wr bands en st1 = (Inr u, en2, st2)"
  shows "read_bmp (contents st2) = None"
  using byte_stream.unsigned_contents [OF assms] .

theorem unfinished_is_no_file_witness:
  "\<exists>en st en' st'. encoder_new cursor 150 Gray ([], 0) = (Inr en, st)
     \<and> push_all cursor [gray_band, gray_band] en st = (Inr (), en', st') \<and> read_bmp (fst st') = None"
proof -
  obtain en st en' st' where p: "encoder_new cursor 150 Gray ([], 0) = (Inr en, st)"
    "push_all cursor [gray_band, gray_band] en st = (Inr (), en', st')"
    using gray_pushed by blast
  from unfinished_is_no_file [OF mem.byte_stream_axioms p] p show ?thesis by blast
qed

text \<open>
  Property C32: an error is final. After a push that fails, on any stream whatever, every
  later push and the final \<open>finish\<close> report an error of the same kind and leave encoder and
  stream as they are.
\<close>

theorem push_failure_is_final:
  assumes "push wr band en st = (Inl er, en', st')"
  shows "\<exists>er'. kind er' = kind er \<and> (\<forall>b s. push wr b en' s = (Inl er', en', s))
    \<and> (\<forall>sm s. encoder_finish wr sm en' s = (Inl er', s))"
proof -
  obtain p where "poisoned en' = Some p" "fst p = kind er"
    using push_failure_poisons [OF assms] by blast
  then show ?thesis by (intro exI [of _ "poison_error p"]) (simp add: poison_error_def)
qed

theorem push_failure_is_final_witness:
  "\<exists>er en er'. push cursor gray_band (\<lparr>enc_mode = Rgb, pixels_per_metre = 1, enc_width = None,
       enc_height = 0, enc_bands = 0, enc_bytes = 0, row_stride = 0, pixel_offset = 54,
       header_written = False, poisoned = None\<rparr>) ([], 0) = (Inl er, en, ([], 0))
     \<and> kind er = InvalidData \<and> kind er' = InvalidData
     \<and> push cursor gray_band en ([], 0) = (Inl er', en, ([], 0))"
proof -
  let ?en = "\<lparr>enc_mode = Rgb, pixels_per_metre = 1, enc_width = None,
       enc_height = 0, enc_bands = 0, enc_bytes = 0, row_stride = 0, pixel_offset = 54,
       header_written = False, poisoned = None\<rparr>"
  let ?er = "invalid ''Image band mode differs from BMP mode''"
  have p: "push cursor gray_band ?en ([], 0)
      = (Inl ?er, ?en\<lparr>poisoned := Some (poison_capture ?er)\<rparr>, ([], 0))"
    by (simp add: push_def validate_band_geometry_def gray_band_def poison_def)
  have k: "kind ?er = InvalidData" by (simp add: invalid_def)
  from push_failure_is_final [OF p] obtain er' where er': "kind er' = kind ?er"
    "\<And>b s. push cursor b (?en\<lparr>poisoned := Some (poison_capture ?er)\<rparr>) s
       = (Inl er', ?en\<lparr>poisoned := Some (poison_capture ?er)\<rparr>, s)" by blast
  show ?thesis using p k er'(1) er'(2) [of gray_band "([], 0)"]
    by (intro exI [of _ ?er] exI [of _ er'] exI [of _ "?en\<lparr>poisoned := Some (poison_capture ?er)\<rparr>"]) simp
qed

end
