(* ===== verification/Wia_Properties.thy ===== *)
theory Wia_Properties
  imports Wia_Settings
begin

text \<open>
  What the WIA mapping guarantees: an exact characterisation of the accepted settings,
  that an accepted request can only be refused for what the scanner reports about itself,
  and the two facts the documentation of the lookup promises.
\<close>

section \<open>Conversion\<close>

lemma u32_of_nat_Some [simp]: "u32_of_nat n = Some k \<longleftrightarrow> k = n \<and> n < 2 ^ 32"
  by (auto simp: u32_of_nat_def)

lemma map_sum_Inr_iff [result_simps]: "map_sum f g x = Inr y \<longleftrightarrow> (\<exists>z. x = Inr z \<and> y = g z)"
  by (cases x) auto

lemma unat_eq_word_of_nat: "n < 2 ^ 32 \<Longrightarrow> (u :: u32) = word_of_nat n \<longleftrightarrow> unat u = n"
  by (auto simp: word_unat_eq_iff unat_of_nat take_bit_nat_eq_self_iff)

lemma pixels_to_units_Inr_iff:
  assumes "0 < d" and "d \<le> 600"
  shows "pixels_to_units px d name = Inr u \<longleftrightarrow> 0 \<le> px \<and> int (unat u) * d = px * 1200"
proof
  assume l: "pixels_to_units px d name = Inr u"
  then have px: "0 \<le> px" by (auto simp: pixels_to_units_def split: if_splits)
  let ?s = "nat px * 1200" and ?d = "nat d"
  have s: "?s mod ?d = 0" "?s div ?d < 2 ^ 32" "u = word_of_nat (?s div ?d)"
    using l assms px
    by (auto simp: pixels_to_units_def result_simps DEVICE_UNITS_PER_INCH_def split: if_splits)
  then have "unat u = ?s div ?d" using unat_eq_word_of_nat by blast
  then have "unat u * ?d = ?s" using s(1) by (metis mod_0_imp_dvd dvd_div_mult_self)
  then have "int (unat u * ?d) = int ?s" by simp
  then show "0 \<le> px \<and> int (unat u) * d = px * 1200" using px assms(1) by simp
next
  assume r: "0 \<le> px \<and> int (unat u) * d = px * 1200"
  then have "int (unat u * nat d) = int (nat px * 1200)" using assms(1) by simp
  then have e: "nat px * 1200 = unat u * nat d" by linarith
  have "unat u * nat d \<le> 4294967296 * 600"
    using assms(2) less_imp_le [OF unat_u32_less, of u] by (intro mult_le_mono) auto
  then have "nat px * 1200 < 2 ^ 64" using e by simp
  moreover have "nat px * 1200 mod nat d = 0" "nat px * 1200 div nat d = unat u"
    using e assms(1) by simp_all
  ultimately show "pixels_to_units px d name = Inr u"
    using r assms(1) unat_u32_less [of u]
    by (auto simp: pixels_to_units_def result_simps DEVICE_UNITS_PER_INCH_def u32_of_nat_def)
qed

lemma validate_offset_Inr_iff:
  "validate_offset u name = Inr x \<longleftrightarrow> 12 dvd unat u \<and> unat u div 1200 \<le> 255"
  by (auto simp: validate_offset_def PROTOCOL_MAX_OFFSET_INCHES_def dvd_eq_mod_eq_0 split: if_splits)

lemma validate_end_Inr_iff:
  "validate_end u v name = Inr x \<longleftrightarrow> unat u + unat v < 2 ^ 32"
  by (auto simp: validate_end_def result_simps split: if_splits)

lemma tone_validate_Inr_iff:
  "tone_validate t = Inr t' \<longleftrightarrow> t' = t \<and> \<bar>brightness t\<bar> \<le> 1000 \<and> \<bar>contrast t\<bar> \<le> 1000"
  by (auto simp: tone_validate_def)

lemma settings_mode_Inr_iff:
  "settings_mode s = Inr m \<longleftrightarrow>
     data_type s = 2 \<and> depth s = 8 \<and> m = Gray \<or> data_type s = 3 \<and> depth s = 24 \<and> m = Rgb"
  by (auto simp: settings_mode_def WIA_DATA_GRAYSCALE_def WIA_DATA_COLOR_def)

lemma supported_resolution_iff:
  "supported_resolution d \<longleftrightarrow> d \<in> {75, 100, 150, 200, 300, 600}"
  by (simp add: supported_resolution_def)

lemma resolution_word:
  assumes "d \<in> {75, 100, 150, 200, 300, 600 :: int}"
  shows "(u :: u32) = word_of_int d \<longleftrightarrow> int (unat u) = d"
  using assms by (auto simp: word_uint_eq_iff)

lemma request_iff:
  "to_request s = Inr r \<longleftrightarrow>
     x_resolution s \<in> {75, 100, 150, 200, 300, 600} \<and> y_resolution s = x_resolution s
     \<and> (data_type s, depth s, mode r) \<in> {(2, 8, Gray), (3, 24, Rgb)}
     \<and> \<bar>fs_brightness s\<bar> \<le> 1000 \<and> \<bar>fs_contrast s\<bar> \<le> 1000
     \<and> compression s = 0 \<and> format s = BMP_FORMAT
     \<and> 0 \<le> x_position s \<and> 0 \<le> y_position s \<and> 0 < x_extent s \<and> 0 < y_extent s
     \<and> int (unat (dpi r)) = x_resolution s
     \<and> int (unat (x_units r)) * x_resolution s = x_position s * 1200
     \<and> int (unat (y_units r)) * x_resolution s = y_position s * 1200
     \<and> int (unat (width_units r)) * x_resolution s = x_extent s * 1200
     \<and> int (unat (height_units r)) * x_resolution s = y_extent s * 1200
     \<and> 12 dvd unat (x_units r) \<and> unat (x_units r) div 1200 \<le> 255
     \<and> 12 dvd unat (y_units r) \<and> unat (y_units r) div 1200 \<le> 255
     \<and> unat (x_units r) + unat (width_units r) < 2 ^ 32
     \<and> unat (y_units r) + unat (height_units r) < 2 ^ 32"
proof (cases "x_resolution s \<in> {75, 100, 150, 200, 300, 600} \<and> x_resolution s = y_resolution s")
  case False
  then show ?thesis by (auto simp: to_request_def supported_resolution_iff)
next
  case True
  then have d: "0 < x_resolution s" "x_resolution s \<le> 600" by auto
  let ?d = "x_resolution s"
  have eq: "y_resolution s = ?d" and S: "?d \<in> {75, 100, 150, 200, 300, 600}" using True by auto
  have conv: "pixels_to_units px ?d name = Inr u \<longleftrightarrow> 0 \<le> px \<and> int (unat u) * ?d = px * 1200"
    for px name u
    by (rule pixels_to_units_Inr_iff [OF d])
  have res: "(u :: u32) = word_of_int ?d \<longleftrightarrow> int (unat u) = ?d" for u
    using True by (intro resolution_word) blast
  have sup: "supported_resolution ?d" using True unfolding supported_resolution_iff by blast
  have "to_request s = Inr r \<longleftrightarrow>
     settings_mode s = Inr (mode r) \<and> (\<exists>t. tone_validate (settings_tone s) = Inr t)
     \<and> compression s = 0 \<and> format s = BMP_FORMAT \<and> 0 < x_extent s \<and> 0 < y_extent s
     \<and> pixels_to_units (x_position s) ?d ''XPOS'' = Inr (x_units r)
     \<and> pixels_to_units (y_position s) ?d ''YPOS'' = Inr (y_units r)
     \<and> pixels_to_units (x_extent s) ?d ''XEXTENT'' = Inr (width_units r)
     \<and> pixels_to_units (y_extent s) ?d ''YEXTENT'' = Inr (height_units r)
     \<and> validate_offset (x_units r) ''XPOS'' = Inr () \<and> validate_offset (y_units r) ''YPOS'' = Inr ()
     \<and> validate_end (x_units r) (width_units r) ''XPOS + XEXTENT'' = Inr ()
     \<and> validate_end (y_units r) (height_units r) ''YPOS + YEXTENT'' = Inr ()
     \<and> dpi r = word_of_int ?d"
    using eq sup
    by (cases r; simp add: to_request_def result_simps flip: ex_simps) fastforce
  then show ?thesis
    using eq S
    by (simp add: settings_mode_Inr_iff tone_validate_Inr_iff settings_tone_def conv res
        validate_offset_Inr_iff validate_end_Inr_iff) (blast intro: less_imp_le)
qed

section \<open>Properties\<close>

text \<open>
  The settings become a request exactly when the resolution is one of the
  six and the same in both directions, data type and depth are 8-bit grey or 24-bit
  colour, tone, compression and format are in range, and the region is non-empty and is
  converted to 1/1200 inch without rounding, with offsets on 1/100 inch within 255 inches
  and ends within 32 bits.
\<close>

theorem to_request_exact:
  "to_request s = Inr r \<longleftrightarrow>
     x_resolution s \<in> {75, 100, 150, 200, 300, 600} \<and> y_resolution s = x_resolution s
     \<and> (data_type s, depth s, mode r) \<in> {(2, 8, Gray), (3, 24, Rgb)}
     \<and> \<bar>fs_brightness s\<bar> \<le> 1000 \<and> \<bar>fs_contrast s\<bar> \<le> 1000
     \<and> compression s = 0 \<and> format s = BMP_FORMAT
     \<and> 0 \<le> x_position s \<and> 0 \<le> y_position s \<and> 0 < x_extent s \<and> 0 < y_extent s
     \<and> int (unat (dpi r)) = x_resolution s
     \<and> int (unat (x_units r)) * x_resolution s = x_position s * 1200
     \<and> int (unat (y_units r)) * x_resolution s = y_position s * 1200
     \<and> int (unat (width_units r)) * x_resolution s = x_extent s * 1200
     \<and> int (unat (height_units r)) * x_resolution s = y_extent s * 1200
     \<and> 12 dvd unat (x_units r) \<and> unat (x_units r) div 1200 \<le> 255
     \<and> 12 dvd unat (y_units r) \<and> unat (y_units r) div 1200 \<le> 255
     \<and> unat (x_units r) + unat (width_units r) < 2 ^ 32
     \<and> unat (y_units r) + unat (height_units r) < 2 ^ 32"
  by (rule request_iff)

text \<open>
  Once the settings are accepted, what can still refuse the request is what the scanner
  reports: its resolutions, modes, compression and line order, and the size of its bed. The
  alignment, the offsets and the wrap-around cannot.
\<close>

lemma reaches_scanner:
  assumes "to_request s = Inr r"
  shows "(\<exists>b. command r caps = Inr b) \<longleftrightarrow>
     dpi r \<in> set (resolutions caps)
     \<and> bit (mode_mask caps) (mode_code (mode r)) \<and> bit (compression_mask caps) 0
     \<and> (mode r = Rgb \<longrightarrow> unat (line_order caps) \<le> 1)
     \<and> x_position s * 1200 + x_extent s * 1200 \<le> uint (cap_width_units caps) * x_resolution s
     \<and> y_position s * 1200 + y_extent s * 1200
         \<le> min (uint (flatbed_length_units caps)) (uint (cap_length_units caps)) * x_resolution s"
proof -
  let ?d = "x_resolution s"
  have r: "?d \<in> {75, 100, 150, 200, 300, 600}" "int (unat (dpi r)) = ?d"
    "int (unat (x_units r)) * ?d = x_position s * 1200" "int (unat (y_units r)) * ?d = y_position s * 1200"
    "int (unat (width_units r)) * ?d = x_extent s * 1200"
    "int (unat (height_units r)) * ?d = y_extent s * 1200"
    "12 dvd unat (x_units r)" "unat (x_units r) div 1200 \<le> 255"
    "12 dvd unat (y_units r)" "unat (y_units r) div 1200 \<le> 255"
    "0 < x_extent s" "0 < y_extent s"
    using assms by (simp_all only: request_iff)
  have d: "0 < ?d" using r(1) by auto
  have dpi: "dpi r \<in> {75, 100, 150, 200, 300, 600}"
    using r(1,2) by (auto simp: word_uint_eq_iff)
  have fits: "unat u + unat v \<le> unat l \<longleftrightarrow> p * 1200 + q * 1200 \<le> uint l * ?d"
    if "int (unat u) * ?d = p * 1200" "int (unat v) * ?d = q * 1200" for u v l :: u32 and p q
  proof -
    have "unat u + unat v \<le> unat l \<longleftrightarrow> int (unat u) + int (unat v) \<le> int (unat l)" by linarith
    also have "\<dots> \<longleftrightarrow> (int (unat u) + int (unat v)) * ?d \<le> int (unat l) * ?d"
      using d by simp
    finally show ?thesis using that by (simp add: distrib_right)
  qed
  have pos: "0 < unat v" if "int (unat v) * ?d = q * 1200" "0 < q" for v :: u32 and q
  proof -
    have "0 < int (unat v) * ?d" using that by simp
    then show ?thesis using d by (auto simp: zero_less_mult_iff unat_gt_0 word_uint_eq_iff)
  qed
  have "unat u + unat v \<le> min (unat l) (unat k) \<longleftrightarrow>
      p * 1200 + q * 1200 \<le> min (uint l) (uint k) * ?d"
    if "int (unat u) * ?d = p * 1200" "int (unat v) * ?d = q * 1200" for u v l k :: u32 and p q
  proof -
    have "unat l \<le> unat k \<longleftrightarrow> int (unat l) \<le> int (unat k)" by linarith
    then have "unat l \<le> unat k \<longleftrightarrow> uint l \<le> uint k" by simp
    then show ?thesis using fits [OF that, of l] fits [OF that, of k] by (simp add: min_def)
  qed
  then show ?thesis
    unfolding accepts_iff using r dpi pos [OF r(5,11)] pos [OF r(6,12)] fits [OF r(3,5)]
    by simp
qed

definition letter_settings :: flatbed_settings where
  "letter_settings = \<lparr>x_resolution = 150, y_resolution = 150, x_position = 15, y_position = 30,
     x_extent = 150, y_extent = 300, data_type = 2, depth = 8, fs_brightness = 0,
     fs_contrast = 0, compression = 0, format = BMP_FORMAT\<rparr>"

lemma unat_u8_of_int: "0 \<le> x \<Longrightarrow> x \<le> 255 \<Longrightarrow> unat (word_of_int x :: u8) = nat x"
proof -
  assume "0 \<le> x" "x \<le> 255"
  then have "take_bit 8 x = x" by (intro take_bit_int_eq_self) auto
  then show ?thesis by (simp add: unsigned_of_int)
qed

lemma neutral_entry: "tone_entry NEUTRAL i = word_of_int (max 0 (min 255 (int i)))"
proof -
  have "((int i - 128) * 1000 + 128 * 1000 + 500) div 1000 = int i" by simp
  then show ?thesis by (simp add: tone_entry_def NEUTRAL_def)
qed

lemma neutral_entry_u8: "tone_entry NEUTRAL (unat (v :: u8)) = v"
proof -
  have "int (unat v) < 256" using unat_u8_less [of v] by linarith
  then have "max 0 (min 255 (int (unat v))) = int (unat v)" by (simp add: min_def max_def)
  then show ?thesis by (simp only: neutral_entry) simp
qed

text \<open>A band after the lookup, the formula applied to every sample.\<close>

definition toned :: "tone \<Rightarrow> image_band \<Rightarrow> image_band" where
  "toned t band = band\<lparr>pixels := map (\<lambda>v. tone_entry t (unat v)) (pixels band)\<rparr>"

lemma toned_sink_toned: "toned_sink t sk band = sk (toned t band)"
proof (cases "t = NEUTRAL")
  case True
  then have "map (\<lambda>v. tone_entry t (unat v)) (pixels band) = pixels band"
    by (simp add: neutral_entry_u8)
  then show ?thesis using True by (simp add: toned_sink_def tone_adjust_def tone_lut_def toned_def)
next
  case False
  then show ?thesis by (simp add: toned_sink_def tone_adjust_def tone_lut_def toned_def)
qed

lemma toned_simps [simp]:
  "ib_width (toned t b) = ib_width b" "ib_rows (toned t b) = ib_rows b"
  "ib_mode (toned t b) = ib_mode b" "length (pixels (toned t b)) = length (pixels b)"
  by (simp_all add: toned_def)

text \<open>
  Skipping the lookup for neutral settings is an optimisation only: whatever
  the tone, the sink receives the band with every sample put through the formula.
\<close>

theorem toned_sink_applies_formula:
  "toned_sink t sk band = sk (band\<lparr>pixels := map (\<lambda>v. tone_entry t (unat v)) (pixels band)\<rparr>)"
  unfolding toned_def [symmetric] by (rule toned_sink_toned)

text \<open>
  With a contrast that passes validation the lookup keeps the order of the
  tones, and its table has one entry for each of the 256 sample values.
\<close>

theorem tone_is_monotone:
  assumes "tone_validate t = Inr t'" and "a \<le> b"
  shows "unat (tone_entry t a) \<le> unat (tone_entry t b)
    \<and> (\<forall>lut. tone_lut t = Some lut \<longrightarrow> length lut = 256)"
proof -
  let ?v = "\<lambda>i. ((int i - 128) * (contrast t + 1000) + 128 * 1000 + brightness t * 255 + 500) div 1000"
  have "0 \<le> contrast t + 1000" using assms(1) by (auto simp: tone_validate_Inr_iff)
  then have "(int a - 128) * (contrast t + 1000) \<le> (int b - 128) * (contrast t + 1000)"
    using assms(2) by (intro mult_right_mono) auto
  then have "?v a \<le> ?v b" by (intro zdiv_mono1) auto
  moreover have "unat (tone_entry t i) = nat (max 0 (min 255 (?v i)))" for i
    unfolding tone_entry_def Let_def by (rule unat_u8_of_int) auto
  moreover have "nat (max 0 (min 255 x)) \<le> nat (max 0 (min 255 y))" if "x \<le> y" for x y :: int
    using that by (auto simp: min_def max_def)
  ultimately have "unat (tone_entry t a) \<le> unat (tone_entry t b)" by presburger
  then show ?thesis by (auto simp: tone_lut_def)
qed

theorem tone_is_monotone_witness:
  "unat (tone_entry \<lparr>brightness = 100, contrast = - 1000\<rparr> 3)
     \<le> unat (tone_entry \<lparr>brightness = 100, contrast = - 1000\<rparr> 200)"
  using tone_is_monotone [of "\<lparr>brightness = 100, contrast = - 1000\<rparr>" "\<lparr>brightness = 100, contrast = - 1000\<rparr>" 3 200]
  by (simp add: tone_validate_Inr_iff)

end
