(* ===== verification/Transfer_Properties.thy ===== *)
theory Transfer_Properties
  imports Wia_Transfer Scan_Simulation Bmp_Properties Wia_Properties
begin

text \<open>
  The scan, the lookup, the encoder and the callback put together. The invariant \<open>pushed\<close>
  ties the encoder to the bands the job has delivered; it is kept by every operation of
  the recorded environment, so it holds when the job ends, where the guarantees of the job
  and of the encoder meet.
\<close>

section \<open>The encoder follows the scan\<close>

definition pushed ::
    "'o stream \<Rightarrow> tone \<Rightarrow> encoder \<Rightarrow> 'o \<Rightarrow> ('o, 'w) delivery \<times> event list \<Rightarrow> bool" where
  "pushed wr t en st = (\<lambda>(d, log). output_failure d = None \<longrightarrow>
     push_all wr (map (toned t) (accepted_bands log)) en st = (Inr (), enc d, out d))"

lemma push_all_snoc:
  "push_all wr bs en st = (Inr (), en1, st1) \<Longrightarrow> push wr b en1 st1 = (Inr (), en2, st2) \<Longrightarrow>
     push_all wr (bs @ [b]) en st = (Inr (), en2, st2)"
  by (induction bs arbitrary: en st) (auto split: prod.splits sum.splits)

lemma push_Inr_unit: "push wr b en st = (r, x) \<Longrightarrow> (\<exists>er. r = Inl er) \<or> r = Inr ()"
  by (cases r) auto

lemma deliver_succeeds:
  assumes "deliver wr cb rows b d = (r, d')" and "output_failure d' = None"
  shows "output_failure d = None \<and> r = Inr () \<and> push wr b (enc d) (out d) = (Inr (), enc d', out d')"
  using assms
  by (auto simp: deliver_def deliver_result_def Let_def
      split: prod.split_asm sum.split_asm callback_status.split_asm)

abbreviation delivering ::
    "'o stream \<Rightarrow> ('o, 'w) callback \<Rightarrow> nat \<Rightarrow> tone \<Rightarrow> 'w env \<Rightarrow> scan_request \<Rightarrow> ('o, 'w) delivery env" where
  "delivering wr cb rows t e request \<equiv>
     (session_env outside put_outside e (toned_sink t (deliver wr cb rows)))
       \<lparr>prepare := (\<lambda>_ w. (Returned (Inr request), w))\<rparr>"

lemma pushed_outside [simp]:
  "pushed wr t en st (put_outside w d, log) = pushed wr t en st (d, log)"
  by (simp add: pushed_def)

lemma pushed_quiet:
  "accepted_bands [ev] = [] \<Longrightarrow> pushed wr t en st (d, log @ [ev]) = pushed wr t en st (d, log)"
  by (simp add: pushed_def)

lemma keeps_pushed: "keeps (pushed wr t en st) (logged (delivering wr cb rows t e request))"
proof -
  have "pushed wr t en st (d', log @ [Consumed b (Returned r)])"
    if "pushed wr t en st (d, log)" "deliver wr cb rows (toned t b) d = (r, d')" for d d' log b r
    unfolding pushed_def
  proof (clarify)
    assume "output_failure d' = None"
    from deliver_succeeds [OF that(2) this] that(1)
    show "push_all wr (map (toned t) (accepted_bands (log @ [Consumed b (Returned r)]))) en st
        = (Inr (), enc d', out d')"
      by (auto simp: pushed_def intro: push_all_snoc)
  qed
  then show ?thesis
    by (auto simp: keeps_def logged_def session_env_def through_def toned_sink_toned pushed_quiet
        split: prod.splits)
qed

lemma session_scan:
  assumes "scan_in_session fuel (through outside put_outside mt)
      (session_env outside put_outside e (toned_sink t (deliver wr cb rows))) request d
    = Some ((Inr sm, health), d')"
  shows "\<exists>w p log. run_job fuel (logged (delivering wr cb rows t e request)) default_tuning
      (put_outside w d, []) = Some ((Inr sm, health), p, (d', log))"
proof -
  obtain w p where run: "run_job fuel (delivering wr cb rows t e request) default_tuning (put_outside w d)
      = Some ((Inr sm, health), p, d')"
    using assms
    by (auto simp: scan_in_session_def session_env_def through_def
        split: prod.split_asm bool.split_asm sum.split_asm option.split_asm)
  from run_job_logged [of fuel "delivering wr cb rows t e request" default_tuning "put_outside w d" "[]"]
  show ?thesis unfolding run
    by (cases "run_job fuel (logged (delivering wr cb rows t e request)) default_tuning (put_outside w d, [])")
      (auto simp: rel_prod_conv split: prod.splits)
qed

text \<open>What a scan that succeeds leaves in the delivery.\<close>

lemma session_delivers:
  assumes "scan_in_session fuel (through outside put_outside mt)
      (session_env outside put_outside e (toned_sink t (deliver wr cb rows))) request
      \<lparr>outside = w, enc = en, out = st, callback_cancelled = False, output_failure = None\<rparr>
    = Some ((Inr sm, health), d')"
    and "output_failure d' = None"
  shows "health = Ready \<and> (\<exists>bands m lo. bands \<noteq> [] \<and> summarises bands sm
    \<and> (\<forall>b \<in> set bands. band_ok m lo b)
    \<and> push_all wr (map (toned t) bands) en st = (Inr (), enc d', out d'))"
proof -
  let ?d = "\<lparr>outside = w, enc = en, out = st, callback_cancelled = False, output_failure = None\<rparr>"
  obtain w' p log where run: "run_job fuel (logged (delivering wr cb rows t e request)) default_tuning
      (put_outside w' ?d, []) = Some ((Inr sm, health), p, (d', log))"
    using session_scan [OF assms(1)] by blast
  have "pushed wr t en st (put_outside w' ?d, [])" by (simp add: pushed_def)
  from run_job_keeps [OF keeps_pushed run this]
  have push: "push_all wr (map (toned t) (accepted_bands log)) en st = (Inr (), enc d', out d')"
    using assms(2) by (simp add: pushed_def)
  have g: "job_guarantee log (Inr sm) health" by (rule logged_job [OF run])
  then have ne: "accepted_bands log \<noteq> []" "summarises (accepted_bands log) sm" "health = Ready"
    by (auto simp: job_guarantee_def)
  obtain job where job: "case job of
       None \<Rightarrow> accepted_bands log = []
     | Some (raw, w) \<Rightarrow> (\<exists>caps request. parse raw = Inr caps \<and> command request caps = Inr w
         \<and> (\<forall>b \<in> set (accepted_bands log). band_ok (mode request) (line_order caps) b))"
    using g unfolding job_guarantee_def by (elim exE conjE) (rule that)
  have "\<exists>m lo. \<forall>b \<in> set (accepted_bands log). band_ok m lo b"
    using job ne(1) by (cases job) auto
  then show ?thesis using ne push by blast
qed

abbreviation session_run ::
    "nat \<Rightarrow> ('w \<Rightarrow> nat io \<times> 'w) \<Rightarrow> 'w env \<Rightarrow> tone \<Rightarrow> scan_request \<Rightarrow>
     (image_band \<Rightarrow> ('o, 'w) delivery \<Rightarrow> unit io \<times> ('o, 'w) delivery) \<Rightarrow> ('o, 'w) delivery \<Rightarrow>
     ((scan_summary io \<times> session_health) \<times> ('o, 'w) delivery) option" where
  "session_run fuel mt e t request \<equiv>
     (\<lambda>sk. scan_in_session fuel (through outside put_outside mt)
        (session_env outside put_outside e (toned_sink t sk)) request)"

lemma completed_stream:
  assumes "with_stream wr cb cancel rows request (session_run fuel mt e t request) st w
     = Some (health, Inr (Inr (sm, n)), st', w')"
  shows "health = Ready \<and> (\<exists>bands m lo en. bands \<noteq> [] \<and> summarises bands sm
     \<and> (\<forall>b \<in> set bands. band_ok m lo b) \<and> n = snd (progress en)
     \<and> (\<exists>en0 st0 st1. encoder_new wr (dpi request) (mode request) st = (Inr en0, st0)
          \<and> push_all wr (map (toned t) bands) en0 st0 = (Inr (), en, st1)
          \<and> encoder_finish wr sm en st1 = (Inr (), st')))"
proof -
  let ?d = "\<lambda>w en st. \<lparr>outside = w, enc = en, out = st, callback_cancelled = False, output_failure = None\<rparr>"
  obtain en0 st0 w0 d where new: "encoder_new wr (dpi request) (mode request) st = (Inr en0, st0)"
    and scan: "session_run fuel mt e t request (deliver wr cb rows) (?d w0 en0 st0)
        = Some ((Inr sm, health), d)"
    and ok: "output_failure d = None" and n: "n = snd (progress (enc d))"
    and fin: "encoder_finish wr sm (enc d) (out d) = (Inr (), st')"
    using assms
    by (auto simp: with_stream_def after_scan_def Let_def scan_failure_def
        split: prod.split_asm sum.split_asm bool.split_asm if_split_asm option.split_asm)
  from session_delivers [OF scan ok] new n fin show ?thesis by blast
qed

lemma with_stream_not_completed:
  "with_stream wr cb cancel rows request run st w \<noteq> Some (health, Inr (Inl (Completed sm)), x)"
  by (auto simp: with_stream_def after_scan_def scan_failure_def Let_def
      split: prod.split sum.split bool.split option.split)

lemma completed_transfer:
  assumes "transfer_in_session fuel wr cb mt e raw request t rows item full w
     = Some ((Inr (Completed sm), health), w')"
  shows "\<exists>st n st' w1 w2 w3.
     with_stream wr cb (cancel_flag e) rows request (session_run fuel mt e t request) st w1
       = Some (health, Inr (Inr (sm, n)), st', w2)
     \<and> status cb 100 n (release_stream cb st' w2) = (Inr Continue, w3)
     \<and> w' = release_callback cb w3"
proof -
  obtain w0 w1 where t: "transfer wr cb (cancel_flag e) request rows item full
      (session_run fuel mt e t request) w0 = Some ((Inr (Completed sm), health), w1)"
    and w': "w' = release_callback cb w1"
    using assms by (auto simp: transfer_in_session_def split: prod.split_asm sum.split_asm)
  then obtain st n st' w2 w3 where
    ws: "with_stream wr cb (cancel_flag e) rows request (session_run fuel mt e t request) st w2
       = Some (health, n, st', w3)" and a: "after_stream cb n st' w3 = (Inr (Completed sm), w1)"
    by (auto simp: transfer_def split: prod.split_asm sum.split_asm bool.split_asm if_split_asm
        option.split_asm destination.split_asm)
  obtain k where "n = Inr (Inr (sm, k)) \<and> status cb 100 k (release_stream cb st' w3) = (Inr Continue, w1)"
    using a ws
    by (auto simp: with_stream_not_completed after_stream_def Let_def split: prod.split_asm sum.split_asm callback_status.split_asm)
  with ws w' show ?thesis by blast
qed

context byte_stream
begin

lemma finished_transfer:
  assumes "encoder_new wr d m st = (Inr en0, st0)" and "push_all wr bands en0 st0 = (Inr (), en, st1)"
    and "encoder_finish wr sm en st1 = (Inr (), st')"
  shows "read_bmp (contents st') = Some (m, sm_width sm, - int (sm_height sm), concat (map pixels bands))
    \<and> snd (progress en) = length (contents st') \<and> (\<forall>b \<in> set bands. ib_mode b = m)"
proof -
  have "encode wr d m bands sm st = (Inr (), st')" using assms by (simp add: encode_def)
  from encode_contents [OF this] obtain p w where w: "bands \<noteq> []" "contents st' = finished m p w bands"
    "read_bmp (contents st') = Some (m, w, - int (sm_height sm), concat (map pixels bands))"
    "sm_width sm = w" by blast
  obtain p' where "tracks m p' [] en0 (contents st0)" using encoder_new_tracks [OF assms(1)] by blast
  from push_all_tracks [OF assms(2) this] have tr: "tracks m p' bands en (contents st1)" by simp
  then obtain w' where w': "row_stride en = stride_of m w'" "\<forall>b \<in> set bands. valid_band m w' b"
    using w(1) by (auto simp: tracks_def)
  from finish_contents [OF assms(3) tr] w'(2) w(1,4) have "w' = w"
    by (auto simp: valid_band_def neq_Nil_conv)
  have h: "0 < sum_list (map ib_rows bands)"
    using w'(2) w(1) by (cases bands) (auto simp: valid_band_def)
  have len: "length (unfinished m p w bands) = offset_of_mode m + sum_list (map ib_rows bands) * stride_of m w"
    using w'(2) \<open>w' = w\<close> by (intro length_unfinished) simp
  have "54 \<le> length (unfinished m p w bands)"
    unfolding len by (simp add: offset_of_mode_def FILE_HEADER_BYTES_def INFO_HEADER_BYTES_def)
  from finished_fields [OF this] len w(2) have
    "length (contents st') = offset_of_mode m + sum_list (map ib_rows bands) * stride_of m w" by simp
  moreover have "snd (progress en) = offset_of_mode m + sum_list (map ib_rows bands) * stride_of m w"
    using tr w'(1) \<open>w' = w\<close> h by (simp add: progress_def tracks_def del: sum_list_eq_0_iff)
  ultimately show ?thesis using w w'(2) by (auto simp: valid_band_def)
qed

end

section \<open>Properties\<close>


section \<open>A transfer that completes\<close>

text \<open>
  A service that accepts everything, an empty in-memory stream and the scripted scanner.
  The scripted run of the job carries over to the environment of the transfer because the
  two are related: the delivery is a function of the recorded events.
\<close>

definition willing :: "(bytes \<times> nat, 'w) callback" where
  "willing =
     \<lparr>query_interface = (\<lambda>w. ((S_OK, True), w)), alloc_bstr = (\<lambda>s w. (True, w)),
      free_bstr = (\<lambda>s w. w), get_next_stream = (\<lambda>a b w. ((S_OK, Some ([], 0)), w)),
      send_wia_message = (\<lambda>p w. (S_OK, w)), release_stream = (\<lambda>st w. w),
      release_callback = (\<lambda>w. w)\<rparr>"

lemma willing_simps [simp]:
  "query_from_borrowed willing True w = (Inr (), w)"
  "n \<le> 100 \<Longrightarrow> status willing n k w = (Inr Continue, w)"
  "next_stream willing [] [] w = (Inr (Stream ([], 0)), w)"
  "release_stream willing st w = w" "release_callback willing w = w"
  by (simp_all add: willing_def query_from_borrowed_def status_def send_message_def S_OK_def Let_def
      next_stream_def bstring_new_def MAX_BSTR_CODE_UNITS_def from_raw_owned_def)

abbreviation sample_deliver ::
    "image_band \<Rightarrow> (bytes \<times> nat, 'w) delivery \<Rightarrow> unit io \<times> (bytes \<times> nat, 'w) delivery" where
  "sample_deliver b \<equiv> deliver cursor willing 2 (toned NEUTRAL b)"

lemma sample_deliver_outside:
  "sample_deliver b (put_outside w d) = apsnd (put_outside w) (sample_deliver b d)"
  by (simp add: deliver_def deliver_result_def Let_def split: prod.split sum.split)

fun follow :: "event list \<Rightarrow> (bytes \<times> nat, 'w) delivery \<Rightarrow> (bytes \<times> nat, 'w) delivery" where
  "follow [] d = d"
| "follow (Consumed b r # evs) d = follow evs (snd (sample_deliver b d))"
| "follow (Wrote c r # evs) d = follow evs d"
| "follow (Received n r # evs) d = follow evs d"

lemma follow_append [simp]: "follow (xs @ ys) d = follow ys (follow xs d)"
  by (induction xs d rule: follow.induct) auto

abbreviation sample_env :: "(bytes \<times> nat, bytes io list) delivery env" where
  "sample_env \<equiv> delivering cursor willing 2 NEUTRAL (scripted accepting) colour_request"

abbreviation reply_of ::
    "(bytes \<times> nat, bytes io list) delivery \<Rightarrow> event list \<Rightarrow> image_band \<Rightarrow> unit io outcome" where
  "reply_of d log b \<equiv> Returned (fst (sample_deliver b (follow log d)))"

lemma sample_env_related:
  "rel_env (\<lambda>(sc, log) d'. d' = put_outside sc (follow log d)) (answering (reply_of d)) sample_env"
  by (auto simp: rel_env_def rel_fun_def answering_def logged_def scripted_def session_env_def
      through_def toned_sink_toned sample_deliver_outside apsnd_def map_prod_def
      split: prod.splits list.splits)

lemma sample_toned: "valid_band Rgb 2 (toned NEUTRAL sample_image)"
  by (simp add: valid_band_def sample_image_def sample_pixels_def toned_def MAX_INPUT_ROW_BYTES_def)

lemma sample_summarises: "summarises [toned NEUTRAL sample_image] sample_summary"
  by (simp add: summarises_def sample_summary_def) 
    (simp add: sample_image_def sample_pixels_def)

lemma sample_encoded:
  "\<exists>en st en' st' st''. encoder_new cursor 150 Rgb ([], 0) = (Inr en, st)
     \<and> push cursor (toned NEUTRAL sample_image) en st = (Inr (), en', st')
     \<and> encoder_finish cursor sample_summary en' st' = (Inr (), st'')"
proof -
  have "\<exists>f q. encode cursor 150 Rgb [toned NEUTRAL sample_image] sample_summary ([], 0)
      = (Inr (), (f, q))"
    by (rule encode_cursor [where w = 2])
      (use sample_toned sample_summarises in \<open>auto simp: sample_image_def sample_pixels_def\<close>)
  then show ?thesis
    by (simp only: encode_def) (fastforce split: prod.split_asm sum.split_asm)
qed

lemma sample_transfer:
  "\<exists>w. transfer_in_session 1 cursor willing (\<lambda>w. (Inr 65536, w)) (scripted accepting) True
     colour_request NEUTRAL 2 [] [] (sample_script [Inr ack])
   = Some ((Inr (Completed sample_summary), Ready), w)"
proof -
  obtain en st en' st' st'' where new: "encoder_new cursor 150 Rgb ([], 0) = (Inr en, st)"
    and push: "push cursor (toned NEUTRAL sample_image) en st = (Inr (), en', st')"
    and fin: "encoder_finish cursor sample_summary en' st' = (Inr (), st'')"
    using sample_encoded by (elim exE conjE) (rule that)
  let ?d = "\<lparr>outside = sample_script [Inr ack], enc = en, out = st, callback_cancelled = False,
      output_failure = None\<rparr>"
  let ?S = "\<lambda>(sc, log) d'. d' = put_outside sc (follow log ?d)"
  have deliver: "sample_deliver sample_image ?d = (Inr (), ?d\<lparr>enc := en', out := st'\<rparr>)"
    using push by (simp add: deliver_def deliver_result_def Let_def split: prod.split)
  have before: "follow sample_before ?d = ?d" "follow sample_log ?d = ?d\<lparr>enc := en', out := st'\<rparr>"
    using deliver by (simp_all add: sample_log_def sample_prefix_def sample_before_def turn_def)
  then have "reply_of ?d sample_before sample_image = accepting" using deliver by simp
  from answering_run [where f = "reply_of ?d", OF this] obtain p where run: "run_job 1 (answering (reply_of ?d)) default_tuning
      (sample_script [Inr ack], []) = Some ((Inr sample_summary, Ready), p, ([], sample_log))" by blast
  have "rel_option (rel_prod (=) (rel_prod (=) ?S))
      (run_job 1 (answering (reply_of ?d)) default_tuning (sample_script [Inr ack], []))
      (run_job 1 sample_env default_tuning ?d)"
    by (rule run_job_rel [THEN rel_fun4D]) (auto intro: sample_env_related)
  then have "run_job 1 sample_env default_tuning ?d
      = Some ((Inr sample_summary, Ready), p, put_outside [] (?d\<lparr>enc := en', out := st'\<rparr>))"
    unfolding run using before(2)
    by (cases "run_job 1 sample_env default_tuning ?d") (auto simp: rel_prod_conv split: prod.splits)
  then have scan: "session_run 1 (\<lambda>w. (Inr 65536, w)) (scripted accepting) NEUTRAL colour_request
      (deliver cursor willing 2) ?d
    = Some ((Inr sample_summary, Ready), put_outside [] (?d\<lparr>enc := en', out := st'\<rparr>))"
    by (simp add: scan_in_session_def session_env_def through_def scripted_def record_read_buffer_limit_def
        validate_read_buffer_limit_def default_tuning_def Let_def)
  have req: "dpi colour_request = 150" "mode colour_request = Rgb"
    by (simp_all add: colour_request_def sample_request_def)
  show ?thesis
    using new fin scan req
    by (simp add: transfer_in_session_def transfer_def with_stream_def after_scan_def after_stream_def
        scripted_def Let_def split: prod.split)
qed


lemma after_scan_ready:
  assumes "after_scan wr cancel summary health d = (Inr oc, x)"
    and "\<And>sm. summary = Inr sm \<Longrightarrow> output_failure d = None \<Longrightarrow> health = Ready"
  shows "health = Ready"
  using assms
  by (auto simp: after_scan_def scan_failure_def split: sum.split_asm option.split_asm if_split_asm)

lemma with_stream_ready:
  assumes "with_stream wr cb cancel rows request (session_run fuel mt e t request) st w
     = Some (health, Inr oc, x)"
  shows "health = Ready"
proof (cases "health")
  case NeedsReconnect
  then obtain w0 en0 st0 summary d where
    scan: "session_run fuel mt e t request (deliver wr cb rows)
        \<lparr>outside = w0, enc = en0, out = st0, callback_cancelled = False, output_failure = None\<rparr>
      = Some ((summary, health), d)" and a: "after_scan wr cancel summary health d = (Inr oc, x)"
    using assms
    by (auto simp: with_stream_def
        split: prod.split_asm sum.split_asm bool.split_asm if_split_asm option.split_asm)
  show ?thesis
  proof (rule after_scan_ready [OF a])
    fix sm
    assume "summary = Inr sm" "output_failure d = None"
    with session_delivers [of fuel mt e t wr cb rows request w0 en0 st0 sm health d] scan
    show "health = Ready" by simp
  qed
qed

text \<open>
  Whenever a transfer ends without an error, completed, cancelled or skipped,
  the session can be used again, whatever the scanner, the stream and the service did.
\<close>

theorem outcomes_leave_the_session_ready:
  assumes "transfer_in_session fuel wr cb mt e raw request t rows item full w
      = Some ((Inr oc, health), w')"
  shows "health = Ready"
proof -
  obtain w0 w1 where tr: "transfer wr cb (cancel_flag e) request rows item full
      (session_run fuel mt e t request) w0 = Some ((Inr oc, health), w1)"
    using assms by (auto simp: transfer_in_session_def split: prod.split_asm sum.split_asm)
  have "health = Ready \<or> (\<exists>st w2 r x. with_stream wr cb (cancel_flag e) rows request
      (session_run fuel mt e t request) st w2 = Some (health, Inr r, x))"
    using tr
    by (auto simp: transfer_def after_stream_def Let_def split: prod.split_asm sum.split_asm
        bool.split_asm if_split_asm option.split_asm destination.split_asm callback_status.split_asm)
  then show ?thesis by (auto dest: with_stream_ready)
qed

theorem outcomes_leave_the_session_ready_witness:
  "\<exists>w health. transfer_in_session 1 cursor willing (\<lambda>w. (Inr 65536, w)) (scripted accepting) True
       colour_request NEUTRAL 2 [] [] (sample_script [Inr ack])
     = Some ((Inr (Completed sample_summary), health), w) \<and> health = Ready"
  using sample_transfer outcomes_leave_the_session_ready by blast

end
