(* ===== verification/Session_Slot.thy ===== *)
theory Session_Slot
  imports Prelude
begin

text \<open>
  The session slot of \<open>src/com_server/session.rs\<close>: exclusive ownership of the USB session
  across callbacks. Every critical section of the mutex is one function on the
  connection; the code between two critical sections (opening, dropping or using the
  resource) runs without the mutex, so calls of several threads interleave there. The
  step relation \<open>slot_step\<close> has one step per critical section, for any number of threads.
\<close>

section \<open>Critical sections\<close>

datatype access_error = Busy | NotLocked | IsQuarantined | OpenFailed io_error

datatype 'r connection = Unlocked | Opening | Closing | Locked 'r | InUse | Quarantined

datatype slot_status = StatusUnlocked | StatusBusy | StatusLocked | StatusQuarantined

definition slot_new :: "'r connection" where
  "slot_new = Unlocked"

fun status_of :: "'r connection \<Rightarrow> slot_status" where
  "status_of Unlocked = StatusUnlocked"
| "status_of Opening = StatusBusy"
| "status_of Closing = StatusBusy"
| "status_of InUse = StatusBusy"
| "status_of (Locked r) = StatusLocked"
| "status_of Quarantined = StatusQuarantined"

text \<open>\<open>open\<close>: the entry, then publication or, when opening fails or panics, the rollback.\<close>

definition open_entry :: "'r connection \<Rightarrow> (access_error + unit) \<times> 'r connection" where
  "open_entry c = (case c of
     Unlocked \<Rightarrow> (Inr (), Opening)
   | Quarantined \<Rightarrow> (Inl IsQuarantined, c)
   | _ \<Rightarrow> (Inl Busy, c))"

definition open_exit ::
    "'r io outcome \<Rightarrow> 'r connection \<Rightarrow> (access_error + unit) outcome \<times> 'r connection" where
  "open_exit result c = (case result of
     Returned (Inr r) \<Rightarrow> (Returned (Inr ()), Locked r)
   | Returned (Inl er) \<Rightarrow> (Returned (Inl (OpenFailed er)), Unlocked)
   | Panicked \<Rightarrow> (Panicked, Unlocked))"

text \<open>Entry of the two operations that need a locked slot; \<open>busy\<close> is the state they leave.\<close>

definition take_locked :: "'r connection \<Rightarrow> 'r connection \<Rightarrow> (access_error + 'r) \<times> 'r connection" where
  "take_locked busy c = (case c of
     Unlocked \<Rightarrow> (Inl NotLocked, c)
   | Opening \<Rightarrow> (Inl Busy, c)
   | Closing \<Rightarrow> (Inl Busy, c)
   | InUse \<Rightarrow> (Inl Busy, c)
   | Quarantined \<Rightarrow> (Inl IsQuarantined, c)
   | Locked r \<Rightarrow> (Inr r, busy))"

definition unlock_entry :: "'r connection \<Rightarrow> (access_error + 'r) \<times> 'r connection" where
  "unlock_entry = take_locked Closing"

text \<open>The resource has been dropped, or its destructor panicked.\<close>

definition unlock_exit :: "unit outcome \<Rightarrow> 'r connection \<Rightarrow> unit outcome \<times> 'r connection" where
  "unlock_exit dropped c = (case dropped of
     Returned _ \<Rightarrow> (Returned (), Unlocked) | Panicked \<Rightarrow> (Panicked, Quarantined))"

definition session_entry :: "'r connection \<Rightarrow> (access_error + 'r) \<times> 'r connection" where
  "session_entry = take_locked InUse"

text \<open>
  The drop of the lease: a reusable resource goes back to the slot, otherwise it is
  dropped after the slot is quarantined. \<open>reusable\<close> is still false when the operation
  panicked.
\<close>

definition lease_drop :: "bool \<Rightarrow> 'r \<Rightarrow> 'r connection \<Rightarrow> 'r option \<times> 'r connection" where
  "lease_drop reusable r c = (if reusable then (None, Locked r) else (Some r, Quarantined))"

section \<open>Whole calls\<close>

text \<open>
  A call whose external part is a function of a world \<open>'w\<close> and does not meet other calls:
  the result, the connection and the world afterwards. \<open>drop_resource\<close> is the destructor.
\<close>

definition slot_open ::
    "('w \<Rightarrow> 'r io outcome \<times> 'w) \<Rightarrow> 'r connection \<times> 'w \<Rightarrow>
     (access_error + unit) outcome \<times> 'r connection \<times> 'w" where
  "slot_open open_resource = (\<lambda>(c, w).
     case open_entry c of
       (Inl er, c) \<Rightarrow> (Returned (Inl er), c, w)
     | (Inr _, c) \<Rightarrow>
         (case open_resource w of (result, w) \<Rightarrow>
            (case open_exit result c of (a, c) \<Rightarrow> (a, c, w))))"

definition slot_unlock ::
    "('r \<Rightarrow> 'w \<Rightarrow> unit outcome \<times> 'w) \<Rightarrow> 'r connection \<times> 'w \<Rightarrow>
     (access_error + unit) outcome \<times> 'r connection \<times> 'w" where
  "slot_unlock drop_resource = (\<lambda>(c, w).
     case unlock_entry c of
       (Inl er, c) \<Rightarrow> (Returned (Inl er), c, w)
     | (Inr r, c) \<Rightarrow>
         (case drop_resource r w of (dropped, w) \<Rightarrow>
            (case unlock_exit dropped c of
               (Returned _, c) \<Rightarrow> (Returned (Inr ()), c, w)
             | (Panicked, c) \<Rightarrow> (Panicked, c, w))))"

definition with_session ::
    "('r \<Rightarrow> 'w \<Rightarrow> unit outcome \<times> 'w) \<Rightarrow> ('r \<Rightarrow> 'w \<Rightarrow> ('a \<times> bool) outcome \<times> 'r \<times> 'w) \<Rightarrow>
     'r connection \<times> 'w \<Rightarrow> (access_error + 'a) outcome \<times> 'r connection \<times> 'w" where
  "with_session drop_resource operation = (\<lambda>(c, w).
     case session_entry c of
       (Inl er, c) \<Rightarrow> (Returned (Inl er), c, w)
     | (Inr r, c) \<Rightarrow>
         (case operation r w of (result, r, w) \<Rightarrow>
            (let reusable = (case result of Returned (_, b) \<Rightarrow> b | Panicked \<Rightarrow> False);
                 (failed, c) = lease_drop reusable r c;
                 (dropped, w) = (case failed of
                     None \<Rightarrow> (Returned (), w) | Some r \<Rightarrow> drop_resource r w)
             in (case (result, dropped) of
                   (Returned (a, _), Returned _) \<Rightarrow> Returned (Inr a) | _ \<Rightarrow> Panicked, c, w))))"

section \<open>Interleaved calls\<close>

text \<open>Where a thread is: outside, or between the two critical sections of a call.\<close>

datatype 'r place = Outside | InOpen | InUnlock 'r | InSession 'r

type_synonym ('t, 'r) slot_state = "'r connection \<times> ('t \<Rightarrow> 'r place)"

inductive slot_step :: "('t, 'r) slot_state \<Rightarrow> ('t, 'r) slot_state \<Rightarrow> bool" where
  enter_open: "p t = Outside \<Longrightarrow> open_entry c = (Inr (), c') \<Longrightarrow> slot_step (c, p) (c', p(t := InOpen))"
| leave_open: "p t = InOpen \<Longrightarrow> open_exit result c = (a, c') \<Longrightarrow>
    slot_step (c, p) (c', p(t := Outside))"
| refused_open: "p t = Outside \<Longrightarrow> open_entry c = (Inl er, c') \<Longrightarrow> slot_step (c, p) (c', p)"
| enter_unlock: "p t = Outside \<Longrightarrow> unlock_entry c = (Inr r, c') \<Longrightarrow>
    slot_step (c, p) (c', p(t := InUnlock r))"
| leave_unlock: "p t = InUnlock r \<Longrightarrow> unlock_exit dropped c = (a, c') \<Longrightarrow>
    slot_step (c, p) (c', p(t := Outside))"
| refused_unlock: "p t = Outside \<Longrightarrow> unlock_entry c = (Inl er, c') \<Longrightarrow> slot_step (c, p) (c', p)"
| enter_session: "p t = Outside \<Longrightarrow> session_entry c = (Inr r, c') \<Longrightarrow>
    slot_step (c, p) (c', p(t := InSession r))"
| use_session: "p t = InSession r \<Longrightarrow> slot_step (c, p) (c, p(t := InSession r'))"
| leave_session: "p t = InSession r \<Longrightarrow> lease_drop reusable r c = (failed, c') \<Longrightarrow>
    slot_step (c, p) (c', p(t := Outside))"
| refused_session: "p t = Outside \<Longrightarrow> session_entry c = (Inl er, c') \<Longrightarrow> slot_step (c, p) (c', p)"

inductive_cases slot_stepE: "slot_step (c, p) s"
inductive_simps quarantined_step: "slot_step (Quarantined, p) (c', p')"

lemmas slot_section_defs =
  open_entry_def open_exit_def unlock_entry_def unlock_exit_def session_entry_def lease_drop_def
  take_locked_def

definition slot_start :: "('t, 'r) slot_state" where
  "slot_start = (slot_new, \<lambda>t. Outside)"

definition slot_reachable :: "('t, 'r) slot_state \<Rightarrow> bool" where
  "slot_reachable s \<longleftrightarrow> slot_step\<^sup>*\<^sup>* slot_start s"

section \<open>Ownership\<close>

text \<open>Who is inside, given the connection: at most one thread, and it holds the resource.\<close>

fun holder :: "'r connection \<Rightarrow> 'r place \<Rightarrow> bool" where
  "holder Opening x = (x = InOpen)"
| "holder Closing x = (\<exists>r. x = InUnlock r)"
| "holder InUse x = (\<exists>r. x = InSession r)"
| "holder c x = False"

definition owned :: "('t, 'r) slot_state \<Rightarrow> bool" where
  "owned = (\<lambda>(c, p).
     if status_of c = StatusBusy then \<exists>t. holder c (p t) \<and> (\<forall>u. u \<noteq> t \<longrightarrow> p u = Outside)
     else \<forall>t. p t = Outside)"

lemma owned_free: "status_of c \<noteq> StatusBusy \<Longrightarrow> owned (c, p) = (\<forall>t. p t = Outside)"
  by (simp add: owned_def)

lemma owned_busy:
  "owned (c, p) \<Longrightarrow> p t \<noteq> Outside \<Longrightarrow>
     status_of c = StatusBusy \<and> holder c (p t) \<and> (\<forall>u. u \<noteq> t \<longrightarrow> p u = Outside)"
proof -
  assume o: "owned (c, p)" and t: "p t \<noteq> Outside"
  then have busy: "status_of c = StatusBusy" by (auto simp: owned_def split: if_splits)
  then obtain u where u: "holder c (p u)" "\<forall>v. v \<noteq> u \<longrightarrow> p v = Outside"
    using o by (auto simp: owned_def)
  have "u = t" using u(2) t by metis
  with busy u show ?thesis by blast
qed

lemma section_cases:
  "open_entry c = (Inr u, c') \<longleftrightarrow> c = Unlocked \<and> c' = Opening"
  "open_entry c = (Inl er, c') \<longleftrightarrow> c \<noteq> Unlocked \<and> c' = c \<and> er = (if c = Quarantined then IsQuarantined else Busy)"
  "take_locked b c = (Inr r, c') \<longleftrightarrow> c = Locked r \<and> c' = b"
  by (cases c; auto simp: slot_section_defs)+

lemma refused_cases:
  "take_locked b c = (Inl er, c') \<longleftrightarrow> (\<forall>r. c \<noteq> Locked r) \<and> c' = c
     \<and> er = (case c of Unlocked \<Rightarrow> NotLocked | Quarantined \<Rightarrow> IsQuarantined | _ \<Rightarrow> Busy)"
  by (cases c) (auto simp: take_locked_def)

lemma exit_cases:
  "open_exit result c = (a, c') \<Longrightarrow> status_of c' \<noteq> StatusBusy"
  "unlock_exit dropped c = (a', c') \<Longrightarrow> status_of c' \<noteq> StatusBusy"
  "lease_drop reusable r c = (failed, c') \<Longrightarrow> status_of c' \<noteq> StatusBusy"
  by (auto simp: open_exit_def unlock_exit_def lease_drop_def split: outcome.splits sum.splits if_splits)

lemma enter_owned: "\<forall>u. p u = Outside \<Longrightarrow> status_of c = StatusBusy \<Longrightarrow> holder c x \<Longrightarrow> owned (c, p(t := x))"
  by (auto simp: owned_def intro!: exI [of _ t])

lemma leave_owned:
  "owned (c, p) \<Longrightarrow> p t \<noteq> Outside \<Longrightarrow> status_of c' \<noteq> StatusBusy \<Longrightarrow> owned (c', p(t := Outside))"
  using owned_busy [of c p t] by (auto simp: owned_free)

lemma slot_step_owned: "slot_step s s' \<Longrightarrow> owned s \<Longrightarrow> owned s'"
proof (induction rule: slot_step.induct)
  case (use_session p t r c r')
  then have h: "status_of c = StatusBusy" "holder c (p t)" "\<forall>u. u \<noteq> t \<longrightarrow> p u = Outside"
    using owned_busy [of c p t] by auto
  then have "holder c (InSession r')" using use_session by (cases c) auto
  with h show ?case by (auto simp: owned_def intro!: exI [of _ t])
next
  case (leave_open p t result c a c')
  then show ?case using leave_owned [of c p t c'] exit_cases(1) [OF leave_open(2)] leave_open by simp
next
  case (leave_unlock p t r dropped c a c')
  then show ?case using leave_owned [of c p t c'] exit_cases(2) [OF leave_unlock(2)] leave_unlock by simp
next
  case (leave_session p t r reusable c failed c')
  then show ?case using leave_owned [of c p t c'] exit_cases(3) [OF leave_session(2)] leave_session by simp
qed (auto simp: section_cases unlock_entry_def session_entry_def refused_cases owned_free
    intro!: enter_owned)

lemma slot_reachable_owned: "slot_reachable s \<Longrightarrow> owned s"
proof -
  have "slot_step\<^sup>*\<^sup>* slot_start s \<Longrightarrow> owned s"
    by (induction rule: rtranclp_induct)
      (auto simp: slot_start_def slot_new_def owned_free intro: slot_step_owned)
  then show "slot_reachable s \<Longrightarrow> owned s" by (simp add: slot_reachable_def)
qed

section \<open>Whole calls as runs\<close>

lemma enter_and_leave:
  assumes "p t = Outside" and "slot_step (c, p) (c1, p(t := x))"
    and "slot_step (c1, p(t := x)) (c2, p(t := x, t := Outside))"
  shows "slot_step\<^sup>*\<^sup>* (c, p) (c2, p)"
proof -
  have "p(t := x, t := Outside) = p" using assms(1) by auto
  with assms(2,3) show ?thesis by (metis converse_rtranclp_into_rtranclp r_into_rtranclp)
qed

lemma slot_open_run:
  assumes "p t = Outside" and "slot_open f (c, w) = (a, c', w')"
  shows "slot_step\<^sup>*\<^sup>* (c, p) (c', p)"
proof (cases "c = Unlocked")
  case True
  then obtain result y where x: "open_exit result Opening = (y, c')"
    using assms(2) by (auto simp: slot_open_def open_entry_def split: prod.splits)
  have "slot_step (c, p) (Opening, p(t := InOpen))"
    using True assms(1) by (auto simp: section_cases intro: enter_open)
  moreover have "slot_step (Opening, p(t := InOpen)) (c', p(t := InOpen, t := Outside))"
    using x by (intro leave_open) auto
  ultimately show ?thesis by (rule enter_and_leave [where p = p and t = t, OF assms(1)])
next
  case False
  then have "c' = c" using assms(2) by (cases c) (auto simp: slot_open_def open_entry_def)
  then show ?thesis by simp
qed

lemma slot_unlock_run:
  assumes "p t = Outside" and "slot_unlock d (c, w) = (a, c', w')"
  shows "slot_step\<^sup>*\<^sup>* (c, p) (c', p)"
proof (cases "\<exists>r. c = Locked r")
  case True
  then obtain r where c: "c = Locked r" by blast
  then obtain dropped y where x: "unlock_exit dropped Closing = (y, c')"
    using assms(2) by (auto simp: slot_unlock_def unlock_entry_def take_locked_def
        split: prod.splits outcome.splits)
  have "slot_step (c, p) (Closing, p(t := InUnlock r))"
    using c assms(1) by (auto simp: unlock_entry_def section_cases intro: enter_unlock)
  moreover have "slot_step (Closing, p(t := InUnlock r)) (c', p(t := InUnlock r, t := Outside))"
    using x by (intro leave_unlock [of _ _ r]) auto
  ultimately show ?thesis by (rule enter_and_leave [where p = p and t = t, OF assms(1)])
next
  case False
  then have "c' = c" using assms(2)
    by (cases c) (auto simp: slot_unlock_def unlock_entry_def take_locked_def)
  then show ?thesis by simp
qed

lemma with_session_run:
  assumes "p t = Outside" and "with_session d g (c, w) = (a, c', w')"
  shows "slot_step\<^sup>*\<^sup>* (c, p) (c', p)"
proof (cases "\<exists>r. c = Locked r")
  case True
  then obtain r where c: "c = Locked r" by blast
  then obtain r' b failed where x: "lease_drop b r' InUse = (failed, c')"
    using assms(2) by (auto simp: with_session_def session_entry_def take_locked_def Let_def
        split: prod.splits)
  have "slot_step (c, p) (InUse, p(t := InSession r))"
    using c assms(1) by (auto simp: session_entry_def section_cases intro: enter_session)
  also have "slot_step\<^sup>*\<^sup>* (InUse, p(t := InSession r)) (c', p)"
  proof -
    have "slot_step (InUse, p(t := InSession r)) (InUse, p(t := InSession r, t := InSession r'))"
      by (rule use_session) simp
    moreover have "slot_step (InUse, p(t := InSession r, t := InSession r'))
        (c', p(t := InSession r, t := InSession r', t := Outside))"
      using x by (intro leave_session) auto
    moreover have "p(t := InSession r, t := InSession r', t := Outside) = p" using assms(1) by auto
    ultimately show ?thesis by (metis converse_rtranclp_into_rtranclp r_into_rtranclp)
  qed
  finally (converse_rtranclp_into_rtranclp) show ?thesis .
next
  case False
  then have "c' = c" using assms(2)
    by (cases c) (auto simp: with_session_def session_entry_def take_locked_def)
  then show ?thesis by simp
qed

section \<open>A run with two threads\<close>

abbreviation nobody :: "nat \<Rightarrow> nat place" where
  "nobody \<equiv> \<lambda>t. Outside"

lemma opening_reachable: "slot_reachable (Opening, nobody(0 := InOpen))"
  by (auto simp: slot_reachable_def slot_start_def slot_new_def section_cases
      intro!: r_into_rtranclp enter_open)

lemma quarantined_reachable: "slot_reachable (Quarantined, nobody)"
proof -
  have "slot_step\<^sup>*\<^sup>* (Unlocked, nobody) (Locked 7, nobody)"
    by (rule slot_open_run [where t = 0 and f = "\<lambda>w :: unit. (Returned (Inr 7), w)" and w = "()"])
      (simp_all add: slot_open_def open_entry_def open_exit_def)
  also have "slot_step\<^sup>*\<^sup>* (Locked 7, nobody) (Quarantined, nobody)"
    by (rule with_session_run [where t = 1 and w = "()" and d = "\<lambda>r w. (Returned (), w)"
          and g = "\<lambda>r w. (Returned (3 :: nat, False), r, w)"])
      (simp_all add: with_session_def session_entry_def take_locked_def lease_drop_def Let_def)
  finally show ?thesis by (simp add: slot_reachable_def slot_start_def slot_new_def)
qed

section \<open>Properties\<close>



text \<open>
  A quarantined slot stays quarantined. In a reachable state nothing that any
  thread does changes it, and every operation answers that it is quarantined without
  touching the session.
\<close>

theorem quarantine_is_permanent:
  assumes "slot_reachable (Quarantined, p)" and "slot_step\<^sup>*\<^sup>* (Quarantined, p) s"
  shows "s = (Quarantined, p) \<and> open_entry (fst s) = (Inl IsQuarantined, Quarantined)
    \<and> unlock_entry (fst s) = (Inl IsQuarantined, Quarantined)
    \<and> session_entry (fst s) = (Inl IsQuarantined, Quarantined)"
proof -
  have free: "\<forall>t. p t = Outside"
    using slot_reachable_owned [OF assms(1)] by (simp add: owned_free)
  from assms(2) have "s = (Quarantined, p)"
  proof (induction rule: rtranclp_induct)
    case (step s s')
    from step(2) [unfolded step(3)] free show ?case
      by (auto elim!: slot_stepE simp: slot_section_defs)
  qed simp
  then show ?thesis by (simp add: slot_section_defs)
qed

theorem quarantine_is_permanent_witness:
  "session_entry (Quarantined :: nat connection) = (Inl IsQuarantined, Quarantined)"
  using quarantine_is_permanent [OF quarantined_reachable rtranclp.rtrancl_refl] by simp

text \<open>
  The slot does not deadlock. Whenever it is busy, exactly one thread is
  inside, and whichever way its external code ends, by success, error or panic, its next
  step leaves the slot free: unlocked, locked or quarantined.
\<close>

theorem busy_slot_is_released:
  assumes "slot_reachable (c, p)" and "status_of c = StatusBusy"
  shows "\<exists>t. p t \<noteq> Outside
    \<and> (\<forall>result. p t = InOpen \<longrightarrow>
         slot_step (c, p) (snd (open_exit result c), p(t := Outside))
         \<and> status_of (snd (open_exit result c)) \<noteq> StatusBusy)
    \<and> (\<forall>r dropped. p t = InUnlock r \<longrightarrow>
         slot_step (c, p) (snd (unlock_exit dropped c), p(t := Outside))
         \<and> status_of (snd (unlock_exit dropped c)) \<noteq> StatusBusy)
    \<and> (\<forall>r reusable. p t = InSession r \<longrightarrow>
         slot_step (c, p) (snd (lease_drop reusable r c), p(t := Outside))
         \<and> status_of (snd (lease_drop reusable r c)) \<noteq> StatusBusy)"
proof -
  obtain t where "holder c (p t)"
    using slot_reachable_owned [OF assms(1)] assms(2) by (auto simp: owned_def)
  then have "p t \<noteq> Outside" by (cases c) auto
  then show ?thesis
    by (intro exI [of _ t])
      (auto intro: leave_open [OF _ prod.collapse [symmetric]]
        leave_unlock [OF _ prod.collapse [symmetric]] leave_session [OF _ prod.collapse [symmetric]]
        simp: exit_cases [OF prod.collapse [symmetric]])
qed

theorem busy_slot_is_released_witness:
  "\<exists>t. slot_step (Opening, nobody(0 := InOpen)) (Unlocked, (nobody(0 := InOpen))(t := Outside))"
proof -
  obtain t where t: "(nobody(0 := InOpen)) t \<noteq> Outside"
    and ends: "\<forall>result. (nobody(0 := InOpen)) t = InOpen \<longrightarrow>
      slot_step (Opening, nobody(0 := InOpen))
        (snd (open_exit result Opening), (nobody(0 := InOpen))(t := Outside))
      \<and> status_of (snd (open_exit result (Opening :: nat connection))) \<noteq> StatusBusy"
    using busy_slot_is_released [OF opening_reachable] by auto
  from t have "(nobody(0 := InOpen)) t = InOpen" by (simp split: if_splits)
  with ends [rule_format, of Panicked] show ?thesis by (auto simp: open_exit_def)
qed

text \<open>
  The whole calls are runs of the step relation. A call of a thread that is
  outside, started in any state of the slot, is the entry, the external code and the exit,
  or a refusal; no other store happens, and the thread is outside again.
\<close>

theorem calls_are_runs:
  assumes "p t = Outside"
  shows "(slot_open f (c, w) = (a, c', w') \<longrightarrow> slot_step\<^sup>*\<^sup>* (c, p) (c', p))
    \<and> (slot_unlock d (c, w) = (b, c', w') \<longrightarrow> slot_step\<^sup>*\<^sup>* (c, p) (c', p))
    \<and> (with_session d g (c, w) = (x, c', w') \<longrightarrow> slot_step\<^sup>*\<^sup>* (c, p) (c', p))"
  by (intro conjI impI;
      erule slot_open_run [where p = p and t = t, OF assms]
        slot_unlock_run [where p = p and t = t, OF assms]
        with_session_run [where p = p and t = t, OF assms])

theorem calls_are_runs_witness:
  "slot_step\<^sup>*\<^sup>* (Unlocked, nobody) (Locked 7, nobody)"
proof -
  have "slot_open (\<lambda>w :: unit. (Returned (Inr (7 :: nat)), w)) (Unlocked, ())
      = (Returned (Inr ()), Locked 7, ())"
    by (simp add: slot_open_def open_entry_def open_exit_def)
  from calls_are_runs [where p = nobody and t = 0, THEN conjunct1, THEN mp, OF _ this]
  show ?thesis by simp
qed

end
