(* ===== verification/Wia_Constants.thy ===== *)
theory Wia_Constants
  imports Wia_Settings Wia_Callback
begin

unbundle bit_operations_syntax

text \<open>
  The numbers of the WIA interface that the driver uses, from the head of
  \<open>src/com_server/minidrv/properties/catalog.rs\<close>, GUIDs, and Rust strings as far as the
  driver looks into them. Property identifiers and flags are natural numbers (they are
  compared and combined bitwise only); values of properties are \<open>i32\<close>s, kept as integers.
\<close>

section \<open>Results and GUIDs\<close>

definition E_UNEXPECTED :: int where "E_UNEXPECTED = as_i32 0x8000FFFF"

text \<open>A result of the minidriver: an \<open>HRESULT\<close> on the left.\<close>

type_synonym 'a hr = "int + 'a"

record guid =
  data1 :: u32
  data2 :: u16
  data3 :: u16
  data4 :: bytes

definition guid_from_bytes :: "bytes \<Rightarrow> guid" where
  "guid_from_bytes bs = \<lparr>data1 = word_of_nat (le_nat (subslice 0 4 bs)),
     data2 = word_of_nat (le_nat (subslice 4 6 bs)),
     data3 = word_of_nat (le_nat (subslice 6 8 bs)), data4 = subslice 8 16 bs\<rparr>"

definition guid_bytes :: "guid \<Rightarrow> bytes" where
  "guid_bytes g = le_bytes 4 (unat (data1 g)) @ le_bytes 2 (unat (data2 g))
     @ le_bytes 2 (unat (data3 g)) @ data4 g"

definition WIA_CATEGORY_ROOT :: guid where
  "WIA_CATEGORY_ROOT = \<lparr>data1 = 0xf193526f, data2 = 0x59b8, data3 = 0x4a26,
     data4 = [0x98, 0x88, 0xe1, 0x6e, 0x4f, 0x97, 0xce, 0x10]\<rparr>"

definition WIA_CATEGORY_FLATBED :: guid where
  "WIA_CATEGORY_FLATBED = \<lparr>data1 = 0xfb607b1f, data2 = 0x43f3, data3 = 0x488b,
     data4 = [0x85, 0x5b, 0xfb, 0x70, 0x3e, 0xc3, 0x42, 0xa6]\<rparr>"

section \<open>Strings\<close>

text \<open>
  A Rust string of arbitrary text is the list of its Unicode scalar values; its UTF-16 code
  units and the length of its UTF-8 encoding are computed from them.
\<close>

type_synonym scalars = "nat list"

definition utf16_units :: "nat \<Rightarrow> nat list" where
  "utf16_units c = (if c < 0x10000 then [c]
     else [0xD800 + (c - 0x10000) div 0x400, 0xDC00 + (c - 0x10000) mod 0x400])"

definition encode_utf16 :: "scalars \<Rightarrow> nat list" where
  "encode_utf16 s = concat (map utf16_units s)"

text \<open>\<open>String::from_utf16\<close>: an unpaired surrogate is an error.\<close>

fun decode_utf16 :: "nat list \<Rightarrow> scalars option" where
  "decode_utf16 [] = Some []"
| "decode_utf16 (u # us) =
     (if u < 0xD800 \<or> 0xDFFF < u then map_option ((#) u) (decode_utf16 us)
      else if u < 0xDC00 then
        (case us of
           v # vs \<Rightarrow>
             if 0xDC00 \<le> v \<and> v \<le> 0xDFFF
             then map_option ((#) (0x10000 + (u - 0xD800) * 0x400 + (v - 0xDC00))) (decode_utf16 vs)
             else None
         | [] \<Rightarrow> None)
      else None)"

definition ascii_lower :: "nat \<Rightarrow> nat" where
  "ascii_lower c = (if 65 \<le> c \<and> c \<le> 90 then c + 32 else c)"

definition utf8_length :: "scalars \<Rightarrow> nat" where
  "utf8_length s = sum_list (map (\<lambda>c. if c < 0x80 then 1 else if c < 0x800 then 2
     else if c < 0x10000 then 3 else 4) s)"

section \<open>Property identifiers and values\<close>

definition VT_I4 :: nat where "VT_I4 = 3"
definition VT_BSTR :: nat where "VT_BSTR = 8"
definition VT_CLSID :: nat where "VT_CLSID = 72"
definition WIA_PROP_READ :: nat where "WIA_PROP_READ = 0x01"
definition WIA_PROP_WRITE :: nat where "WIA_PROP_WRITE = 0x02"
definition WIA_PROP_RW :: nat where "WIA_PROP_RW = WIA_PROP_READ OR WIA_PROP_WRITE"
definition WIA_PROP_NONE :: nat where "WIA_PROP_NONE = 0x08"
definition WIA_PROP_RANGE :: nat where "WIA_PROP_RANGE = 0x10"
definition WIA_PROP_LIST :: nat where "WIA_PROP_LIST = 0x20"
definition WIA_PROP_FLAG :: nat where "WIA_PROP_FLAG = 0x40"
definition WIA_PROP_CACHEABLE :: nat where "WIA_PROP_CACHEABLE = 0x10000"
definition WIA_ITEM_READ :: int where "WIA_ITEM_READ = 0x01"
definition WIA_DPS_DOCUMENT_HANDLING_CAPABILITIES :: nat where
  "WIA_DPS_DOCUMENT_HANDLING_CAPABILITIES = 3086"
definition WIA_DPS_DOCUMENT_HANDLING_STATUS :: nat where "WIA_DPS_DOCUMENT_HANDLING_STATUS = 3087"
definition WIA_DPS_DOCUMENT_HANDLING_SELECT :: nat where "WIA_DPS_DOCUMENT_HANDLING_SELECT = 3088"
definition WIA_SHOW_PREVIEW_CONTROL_ID :: nat where "WIA_SHOW_PREVIEW_CONTROL_ID = 3103"
definition WIA_IPS_SEGMENTATION :: nat where "WIA_IPS_SEGMENTATION = 6164"
definition WIA_IPS_ROTATION :: nat where "WIA_IPS_ROTATION = 6157"
definition WIA_ROTATION_PORTRAIT :: int where "WIA_ROTATION_PORTRAIT = 0"
definition DOCUMENT_HANDLING_FLATBED :: int where "DOCUMENT_HANDLING_FLATBED = 0x0002"
definition WIA_DONT_SHOW_PREVIEW_CONTROL :: int where "WIA_DONT_SHOW_PREVIEW_CONTROL = 1"
definition WIA_DONT_USE_SEGMENTATION_FILTER :: int where "WIA_DONT_USE_SEGMENTATION_FILTER = 1"
definition WIA_IPA_ITEM_NAME :: nat where "WIA_IPA_ITEM_NAME = 4098"
definition WIA_IPA_FULL_ITEM_NAME :: nat where "WIA_IPA_FULL_ITEM_NAME = 4099"
definition WIA_IPA_ACCESS_RIGHTS :: nat where "WIA_IPA_ACCESS_RIGHTS = 4102"
definition WIA_IPA_DATATYPE :: nat where "WIA_IPA_DATATYPE = 4103"
definition WIA_IPA_DEPTH :: nat where "WIA_IPA_DEPTH = 4104"
definition WIA_IPA_PREFERRED_FORMAT :: nat where "WIA_IPA_PREFERRED_FORMAT = 4105"
definition WIA_IPA_FORMAT :: nat where "WIA_IPA_FORMAT = 4106"
definition WIA_IPA_COMPRESSION :: nat where "WIA_IPA_COMPRESSION = 4107"
definition WIA_IPA_TYMED :: nat where "WIA_IPA_TYMED = 4108"
definition WIA_IPA_CHANNELS_PER_PIXEL :: nat where "WIA_IPA_CHANNELS_PER_PIXEL = 4109"
definition WIA_IPA_BITS_PER_CHANNEL :: nat where "WIA_IPA_BITS_PER_CHANNEL = 4110"
definition WIA_IPA_PLANAR :: nat where "WIA_IPA_PLANAR = 4111"
definition WIA_IPA_PIXELS_PER_LINE :: nat where "WIA_IPA_PIXELS_PER_LINE = 4112"
definition WIA_IPA_NUMBER_OF_LINES :: nat where "WIA_IPA_NUMBER_OF_LINES = 4114"
definition WIA_IPA_ITEM_SIZE :: nat where "WIA_IPA_ITEM_SIZE = 4116"
definition WIA_IPA_COLOR_PROFILE :: nat where "WIA_IPA_COLOR_PROFILE = 4117"
definition WIA_IPA_BUFFER_SIZE :: nat where "WIA_IPA_BUFFER_SIZE = 4118"
definition WIA_IPA_PROP_STREAM_COMPAT_ID :: nat where "WIA_IPA_PROP_STREAM_COMPAT_ID = 4122"
definition WIA_IPA_ITEM_CATEGORY :: nat where "WIA_IPA_ITEM_CATEGORY = 4125"
definition WIA_IPS_CUR_INTENT :: nat where "WIA_IPS_CUR_INTENT = 6146"
definition WIA_IPS_XRES :: nat where "WIA_IPS_XRES = 6147"
definition WIA_IPS_YRES :: nat where "WIA_IPS_YRES = 6148"
definition WIA_IPS_XPOS :: nat where "WIA_IPS_XPOS = 6149"
definition WIA_IPS_YPOS :: nat where "WIA_IPS_YPOS = 6150"
definition WIA_IPS_XEXTENT :: nat where "WIA_IPS_XEXTENT = 6151"
definition WIA_IPS_YEXTENT :: nat where "WIA_IPS_YEXTENT = 6152"
definition WIA_IPS_BRIGHTNESS :: nat where "WIA_IPS_BRIGHTNESS = 6154"
definition WIA_IPS_CONTRAST :: nat where "WIA_IPS_CONTRAST = 6155"
definition WIA_IPS_MAX_HORIZONTAL_SIZE :: nat where "WIA_IPS_MAX_HORIZONTAL_SIZE = 6165"
definition WIA_IPS_MAX_VERTICAL_SIZE :: nat where "WIA_IPS_MAX_VERTICAL_SIZE = 6166"
definition WIA_IPS_MIN_HORIZONTAL_SIZE :: nat where "WIA_IPS_MIN_HORIZONTAL_SIZE = 6167"
definition WIA_IPS_MIN_VERTICAL_SIZE :: nat where "WIA_IPS_MIN_VERTICAL_SIZE = 6168"
definition WIA_IPS_OPTICAL_XRES :: nat where "WIA_IPS_OPTICAL_XRES = 3090"
definition WIA_IPS_OPTICAL_YRES :: nat where "WIA_IPS_OPTICAL_YRES = 3091"
definition WIA_IPS_PREVIEW :: nat where "WIA_IPS_PREVIEW = 3100"
definition WIA_INTENT_IMAGE_TYPE_COLOR :: int where "WIA_INTENT_IMAGE_TYPE_COLOR = 0x00000001"
definition WIA_INTENT_IMAGE_TYPE_GRAYSCALE :: int where
  "WIA_INTENT_IMAGE_TYPE_GRAYSCALE = 0x00000002"
definition WIA_INTENT_MINIMIZE_SIZE :: int where "WIA_INTENT_MINIMIZE_SIZE = 0x00010000"
definition WIA_INTENT_MAXIMIZE_QUALITY :: int where "WIA_INTENT_MAXIMIZE_QUALITY = 0x00020000"
definition WIA_COMPRESSION_NONE :: int where "WIA_COMPRESSION_NONE = 0"
definition TYMED_FILE :: int where "TYMED_FILE = 2"
definition WIA_PACKED_PIXEL :: int where "WIA_PACKED_PIXEL = 0"
definition WIA_FINAL_SCAN :: int where "WIA_FINAL_SCAN = 0"

lemmas property_id_defs =
  WIA_DPS_DOCUMENT_HANDLING_CAPABILITIES_def WIA_DPS_DOCUMENT_HANDLING_STATUS_def
  WIA_DPS_DOCUMENT_HANDLING_SELECT_def WIA_SHOW_PREVIEW_CONTROL_ID_def WIA_IPS_SEGMENTATION_def
  WIA_IPS_ROTATION_def WIA_IPA_ITEM_NAME_def WIA_IPA_FULL_ITEM_NAME_def WIA_IPA_ACCESS_RIGHTS_def
  WIA_IPA_DATATYPE_def WIA_IPA_DEPTH_def WIA_IPA_PREFERRED_FORMAT_def WIA_IPA_FORMAT_def
  WIA_IPA_COMPRESSION_def WIA_IPA_TYMED_def WIA_IPA_CHANNELS_PER_PIXEL_def
  WIA_IPA_BITS_PER_CHANNEL_def WIA_IPA_PLANAR_def WIA_IPA_PIXELS_PER_LINE_def
  WIA_IPA_NUMBER_OF_LINES_def WIA_IPA_ITEM_SIZE_def WIA_IPA_COLOR_PROFILE_def
  WIA_IPA_BUFFER_SIZE_def WIA_IPA_PROP_STREAM_COMPAT_ID_def WIA_IPA_ITEM_CATEGORY_def
  WIA_IPS_CUR_INTENT_def WIA_IPS_XRES_def WIA_IPS_YRES_def WIA_IPS_XPOS_def WIA_IPS_YPOS_def
  WIA_IPS_XEXTENT_def WIA_IPS_YEXTENT_def WIA_IPS_BRIGHTNESS_def WIA_IPS_CONTRAST_def
  WIA_IPS_MAX_HORIZONTAL_SIZE_def WIA_IPS_MAX_VERTICAL_SIZE_def WIA_IPS_MIN_HORIZONTAL_SIZE_def
  WIA_IPS_MIN_VERTICAL_SIZE_def WIA_IPS_OPTICAL_XRES_def WIA_IPS_OPTICAL_YRES_def
  WIA_IPS_PREVIEW_def

lemmas property_constant_defs =
  VT_I4_def VT_BSTR_def VT_CLSID_def WIA_PROP_READ_def WIA_PROP_WRITE_def WIA_PROP_RW_def
  WIA_PROP_NONE_def WIA_PROP_RANGE_def WIA_PROP_LIST_def WIA_PROP_FLAG_def WIA_PROP_CACHEABLE_def
  WIA_ITEM_READ_def WIA_ROTATION_PORTRAIT_def DOCUMENT_HANDLING_FLATBED_def
  WIA_DONT_SHOW_PREVIEW_CONTROL_def WIA_DONT_USE_SEGMENTATION_FILTER_def
  WIA_INTENT_IMAGE_TYPE_COLOR_def WIA_INTENT_IMAGE_TYPE_GRAYSCALE_def
  WIA_INTENT_MINIMIZE_SIZE_def WIA_INTENT_MAXIMIZE_QUALITY_def WIA_COMPRESSION_NONE_def
  TYMED_FILE_def WIA_PACKED_PIXEL_def WIA_FINAL_SCAN_def WIA_DATA_GRAYSCALE_def
  WIA_DATA_COLOR_def

end
