(* ===== verification/Wia_Catalog.thy ===== *)
theory Wia_Catalog
  imports Wia_Constants
begin

unbundle bit_operations_syntax

text \<open>
  The property catalog of \<open>src/com_server/minidrv/properties/catalog.rs\<close>: what the driver
  tells the WIA service about an item, derived from the reported capabilities. The four
  parallel vectors of the code stay four lists; \<open>push_prop\<close> appends to each of them.
\<close>

section \<open>Values and validity\<close>

datatype property_value = Long int | Guid guid | Text scalars

datatype property_attribute =
    NoValidity (access: nat) nat
  | RangeLong (access: nat) int int int int
  | ListLong (access: nat) "int list" int
  | ListGuid (access: nat) "guid list" guid
  | FlagLong (access: nat) int int

datatype item_kind = Root | Flatbed

record property_catalog =
  item_kind :: item_kind
  ids :: "nat list"
  names :: "string list"
  initial_values :: "property_value list"
  attributes :: "property_attribute list"
  cat_resolutions :: "int list"
  data_types :: "int list"
  default_resolution :: int
  cat_width :: u32
  cat_height :: u32

section \<open>Conversions\<close>

definition i32_try_from :: "nat \<Rightarrow> int hr" where
  "i32_try_from n = ok_or E_INVALIDARG (i32_of_nat n)"

definition u64_try_from :: "int \<Rightarrow> nat hr" where
  "u64_try_from i = (if i < 0 then Inl E_INVALIDARG else Inr (nat i))"

definition validate_capabilities :: "capabilities \<Rightarrow> unit hr" where
  "validate_capabilities c =
     fail_if (identity c = [] \<or> cap_width_units c = 0 \<or> cap_length_units c = 0
       \<or> flatbed_length_units c = 0 \<or> resolution_mask c = 0 \<or> mode_mask c = 0) E_INVALIDARG"

definition validate_name :: "scalars \<Rightarrow> unit hr" where
  "validate_name v =
     fail_if (v = [] \<or> list_ex (\<lambda>unit. unit = 0) (encode_utf16 v) \<or> utf8_length v > 16 * 1024)
       E_INVALIDARG"

text \<open>
  The resolution is never zero where these are called, so the divisions by it are defined;
  \<open>dpi - 1\<close> is a subtraction of \<open>u64\<close> values that would underflow only there.
\<close>

definition pixels_from_units :: "u32 \<Rightarrow> int \<Rightarrow> int hr" where
  "pixels_from_units units d =
     and_then (u64_try_from d) (\<lambda>d.
     and_then (ok_or E_INVALIDARG (checked_mul64 (unat units) d)) (\<lambda>scaled.
       i32_try_from (scaled div 1200)))"

definition size_thousandths :: "u32 \<Rightarrow> int hr" where
  "size_thousandths units =
     and_then (ok_or E_INVALIDARG (checked_mul64 (unat units) 1000)) (\<lambda>scaled.
       i32_try_from (scaled div 1200))"

definition min_size_thousandths :: "int \<Rightarrow> int hr" where
  "min_size_thousandths max_dpi =
     and_then (u64_try_from max_dpi) (\<lambda>d.
     and_then (ok_or E_INVALIDARG (checked_add64 1000 (d - 1))) (\<lambda>v. i32_try_from (v div d)))"

text \<open>The loop of \<open>offset_step\<close> is Euclid's algorithm; \<open>%\<close> truncates.\<close>

function gcd_loop :: "int \<Rightarrow> int \<Rightarrow> int" where
  "gcd_loop a b = (if b = 0 then a else gcd_loop b (tmod a b))"
  by pat_completeness auto

lemma tmod_bound: "b \<noteq> 0 \<Longrightarrow> \<bar>tmod a b\<bar> < \<bar>b\<bar>"
proof -
  assume b: "b \<noteq> 0"
  have "tmod a b = sgn a * \<bar>a\<bar> - sgn a * (\<bar>b\<bar> * (\<bar>a\<bar> div \<bar>b\<bar>))"
    using b by (simp add: tmod_def tdiv_def sgn_if abs_if)
  also have "\<dots> = sgn a * (\<bar>a\<bar> mod \<bar>b\<bar>)"
    by (simp only: minus_mult_div_eq_mod flip: right_diff_distrib)
  finally show ?thesis using b by (simp add: abs_mult sgn_if)
qed

termination gcd_loop
  by (relation "measure (\<lambda>(a, b). nat \<bar>b\<bar>)") (simp_all add: tmod_bound)

declare gcd_loop.simps [simp del]

definition offset_step :: "int \<Rightarrow> int" where
  "offset_step d = tdiv d (gcd_loop d 100)"

text \<open>\<open>as u64\<close> of an \<open>i32\<close> keeps the residue modulo \<open>2 ^ 64\<close>.\<close>

definition as_u64 :: "int \<Rightarrow> nat" where
  "as_u64 i = nat (i mod 2 ^ 64)"

definition bmp_size :: "int \<Rightarrow> int \<Rightarrow> int \<Rightarrow> int hr" where
  "bmp_size w h bits =
     and_then (u64_try_from w) (\<lambda>w.
     and_then (ok_or E_INVALIDARG (checked_mul64 w (as_u64 bits))) (\<lambda>row_bits.
     and_then (ok_or E_INVALIDARG (checked_mul64 ((row_bits + 31) div 32) 4)) (\<lambda>row_bytes.
       let palette_size = (if bits = 8 then 1024 else 0)
       in and_then
            (ok_or E_INVALIDARG (Option.bind (checked_mul64 row_bytes (as_u64 h))
              (\<lambda>v. checked_add64 v (14 + 40 + palette_size))))
            i32_try_from)))"

definition depth_for :: "int \<Rightarrow> int" where
  "depth_for t = (if t = WIA_DATA_GRAYSCALE then 8 else if t = WIA_DATA_COLOR then 24 else 0)"

definition channels_for :: "int \<Rightarrow> int" where
  "channels_for t = (if t = WIA_DATA_GRAYSCALE then 1 else if t = WIA_DATA_COLOR then 3 else 0)"

section \<open>Building a catalog\<close>

definition push_prop ::
    "nat \<Rightarrow> string \<Rightarrow> property_value \<Rightarrow> property_attribute \<Rightarrow> property_catalog \<Rightarrow> property_catalog" where
  "push_prop i name v a c = c\<lparr>ids := ids c @ [i], names := names c @ [name],
     initial_values := initial_values c @ [v], attributes := attributes c @ [a]\<rparr>"

type_synonym property_entry = "nat \<times> string \<times> property_value \<times> property_attribute"

definition push_all_props :: "property_entry list \<Rightarrow> property_catalog \<Rightarrow> property_catalog" where
  "push_all_props es c = fold (\<lambda>(i, name, v, a). push_prop i name v a) es c"

definition add_long :: "nat \<Rightarrow> string \<Rightarrow> int \<Rightarrow> property_attribute \<Rightarrow> property_entry" where
  "add_long i name v a = (i, name, Long v, a)"

definition index :: "property_catalog \<Rightarrow> nat \<Rightarrow> nat hr" where
  "index c i = ok_or E_UNEXPECTED (List.find (\<lambda>k. ids c ! k = i) [0..<length (ids c)])"

definition assert_aligned :: "property_catalog \<Rightarrow> unit hr" where
  "assert_aligned c =
     (if length (ids c) = length (names c) \<and> length (ids c) = length (initial_values c)
         \<and> length (ids c) = length (attributes c)
      then Inr () else Inl E_UNEXPECTED)"

definition all_depths :: "property_catalog \<Rightarrow> int list" where
  "all_depths c = filter (\<lambda>b. b > 0) (map depth_for (data_types c))"

definition max_extent :: "property_catalog \<Rightarrow> int \<Rightarrow> int \<times> int" where
  "max_extent c d =
     (if item_kind c \<noteq> Flatbed \<or> d \<notin> set (cat_resolutions c) then (0, 0)
      else (case_sum (\<lambda>_. 0) id (pixels_from_units (cat_width c) d),
            case_sum (\<lambda>_. 0) id (pixels_from_units (cat_height c) d)))"

section \<open>The root item\<close>

definition root_entries :: "int \<Rightarrow> property_entry list" where
  "root_entries st =
    [(WIA_IPA_ITEM_CATEGORY, ''Item Category'', Guid WIA_CATEGORY_ROOT,
       NoValidity (WIA_PROP_READ OR WIA_PROP_NONE OR WIA_PROP_CACHEABLE) VT_CLSID),
     (WIA_IPA_ACCESS_RIGHTS, ''Access Rights'', Long WIA_ITEM_READ,
       FlagLong (WIA_PROP_READ OR WIA_PROP_FLAG) WIA_ITEM_READ WIA_ITEM_READ),
     (WIA_DPS_DOCUMENT_HANDLING_CAPABILITIES, ''Document Handling Capabilities'', Long 0x02,
       NoValidity (WIA_PROP_READ OR WIA_PROP_NONE OR WIA_PROP_CACHEABLE) VT_I4),
     (WIA_DPS_DOCUMENT_HANDLING_STATUS, ''Document Handling Status'', Long st,
       NoValidity (WIA_PROP_READ OR WIA_PROP_NONE) VT_I4),
     (WIA_DPS_DOCUMENT_HANDLING_SELECT, ''Document Handling Select'',
       Long DOCUMENT_HANDLING_FLATBED,
       FlagLong (WIA_PROP_READ OR WIA_PROP_FLAG) DOCUMENT_HANDLING_FLATBED
         DOCUMENT_HANDLING_FLATBED),
     (WIA_SHOW_PREVIEW_CONTROL_ID, ''Show preview control'', Long WIA_DONT_SHOW_PREVIEW_CONTROL,
       NoValidity (WIA_PROP_READ OR WIA_PROP_NONE) VT_I4)]"

definition empty_catalog :: "item_kind \<Rightarrow> property_catalog" where
  "empty_catalog k = \<lparr>item_kind = k, ids = [], names = [], initial_values = [], attributes = [],
     cat_resolutions = [], data_types = [], default_resolution = 0, cat_width = 0,
     cat_height = 0\<rparr>"

definition root :: "capabilities \<Rightarrow> int \<Rightarrow> property_catalog hr" where
  "root caps st =
     and_then (validate_capabilities caps) (\<lambda>_.
       Inr (push_all_props (root_entries st) (empty_catalog Root)))"

section \<open>The flatbed item\<close>

definition rw_list :: "int list \<Rightarrow> int \<Rightarrow> property_attribute" where
  "rw_list vs nominal = ListLong (WIA_PROP_RW OR WIA_PROP_LIST) vs nominal"

definition ro_none :: "nat \<Rightarrow> property_attribute" where
  "ro_none vt = NoValidity (WIA_PROP_READ OR WIA_PROP_NONE) vt"

definition rw_range :: "int \<Rightarrow> int \<Rightarrow> int \<Rightarrow> property_attribute" where
  "rw_range lo nominal hi = RangeLong (WIA_PROP_RW OR WIA_PROP_RANGE) lo nominal hi 1"

definition flatbed_resolutions :: "capabilities \<Rightarrow> int list" where
  "flatbed_resolutions caps =
     map uint (filter (\<lambda>d. d \<in> {75, 100, 150, 200, 300, 600}) (resolutions caps))"

definition flatbed_data_types :: "capabilities \<Rightarrow> int list" where
  "flatbed_data_types caps =
     (if mode_mask caps AND push_bit 3 1 \<noteq> 0 then [WIA_DATA_GRAYSCALE] else [])
     @ (if mode_mask caps AND push_bit 5 1 \<noteq> 0 \<and> line_order caps \<le> 1
        then [WIA_DATA_COLOR] else [])"

text \<open>The entries in the order of the code: \<open>t\<close>, \<open>d\<close> are the default data type and resolution.\<close>

definition entries_transfer :: "int \<Rightarrow> property_entry list" where
  "entries_transfer t =
    [add_long WIA_IPA_ACCESS_RIGHTS ''Access Rights'' WIA_ITEM_READ
       (FlagLong (WIA_PROP_READ OR WIA_PROP_FLAG) WIA_ITEM_READ WIA_ITEM_READ),
     add_long WIA_IPA_BITS_PER_CHANNEL ''Bits Per Channel'' 8 (ro_none VT_I4),
     add_long WIA_IPA_BUFFER_SIZE ''Buffer Size'' (64 * 1024) (ro_none VT_I4),
     add_long WIA_IPA_CHANNELS_PER_PIXEL ''Channels Per Pixel'' (channels_for t) (ro_none VT_I4),
     add_long WIA_IPA_COLOR_PROFILE ''Color Profiles'' 0 (ro_none VT_I4),
     add_long WIA_IPA_COMPRESSION ''Compression'' WIA_COMPRESSION_NONE
       (rw_list [WIA_COMPRESSION_NONE] WIA_COMPRESSION_NONE)]"

definition entries_mode ::
    "int list \<Rightarrow> int list \<Rightarrow> int \<Rightarrow> scalars \<Rightarrow> scalars \<Rightarrow> property_entry list" where
  "entries_mode types depths t item_name full_item_name =
    [add_long WIA_IPA_DATATYPE ''Data Type'' t (rw_list types t),
     add_long WIA_IPA_DEPTH ''Bits Per Pixel'' (depth_for t) (rw_list depths (depth_for t)),
     (WIA_IPA_FORMAT, ''Format'', Guid (guid_from_bytes BMP_FORMAT),
       ListGuid (WIA_PROP_RW OR WIA_PROP_LIST) [guid_from_bytes BMP_FORMAT]
         (guid_from_bytes BMP_FORMAT)),
     (WIA_IPA_FULL_ITEM_NAME, ''Full Item Name'', Text full_item_name, ro_none VT_BSTR),
     (WIA_IPA_ITEM_CATEGORY, ''Item Category'', Guid WIA_CATEGORY_FLATBED, ro_none VT_CLSID),
     (WIA_IPA_ITEM_NAME, ''Item Name'', Text item_name, ro_none VT_BSTR)]"

definition entries_size ::
    "int \<Rightarrow> int \<Rightarrow> int \<Rightarrow> int \<Rightarrow> int \<Rightarrow> int \<Rightarrow> property_entry list" where
  "entries_size bytes_total max_h max_v least width_px height_px =
    [add_long WIA_IPA_ITEM_SIZE ''Item Size'' bytes_total (ro_none VT_I4),
     add_long WIA_IPS_MAX_HORIZONTAL_SIZE ''Maximum Horizontal Scan Size'' max_h (ro_none VT_I4),
     add_long WIA_IPS_MAX_VERTICAL_SIZE ''Maximum Vertical Scan Size'' max_v (ro_none VT_I4),
     add_long WIA_IPS_MIN_HORIZONTAL_SIZE ''Minimum Horizontal Scan Size'' least (ro_none VT_I4),
     add_long WIA_IPS_MIN_VERTICAL_SIZE ''Minimum Vertical Scan Size'' least (ro_none VT_I4),
     add_long WIA_IPA_NUMBER_OF_LINES ''Number of Lines'' height_px (ro_none VT_I4),
     add_long WIA_IPA_PIXELS_PER_LINE ''Pixels Per Line'' width_px (ro_none VT_I4)]"

definition entries_format :: "property_entry list" where
  "entries_format =
    [add_long WIA_IPA_PLANAR ''Planar'' WIA_PACKED_PIXEL
       (rw_list [WIA_PACKED_PIXEL] WIA_PACKED_PIXEL),
     (WIA_IPA_PREFERRED_FORMAT, ''Preferred Format'', Guid (guid_from_bytes BMP_FORMAT),
       ro_none VT_CLSID),
     (WIA_IPA_PROP_STREAM_COMPAT_ID, ''Stream Compatibility ID'',
       Guid (guid_from_bytes BMP_FORMAT),
       ListGuid (WIA_PROP_READ OR WIA_PROP_LIST OR WIA_PROP_CACHEABLE)
         [guid_from_bytes BMP_FORMAT] (guid_from_bytes BMP_FORMAT)),
     add_long WIA_IPA_TYMED ''Media Type'' TYMED_FILE (rw_list [TYMED_FILE] TYMED_FILE)]"

definition intent_bits :: "int list \<Rightarrow> int" where
  "intent_bits types =
     WIA_INTENT_MINIMIZE_SIZE OR WIA_INTENT_MAXIMIZE_QUALITY
     OR (if WIA_DATA_COLOR \<in> set types then WIA_INTENT_IMAGE_TYPE_COLOR else 0)
     OR (if WIA_DATA_GRAYSCALE \<in> set types then WIA_INTENT_IMAGE_TYPE_GRAYSCALE else 0)"

definition entries_image :: "int list \<Rightarrow> property_entry list" where
  "entries_image types =
    [add_long WIA_IPS_BRIGHTNESS ''Brightness'' 0 (rw_range (- 1000) 0 1000),
     add_long WIA_IPS_CONTRAST ''Contrast'' 0 (rw_range (- 1000) 0 1000),
     add_long WIA_IPS_CUR_INTENT ''Current Intent'' 0
       (FlagLong (WIA_PROP_RW OR WIA_PROP_FLAG) 0 (intent_bits types)),
     add_long WIA_IPS_OPTICAL_XRES ''Horizontal Optical Resolution'' 600 (ro_none VT_I4),
     add_long WIA_IPS_OPTICAL_YRES ''Vertical Optical Resolution'' 2400 (ro_none VT_I4),
     add_long WIA_IPS_PREVIEW ''Preview'' WIA_FINAL_SCAN (rw_list [WIA_FINAL_SCAN] WIA_FINAL_SCAN),
     add_long WIA_SHOW_PREVIEW_CONTROL_ID ''Show preview control'' WIA_DONT_SHOW_PREVIEW_CONTROL
       (ro_none VT_I4),
     add_long WIA_IPS_ROTATION ''Rotation'' WIA_ROTATION_PORTRAIT
       (rw_list [WIA_ROTATION_PORTRAIT] WIA_ROTATION_PORTRAIT),
     add_long WIA_IPS_SEGMENTATION ''Segmentation'' WIA_DONT_USE_SEGMENTATION_FILTER
       (ro_none VT_I4)]"

definition entries_geometry :: "int list \<Rightarrow> int \<Rightarrow> int \<Rightarrow> int \<Rightarrow> property_entry list" where
  "entries_geometry rs d width_px height_px =
    (let position = RangeLong (WIA_PROP_RW OR WIA_PROP_RANGE) 0 0 0 (offset_step d) in
    [add_long WIA_IPS_XEXTENT ''Horizontal Extent'' width_px (rw_range 1 width_px width_px),
     add_long WIA_IPS_XPOS ''Horizontal Start Position'' 0 position,
     add_long WIA_IPS_XRES ''Horizontal Resolution'' d (rw_list rs d),
     add_long WIA_IPS_YEXTENT ''Vertical Extent'' height_px (rw_range 1 height_px height_px),
     add_long WIA_IPS_YPOS ''Vertical Start Position'' 0 position,
     add_long WIA_IPS_YRES ''Vertical Resolution'' d (rw_list rs d)])"

definition flatbed :: "capabilities \<Rightarrow> scalars \<Rightarrow> scalars \<Rightarrow> property_catalog hr" where
  "flatbed caps item_name full_item_name =
     and_then (validate_capabilities caps) (\<lambda>_.
     and_then (validate_name item_name) (\<lambda>_.
     and_then (validate_name full_item_name) (\<lambda>_.
     let rs = flatbed_resolutions caps; types = flatbed_data_types caps in
     if rs = [] then Inl E_INVALIDARG
     else if types = [] \<or> compression_mask caps AND 1 = 0 then Inl E_INVALIDARG
     else
       let d = hd rs; t = hd types;
           units = min (flatbed_length_units caps) (cap_length_units caps) in
       and_then (size_thousandths (cap_width_units caps)) (\<lambda>max_h.
       and_then (size_thousandths units) (\<lambda>max_v.
       and_then (min_size_thousandths d) (\<lambda>least.
       let c = (empty_catalog Flatbed)\<lparr>cat_resolutions := rs, data_types := types,
             default_resolution := d, cat_width := cap_width_units caps, cat_height := units\<rparr>;
           (width_px, height_px) = max_extent c (default_resolution c) in
       if width_px \<le> 0 \<or> height_px \<le> 0 then Inl E_INVALIDARG
       else and_then (bmp_size width_px height_px (depth_for t)) (\<lambda>bytes_total.
       let c = push_all_props
             (entries_transfer t @ entries_mode types (all_depths c) t item_name full_item_name
              @ entries_size bytes_total max_h max_v least width_px height_px @ entries_format
              @ entries_image types @ entries_geometry rs d width_px height_px) c
       in and_then (assert_aligned c) (\<lambda>_. Inr c))))))))"

section \<open>Selecting settings\<close>

fun set_values :: "(nat \<times> int) list \<Rightarrow> property_catalog \<Rightarrow> property_catalog hr" where
  "set_values [] c = Inr c"
| "set_values ((i, v) # vs) c = and_then (index c i) (\<lambda>k.
     set_values vs (c\<lparr>initial_values := (initial_values c)[k := Long v]\<rparr>))"

fun set_attributes :: "(nat \<times> property_attribute) list \<Rightarrow> property_catalog \<Rightarrow> property_catalog hr" where
  "set_attributes [] c = Inr c"
| "set_attributes ((i, a) # as) c = and_then (index c i) (\<lambda>k.
     set_attributes as (c\<lparr>attributes := (attributes c)[k := a]\<rparr>))"

text \<open>The eight settings that an application writes.\<close>

definition setting_values :: "flatbed_settings \<Rightarrow> (nat \<times> int) list" where
  "setting_values s =
    [(WIA_IPS_XRES, x_resolution s), (WIA_IPS_YRES, y_resolution s),
     (WIA_IPS_XPOS, x_position s), (WIA_IPS_YPOS, y_position s),
     (WIA_IPS_XEXTENT, x_extent s), (WIA_IPS_YEXTENT, y_extent s),
     (WIA_IPA_DATATYPE, data_type s), (WIA_IPA_DEPTH, depth s)]"

definition selected_values :: "flatbed_settings \<Rightarrow> int \<Rightarrow> int \<Rightarrow> (nat \<times> int) list" where
  "selected_values s bytes_total least = setting_values s @
    [(WIA_IPA_CHANNELS_PER_PIXEL, channels_for (data_type s)),
     (WIA_IPA_PIXELS_PER_LINE, x_extent s), (WIA_IPA_NUMBER_OF_LINES, y_extent s),
     (WIA_IPA_ITEM_SIZE, bytes_total),
     (WIA_IPS_MIN_HORIZONTAL_SIZE, least), (WIA_IPS_MIN_VERTICAL_SIZE, least)]"

definition selected_lists ::
    "property_catalog \<Rightarrow> flatbed_settings \<Rightarrow> (nat \<times> property_attribute) list" where
  "selected_lists c s =
    [(WIA_IPS_YRES, rw_list (cat_resolutions c) (y_resolution s)),
     (WIA_IPA_DEPTH, rw_list (all_depths c) (depth s))]"

definition selected_ranges ::
    "flatbed_settings \<Rightarrow> int \<Rightarrow> int \<Rightarrow> int \<Rightarrow> (nat \<times> property_attribute) list" where
  "selected_ranges s width_px height_px step =
    map (\<lambda>(i, lo, nominal, hi, increment).
          (i, RangeLong (WIA_PROP_RW OR WIA_PROP_RANGE) lo nominal hi increment))
      [(WIA_IPS_XPOS, 0, 0, tdiv (width_px - x_extent s) step * step, step),
       (WIA_IPS_YPOS, 0, 0, tdiv (height_px - y_extent s) step * step, step),
       (WIA_IPS_XEXTENT, 1, width_px - x_position s, width_px - x_position s, 1),
       (WIA_IPS_YEXTENT, 1, height_px - y_position s, height_px - y_position s, 1)]"

text \<open>\<open>checked_add\<close> with \<open>is_none_or\<close>: the end overflows or lies outside.\<close>

definition ends_outside :: "int \<Rightarrow> int \<Rightarrow> int \<Rightarrow> bool" where
  "ends_outside start extent limit =
     (case checked_i32 (start + extent) of None \<Rightarrow> True | Some e \<Rightarrow> e > limit)"

definition with_settings :: "property_catalog \<Rightarrow> flatbed_settings \<Rightarrow> property_catalog hr" where
  "with_settings c s =
     (if item_kind c \<noteq> Flatbed \<or> x_resolution s \<notin> set (cat_resolutions c)
         \<or> data_type s \<notin> set (data_types c)
      then Inl E_INVALIDARG
      else
        and_then (map_err (\<lambda>_. E_INVALIDARG) (to_request s)) (\<lambda>_.
        and_then (assert_aligned c) (\<lambda>_.
        let (width_px, height_px) = max_extent c (x_resolution s) in
        if ends_outside (x_position s) (x_extent s) width_px
           \<or> ends_outside (y_position s) (y_extent s) height_px
        then Inl E_INVALIDARG
        else
          and_then (bmp_size (x_extent s) (y_extent s) (depth s)) (\<lambda>bytes_total.
          and_then (min_size_thousandths (x_resolution s)) (\<lambda>least.
          let step = offset_step (x_resolution s) in
          and_then (set_values (selected_values s bytes_total least) c) (\<lambda>selected.
          and_then (set_attributes (selected_lists c s) selected) (\<lambda>selected.
            set_attributes (selected_ranges s width_px height_px step) selected)))))))"

definition with_service_values :: "property_catalog \<Rightarrow> flatbed_settings \<Rightarrow> property_catalog hr" where
  "with_service_values c current = set_values (setting_values current) c"

end
