(* ===== verification/Wia_Validation.thy ===== *)
theory Wia_Validation
  imports Wia_Catalog
begin

unbundle bit_operations_syntax

text \<open>
  The dependency resolution of \<open>src/com_server/minidrv/properties/validation.rs\<close>: from the
  settings before and after an application's write, and the identifiers it wrote, to
  settings that the scanner can take. \<open>i32\<close> values are integers; the checked and saturating
  operations of the code are written out.
\<close>

section \<open>Intents and modes\<close>

definition data_type_for_intent :: "int \<Rightarrow> int option hr" where
  "data_type_for_intent intent =
     (let known = WIA_INTENT_IMAGE_TYPE_COLOR OR WIA_INTENT_IMAGE_TYPE_GRAYSCALE
            OR WIA_INTENT_MINIMIZE_SIZE OR WIA_INTENT_MAXIMIZE_QUALITY in
      if intent AND NOT known \<noteq> 0 then Inl E_INVALIDARG
      else case (intent AND WIA_INTENT_IMAGE_TYPE_COLOR \<noteq> 0,
                 intent AND WIA_INTENT_IMAGE_TYPE_GRAYSCALE \<noteq> 0) of
          (True, True) \<Rightarrow> Inl E_INVALIDARG
        | (True, False) \<Rightarrow> Inr (Some 3)
        | (False, True) \<Rightarrow> Inr (Some 2)
        | (False, False) \<Rightarrow> Inr None)"

definition is_written :: "nat list \<Rightarrow> nat \<Rightarrow> bool" where
  "is_written written propid \<longleftrightarrow> propid \<in> set written"

text \<open>\<open>depth_for\<close> of this module, which returns an option.\<close>

definition depth_of_type :: "int \<Rightarrow> int option" where
  "depth_of_type t = (if t = 2 then Some 8 else if t = 3 then Some 24 else None)"

definition resolve_mode_and_depth :: "flatbed_settings \<Rightarrow> nat list \<Rightarrow> flatbed_settings hr" where
  "resolve_mode_and_depth s written =
     (case (is_written written WIA_IPA_DATATYPE, is_written written WIA_IPA_DEPTH) of
        (True, True) \<Rightarrow>
          if depth_of_type (data_type s) \<noteq> Some (depth s) then Inl E_INVALIDARG else Inr s
      | (True, False) \<Rightarrow>
          map_sum id (\<lambda>b. s\<lparr>depth := b\<rparr>) (ok_or E_INVALIDARG (depth_of_type (data_type s)))
      | (False, True) \<Rightarrow>
          if depth s = 8 then Inr (s\<lparr>data_type := 2\<rparr>)
          else if depth s = 24 then Inr (s\<lparr>data_type := 3\<rparr>)
          else Inl E_INVALIDARG
      | (False, False) \<Rightarrow>
          if depth_of_type (data_type s) \<noteq> Some (depth s)
          then map_sum id (\<lambda>b. s\<lparr>depth := b\<rparr>) (ok_or E_INVALIDARG (depth_of_type (data_type s)))
          else Inr s)"

definition resolve_resolutions :: "flatbed_settings \<Rightarrow> nat list \<Rightarrow> (int \<times> int) hr" where
  "resolve_resolutions s written =
     (let x_written = is_written written WIA_IPS_XRES; y_written = is_written written WIA_IPS_YRES in
      if x_written \<and> y_written \<and> x_resolution s \<noteq> y_resolution s then Inl E_INVALIDARG
      else if x_written \<or> \<not> y_written then Inr (x_resolution s, x_resolution s)
      else Inr (y_resolution s, y_resolution s))"

section \<open>Arithmetic of one axis\<close>

definition saturating_double :: "int \<Rightarrow> int" where
  "saturating_double i = max (- (2 ^ 31)) (min (2 ^ 31 - 1) (2 * i))"

definition checked_sub_i32 :: "int \<Rightarrow> int \<Rightarrow> int hr" where
  "checked_sub_i32 a b = ok_or E_INVALIDARG (checked_i32 (a - b))"

definition scale_extent :: "int \<Rightarrow> int \<Rightarrow> int \<Rightarrow> int hr" where
  "scale_extent v old_dpi target_dpi =
     (if v < 0 \<or> old_dpi \<le> 0 \<or> target_dpi \<le> 0 then Inl E_INVALIDARG
      else
        and_then (ok_or E_INVALIDARG (checked_mul64 (nat v) (nat target_dpi))) (\<lambda>numerator.
        and_then (ok_or E_INVALIDARG (checked_add64 numerator (nat old_dpi div 2))) (\<lambda>total.
          i32_try_from (total div nat old_dpi))))"

definition quantize_position :: "int \<Rightarrow> int \<Rightarrow> int hr" where
  "quantize_position v d =
     (if v < 0 \<or> d \<le> 0 then Inl E_INVALIDARG
      else
        let step = offset_step d in
        if step \<le> 0 then Inl E_INVALIDARG
        else
          let quotient = tdiv v step; remainder = tmod v step in
          and_then
            (if saturating_double remainder \<ge> step
             then ok_or E_INVALIDARG (checked_i32 (quotient + 1)) else Inr quotient)
            (\<lambda>rounded. ok_or E_INVALIDARG (checked_i32 (rounded * step))))"

definition quantize_scaled_position :: "int \<Rightarrow> int \<Rightarrow> int \<Rightarrow> int hr" where
  "quantize_scaled_position v old_dpi target_dpi =
     and_then (scale_extent v old_dpi target_dpi) (\<lambda>scaled. quantize_position scaled target_dpi)"

definition floor_to_step :: "int \<Rightarrow> int \<Rightarrow> int" where
  "floor_to_step v step = (if v \<le> 0 then 0 else tdiv v step * step)"

section \<open>Resolving one axis\<close>

record axis_value =
  old :: int
  current :: int
  explicit :: bool

record axis_input =
  old_dpi :: int
  target_dpi :: int
  position :: axis_value
  extent :: axis_value
  axis_max :: int

definition resolution_changed :: "axis_input \<Rightarrow> bool" where
  "resolution_changed a \<longleftrightarrow> old_dpi a \<noteq> target_dpi a"

text \<open>The values before any check: written, scaled to the new resolution, or as they are.\<close>

definition start_position :: "axis_input \<Rightarrow> int hr" where
  "start_position a =
     (if explicit (position a) then Inr (current (position a))
      else if resolution_changed a \<and> current (position a) = old (position a)
      then quantize_scaled_position (old (position a)) (old_dpi a) (target_dpi a)
      else Inr (current (position a)))"

definition start_extent :: "axis_input \<Rightarrow> int hr" where
  "start_extent a =
     (if explicit (extent a) then Inr (current (extent a))
      else if resolution_changed a \<and> current (extent a) = old (extent a)
      then scale_extent (old (extent a)) (old_dpi a) (target_dpi a)
      else Inr (current (extent a)))"

text \<open>A written position snaps to the nearest step, or to the one below when that leaves the bed.\<close>

definition snap_position :: "axis_input \<Rightarrow> int \<Rightarrow> int \<Rightarrow> int hr" where
  "snap_position a p e =
     (if explicit (position a) then
        if p < 0 \<or> p \<ge> axis_max a then Inl E_INVALIDARG
        else
          and_then (quantize_position p (target_dpi a)) (\<lambda>q.
          and_then (if explicit (extent a) \<and> e > 0 then checked_sub_i32 (axis_max a) e
                    else Inr (axis_max a - 1)) (\<lambda>limit.
            Inr (if q > limit then floor_to_step p (offset_step (target_dpi a)) else q)))
      else if p < 0 then Inl E_INVALIDARG
      else Inr p)"

definition check_extent :: "axis_input \<Rightarrow> int \<Rightarrow> int hr" where
  "check_extent a e =
     (if explicit (extent a)
      then if e \<le> 0 \<or> e > axis_max a then Inl E_INVALIDARG else Inr e
      else if e < 0 then Inl E_INVALIDARG
      else if e = 0 then Inr 1
      else Inr e)"

text \<open>A dependent position moves down: onto the bed, and to make room for a written extent.\<close>

definition move_position :: "axis_input \<Rightarrow> int \<Rightarrow> int \<Rightarrow> int hr" where
  "move_position a p e =
     (let step = offset_step (target_dpi a);
          p = (if \<not> explicit (position a) \<and> \<not> explicit (extent a) \<and> p \<ge> axis_max a
               then floor_to_step (axis_max a - 1) step else p)
      in if \<not> explicit (position a) \<and> explicit (extent a)
         then and_then (checked_sub_i32 (axis_max a) e) (\<lambda>limit. Inr (min p (floor_to_step limit step)))
         else Inr p)"

definition fit_extent :: "axis_input \<Rightarrow> int \<Rightarrow> int \<Rightarrow> int hr" where
  "fit_extent a p e =
     and_then (checked_sub_i32 (axis_max a) p) (\<lambda>available.
       if available \<le> 0 then Inl E_INVALIDARG
       else and_then
         (if e > available
          then if explicit (extent a) then Inl E_INVALIDARG else Inr available
          else Inr e)
         (\<lambda>e. if e \<le> 0 then Inl E_INVALIDARG else Inr e))"

definition resolve_axis :: "axis_input \<Rightarrow> (int \<times> int) hr" where
  "resolve_axis a =
     (if axis_max a \<le> 0 then Inl E_INVALIDARG
      else
        and_then (start_position a) (\<lambda>p.
        and_then (start_extent a) (\<lambda>e.
        and_then (snap_position a p e) (\<lambda>p.
        and_then (check_extent a e) (\<lambda>e.
        and_then (move_position a p e) (\<lambda>p.
        and_then (fit_extent a p e) (\<lambda>e. Inr (p, e))))))))"

section \<open>Resolving the settings\<close>

definition x_axis :: "flatbed_settings \<Rightarrow> flatbed_settings \<Rightarrow> nat list \<Rightarrow> int \<Rightarrow> int \<Rightarrow> axis_input" where
  "x_axis old_s cur written d limit =
     \<lparr>old_dpi = x_resolution old_s, target_dpi = d,
      position = \<lparr>old = x_position old_s, current = x_position cur,
        explicit = is_written written WIA_IPS_XPOS\<rparr>,
      extent = \<lparr>old = x_extent old_s, current = x_extent cur,
        explicit = is_written written WIA_IPS_XEXTENT\<rparr>,
      axis_max = limit\<rparr>"

definition y_axis :: "flatbed_settings \<Rightarrow> flatbed_settings \<Rightarrow> nat list \<Rightarrow> int \<Rightarrow> int \<Rightarrow> axis_input" where
  "y_axis old_s cur written d limit =
     \<lparr>old_dpi = y_resolution old_s, target_dpi = d,
      position = \<lparr>old = y_position old_s, current = y_position cur,
        explicit = is_written written WIA_IPS_YPOS\<rparr>,
      extent = \<lparr>old = y_extent old_s, current = y_extent cur,
        explicit = is_written written WIA_IPS_YEXTENT\<rparr>,
      axis_max = limit\<rparr>"

definition resolve ::
    "property_catalog \<Rightarrow> flatbed_settings \<Rightarrow> flatbed_settings \<Rightarrow> nat list \<Rightarrow> flatbed_settings hr" where
  "resolve c old_s cur written =
     and_then (with_settings c old_s) (\<lambda>_.
     and_then (resolve_mode_and_depth cur written) (\<lambda>resolved.
     and_then (resolve_resolutions resolved written) (\<lambda>(xr, yr).
     let resolved = resolved\<lparr>x_resolution := xr, y_resolution := yr\<rparr>;
         (max_width, max_height) = max_extent c xr in
     if max_width \<le> 0 \<or> max_height \<le> 0 then Inl E_INVALIDARG
     else
       and_then (resolve_axis (x_axis old_s cur written xr max_width)) (\<lambda>(xp, xe).
       and_then (resolve_axis (y_axis old_s cur written yr max_height)) (\<lambda>(yp, ye).
       let resolved = resolved\<lparr>x_position := xp, x_extent := xe, y_position := yp, y_extent := ye\<rparr> in
       and_then (with_settings c resolved) (\<lambda>_. Inr resolved))))))"

text \<open>
  \<open>prepare_catalogs\<close> also extends the vector of written identifiers, which is part of the
  result here. Its contents after an error are not used.
\<close>

definition intent_target ::
    "flatbed_settings \<Rightarrow> int option \<Rightarrow> nat list \<Rightarrow> (flatbed_settings \<times> nat list) hr" where
  "intent_target cur intent written =
     (case intent of
        None \<Rightarrow> Inr (cur, written)
      | Some i \<Rightarrow> and_then (data_type_for_intent i) (\<lambda>t. case t of
            None \<Rightarrow> Inr (cur, written)
          | Some t \<Rightarrow> Inr (cur\<lparr>data_type := t\<rparr>,
              if WIA_IPA_DATATYPE \<in> set written then written else written @ [WIA_IPA_DATATYPE])))"

definition prepare_catalogs ::
    "property_catalog \<Rightarrow> flatbed_settings \<Rightarrow> flatbed_settings \<Rightarrow> int option \<Rightarrow> nat list \<Rightarrow>
     ((property_catalog \<times> property_catalog) \<times> nat list) hr" where
  "prepare_catalogs c old_s cur intent written =
     and_then (intent_target cur intent written) (\<lambda>(target, written).
     and_then (resolve c old_s target written) (\<lambda>resolved.
     and_then (and_then (with_settings c old_s) (\<lambda>b. with_service_values b cur)) (\<lambda>before.
     and_then (with_settings c resolved) (\<lambda>after. Inr ((before, after), written)))))"

end
