(* ===== verification/Catalog_Selection.thy ===== *)
theory Catalog_Selection
  imports Wia_Catalog Wia_Properties
begin

unbundle bit_operations_syntax

text \<open>
  What selecting settings does to a catalog: the exact acceptance condition of
  \<open>with_settings\<close>, the lookups after it, and the validity of a value under an attribute as
  the WIA service checks it. Catalogs are compared through the lookups \<open>value_of\<close> and
  \<open>attribute_of\<close>, which determine them.
\<close>

lemma gcd_loop_eqs [simp]:
  "gcd_loop a 0 = a"
  "gcd_loop a (numeral k) = gcd_loop (numeral k) (tmod a (numeral k))"
  "gcd_loop a 1 = gcd_loop 1 (tmod a 1)"
  by (subst gcd_loop.simps, simp)+

abbreviation supported :: "int set" where
  "supported \<equiv> {75, 100, 150, 200, 300, 600}"

lemma offset_step_table:
  "offset_step 75 = 3" "offset_step 100 = 1" "offset_step 150 = 3" "offset_step 200 = 2"
  "offset_step 300 = 3" "offset_step 600 = 6"
  by (simp_all add: offset_step_def tdiv_def tmod_def)

lemma u32_of_int: "0 \<le> z \<Longrightarrow> z < 2 ^ 32 \<Longrightarrow> int (unat (word_of_int z :: u32)) = z"
  by (simp add: unsigned_of_int take_bit_int_eq_self)

lemma step_dvd_iff:
  assumes "d \<in> supported"
  shows "offset_step d dvd px \<longleftrightarrow> 12 dvd px * (1200 div d)"
proof -
  have "3 dvd px \<longleftrightarrow> 12 dvd px * 16" "3 dvd px \<longleftrightarrow> 12 dvd px * 8" "2 dvd px \<longleftrightarrow> 12 dvd px * 6"
    "3 dvd px \<longleftrightarrow> 12 dvd px * 4" "6 dvd px \<longleftrightarrow> 12 dvd px * 2" "12 dvd px * 12"
    by presburger+
  with assms show ?thesis by (auto simp: offset_step_table)
qed

lemma axis_request:
  assumes d: "d \<in> supported"
  shows "(\<exists>(u :: u32) (v :: u32). int (unat u) * d = px * 1200 \<and> int (unat v) * d = ex * 1200
      \<and> 12 dvd unat u \<and> unat u div 1200 \<le> 255 \<and> unat u + unat v < 2 ^ 32) \<and> 0 \<le> px \<and> 0 < ex
    \<longleftrightarrow> 0 \<le> px \<and> 0 < ex \<and> offset_step d dvd px \<and> px < 256 * d \<and> (px + ex) * 1200 < 2 ^ 32 * d"
    (is "?l \<longleftrightarrow> ?r")
proof
  assume ?l
  then obtain u v :: u32 where u: "int (unat u) * d = px * 1200" and v: "int (unat v) * d = ex * 1200"
    and a: "12 dvd unat u" "unat u div 1200 \<le> 255" "unat u + unat v < 2 ^ 32" "0 \<le> px" "0 < ex"
    by auto
  define m where "m = unat u"
  define n where "n = unat v"
  have b: "12 dvd m" "m div 1200 \<le> 255" "m + n < 2 ^ 32"
      and i: "int m * d = px * 1200" "int n * d = ex * 1200"
    using a(1-3) u v unfolding m_def n_def by simp_all
  let ?k = "1200 div d"
  have k: "?k * d = 1200" "d \<noteq> 0" using d by auto
  have "int m * d = (px * ?k) * d" "int n * d = (ex * ?k) * d"
    using i k by (simp_all add: mult.assoc)
  then have e: "int m = px * ?k" "int n = ex * ?k" using k(2) by simp_all
  have "12 dvd int m" using b(1) by (metis int_dvd_int_iff of_nat_numeral)
  moreover have "int m < 1200 * 256" "int m + int n < 2 ^ 32" using b(2,3) by auto
  ultimately have b': "12 dvd px * ?k" "px * ?k < 1200 * 256" "px * ?k + ex * ?k < 2 ^ 32"
    unfolding e .
  have "offset_step d dvd px" using b'(1) step_dvd_iff [OF d] by blast
  moreover have "px < 256 * d" "(px + ex) * 1200 < 2 ^ 32 * d" using d b'(2,3) by auto
  ultimately show ?r using a(4,5) by blast
next
  assume r: ?r
  let ?k = "1200 div d"
  let ?u = "word_of_int (px * ?k) :: u32" and ?v = "word_of_int (ex * ?k) :: u32"
  have k: "0 < ?k" "?k * d = 1200" using d by auto
  have sum: "px * ?k + ex * ?k < 2 ^ 32" using r d by auto
  moreover have nn: "0 \<le> px * ?k" "0 \<le> ex * ?k" using r k by simp_all
  ultimately have "px * ?k < 2 ^ 32" "ex * ?k < 2 ^ 32" by linarith+
  then have u: "int (unat ?u) = px * ?k" and v: "int (unat ?v) = ex * ?k"
    using nn u32_of_int by blast+
  have "12 dvd px * ?k" using r step_dvd_iff [OF d] by blast
  moreover have "px * ?k < 1200 * 256" using r d by auto
  ultimately have "12 dvd int (unat ?u)" "int (unat ?u) < 1200 * 256" using u by simp_all
  then have "12 dvd unat ?u" "unat ?u < 1200 * 256"
    by (metis int_dvd_int_iff of_nat_numeral, linarith)
  then have "12 dvd unat ?u" "unat ?u div 1200 \<le> 255" by simp_all
  moreover have "int (unat ?u) + int (unat ?v) < 2 ^ 32" using sum by (simp only: u v)
  then have "unat ?u + unat ?v < 2 ^ 32"
    by (metis of_nat_add of_nat_less_iff of_nat_numeral of_nat_power)
  moreover have "int (unat ?u) * d = px * 1200" "int (unat ?v) * d = ex * 1200"
    using u v k by (simp_all add: mult.assoc)
  ultimately show ?l using r by blast
qed

lemma to_request_accepts:
  "(\<exists>r. to_request s = Inr r) \<longleftrightarrow>
     x_resolution s \<in> supported \<and> y_resolution s = x_resolution s
     \<and> (data_type s, depth s) \<in> {(2, 8), (3, 24)}
     \<and> \<bar>fs_brightness s\<bar> \<le> 1000 \<and> \<bar>fs_contrast s\<bar> \<le> 1000
     \<and> compression s = 0 \<and> format s = BMP_FORMAT
     \<and> 0 \<le> x_position s \<and> 0 < x_extent s \<and> offset_step (x_resolution s) dvd x_position s
     \<and> x_position s < 256 * x_resolution s
     \<and> (x_position s + x_extent s) * 1200 < 2 ^ 32 * x_resolution s
     \<and> 0 \<le> y_position s \<and> 0 < y_extent s \<and> offset_step (x_resolution s) dvd y_position s
     \<and> y_position s < 256 * x_resolution s
     \<and> (y_position s + y_extent s) * 1200 < 2 ^ 32 * x_resolution s" (is "_ \<longleftrightarrow> ?r")
proof (cases "x_resolution s \<in> supported")
  case False
  then show ?thesis by (simp add: request_iff)
next
  case True
  let ?d = "x_resolution s"
  show ?thesis
  proof
    assume "\<exists>r. to_request s = Inr r"
    then obtain r where r: "to_request s = Inr r" by blast
    show ?r
      using r [unfolded request_iff] axis_request [OF True, of "x_position s" "x_extent s"]
        axis_request [OF True, of "y_position s" "y_extent s"]
      by blast
  next
    assume r: ?r
    obtain x w :: u32 where xw: "int (unat x) * ?d = x_position s * 1200"
        "int (unat w) * ?d = x_extent s * 1200" "12 dvd unat x" "unat x div 1200 \<le> 255"
        "unat x + unat w < 2 ^ 32"
      using r axis_request [OF True, of "x_position s" "x_extent s"] by blast
    obtain y h :: u32 where yh: "int (unat y) * ?d = y_position s * 1200"
        "int (unat h) * ?d = y_extent s * 1200" "12 dvd unat y" "unat y div 1200 \<le> 255"
        "unat y + unat h < 2 ^ 32"
      using r axis_request [OF True, of "y_position s" "y_extent s"] by blast
    have "int (unat (word_of_int ?d :: u32)) = ?d" using True by (intro u32_of_int) auto
    then have "to_request s = Inr \<lparr>dpi = word_of_int ?d, mode = (if depth s = 8 then Gray else Rgb),
        x_units = x, y_units = y, width_units = w, height_units = h\<rparr>"
      unfolding request_iff using r xw yh by auto
    then show "\<exists>r. to_request s = Inr r" by blast
  qed
qed

section \<open>Lookups\<close>

definition value_of :: "property_catalog \<Rightarrow> nat \<Rightarrow> property_value option" where
  "value_of c = map_of (zip (ids c) (initial_values c))"

definition attribute_of :: "property_catalog \<Rightarrow> nat \<Rightarrow> property_attribute option" where
  "attribute_of c = map_of (zip (ids c) (attributes c))"

definition aligned :: "property_catalog \<Rightarrow> bool" where
  "aligned c \<longleftrightarrow> distinct (ids c) \<and> length (names c) = length (ids c)
     \<and> length (initial_values c) = length (ids c) \<and> length (attributes c) = length (ids c)"

lemma map_of_zip_update:
  assumes "distinct xs" and "length ys = length xs" and "k < length xs"
  shows "map_of (zip xs (ys[k := v])) = (map_of (zip xs ys))(xs ! k \<mapsto> v)"
proof
  fix j
  show "map_of (zip xs (ys[k := v])) j = ((map_of (zip xs ys))(xs ! k \<mapsto> v)) j"
  proof (cases "j \<in> set xs")
    case True
    then obtain m where "m < length xs" "j = xs ! m" by (metis in_set_conv_nth)
    then show ?thesis
      using assms by (auto simp: map_of_zip_nth nth_list_update nth_eq_iff_index_eq)
  next
    case False
    then have "map_of (zip xs zs) j = None" for zs :: "'b list"
      by (metis map_of_eq_None_iff in_set_zipE imageE prod.collapse)
    then show ?thesis using False assms(3) by auto
  qed
qed

lemma zip_lookup_inj:
  assumes "distinct xs" and "length ys = length xs" and "length zs = length xs"
    and "map_of (zip xs ys) = map_of (zip xs zs)"
  shows "ys = zs"
proof (rule nth_equalityI)
  show "length ys = length zs" using assms(2,3) by simp
  fix k assume "k < length ys"
  then have "Some (ys ! k) = Some (zs ! k)"
    using assms map_of_zip_nth [of xs ys k] map_of_zip_nth [of xs zs k] by simp
  then show "ys ! k = zs ! k" by simp
qed

lemma index_found:
  assumes "i \<in> set (ids c)"
  obtains k where "index c i = Inr k" and "k < length (ids c)" and "ids c ! k = i"
proof -
  obtain m where "m < length (ids c)" "ids c ! m = i" using assms by (metis in_set_conv_nth)
  then have "List.find (\<lambda>k. ids c ! k = i) [0..<length (ids c)] \<noteq> None"
    by (auto simp: find_None_iff)
  then obtain k where f: "List.find (\<lambda>k. ids c ! k = i) [0..<length (ids c)] = Some k" by blast
  then have "k < length (ids c)" "ids c ! k = i"
    unfolding find_Some_iff by (metis length_upt minus_nat.diff_0 nth_upt add_0)+
  with f show ?thesis by (intro that [of k]) (simp_all add: index_def)
qed

lemma set_values_result:
  assumes "aligned c" and "fst ` set vs \<subseteq> set (ids c)"
  obtains xs where "set_values vs c = Inr (c\<lparr>initial_values := xs\<rparr>)"
    and "length xs = length (ids c)"
    and "map_of (zip (ids c) xs) = value_of c ++ map_of (rev (map (apsnd Long) vs))"
  using assms
proof (induction vs arbitrary: c thesis)
  case Nil
  show ?case by (rule Nil(1) [of "initial_values c"]) (use Nil in \<open>simp_all add: value_of_def aligned_def\<close>)
next
  case (Cons e vs)
  obtain i v where e: "e = (i, v)" by force
  then have "i \<in> set (ids c)" using Cons.prems(3) by simp
  then obtain k where k: "index c i = Inr k" "k < length (ids c)" "ids c ! k = i" by (rule index_found)
  let ?c = "c\<lparr>initial_values := (initial_values c)[k := Long v]\<rparr>"
  have al: "aligned ?c" using Cons.prems(2) by (simp add: aligned_def)
  have v: "value_of ?c = (value_of c)(i \<mapsto> Long v)"
    using Cons.prems(2) k map_of_zip_update [of "ids c" "initial_values c" k "Long v"]
    by (simp add: value_of_def aligned_def)
  obtain xs where "set_values vs ?c = Inr (?c\<lparr>initial_values := xs\<rparr>)" "length xs = length (ids ?c)"
    "map_of (zip (ids ?c) xs) = value_of ?c ++ map_of (rev (map (apsnd Long) vs))"
    by (rule Cons.IH [OF _ al]) (use Cons.prems(3) e in auto)
  then show ?case
    by (intro Cons.prems(1) [of xs]) (simp_all add: e k v)
qed

lemma set_attributes_result:
  assumes "aligned c" and "fst ` set vs \<subseteq> set (ids c)"
  obtains xs where "set_attributes vs c = Inr (c\<lparr>attributes := xs\<rparr>)"
    and "length xs = length (ids c)"
    and "map_of (zip (ids c) xs) = attribute_of c ++ map_of (rev vs)"
  using assms
proof (induction vs arbitrary: c thesis)
  case Nil
  show ?case by (rule Nil(1) [of "attributes c"]) (use Nil in \<open>simp_all add: attribute_of_def aligned_def\<close>)
next
  case (Cons e vs)
  obtain i v where e: "e = (i, v)" by force
  then have "i \<in> set (ids c)" using Cons.prems(3) by simp
  then obtain k where k: "index c i = Inr k" "k < length (ids c)" "ids c ! k = i" by (rule index_found)
  let ?c = "c\<lparr>attributes := (attributes c)[k := v]\<rparr>"
  have al: "aligned ?c" using Cons.prems(2) by (simp add: aligned_def)
  have v: "attribute_of ?c = (attribute_of c)(i \<mapsto> v)"
    using Cons.prems(2) k map_of_zip_update [of "ids c" "attributes c" k "v"]
    by (simp add: attribute_of_def aligned_def)
  obtain xs where "set_attributes vs ?c = Inr (?c\<lparr>attributes := xs\<rparr>)" "length xs = length (ids ?c)"
    "map_of (zip (ids ?c) xs) = attribute_of ?c ++ map_of (rev vs)"
    by (rule Cons.IH [OF _ al]) (use Cons.prems(3) e in auto)
  then show ?case
    by (intro Cons.prems(1) [of xs]) (simp_all add: e k v)
qed

section \<open>Sizes\<close>

definition bmp_bytes :: "int \<Rightarrow> int \<Rightarrow> int \<Rightarrow> int" where
  "bmp_bytes w h bits = (w * bits + 31) div 32 * 4 * h + 54 + (if bits = 8 then 1024 else 0)"

lemma as_u64_nonneg: "0 \<le> i \<Longrightarrow> i < 2 ^ 64 \<Longrightarrow> as_u64 i = nat i"
  by (simp add: as_u64_def)

lemma i32_try_from_Inr [result_simps]: "i32_try_from n = Inr i \<longleftrightarrow> i = int n \<and> i < 2 ^ 31"
  by (auto simp: i32_try_from_def result_simps)

lemma bmp_size_iff:
  assumes "0 < w" "w < 2 ^ 31" "0 < h" "h < 2 ^ 31" and bits: "bits \<in> {8, 24}"
  shows "bmp_size w h bits = Inr n \<longleftrightarrow> n = bmp_bytes w h bits \<and> n < 2 ^ 31"
proof -
  define W H B where "W = nat w" and "H = nat h" and "B = nat bits"
  have wh: "w = int W" "h = int H" "bits = int B" using assms by (auto simp: W_def H_def B_def)
  have B: "B \<in> {8, 24}" using bits by (auto simp: B_def)
  have b: "W < 2 ^ 31" "H < 2 ^ 31" using assms wh by simp_all
  have wb: "W * B < 2 ^ 36" using b B by auto
  let ?r = "(W * B + 31) div 32"
  have r: "?r \<le> 2 ^ 31" using wb by simp
  have "?r * 4 * H \<le> 2 ^ 33 * 2 ^ 31 - 2 ^ 33"
  proof -
    have "?r * 4 * H \<le> 2 ^ 33 * (2 ^ 31 - 1)" using r b by (intro mult_le_mono) simp_all
    then show ?thesis by simp
  qed
  then have tot: "?r * 4 * H + 1078 < 2 ^ 64" by simp
  have eq: "bmp_bytes w h bits = int (?r * 4 * H + 54 + (if B = 8 then 1024 else 0))"
    unfolding wh bmp_bytes_def by (simp add: zdiv_int)
  have u: "as_u64 h = H" "as_u64 bits = B"
    using b B unfolding wh by (auto simp: as_u64_nonneg)
  have c: "checked_mul64 W B = Some (W * B)" "checked_mul64 ?r 4 = Some (?r * 4)"
    "checked_mul64 (?r * 4) H = Some (?r * 4 * H)"
    "checked_add64 (?r * 4 * H) (14 + 40 + (if B = 8 then 1024 else 0))
      = Some (?r * 4 * H + 54 + (if B = 8 then 1024 else 0))"
    using wb r tot by (simp_all, auto)
  have t: "u64_try_from w = Inr W" unfolding wh by (simp add: u64_try_from_def)
  have p: "(if bits = 8 then 1024 else 0 :: nat) = (if B = 8 then 1024 else 0)" unfolding wh by simp
  have "bmp_size w h bits = i32_try_from (?r * 4 * H + 54 + (if B = 8 then 1024 else 0))"
    unfolding bmp_size_def Let_def t u p and_then_simps c(1) ok_or_simps c(2) c(3) Option.bind.simps c(4) ..
  then show ?thesis unfolding eq by (simp only: i32_try_from_Inr)
qed

lemma min_size_supported:
  assumes "d \<in> supported"
  obtains n where "min_size_thousandths d = Inr n" and "n = (999 + d) div d"
  using assms
  by (auto simp: min_size_thousandths_def u64_try_from_def i32_try_from_def i32_of_nat_def checked_add64_def)

definition pixels_at :: "u32 \<Rightarrow> int \<Rightarrow> int" where
  "pixels_at units d = (let n = uint units * d div 1200 in if n < 2 ^ 31 then n else 0)"

lemma pixels_at_range: "0 \<le> d \<Longrightarrow> 0 \<le> pixels_at units d \<and> pixels_at units d < 2 ^ 31"
  by (simp add: pixels_at_def Let_def pos_imp_zdiv_nonneg_iff)

lemma pixels_at_units: "0 \<le> d \<Longrightarrow> pixels_at units d * 1200 \<le> uint units * d"
  by (auto simp: pixels_at_def Let_def)

lemma pixels_from_units_at:
  assumes "d \<in> supported"
  shows "case_sum (\<lambda>_. 0) id (pixels_from_units units d) = pixels_at units d"
proof -
  define D where "D = nat d"
  have d: "d = int D" "0 \<le> d" and D: "D \<le> 600" using assms by (auto simp: D_def)
  have "unat units * D \<le> 4294967296 * 600"
    using D less_imp_le [OF unat_u32_less, of units] by (intro mult_le_mono) auto
  then have m: "checked_mul64 (unat units) D = Some (unat units * D)"
    by (simp only: checked_mul64_Some) simp
  have t: "u64_try_from (int D) = Inr D" by (simp add: u64_try_from_def)
  have "pixels_from_units units d = i32_try_from (unat units * D div 1200)"
    unfolding pixels_from_units_def d(1) t and_then_simps m ok_or_simps ..
  moreover have "uint units * d div 1200 = int (unat units * D div 1200)"
    unfolding d(1) by (simp add: zdiv_int)
  ultimately show ?thesis
    by (simp add: i32_try_from_def i32_of_nat_def pixels_at_def Let_def)
qed

lemma max_extent_flatbed:
  assumes "item_kind c = Flatbed" and "d \<in> set (cat_resolutions c)" and "d \<in> supported"
  shows "max_extent c d = (pixels_at (cat_width c) d, pixels_at (cat_height c) d)"
  using assms by (simp add: max_extent_def pixels_from_units_at)

lemma ends_outside_iff:
  assumes "0 \<le> a" "0 \<le> b" "m < 2 ^ 31"
  shows "ends_outside a b m \<longleftrightarrow> m < a + b"
  using assms by (auto simp: ends_outside_def checked_i32_def is_i32_def)

section \<open>Selecting settings\<close>

definition selected_ids :: "nat list" where
  "selected_ids = [WIA_IPS_XRES, WIA_IPS_YRES, WIA_IPS_XPOS, WIA_IPS_YPOS, WIA_IPS_XEXTENT,
     WIA_IPS_YEXTENT, WIA_IPA_DATATYPE, WIA_IPA_DEPTH, WIA_IPA_CHANNELS_PER_PIXEL,
     WIA_IPA_PIXELS_PER_LINE, WIA_IPA_NUMBER_OF_LINES, WIA_IPA_ITEM_SIZE,
     WIA_IPS_MIN_HORIZONTAL_SIZE, WIA_IPS_MIN_VERTICAL_SIZE]"

definition flatbed_shape :: "property_catalog \<Rightarrow> bool" where
  "flatbed_shape c \<longleftrightarrow> item_kind c = Flatbed \<and> aligned c \<and> set selected_ids \<subseteq> set (ids c)
     \<and> set (cat_resolutions c) \<subseteq> supported"

abbreviation "bed_width c s \<equiv> pixels_at (cat_width c) (x_resolution s)"
abbreviation "bed_height c s \<equiv> pixels_at (cat_height c) (x_resolution s)"

definition accepts :: "property_catalog \<Rightarrow> flatbed_settings \<Rightarrow> bool" where
  "accepts c s \<longleftrightarrow> x_resolution s \<in> set (cat_resolutions c) \<and> data_type s \<in> set (data_types c)
     \<and> (\<exists>r. to_request s = Inr r) \<and> x_position s + x_extent s \<le> bed_width c s
     \<and> y_position s + y_extent s \<le> bed_height c s
     \<and> bmp_bytes (x_extent s) (y_extent s) (depth s) < 2 ^ 31"

abbreviation "least_size d \<equiv> (999 + d) div d"

definition selects :: "property_catalog \<Rightarrow> flatbed_settings \<Rightarrow> property_catalog \<Rightarrow> bool" where
  "selects c s c' \<longleftrightarrow>
     c' = c\<lparr>initial_values := initial_values c', attributes := attributes c'\<rparr> \<and> aligned c'
     \<and> value_of c' = value_of c ++ map_of (rev (map (apsnd Long) (selected_values s
         (bmp_bytes (x_extent s) (y_extent s) (depth s)) (least_size (x_resolution s)))))
     \<and> attribute_of c' = attribute_of c ++ map_of (rev (selected_lists c s
         @ selected_ranges s (bed_width c s) (bed_height c s) (offset_step (x_resolution s))))"

lemma apply_selection:
  assumes "aligned c" and "fst ` set vs \<subseteq> set (ids c)" and "fst ` set as \<subseteq> set (ids c)"
    and "fst ` set bs \<subseteq> set (ids c)"
  shows "and_then (set_values vs c) (\<lambda>c. and_then (set_attributes as c) (set_attributes bs)) = Inr c' \<longleftrightarrow>
     c' = c\<lparr>initial_values := initial_values c', attributes := attributes c'\<rparr> \<and> aligned c'
     \<and> value_of c' = value_of c ++ map_of (rev (map (apsnd Long) vs))
     \<and> attribute_of c' = attribute_of c ++ map_of (rev (as @ bs))"
proof -
  obtain xs where x: "set_values vs c = Inr (c\<lparr>initial_values := xs\<rparr>)" "length xs = length (ids c)"
    "map_of (zip (ids c) xs) = value_of c ++ map_of (rev (map (apsnd Long) vs))"
    using assms(1,2) by (rule set_values_result)
  let ?c = "c\<lparr>initial_values := xs\<rparr>"
  have al: "aligned ?c" using assms(1) x(2) by (simp add: aligned_def)
  obtain ys where y: "set_attributes as ?c = Inr (?c\<lparr>attributes := ys\<rparr>)" "length ys = length (ids ?c)"
    "map_of (zip (ids ?c) ys) = attribute_of ?c ++ map_of (rev as)"
    by (rule set_attributes_result [OF al]) (use assms(3) in auto)
  let ?d = "?c\<lparr>attributes := ys\<rparr>"
  have al': "aligned ?d" using al y(2) by (simp add: aligned_def)
  obtain zs where z: "set_attributes bs ?d = Inr (?d\<lparr>attributes := zs\<rparr>)" "length zs = length (ids ?d)"
    "map_of (zip (ids ?d) zs) = attribute_of ?d ++ map_of (rev bs)"
    by (rule set_attributes_result [OF al']) (use assms(4) in auto)
  let ?e = "?d\<lparr>attributes := zs\<rparr>"
  have run: "and_then (set_values vs c) (\<lambda>c. and_then (set_attributes as c) (set_attributes bs)) = Inr ?e"
    using x(1) y(1) z(1) by simp
  have e: "aligned ?e" "value_of ?e = value_of c ++ map_of (rev (map (apsnd Long) vs))"
    "attribute_of ?e = attribute_of c ++ map_of (rev (as @ bs))"
    using al' z(2,3) y(3) x(3) by (simp_all add: aligned_def value_of_def attribute_of_def)
  show ?thesis
  proof
    assume "and_then (set_values vs c) (\<lambda>c. and_then (set_attributes as c) (set_attributes bs)) = Inr c'"
    then have "c' = ?e" using run by simp
    then show "c' = c\<lparr>initial_values := initial_values c', attributes := attributes c'\<rparr> \<and> aligned c'
     \<and> value_of c' = value_of c ++ map_of (rev (map (apsnd Long) vs))
     \<and> attribute_of c' = attribute_of c ++ map_of (rev (as @ bs))" using e by simp
  next
    assume r: "c' = c\<lparr>initial_values := initial_values c', attributes := attributes c'\<rparr> \<and> aligned c'
     \<and> value_of c' = value_of c ++ map_of (rev (map (apsnd Long) vs))
     \<and> attribute_of c' = attribute_of c ++ map_of (rev (as @ bs))"
    then have i: "ids c' = ids c" by (metis property_catalog.select_convs(2) property_catalog.surjective
          property_catalog.update_convs(4) property_catalog.update_convs(5))
    have "initial_values c' = xs"
      by (rule zip_lookup_inj [of "ids c"]) (use r i x assms(1) in \<open>simp_all add: aligned_def value_of_def\<close>)
    moreover have "attributes c' = zs"
      by (rule zip_lookup_inj [of "ids c"])
        (use r i z y e assms(1) in \<open>simp_all add: aligned_def attribute_of_def\<close>)
    ultimately have "c' = ?e" using r by simp
    then show "and_then (set_values vs c) (\<lambda>c. and_then (set_attributes as c) (set_attributes bs)) = Inr c'"
      using run by simp
  qed
qed

lemma with_settings_iff:
  assumes "flatbed_shape c"
  shows "with_settings c s = Inr c' \<longleftrightarrow> accepts c s \<and> selects c s c'"
proof (cases "x_resolution s \<in> set (cat_resolutions c) \<and> data_type s \<in> set (data_types c)
    \<and> (\<exists>r. to_request s = Inr r)")
  case False
  then show ?thesis
    by (cases "to_request s") (auto simp: with_settings_def accepts_def)
next
  case True
  then obtain r where r: "to_request s = Inr r" by blast
  have d: "x_resolution s \<in> supported" using True assms by (auto simp: flatbed_shape_def)
  have req: "0 \<le> x_position s" "0 < x_extent s" "0 \<le> y_position s" "0 < y_extent s"
      "depth s \<in> {8, 24}"
    using True to_request_accepts [of s] by auto
  have al: "aligned c" "assert_aligned c = Inr ()" and ids: "set selected_ids \<subseteq> set (ids c)"
    using assms by (simp_all add: flatbed_shape_def aligned_def assert_aligned_def)
  have ext: "max_extent c (x_resolution s) = (bed_width c s, bed_height c s)"
    using True assms d by (intro max_extent_flatbed) (auto simp: flatbed_shape_def)
  have rng: "bed_width c s < 2 ^ 31" "bed_height c s < 2 ^ 31"
    using d pixels_at_range [of "x_resolution s"] by auto
  have out: "ends_outside (x_position s) (x_extent s) (bed_width c s)
        \<or> ends_outside (y_position s) (y_extent s) (bed_height c s) \<longleftrightarrow>
      \<not> (x_position s + x_extent s \<le> bed_width c s \<and> y_position s + y_extent s \<le> bed_height c s)"
    using req rng by (auto simp: ends_outside_iff)
  show ?thesis
  proof (cases "x_position s + x_extent s \<le> bed_width c s \<and> y_position s + y_extent s \<le> bed_height c s")
    case False
    then show ?thesis using True r out by (auto simp: with_settings_def accepts_def al(2) ext)
  next
    case inside: True
    then have "x_extent s < 2 ^ 31" "y_extent s < 2 ^ 31" using req rng by linarith+
    note sz = bmp_size_iff [OF req(2) this(1) req(4) this(2) req(5)]
    obtain n where n: "min_size_thousandths (x_resolution s) = Inr n" "n = least_size (x_resolution s)"
      using d by (rule min_size_supported)
    show ?thesis
    proof (cases "bmp_bytes (x_extent s) (y_extent s) (depth s) < 2 ^ 31")
      case False
      then have "\<exists>e. bmp_size (x_extent s) (y_extent s) (depth s) = Inl e"
        using sz by (metis sum.exhaust)
      then show ?thesis using True r out inside False
        by (auto simp: with_settings_def accepts_def al(2) ext)
    next
      case small: True
      then have b: "bmp_size (x_extent s) (y_extent s) (depth s)
          = Inr (bmp_bytes (x_extent s) (y_extent s) (depth s))" using sz by blast
      have "accepts c s" using True inside small by (simp add: accepts_def)
      moreover have "with_settings c s = and_then (set_values (selected_values s
            (bmp_bytes (x_extent s) (y_extent s) (depth s)) (least_size (x_resolution s))) c)
          (\<lambda>c'. and_then (set_attributes (selected_lists c s) c')
            (set_attributes (selected_ranges s (bed_width c s) (bed_height c s)
              (offset_step (x_resolution s)))))"
        using True r out inside assms
        by (simp add: with_settings_def al(2) ext b n Let_def flatbed_shape_def)
      moreover have "(\<dots> = Inr c') = selects c s c'"
        unfolding selects_def
        by (rule apply_selection [OF al(1)])
          (use ids in \<open>auto simp: selected_ids_def selected_values_def setting_values_def
             selected_lists_def selected_ranges_def\<close>)
      ultimately show ?thesis by simp
    qed
  qed
qed

lemma lookup_of_map:
  assumes "dom m = set xs"
  shows "map_of (zip xs (map (\<lambda>i. the (m i)) xs)) = m"
  by (auto simp: map_of_zip_map fun_eq_iff domIff simp flip: assms)

lemma dom_value_of: "aligned c \<Longrightarrow> dom (value_of c) = set (ids c)"
  by (simp add: value_of_def aligned_def)

lemma dom_attribute_of: "aligned c \<Longrightarrow> dom (attribute_of c) = set (ids c)"
  by (simp add: attribute_of_def aligned_def)

lemma selects_exists:
  assumes "flatbed_shape c"
  obtains c' where "selects c s c'"
proof -
  have al: "aligned c" and ids: "set selected_ids \<subseteq> set (ids c)"
    using assms by (simp_all add: flatbed_shape_def)
  let ?v = "value_of c ++ map_of (rev (map (apsnd Long) (selected_values s
      (bmp_bytes (x_extent s) (y_extent s) (depth s)) (least_size (x_resolution s)))))"
  let ?a = "attribute_of c ++ map_of (rev (selected_lists c s
      @ selected_ranges s (bed_width c s) (bed_height c s) (offset_step (x_resolution s))))"
  have "dom ?v = set (ids c)"
    using ids by (auto simp: dom_value_of [OF al] dom_map_of_conv_image_fst selected_ids_def
        selected_values_def setting_values_def)
  moreover have "dom ?a = set (ids c)"
    using ids by (auto simp: dom_attribute_of [OF al] dom_map_of_conv_image_fst selected_ids_def
        selected_lists_def selected_ranges_def)
  ultimately show ?thesis
    using al
    by (intro that [of "c\<lparr>initial_values := map (\<lambda>i. the (?v i)) (ids c),
          attributes := map (\<lambda>i. the (?a i)) (ids c)\<rparr>"])
       (simp add: selects_def value_of_def attribute_of_def aligned_def lookup_of_map)
qed

lemma with_settings_total:
  assumes "flatbed_shape c" and "accepts c s"
  obtains c' where "with_settings c s = Inr c'" and "selects c s c'"
  using selects_exists [OF assms(1), of s] with_settings_iff [OF assms(1)] assms(2) by metis

section \<open>Validity\<close>

fun valid_under :: "property_attribute \<Rightarrow> property_value \<Rightarrow> bool" where
  "valid_under (NoValidity a vt) v \<longleftrightarrow> a AND WIA_PROP_NONE \<noteq> 0
     \<and> vt = (case v of Long _ \<Rightarrow> VT_I4 | Guid _ \<Rightarrow> VT_CLSID | Text _ \<Rightarrow> VT_BSTR)"
| "valid_under (RangeLong a lo nominal hi step) v \<longleftrightarrow> a AND WIA_PROP_RANGE \<noteq> 0
     \<and> lo \<le> nominal \<and> nominal \<le> hi \<and> 0 < step
     \<and> (case v of Long n \<Rightarrow> lo \<le> n \<and> n \<le> hi \<and> step dvd n - lo | _ \<Rightarrow> False)"
| "valid_under (ListLong a vs nominal) v \<longleftrightarrow> a AND WIA_PROP_LIST \<noteq> 0 \<and> nominal \<in> set vs
     \<and> (case v of Long n \<Rightarrow> n \<in> set vs | _ \<Rightarrow> False)"
| "valid_under (ListGuid a vs nominal) v \<longleftrightarrow> a AND WIA_PROP_LIST \<noteq> 0 \<and> nominal \<in> set vs
     \<and> (case v of Guid g \<Rightarrow> g \<in> set vs | _ \<Rightarrow> False)"
| "valid_under (FlagLong a nominal bits) v \<longleftrightarrow> a AND WIA_PROP_FLAG \<noteq> 0
     \<and> nominal AND NOT bits = 0 \<and> (case v of Long n \<Rightarrow> n AND NOT bits = 0 | _ \<Rightarrow> False)"

definition well_typed :: "property_catalog \<Rightarrow> bool" where
  "well_typed c \<longleftrightarrow> aligned c \<and> list_all2 valid_under (attributes c) (initial_values c)"

lemma well_typed_lookup:
  assumes "aligned c"
  shows "well_typed c \<longleftrightarrow>
    (\<forall>i \<in> set (ids c). valid_under (the (attribute_of c i)) (the (value_of c i)))"
proof -
  have "(\<forall>k < length (ids c). valid_under (attributes c ! k) (initial_values c ! k)) \<longleftrightarrow>
      (\<forall>k < length (ids c). valid_under (the (attribute_of c (ids c ! k))) (the (value_of c (ids c ! k))))"
    using assms by (simp add: attribute_of_def value_of_def map_of_zip_nth aligned_def)
  also have "\<dots> \<longleftrightarrow> (\<forall>i \<in> set (ids c). valid_under (the (attribute_of c i)) (the (value_of c i)))"
    by (simp add: all_set_conv_all_nth)
  finally show ?thesis using assms
    by (simp add: well_typed_def list_all2_conv_all_nth aligned_def)
qed

lemmas access_defs =
  rw_list_def ro_none_def rw_range_def WIA_PROP_READ_def WIA_PROP_WRITE_def WIA_PROP_RW_def
  WIA_PROP_NONE_def WIA_PROP_RANGE_def WIA_PROP_LIST_def WIA_PROP_FLAG_def WIA_PROP_CACHEABLE_def

lemma valid_under_simps [simp]:
  "valid_under (ro_none vt) v \<longleftrightarrow> vt = (case v of Long _ \<Rightarrow> VT_I4 | Guid _ \<Rightarrow> VT_CLSID | Text _ \<Rightarrow> VT_BSTR)"
  "valid_under (rw_list vs m) (Long n) \<longleftrightarrow> m \<in> set vs \<and> n \<in> set vs"
  "valid_under (rw_range lo m hi) (Long n) \<longleftrightarrow> lo \<le> m \<and> m \<le> hi \<and> lo \<le> n \<and> n \<le> hi"
  by (auto simp: access_defs)

lemma rw_range_flag [simp]: "0 < (WIA_PROP_RW OR WIA_PROP_RANGE) AND WIA_PROP_RANGE"
  by (simp add: access_defs)

definition flatbed_typed :: "property_catalog \<Rightarrow> bool" where
  "flatbed_typed c \<longleftrightarrow> flatbed_shape c \<and> well_typed c \<and> set (data_types c) \<subseteq> {2, 3}
     \<and> (\<exists>d \<in> set (cat_resolutions c). attribute_of c WIA_IPS_XRES = Some (rw_list (cat_resolutions c) d))
     \<and> (\<exists>t \<in> set (data_types c). attribute_of c WIA_IPA_DATATYPE = Some (rw_list (data_types c) t))
     \<and> (\<forall>i \<in> {WIA_IPA_CHANNELS_PER_PIXEL, WIA_IPA_PIXELS_PER_LINE, WIA_IPA_NUMBER_OF_LINES,
          WIA_IPA_ITEM_SIZE, WIA_IPS_MIN_HORIZONTAL_SIZE, WIA_IPS_MIN_VERTICAL_SIZE}.
          attribute_of c i = Some (ro_none VT_I4))"

lemma selects_frame:
  assumes "selects c s c'"
  shows "item_kind c' = item_kind c" "ids c' = ids c" "names c' = names c"
    "cat_resolutions c' = cat_resolutions c" "data_types c' = data_types c"
    "default_resolution c' = default_resolution c" "cat_width c' = cat_width c"
    "cat_height c' = cat_height c" "aligned c'"
proof -
  from assms have e: "c' = c\<lparr>initial_values := initial_values c', attributes := attributes c'\<rparr>"
    and a: "aligned c'" by (simp_all add: selects_def)
  show "aligned c'" by (rule a)
  show "item_kind c' = item_kind c" by (subst e) simp
  show "ids c' = ids c" by (subst e) simp
  show "names c' = names c" by (subst e) simp
  show "cat_resolutions c' = cat_resolutions c" by (subst e) simp
  show "data_types c' = data_types c" by (subst e) simp
  show "default_resolution c' = default_resolution c" by (subst e) simp
  show "cat_width c' = cat_width c" by (subst e) simp
  show "cat_height c' = cat_height c" by (subst e) simp
qed

lemmas selection_defs =
  selected_values_def setting_values_def selected_lists_def selected_ranges_def property_id_defs

lemma selected_outside:
  assumes "selects c s c'" and "i \<notin> set selected_ids"
  shows "value_of c' i = value_of c i" "attribute_of c' i = attribute_of c i"
proof -
  have "i \<notin> dom (map_of (rev (map (apsnd Long) (selected_values s
         (bmp_bytes (x_extent s) (y_extent s) (depth s)) (least_size (x_resolution s))))))"
    using assms(2) by (auto simp: dom_map_of_conv_image_fst selected_ids_def selected_values_def
        setting_values_def)
  then show "value_of c' i = value_of c i"
    using assms(1) by (simp add: selects_def map_add_dom_app_simps)
  have "i \<notin> dom (map_of (rev (selected_lists c s
         @ selected_ranges s (bed_width c s) (bed_height c s) (offset_step (x_resolution s)))))"
    using assms(2) by (auto simp: dom_map_of_conv_image_fst selected_ids_def selected_lists_def
        selected_ranges_def)
  then show "attribute_of c' i = attribute_of c i"
    using assms(1) by (simp add: selects_def map_add_dom_app_simps del: rev_append)
qed

lemma selected_inside:
  assumes "selects c s c'"
  shows "value_of c' WIA_IPS_XRES = Some (Long (x_resolution s))"
    "value_of c' WIA_IPS_YRES = Some (Long (y_resolution s))"
    "value_of c' WIA_IPS_XPOS = Some (Long (x_position s))"
    "value_of c' WIA_IPS_YPOS = Some (Long (y_position s))"
    "value_of c' WIA_IPS_XEXTENT = Some (Long (x_extent s))"
    "value_of c' WIA_IPS_YEXTENT = Some (Long (y_extent s))"
    "value_of c' WIA_IPA_DATATYPE = Some (Long (data_type s))"
    "value_of c' WIA_IPA_DEPTH = Some (Long (depth s))"
    "value_of c' WIA_IPA_CHANNELS_PER_PIXEL = Some (Long (channels_for (data_type s)))"
    "value_of c' WIA_IPA_PIXELS_PER_LINE = Some (Long (x_extent s))"
    "value_of c' WIA_IPA_NUMBER_OF_LINES = Some (Long (y_extent s))"
    "value_of c' WIA_IPA_ITEM_SIZE = Some (Long (bmp_bytes (x_extent s) (y_extent s) (depth s)))"
    "value_of c' WIA_IPS_MIN_HORIZONTAL_SIZE = Some (Long (least_size (x_resolution s)))"
    "value_of c' WIA_IPS_MIN_VERTICAL_SIZE = Some (Long (least_size (x_resolution s)))"
    "attribute_of c' WIA_IPS_XRES = attribute_of c WIA_IPS_XRES"
    "attribute_of c' WIA_IPA_DATATYPE = attribute_of c WIA_IPA_DATATYPE"
    "attribute_of c' WIA_IPA_CHANNELS_PER_PIXEL = attribute_of c WIA_IPA_CHANNELS_PER_PIXEL"
    "attribute_of c' WIA_IPA_PIXELS_PER_LINE = attribute_of c WIA_IPA_PIXELS_PER_LINE"
    "attribute_of c' WIA_IPA_NUMBER_OF_LINES = attribute_of c WIA_IPA_NUMBER_OF_LINES"
    "attribute_of c' WIA_IPA_ITEM_SIZE = attribute_of c WIA_IPA_ITEM_SIZE"
    "attribute_of c' WIA_IPS_MIN_HORIZONTAL_SIZE = attribute_of c WIA_IPS_MIN_HORIZONTAL_SIZE"
    "attribute_of c' WIA_IPS_MIN_VERTICAL_SIZE = attribute_of c WIA_IPS_MIN_VERTICAL_SIZE"
    "attribute_of c' WIA_IPS_YRES = Some (rw_list (cat_resolutions c) (y_resolution s))"
    "attribute_of c' WIA_IPA_DEPTH = Some (rw_list (all_depths c) (depth s))"
    "attribute_of c' WIA_IPS_XPOS = Some (RangeLong (WIA_PROP_RW OR WIA_PROP_RANGE) 0 0
       (tdiv (bed_width c s - x_extent s) (offset_step (x_resolution s)) * offset_step (x_resolution s))
       (offset_step (x_resolution s)))"
    "attribute_of c' WIA_IPS_YPOS = Some (RangeLong (WIA_PROP_RW OR WIA_PROP_RANGE) 0 0
       (tdiv (bed_height c s - y_extent s) (offset_step (x_resolution s)) * offset_step (x_resolution s))
       (offset_step (x_resolution s)))"
    "attribute_of c' WIA_IPS_XEXTENT = Some (RangeLong (WIA_PROP_RW OR WIA_PROP_RANGE) 1
       (bed_width c s - x_position s) (bed_width c s - x_position s) 1)"
    "attribute_of c' WIA_IPS_YEXTENT = Some (RangeLong (WIA_PROP_RW OR WIA_PROP_RANGE) 1
       (bed_height c s - y_position s) (bed_height c s - y_position s) 1)"
  using assms by (simp_all add: selects_def selection_defs)

end
