(* ===== verification/Catalog_Properties.thy ===== *)
theory Catalog_Properties
  imports Catalog_Selection
begin

unbundle bit_operations_syntax

text \<open>
  The catalogs the driver publishes are well typed, and the ranges they advertise are
  exactly the values a client may choose next.
\<close>

lemma step_pos: "d \<in> supported \<Longrightarrow> 0 < offset_step d"
  by (auto simp: offset_step_table)

lemma floor_to_multiple:
  fixes k :: int
  assumes "0 < k" and "k dvd p" and "p \<le> m" and "0 \<le> m"
  shows "p \<le> tdiv m k * k"
proof -
  from assms(2) obtain q where q: "p = k * q" ..
  have "p div k \<le> m div k" using assms(1,3) by (simp add: zdiv_mono1)
  then show ?thesis using q assms(1,4) by (simp add: mult.commute [of k])
qed

lemma accepted_settings:
  assumes "flatbed_shape c" and "accepts c s"
  shows "x_resolution s \<in> supported" "y_resolution s = x_resolution s"
    "(data_type s, depth s) \<in> {(2, 8), (3, 24)}"
    "0 \<le> x_position s" "0 < x_extent s" "offset_step (x_resolution s) dvd x_position s"
    "0 \<le> y_position s" "0 < y_extent s" "offset_step (x_resolution s) dvd y_position s"
    "x_position s + x_extent s \<le> bed_width c s" "y_position s + y_extent s \<le> bed_height c s"
    "x_resolution s \<in> set (cat_resolutions c)" "data_type s \<in> set (data_types c)"
  using assms to_request_accepts [of s] by (auto simp: accepts_def flatbed_shape_def)

lemma selection_typed:
  assumes c: "flatbed_typed c" and acc: "accepts c s" and sel: "selects c s c'"
  shows "flatbed_typed c'"
proof -
  have shape: "flatbed_shape c" and wt: "well_typed c" using c by (simp_all add: flatbed_typed_def)
  note frame = selects_frame [OF sel] and inside = selected_inside [OF sel]
    and s = accepted_settings [OF shape acc]
  have dep: "depth s \<in> set (all_depths c)"
    using s(3,13) by (force simp: all_depths_def depth_for_def WIA_DATA_GRAYSCALE_def WIA_DATA_COLOR_def)
  have fl: "x_position s \<le> tdiv (bed_width c s - x_extent s) (offset_step (x_resolution s)) * offset_step (x_resolution s)"
    "y_position s \<le> tdiv (bed_height c s - y_extent s) (offset_step (x_resolution s)) * offset_step (x_resolution s)"
    using s by (intro floor_to_multiple step_pos; simp)+
  obtain d t where d: "attribute_of c WIA_IPS_XRES = Some (rw_list (cat_resolutions c) d)"
        "d \<in> set (cat_resolutions c)"
      and t: "attribute_of c WIA_IPA_DATATYPE = Some (rw_list (data_types c) t)" "t \<in> set (data_types c)"
    using c by (auto simp: flatbed_typed_def)
  have ro: "attribute_of c WIA_IPA_CHANNELS_PER_PIXEL = Some (ro_none VT_I4)"
    "attribute_of c WIA_IPA_PIXELS_PER_LINE = Some (ro_none VT_I4)"
    "attribute_of c WIA_IPA_NUMBER_OF_LINES = Some (ro_none VT_I4)"
    "attribute_of c WIA_IPA_ITEM_SIZE = Some (ro_none VT_I4)"
    "attribute_of c WIA_IPS_MIN_HORIZONTAL_SIZE = Some (ro_none VT_I4)"
    "attribute_of c WIA_IPS_MIN_VERTICAL_SIZE = Some (ro_none VT_I4)"
    using c by (simp_all add: flatbed_typed_def)
  have updated: "valid_under (the (attribute_of c' i)) (the (value_of c' i))" if "i \<in> set selected_ids" for i
  proof -
    have "0 \<le> tdiv (bed_width c s - x_extent s) (offset_step (x_resolution s)) * offset_step (x_resolution s)"
      "0 \<le> tdiv (bed_height c s - y_extent s) (offset_step (x_resolution s)) * offset_step (x_resolution s)"
      using s(4,7) fl by linarith+
    moreover have "1 \<le> bed_width c s - x_position s" "x_extent s \<le> bed_width c s - x_position s"
      "1 \<le> bed_height c s - y_position s" "y_extent s \<le> bed_height c s - y_position s" "1 \<le> x_extent s" "1 \<le> y_extent s"
      using s by linarith+
    ultimately show ?thesis
      using that unfolding selected_ids_def list.set insert_iff
      by (elim disjE) (simp_all add: inside d t ro dep fl step_pos s del: insert_iff)
  qed
  have "valid_under (the (attribute_of c' i)) (the (value_of c' i))" if "i \<in> set (ids c)" for i
  proof (cases "i \<in> set selected_ids")
    case False
    then show ?thesis
      using that wt selected_outside [OF sel False] shape
      by (simp add: well_typed_lookup flatbed_shape_def)
  qed (rule updated)
  then have "well_typed c'" using frame by (simp add: well_typed_lookup)
  then show ?thesis
    using c frame inside by (auto simp: flatbed_typed_def flatbed_shape_def)
qed

section \<open>The initial catalogs\<close>

lemma push_all_props_fields:
  "ids (push_all_props es c) = ids c @ map fst es"
  "names (push_all_props es c) = names c @ map (fst \<circ> snd) es"
  "initial_values (push_all_props es c) = initial_values c @ map (fst \<circ> snd \<circ> snd) es"
  "attributes (push_all_props es c) = attributes c @ map (snd \<circ> snd \<circ> snd) es"
  "item_kind (push_all_props es c) = item_kind c"
  "cat_resolutions (push_all_props es c) = cat_resolutions c"
  "data_types (push_all_props es c) = data_types c"
  "default_resolution (push_all_props es c) = default_resolution c"
  "cat_width (push_all_props es c) = cat_width c"
  "cat_height (push_all_props es c) = cat_height c"
  by (induction es arbitrary: c) (auto simp: push_all_props_def push_prop_def)

lemma pushed_typed:
  assumes "distinct (map fst es)" and "ids c = []" "names c = []" "initial_values c = []" "attributes c = []"
  shows "well_typed (push_all_props es c) \<longleftrightarrow> list_all (\<lambda>(i, n, v, a). valid_under a v) es"
  using assms
  by (auto simp: well_typed_def aligned_def push_all_props_fields list_all2_map1 list_all2_map2
      list_all2_same list_all_iff split: prod.splits)

lemma pushed_lookup:
  assumes "ids c = []" "initial_values c = []" "attributes c = []"
  shows "value_of (push_all_props es c) = map_of (map (\<lambda>(i, n, v, a). (i, v)) es)"
    "attribute_of (push_all_props es c) = map_of (map (\<lambda>(i, n, v, a). (i, a)) es)"
  using assms
  by (auto simp: value_of_def attribute_of_def push_all_props_fields zip_map_map zip_same_conv_map
      comp_def case_prod_unfold)

lemma root_typed: "root caps st = Inr c \<Longrightarrow> well_typed c"
  by (auto simp: root_def result_simps pushed_typed empty_catalog_def root_entries_def property_id_defs
      access_defs WIA_ITEM_READ_def DOCUMENT_HANDLING_FLATBED_def)

definition flatbed_entries ::
    "int list \<Rightarrow> int list \<Rightarrow> int list \<Rightarrow> scalars \<Rightarrow> scalars \<Rightarrow> int \<Rightarrow> int \<Rightarrow> int \<Rightarrow> int \<Rightarrow> int \<Rightarrow> property_entry list" where
  "flatbed_entries rs types depths item_name full_item_name bytes_total max_h max_v width_px height_px =
     entries_transfer (hd types) @ entries_mode types depths (hd types) item_name full_item_name
     @ entries_size bytes_total max_h max_v (least_size (hd rs)) width_px height_px @ entries_format
     @ entries_image types @ entries_geometry rs (hd rs) width_px height_px"

lemmas entries_defs =
  entries_transfer_def entries_mode_def entries_size_def entries_format_def entries_image_def
  entries_geometry_def add_long_def Let_def

lemma flatbed_entries_ids: "distinct (map fst (flatbed_entries rs types depths a b n h v w k))"
  by (simp add: flatbed_entries_def entries_defs property_id_defs)

lemma flatbed_entries_typed:
  assumes "hd rs \<in> set rs" "hd types \<in> set types" "depth_for (hd types) \<in> set depths"
    "0 < offset_step (hd rs)" "1 \<le> w" "1 \<le> k"
  shows "list_all (\<lambda>(i, n, v, a). valid_under a v) (flatbed_entries rs types depths a b n h v w k)"
  using assms
  by (simp add: flatbed_entries_def entries_defs property_constant_defs)

lemma flatbed_resolutions_supported: "set (flatbed_resolutions caps) \<subseteq> supported"
  by (auto simp: flatbed_resolutions_def)

lemma flatbed_data_types_set: "set (flatbed_data_types caps) \<subseteq> {2, 3}"
  by (auto simp: flatbed_data_types_def WIA_DATA_GRAYSCALE_def WIA_DATA_COLOR_def)

definition flatbed_units :: "capabilities \<Rightarrow> u32" where
  "flatbed_units caps = min (flatbed_length_units caps) (cap_length_units caps)"

lemma flatbed_Inr:
  assumes "flatbed caps a b = Inr c"
  obtains h v n w k where
    "size_thousandths (cap_width_units caps) = Inr h"
    and "size_thousandths (flatbed_units caps) = Inr v"
    and "w = pixels_at (cap_width_units caps) (hd (flatbed_resolutions caps))"
    and "k = pixels_at (flatbed_units caps) (hd (flatbed_resolutions caps))"
    and "bmp_size w k (depth_for (hd (flatbed_data_types caps))) = Inr n"
    and "c = push_all_props
       (flatbed_entries (flatbed_resolutions caps) (flatbed_data_types caps)
         (filter (\<lambda>x. x > 0) (map depth_for (flatbed_data_types caps))) a b n h v w k)
       ((empty_catalog Flatbed)\<lparr>cat_resolutions := flatbed_resolutions caps,
          data_types := flatbed_data_types caps, default_resolution := hd (flatbed_resolutions caps),
          cat_width := cap_width_units caps, cat_height := flatbed_units caps\<rparr>)"
    and "flatbed_resolutions caps \<noteq> []" and "flatbed_data_types caps \<noteq> []"
    and "0 < w" and "0 < k"
proof -
  let ?rs = "flatbed_resolutions caps"
  have ne: "?rs \<noteq> []" using assms by (auto simp: flatbed_def Let_def result_simps split: if_splits)
  then have d1: "hd ?rs \<in> set ?rs" by simp
  then have d2: "hd ?rs \<in> supported" using flatbed_resolutions_supported by (rule rev_subsetD)
  note d = d1 d2
  obtain m where m: "min_size_thousandths (hd ?rs) = Inr m" "m = least_size (hd ?rs)"
    using d(2) by (rule min_size_supported)
  have ext: "max_extent ((empty_catalog Flatbed)\<lparr>cat_resolutions := ?rs,
          data_types := flatbed_data_types caps, default_resolution := hd ?rs,
          cat_width := cap_width_units caps, cat_height := flatbed_units caps\<rparr>) (hd ?rs)
      = (pixels_at (cap_width_units caps) (hd ?rs), pixels_at (flatbed_units caps) (hd ?rs))"
    using d by (subst max_extent_flatbed) (simp_all add: empty_catalog_def)
  note unfold = flatbed_def Let_def m ext flatbed_units_def [symmetric] result_simps
  have pos: "0 < pixels_at (cap_width_units caps) (hd ?rs)" "0 < pixels_at (flatbed_units caps) (hd ?rs)"
    using assms ne by (auto simp: unfold split: if_splits)
  have types: "flatbed_data_types caps \<noteq> []" using assms ne by (auto simp: unfold split: if_splits)
  show ?thesis
    using assms ne pos types
    apply (simp add: unfold split: if_split_asm)
    apply (elim exE conjE)
    apply (rule that, assumption, assumption, rule refl, rule refl, assumption)
        apply (simp_all add: flatbed_entries_def all_depths_def empty_catalog_def)
    done
qed

lemma flatbed_fields:
  assumes "flatbed caps a b = Inr c"
  shows "item_kind c = Flatbed" "cat_resolutions c = flatbed_resolutions caps"
    "data_types c = flatbed_data_types caps" "cat_width c = cap_width_units caps"
    "cat_height c = flatbed_units caps"
  by (rule flatbed_Inr [OF assms], simp add: push_all_props_fields empty_catalog_def)+

lemma flatbed_typed_initial:
  assumes "flatbed caps a b = Inr c"
  shows "flatbed_typed c"
proof -
  obtain h v n w k where
    c: "c = push_all_props
       (flatbed_entries (flatbed_resolutions caps) (flatbed_data_types caps)
         (filter (\<lambda>x. x > 0) (map depth_for (flatbed_data_types caps))) a b n h v w k)
       ((empty_catalog Flatbed)\<lparr>cat_resolutions := flatbed_resolutions caps,
          data_types := flatbed_data_types caps, default_resolution := hd (flatbed_resolutions caps),
          cat_width := cap_width_units caps, cat_height := flatbed_units caps\<rparr>)"
    and ne: "flatbed_resolutions caps \<noteq> []" "flatbed_data_types caps \<noteq> []" and wk: "0 < w" "0 < k"
    by (rule flatbed_Inr [OF assms])
  have d: "hd (flatbed_resolutions caps) \<in> set (flatbed_resolutions caps)" using ne by simp
  then have d': "hd (flatbed_resolutions caps) \<in> supported"
    using flatbed_resolutions_supported by (rule rev_subsetD)
  have t: "hd (flatbed_data_types caps) \<in> set (flatbed_data_types caps)" using ne by simp
  then have t': "hd (flatbed_data_types caps) \<in> {2, 3}" using flatbed_data_types_set by (rule rev_subsetD)
  have dep: "depth_for (hd (flatbed_data_types caps))
      \<in> set (filter (\<lambda>x. x > 0) (map depth_for (flatbed_data_types caps)))"
    using t t' by (auto simp: depth_for_def WIA_DATA_GRAYSCALE_def WIA_DATA_COLOR_def)
  have "well_typed c"
    unfolding c
    by (subst pushed_typed [OF flatbed_entries_ids])
       (use flatbed_entries_typed [OF d t dep step_pos [OF d']] wk in \<open>simp_all add: empty_catalog_def\<close>)
  moreover have "flatbed_shape c"
    using calculation flatbed_resolutions_supported [of caps] unfolding c well_typed_def
    by (simp add: flatbed_shape_def push_all_props_fields empty_catalog_def flatbed_entries_def
        entries_defs selected_ids_def)
  ultimately show ?thesis
    using d t flatbed_data_types_set [of caps] unfolding c
    by (simp add: flatbed_typed_def push_all_props_fields pushed_lookup empty_catalog_def
        flatbed_entries_def entries_defs property_id_defs) blast
qed

text \<open>The catalogs that are published: the initial ones, and selections from a flatbed one.\<close>

inductive published :: "property_catalog \<Rightarrow> bool" where
  published_root: "root caps st = Inr c \<Longrightarrow> published c"
| published_flatbed: "flatbed caps item_name full_item_name = Inr c \<Longrightarrow> published c"
| published_selected: "published c \<Longrightarrow> with_settings c s = Inr c' \<Longrightarrow> published c'"

lemma published_cases: "published c \<Longrightarrow> item_kind c = Root \<and> well_typed c \<or> flatbed_typed c"
proof (induction rule: published.induct)
  case (published_root caps st c)
  then have "item_kind c = Root" by (auto simp: root_def result_simps push_all_props_fields empty_catalog_def)
  then show ?case using root_typed [OF published_root] by simp
next
  case (published_flatbed caps a b c)
  then show ?case using flatbed_typed_initial by blast
next
  case (published_selected c s c')
  then have "item_kind c = Flatbed" by (auto simp: with_settings_def split: if_splits)
  then have "flatbed_typed c" using published_selected.IH by simp
  moreover then have "accepts c s" "selects c s c'"
    using with_settings_iff published_selected.hyps(2) by (auto simp: flatbed_typed_def)
  ultimately show ?case using selection_typed by blast
qed

text \<open>
  Property C23: what the driver publishes is well typed. In every catalog it can publish, the
  initial ones and every selection made from a flatbed catalog, the four lists have the same
  length and the identifiers are distinct; each value has the type its attribute declares and
  lies in the range, list or flags that the attribute advertises, and so does the nominal value.
\<close>

theorem published_is_well_typed:
  assumes "published c"
  shows "distinct (ids c) \<and> length (names c) = length (ids c)
     \<and> length (initial_values c) = length (ids c) \<and> length (attributes c) = length (ids c)
     \<and> (\<forall>k < length (ids c). valid_under (attributes c ! k) (initial_values c ! k))"
  using published_cases [OF assms]
  by (auto simp: flatbed_typed_def well_typed_def aligned_def list_all2_conv_all_nth)

section \<open>Acceptance on a bed of at most 25 inches\<close>

definition small_bed :: "property_catalog \<Rightarrow> bool" where
  "small_bed c \<longleftrightarrow> uint (cat_width c) \<le> 30000 \<and> uint (cat_height c) \<le> 30000"

definition axis_ok :: "int \<Rightarrow> int \<Rightarrow> int \<Rightarrow> int \<Rightarrow> bool" where
  "axis_ok step limit p e \<longleftrightarrow> 0 \<le> p \<and> 0 < e \<and> step dvd p \<and> p + e \<le> limit"

lemma pixels_at_small:
  assumes "uint u \<le> 30000" and "d \<in> supported"
  shows "pixels_at u d = uint u * d div 1200" "pixels_at u d \<le> 25 * d"
proof -
  have "uint u * d \<le> 30000 * d" using assms by (intro mult_right_mono) auto
  then have b: "uint u * d div 1200 \<le> 25 * d" by simp
  then show "pixels_at u d = uint u * d div 1200" "pixels_at u d \<le> 25 * d"
    using assms(2) by (auto simp: pixels_at_def Let_def)
qed

lemma bmp_bytes_small:
  assumes "0 < w" "w \<le> 15000" "0 < h" "h \<le> 15000" "bits \<in> {8, 24}"
  shows "bmp_bytes w h bits < 2 ^ 31"
proof -
  let ?r = "(w * bits + 31) div 32 * 4"
  have "0 \<le> ?r" "?r \<le> 45004" using assms by auto
  then have "?r * h \<le> 45004 * 15000" using assms by (intro mult_mono) auto
  moreover have "x \<le> a \<Longrightarrow> x + 54 + (if bits = 8 then 1024 else 0) \<le> a + 1078" for x a :: int
    by simp
  ultimately have "bmp_bytes w h bits \<le> 45004 * 15000 + 1078" unfolding bmp_bytes_def by blast
  then show ?thesis by simp
qed

lemma accepts_small:
  assumes "flatbed_shape c" and "small_bed c"
  shows "accepts c s \<longleftrightarrow>
     x_resolution s \<in> set (cat_resolutions c) \<and> data_type s \<in> set (data_types c)
     \<and> y_resolution s = x_resolution s \<and> (data_type s, depth s) \<in> {(2, 8), (3, 24)}
     \<and> \<bar>fs_brightness s\<bar> \<le> 1000 \<and> \<bar>fs_contrast s\<bar> \<le> 1000
     \<and> compression s = 0 \<and> format s = BMP_FORMAT
     \<and> axis_ok (offset_step (x_resolution s)) (bed_width c s) (x_position s) (x_extent s)
     \<and> axis_ok (offset_step (x_resolution s)) (bed_height c s) (y_position s) (y_extent s)"
    (is "_ \<longleftrightarrow> ?r")
proof (cases "x_resolution s \<in> set (cat_resolutions c)")
  case False
  then show ?thesis by (simp add: accepts_def)
next
  case True
  then have d: "x_resolution s \<in> supported" using assms(1) by (auto simp: flatbed_shape_def)
  have b: "bed_width c s \<le> 25 * x_resolution s" "bed_height c s \<le> 25 * x_resolution s"
    using pixels_at_small d assms(2) by (simp_all add: small_bed_def)
  have D: "0 < x_resolution s" "x_resolution s \<le> 600" using d by auto
  show ?thesis
  proof
    assume "accepts c s"
    then show ?r by (auto simp: accepts_def to_request_accepts axis_ok_def)
  next
    assume r: ?r
    then have e: "0 \<le> x_position s" "0 < x_extent s" "x_position s + x_extent s \<le> bed_width c s"
      "0 \<le> y_position s" "0 < y_extent s" "y_position s + y_extent s \<le> bed_height c s"
      by (simp_all add: axis_ok_def)
    have "bmp_bytes (x_extent s) (y_extent s) (depth s) < 2 ^ 31"
      using r e b D by (intro bmp_bytes_small) auto
    moreover have "x_position s < 256 * x_resolution s" "y_position s < 256 * x_resolution s"
      using e b D by linarith+
    moreover have "(x_position s + x_extent s) * 1200 < 2 ^ 32 * x_resolution s"
      "(y_position s + y_extent s) * 1200 < 2 ^ 32 * x_resolution s"
      using e b D by simp_all
    ultimately show "accepts c s"
      using r d by (auto simp: accepts_def to_request_accepts axis_ok_def)
  qed
qed

lemma position_range:
  assumes "0 < k" and "0 < e" and "e \<le> m"
  shows "axis_ok k m p e \<longleftrightarrow> 0 \<le> p \<and> p \<le> tdiv (m - e) k * k \<and> k dvd p"
proof
  assume "axis_ok k m p e"
  then show "0 \<le> p \<and> p \<le> tdiv (m - e) k * k \<and> k dvd p"
    using floor_to_multiple [of k p "m - e"] assms by (auto simp: axis_ok_def)
next
  assume r: "0 \<le> p \<and> p \<le> tdiv (m - e) k * k \<and> k dvd p"
  have "(m - e) div k * k \<le> m - e" using assms(1) by (simp add: minus_mod_eq_div_mult [symmetric])
  then show "axis_ok k m p e" using r assms by (simp add: axis_ok_def)
qed

lemma selection_exists_iff:
  "flatbed_shape c \<Longrightarrow> (\<exists>c'. with_settings c s = Inr c') \<longleftrightarrow> accepts c s"
  using with_settings_total with_settings_iff by metis


section \<open>A sample scanner\<close>

definition office_caps :: capabilities where
  "office_caps = \<lparr>identity = ''synthetic'', resolution_mask = 0x21, mode_mask = 0x28,
     cap_width_units = 10200, cap_length_units = 14040, flatbed_length_units = 14040,
     line_order = 0, compression_mask = 1\<rparr>"

definition office_item :: scalars where
  "office_item = map of_char ''Flatbed''"

definition office_full :: scalars where
  "office_full = map of_char ''Root/Flatbed''"

definition office_settings :: flatbed_settings where
  "office_settings = \<lparr>x_resolution = 300, y_resolution = 300, x_position = 30, y_position = 60,
     x_extent = 600, y_extent = 900, data_type = 3, depth = 24, fs_brightness = 0, fs_contrast = 0,
     compression = 0, format = BMP_FORMAT\<rparr>"

lemma office_lists: "flatbed_resolutions office_caps = [75, 300]" "flatbed_data_types office_caps = [2, 3]"
  by (simp_all add: flatbed_resolutions_def flatbed_data_types_def resolutions_def dpi_bits_def
      office_caps_def WIA_DATA_GRAYSCALE_def WIA_DATA_COLOR_def List.map_filter_def)

lemma assert_aligned_pushed:
  "assert_aligned (push_all_props es (empty_catalog k\<lparr>cat_resolutions := rs, data_types := ts,
      default_resolution := d, cat_width := w, cat_height := h\<rparr>)) = Inr ()"
  by (simp add: assert_aligned_def push_all_props_fields empty_catalog_def)

lemma office_flatbed: "\<exists>c. flatbed office_caps office_item office_full = Inr c"
proof -
  have "validate_capabilities office_caps = Inr ()" "validate_name office_item = Inr ()"
    "validate_name office_full = Inr ()"
    by (simp_all add: validate_capabilities_def validate_name_def office_caps_def office_item_def
        office_full_def encode_utf16_def utf16_units_def utf8_length_def)
  moreover have "compression_mask office_caps AND 1 \<noteq> 0" by (simp add: office_caps_def)
  moreover have "size_thousandths (cap_width_units office_caps) = Inr 8500"
    "size_thousandths (min (flatbed_length_units office_caps) (cap_length_units office_caps)) = Inr 11700"
    "min_size_thousandths 75 = Inr 14"
    by (simp_all add: size_thousandths_def min_size_thousandths_def office_caps_def i32_try_from_def
       i32_of_nat_def u64_try_from_def checked_mul64_def checked_add64_def)
  moreover have "max_extent (empty_catalog Flatbed\<lparr>cat_resolutions := [75, 300], data_types := [2, 3],
      default_resolution := 75, cat_width := cap_width_units office_caps,
      cat_height := min (flatbed_length_units office_caps) (cap_length_units office_caps)\<rparr>) 75 = (637, 877)"
    by (subst max_extent_flatbed)
       (simp_all add: empty_catalog_def pixels_at_def office_caps_def)
  moreover have "bmp_size 637 877 (depth_for 2) = Inr 562358"
    by (simp add: bmp_size_iff depth_for_def WIA_DATA_GRAYSCALE_def bmp_bytes_def)
  ultimately show ?thesis
    by (simp add: flatbed_def Let_def office_lists assert_aligned_pushed)
qed

lemma office_catalog:
  obtains c c' where "flatbed office_caps office_item office_full = Inr c"
    and "with_settings c office_settings = Inr c'" and "flatbed_typed c" and "small_bed c"
proof -
  obtain c where c: "flatbed office_caps office_item office_full = Inr c" using office_flatbed by blast
  have f: "cat_resolutions c = [75, 300]" "data_types c = [2, 3]" "cat_width c = 10200" "cat_height c = 14040"
    by (simp_all only: flatbed_fields [OF c] office_lists) (simp_all add: office_caps_def flatbed_units_def)
  have typed: "flatbed_typed c" using c by (rule flatbed_typed_initial)
  then have shape: "flatbed_shape c" by (simp add: flatbed_typed_def)
  have small: "small_bed c" using f by (simp add: small_bed_def)
  have "accepts c office_settings"
    unfolding accepts_small [OF shape small]
    by (simp add: office_settings_def f axis_ok_def offset_step_table pixels_at_def)
  then obtain c' where "with_settings c office_settings = Inr c'" using with_settings_total [OF shape] by blast
  then show ?thesis using that c typed small by blast
qed

theorem published_is_well_typed_witness:
  "\<exists>c. published c \<and> item_kind c = Flatbed \<and> distinct (ids c)
     \<and> length (attributes c) = length (ids c)"
proof -
  obtain c c' where c: "flatbed office_caps office_item office_full = Inr c"
      "with_settings c office_settings = Inr c'"
    by (rule office_catalog)
  then have p: "published c'" by (intro published_selected [OF published_flatbed])
  moreover have "item_kind c = Flatbed"
    by (rule flatbed_fields [OF c(1)])
  ultimately show ?thesis using published_is_well_typed [OF published_flatbed [OF c(1)]] published_flatbed [OF c(1)] by blast
qed


end
