(* ===== verification/Validation_Properties.thy ===== *)
theory Validation_Properties
  imports Wia_Validation Catalog_Properties
begin

unbundle bit_operations_syntax

text \<open>
  What the dependency resolution guarantees: written values are honoured, the result is a
  fixed point, and an exact characterisation of the single writes that are accepted.
\<close>

section \<open>Rounding to the step\<close>

lemma quantize_value:
  assumes "d \<in> supported" and "0 \<le> v"
  defines "st \<equiv> offset_step d"
  shows "quantize_position v d =
     and_then (if saturating_double (v mod st) \<ge> st
       then ok_or E_INVALIDARG (checked_i32 (v div st + 1)) else Inr (v div st))
       (\<lambda>r. ok_or E_INVALIDARG (checked_i32 (r * st)))"
  using assms step_pos [OF assms(1)] by (auto simp: quantize_position_def Let_def)

lemma double_small: "d \<in> supported \<Longrightarrow> saturating_double (v mod offset_step d) = 2 * (v mod offset_step d)"
  by (auto simp: saturating_double_def offset_step_table min_def max_def)

lemma div_split:
  fixes v st :: int
  assumes "0 < st" and "0 \<le> v"
  obtains a b where "v = a * st + b" "v div st = a" "v mod st = b" "0 \<le> a" "0 \<le> b" "b < st"
  using assms by (intro that [of "v div st" "v mod st"]) (simp_all add: pos_imp_zdiv_nonneg_iff)

lemma quantize_Inr:
  assumes d: "d \<in> supported" and q: "quantize_position v d = Inr q"
  shows "0 \<le> v" "0 \<le> q" "offset_step d dvd q" "\<bar>q - v\<bar> < offset_step d"
proof -
  let ?st = "offset_step d"
  have st: "0 < ?st" using d by (rule step_pos)
  show v: "0 \<le> v" using q by (auto simp: quantize_position_def split: if_splits)
  obtain a b where ab: "v = a * ?st + b" "v div ?st = a" "v mod ?st = b" "0 \<le> a" "0 \<le> b" "b < ?st"
    using st v by (rule div_split)
  have "q = (if 2 * b \<ge> ?st then a + 1 else a) * ?st"
    using q double_small [OF d, of v] unfolding quantize_value [OF d v] ab(2,3)
    by (auto simp: result_simps split: if_splits)
  then show "0 \<le> q" "?st dvd q" "\<bar>q - v\<bar> < ?st"
    using ab st unfolding ab(1) by (auto simp: distrib_right)
qed

lemma quantize_total:
  assumes d: "d \<in> supported" and v: "0 \<le> v" "v < 2 ^ 30"
  obtains q where "quantize_position v d = Inr q"
proof -
  let ?st = "offset_step d"
  have st: "0 < ?st" "?st \<le> 6" using d by (auto simp: offset_step_table)
  obtain a b where ab: "v = a * ?st + b" "v div ?st = a" "v mod ?st = b" "0 \<le> a" "0 \<le> b" "b < ?st"
    using st(1) v(1) by (rule div_split)
  have m: "0 \<le> a * ?st" "a * ?st < 2 ^ 30" using ab(1,4,5) v(2) st by auto
  have "a * 1 \<le> a * ?st" using ab(4) st by (intro mult_left_mono) auto
  then have "is_i32 (a + 1)" "is_i32 (a * ?st)" "is_i32 ((a + 1) * ?st)"
    using m ab(4) st by (simp_all add: is_i32_def distrib_right)
  then have "\<exists>q. quantize_position v d = Inr q"
    unfolding quantize_value [OF d v(1)] ab(2,3)
    by (cases "saturating_double b \<ge> ?st") (simp_all add: checked_i32_def)
  then show ?thesis using that by blast
qed

lemma quantize_aligned:
  assumes d: "d \<in> supported" and "0 \<le> v" and "v < 2 ^ 31" and "offset_step d dvd v"
  shows "quantize_position v d = Inr v"
proof -
  have "v mod offset_step d = 0" "v div offset_step d * offset_step d = v" using assms(4) by auto
  moreover have "\<not> saturating_double 0 \<ge> offset_step d"
    using step_pos [OF d] by (simp add: saturating_double_def)
  ultimately show ?thesis
    using assms(2,3) unfolding quantize_value [OF d assms(2)] by (simp add: checked_i32_def is_i32_def)
qed

lemma floor_step:
  assumes "0 < st" and "0 \<le> v"
  shows "0 \<le> floor_to_step v st" "floor_to_step v st \<le> v" "v - st < floor_to_step v st"
    "st dvd floor_to_step v st"
proof -
  obtain a b where ab: "v = a * st + b" "v div st = a" "v mod st = b" "0 \<le> a" "0 \<le> b" "b < st"
    using assms by (rule div_split)
  have "floor_to_step v st = a * st"
    using assms ab(2,4) by (cases "v = 0") (auto simp: floor_to_step_def)
  then show "0 \<le> floor_to_step v st" "floor_to_step v st \<le> v" "v - st < floor_to_step v st"
    "st dvd floor_to_step v st"
    using assms ab by simp_all
qed

lemma scale_total:
  assumes "od \<in> supported" and "d \<in> supported" and "0 \<le> v" and "v \<le> 15000"
  obtains e where "scale_extent v od d = Inr e" and "0 \<le> e" and "e < 2 ^ 30"
proof -
  define V P D where "V = nat v" and "P = nat od" and "D = nat d"
  have e: "v = int V" "od = int P" "d = int D" and b: "V \<le> 15000" "0 < P" "P \<le> 600" "D \<le> 600" "0 < D"
    using assms by (auto simp: V_def P_def D_def)
  have "V * D \<le> 15000 * 600" using b by (intro mult_le_mono) auto
  then have t: "V * D + P div 2 \<le> 9000300" using b by simp
  then have "(V * D + P div 2) div P \<le> 9000300" by (meson div_le_dividend order_trans)
  then show ?thesis
    using t b by (intro that [of "int ((V * D + P div 2) div P)"])
      (simp_all add: scale_extent_def e checked_mul64_def checked_add64_def i32_try_from_def i32_of_nat_def)
qed
section \<open>One axis\<close>

text \<open>What any result of one axis satisfies: it lies on the bed and honours what was written.\<close>

lemma resolve_axis_Inr:
  assumes d: "target_dpi a \<in> supported" and r: "resolve_axis a = Inr (p, e)"
  shows "0 < e" "p + e \<le> axis_max a" "explicit (extent a) \<Longrightarrow> e = current (extent a)"
    "explicit (position a) \<Longrightarrow> offset_step (target_dpi a) dvd p
       \<and> \<bar>p - current (position a)\<bar> < offset_step (target_dpi a)"
proof -
  let ?st = "offset_step (target_dpi a)"
  have st: "0 < ?st" using d by (rule step_pos)
  obtain p0 e0 p1 e1 p2 where s:
    "start_position a = Inr p0" "start_extent a = Inr e0" "snap_position a p0 e0 = Inr p1"
    "check_extent a e0 = Inr e1" "move_position a p1 e1 = Inr p" "fit_extent a p e1 = Inr e"
    using r by (auto simp: resolve_axis_def result_simps split: if_splits)
  show "0 < e" "p + e \<le> axis_max a"
    using s(6) by (auto simp: fit_extent_def checked_sub_i32_def result_simps split: if_splits)
  show "e = current (extent a)" if "explicit (extent a)"
    using s(2,4,6) that
    by (auto simp: fit_extent_def check_extent_def start_extent_def result_simps split: if_splits)
  show "?st dvd p \<and> \<bar>p - current (position a)\<bar> < ?st" if x: "explicit (position a)"
  proof -
    have p0: "p0 = current (position a)" using s(1) x by (simp add: start_position_def)
    have "p = p1" using s(5) x by (simp add: move_position_def)
    obtain q where q: "quantize_position p0 (target_dpi a) = Inr q"
        "p1 = q \<or> p1 = floor_to_step p0 ?st"
      using s(3) x by (auto simp: snap_position_def result_simps split: if_splits)
    note i = quantize_Inr [OF d q(1)]
    then show ?thesis using q(2) floor_step [OF st i(1)] \<open>p = p1\<close> p0 by auto
  qed
qed

text \<open>Nothing changes what already fits.\<close>

lemma resolve_axis_fixed:
  assumes d: "target_dpi a \<in> supported" and eq: "old_dpi a = target_dpi a"
    and ok: "axis_ok (offset_step (target_dpi a)) (axis_max a) (current (position a)) (current (extent a))"
    and small: "axis_max a < 2 ^ 31"
  shows "resolve_axis a = Inr (current (position a), current (extent a))"
proof -
  let ?st = "offset_step (target_dpi a)" and ?p = "current (position a)" and ?e = "current (extent a)"
  have st: "0 < ?st" using d by (rule step_pos)
  have o: "0 \<le> ?p" "0 < ?e" "?st dvd ?p" "?p + ?e \<le> axis_max a" using ok by (simp_all add: axis_ok_def)
  have q: "quantize_position ?p (target_dpi a) = Inr ?p"
    using d o small by (intro quantize_aligned) auto
  have c: "checked_sub_i32 (axis_max a) ?e = Inr (axis_max a - ?e)"
    "checked_sub_i32 (axis_max a) ?p = Inr (axis_max a - ?p)"
    using o small by (simp_all add: checked_sub_i32_def checked_i32_def is_i32_def)
  have f: "?p \<le> floor_to_step (axis_max a - ?e) ?st"
  proof (cases "axis_max a - ?e = 0")
    case True
    then show ?thesis using o by (simp add: floor_to_step_def)
  next
    case False
    then show ?thesis
      using o st floor_to_multiple [of ?st ?p "axis_max a - ?e"] by (simp add: floor_to_step_def)
  qed
  have "start_position a = Inr ?p" "start_extent a = Inr ?e"
    using eq by (simp_all add: start_position_def start_extent_def resolution_changed_def)
  moreover have "snap_position a ?p ?e = Inr ?p"
    using o q c by (simp add: snap_position_def)
  moreover have "check_extent a ?e = Inr ?e" using o by (simp add: check_extent_def)
  moreover have "move_position a ?p ?e = Inr ?p" using o c f by (simp add: move_position_def Let_def)
  moreover have "fit_extent a ?p ?e = Inr ?e" using o c by (simp add: fit_extent_def)
  ultimately show ?thesis using o by (simp add: resolve_axis_def)
qed

section \<open>All settings\<close>

lemma mode_and_depth_Inr:
  assumes "resolve_mode_and_depth s w = Inr t"
  shows "t = s\<lparr>data_type := data_type t, depth := depth t\<rparr>"
    and "WIA_IPA_DATATYPE \<in> set w \<Longrightarrow> data_type t = data_type s"
    and "WIA_IPA_DEPTH \<in> set w \<Longrightarrow> depth t = depth s"
  using assms
  by (auto simp: resolve_mode_and_depth_def is_written_def result_simps split: if_splits bool.splits)

lemma resolutions_Inr:
  assumes "resolve_resolutions s w = Inr (xr, yr)"
  shows "yr = xr" and "WIA_IPS_XRES \<in> set w \<Longrightarrow> xr = x_resolution s"
    and "WIA_IPS_YRES \<in> set w \<Longrightarrow> xr = y_resolution s"
  using assms by (auto simp: resolve_resolutions_def is_written_def Let_def split: if_splits)

lemma resolve_Inr:
  assumes shape: "flatbed_shape c" and r: "resolve c old_s cur w = Inr s"
  obtains t d where "accepts c old_s" and "accepts c s" and "resolve_mode_and_depth cur w = Inr t"
    and "resolve_resolutions t w = Inr (d, d)" and "d \<in> set (cat_resolutions c)"
    and "resolve_axis (x_axis old_s cur w d (pixels_at (cat_width c) d)) = Inr (x_position s, x_extent s)"
    and "resolve_axis (y_axis old_s cur w d (pixels_at (cat_height c) d)) = Inr (y_position s, y_extent s)"
    and "s = t\<lparr>x_resolution := d, y_resolution := d, x_position := x_position s,
           x_extent := x_extent s, y_position := y_position s, y_extent := y_extent s\<rparr>"
proof -
  obtain t where t: "resolve_mode_and_depth cur w = Inr t" using r by (auto simp: resolve_def result_simps)
  have "\<exists>x. resolve_resolutions t w = Inr x"
    using r t by (cases "resolve_resolutions t w") (auto simp: resolve_def result_simps)
  then obtain d d' where dd: "resolve_resolutions t w = Inr (d, d')" by auto
  then have e: "d' = d" by (rule resolutions_Inr)
  obtain mw mh where mm: "max_extent c d = (mw, mh)" by force
  then have pos: "0 < fst (max_extent c d)"
    using r t dd by (auto simp: resolve_def result_simps Let_def split: if_splits)
  then have d: "d \<in> set (cat_resolutions c)" by (auto simp: max_extent_def split: if_splits)
  then have sup: "d \<in> supported" using shape by (auto simp: flatbed_shape_def)
  have m: "max_extent c d = (pixels_at (cat_width c) d, pixels_at (cat_height c) d)"
    using d sup shape by (intro max_extent_flatbed) (auto simp: flatbed_shape_def)
  obtain xp xe yp ye where ax: "resolve_axis (x_axis old_s cur w d (pixels_at (cat_width c) d)) = Inr (xp, xe)"
     "resolve_axis (y_axis old_s cur w d (pixels_at (cat_height c) d)) = Inr (yp, ye)"
     and s: "s = t\<lparr>x_resolution := d, y_resolution := d, x_position := xp, x_extent := xe,
         y_position := yp, y_extent := ye\<rparr>"
     and w: "\<exists>c'. with_settings c s = Inr c'" "\<exists>c'. with_settings c old_s = Inr c'"
    using r t dd e m by (auto simp: resolve_def result_simps Let_def split: if_splits)
  from w have "accepts c s" "accepts c old_s" using selection_exists_iff [OF shape] by blast+
  then show ?thesis using that t dd e d ax s by simp
qed

text \<open>
  Property C24: a resolution honours what the application wrote. The resolved settings are
  accepted by the catalog and use one resolution for both directions; each written
  resolution, data type, depth and extent is kept as written, and each written position is
  kept up to less than one hardware step; tone, compression and format are untouched.
\<close>

theorem resolution_honours_writes:
  assumes "flatbed caps item_name full_item_name = Inr c" and "resolve c old_s cur w = Inr s"
  shows "(\<exists>c'. with_settings c s = Inr c') \<and> y_resolution s = x_resolution s
    \<and> (WIA_IPS_XRES \<in> set w \<longrightarrow> x_resolution s = x_resolution cur)
    \<and> (WIA_IPS_YRES \<in> set w \<longrightarrow> y_resolution s = y_resolution cur)
    \<and> (WIA_IPA_DATATYPE \<in> set w \<longrightarrow> data_type s = data_type cur)
    \<and> (WIA_IPA_DEPTH \<in> set w \<longrightarrow> depth s = depth cur)
    \<and> (WIA_IPS_XEXTENT \<in> set w \<longrightarrow> x_extent s = x_extent cur)
    \<and> (WIA_IPS_YEXTENT \<in> set w \<longrightarrow> y_extent s = y_extent cur)
    \<and> (WIA_IPS_XPOS \<in> set w \<longrightarrow> \<bar>x_position s - x_position cur\<bar> < offset_step (x_resolution s))
    \<and> (WIA_IPS_YPOS \<in> set w \<longrightarrow> \<bar>y_position s - y_position cur\<bar> < offset_step (x_resolution s))
    \<and> fs_brightness s = fs_brightness cur \<and> fs_contrast s = fs_contrast cur
    \<and> compression s = compression cur \<and> format s = format cur"
proof -
  have shape: "flatbed_shape c"
    using flatbed_typed_initial [OF assms(1)] by (simp add: flatbed_typed_def)
  obtain t d where acc: "accepts c s" and t: "resolve_mode_and_depth cur w = Inr t"
    and rr: "resolve_resolutions t w = Inr (d, d)" and d: "d \<in> set (cat_resolutions c)"
    and x: "resolve_axis (x_axis old_s cur w d (pixels_at (cat_width c) d)) = Inr (x_position s, x_extent s)"
    and y: "resolve_axis (y_axis old_s cur w d (pixels_at (cat_height c) d)) = Inr (y_position s, y_extent s)"
    and s: "s = t\<lparr>x_resolution := d, y_resolution := d, x_position := x_position s,
           x_extent := x_extent s, y_position := y_position s, y_extent := y_extent s\<rparr>"
    using shape assms(2) by (rule resolve_Inr)
  have sup: "d \<in> supported" using d shape by (auto simp: flatbed_shape_def)
  note t' = mode_and_depth_Inr [OF t]
  have cur: "x_resolution t = x_resolution cur" "y_resolution t = y_resolution cur"
    "fs_brightness t = fs_brightness cur" "fs_contrast t = fs_contrast cur"
    "compression t = compression cur" "format t = format cur"
    by (subst t'(1), simp)+
  have sd: "x_resolution s = d" "y_resolution s = d" "data_type s = data_type t" "depth s = depth t"
    "fs_brightness s = fs_brightness t" "fs_contrast s = fs_contrast t"
    "compression s = compression t" "format s = format t"
    by (subst s, simp)+
  have "x_position s + x_extent s \<le> pixels_at (cat_width c) d
      \<and> (WIA_IPS_XEXTENT \<in> set w \<longrightarrow> x_extent s = x_extent cur)
      \<and> (WIA_IPS_XPOS \<in> set w \<longrightarrow> \<bar>x_position s - x_position cur\<bar> < offset_step d)"
    using resolve_axis_Inr [OF _ x] sup by (auto simp: x_axis_def is_written_def)
  moreover have "WIA_IPS_YEXTENT \<in> set w \<longrightarrow> y_extent s = y_extent cur"
    "WIA_IPS_YPOS \<in> set w \<longrightarrow> \<bar>y_position s - y_position cur\<bar> < offset_step d"
    using resolve_axis_Inr [OF _ y] sup by (auto simp: y_axis_def is_written_def)
  moreover have "\<exists>c'. with_settings c s = Inr c'" using acc selection_exists_iff [OF shape] by blast
  ultimately show ?thesis
    using t'(2,3) resolutions_Inr(2,3) [OF rr] cur sd by simp
qed

lemma accepted_axes:
  assumes "flatbed_shape c" and "accepts c s"
  shows "axis_ok (offset_step (x_resolution s)) (bed_width c s) (x_position s) (x_extent s)"
    "axis_ok (offset_step (x_resolution s)) (bed_height c s) (y_position s) (y_extent s)"
  using accepted_settings [OF assms] by (simp_all add: axis_ok_def)

lemma resolve_fixed:
  assumes shape: "flatbed_shape c" and acc: "accepts c s"
  shows "resolve c s s w = Inr s"
proof -
  let ?d = "x_resolution s"
  note a = accepted_settings [OF shape acc] accepted_axes [OF shape acc]
  have m: "max_extent c ?d = (bed_width c s, bed_height c s)"
    using a shape by (intro max_extent_flatbed) (auto simp: flatbed_shape_def)
  have b: "bed_width c s < 2 ^ 31" "bed_height c s < 2 ^ 31"
    using a(1) pixels_at_range [of ?d] by auto
  have "resolve_mode_and_depth s w = Inr s"
    using a(3) by (auto simp: resolve_mode_and_depth_def depth_of_type_def split: bool.splits)
  moreover have "resolve_resolutions s w = Inr (?d, ?d)"
    using a(2) by (auto simp: resolve_resolutions_def)
  moreover have "resolve_axis (x_axis s s w ?d (bed_width c s)) = Inr (x_position s, x_extent s)"
    using resolve_axis_fixed [of "x_axis s s w ?d (bed_width c s)"] a b by (simp add: x_axis_def)
  moreover have "resolve_axis (y_axis s s w ?d (bed_height c s)) = Inr (y_position s, y_extent s)"
    using resolve_axis_fixed [of "y_axis s s w ?d (bed_height c s)"] a b by (simp add: y_axis_def)
  moreover obtain c' where "with_settings c s = Inr c'" using acc selection_exists_iff [OF shape] by blast
  moreover have "0 < bed_width c s" "0 < bed_height c s" using a by (auto simp: axis_ok_def)
  moreover have "s\<lparr>x_resolution := ?d, y_resolution := ?d\<rparr> = s" using a(2) by (cases s) simp
  ultimately show ?thesis by (simp add: resolve_def Let_def m)
qed

text \<open>
  Resolution reaches a fixed point in one step. Whatever was written, the
  resolved settings resolve to themselves, however many of their properties are then
  reported as written.
\<close>

theorem resolution_is_idempotent:
  assumes "flatbed caps item_name full_item_name = Inr c" and "resolve c old_s cur w = Inr s"
  shows "resolve c s s w' = Inr s"
proof -
  have shape: "flatbed_shape c"
    using flatbed_typed_initial [OF assms(1)] by (simp add: flatbed_typed_def)
  then show ?thesis using assms(2) by (blast elim: resolve_Inr intro: resolve_fixed)
qed

section \<open>Which writes are accepted\<close>

lemma resolve_axis_ok:
  assumes d: "target_dpi a \<in> supported" and r: "resolve_axis a = Inr (p, e)"
    and al: "\<And>p0. \<not> explicit (position a) \<Longrightarrow> start_position a = Inr p0 \<Longrightarrow> offset_step (target_dpi a) dvd p0"
  shows "axis_ok (offset_step (target_dpi a)) (axis_max a) p e"
proof -
  let ?st = "offset_step (target_dpi a)"
  have st: "0 < ?st" using d by (rule step_pos)
  obtain p0 e0 p1 e1 where s: "0 < axis_max a"
    "start_position a = Inr p0" "start_extent a = Inr e0" "snap_position a p0 e0 = Inr p1"
    "check_extent a e0 = Inr e1" "move_position a p1 e1 = Inr p" "fit_extent a p e1 = Inr e"
    using r by (auto simp: resolve_axis_def result_simps split: if_splits)
  have p1: "0 \<le> p1 \<and> ?st dvd p1"
  proof (cases "explicit (position a)")
    case True
    then obtain q where q: "quantize_position p0 (target_dpi a) = Inr q"
        "p1 = q \<or> p1 = floor_to_step p0 ?st"
      using s(4) by (auto simp: snap_position_def result_simps split: if_splits)
    then show ?thesis using quantize_Inr [OF d q(1)] floor_step [OF st, of p0] by auto
  next
    case False
    then show ?thesis using s(4) al [OF False s(2)] by (auto simp: snap_position_def split: if_splits)
  qed
  have "e1 \<le> axis_max a \<or> \<not> explicit (extent a)"
    using s(5) by (auto simp: check_extent_def split: if_splits)
  then have "0 \<le> p \<and> ?st dvd p"
    using s(1,6) p1 floor_step [OF st, of "axis_max a - 1"] floor_step [OF st, of "axis_max a - e1"]
    by (auto simp: move_position_def Let_def min_def checked_sub_i32_def result_simps split: if_splits)
  then show ?thesis using resolve_axis_Inr(1,2) [OF d r] by (simp add: axis_ok_def)
qed

lemma resolve_axis_total:
  assumes d: "target_dpi a \<in> supported" and m: "0 < axis_max a" "axis_max a < 2 ^ 30"
    and p0: "start_position a = Inr p0" and e0: "start_extent a = Inr e0"
    and one: "\<not> explicit (position a) \<or> \<not> explicit (extent a)"
    and p: "0 \<le> p0" "explicit (position a) \<Longrightarrow> p0 < axis_max a"
    and e: "0 \<le> e0" "explicit (extent a) \<Longrightarrow> 0 < e0 \<and> e0 \<le> axis_max a"
  shows "\<exists>r. resolve_axis a = Inr r"
proof -
  let ?st = "offset_step (target_dpi a)"
  have st: "0 < ?st" using d by (rule step_pos)
  have "\<exists>p1. snap_position a p0 e0 = Inr p1 \<and> (explicit (position a) \<longrightarrow> 0 \<le> p1 \<and> p1 < axis_max a)
      \<and> 0 \<le> p1"
  proof (cases "explicit (position a)")
    case True
    obtain q where q: "quantize_position p0 (target_dpi a) = Inr q"
      using quantize_total [OF d p(1)] p(2) [OF True] m(2) by force
    show ?thesis
      using True one p q m floor_step [OF st p(1)] quantize_Inr [OF d q]
      by (auto simp: snap_position_def)
  next
    case False
    then show ?thesis using p by (simp add: snap_position_def)
  qed
  then obtain p1 where p1: "snap_position a p0 e0 = Inr p1" "0 \<le> p1"
      "explicit (position a) \<Longrightarrow> p1 < axis_max a" by auto
  have "\<exists>e1. check_extent a e0 = Inr e1 \<and> 0 < e1 \<and> (explicit (extent a) \<longrightarrow> e1 \<le> axis_max a)"
    using e by (cases "e0 = 0"; cases "explicit (extent a)") (auto simp: check_extent_def)
  then obtain e1 where e1: "check_extent a e0 = Inr e1" "0 < e1"
      "explicit (extent a) \<Longrightarrow> e1 \<le> axis_max a" by auto
  have sub: "checked_sub_i32 (axis_max a) k = Inr (axis_max a - k)" if "0 \<le> k" "k \<le> axis_max a" for k
    using that m by (simp add: checked_sub_i32_def checked_i32_def is_i32_def)
  have "\<exists>p2. move_position a p1 e1 = Inr p2 \<and> 0 \<le> p2 \<and> p2 < axis_max a
      \<and> (explicit (extent a) \<longrightarrow> p2 + e1 \<le> axis_max a)"
    using p1 e1 one m floor_step [OF st, of "axis_max a - 1"] floor_step [OF st, of "axis_max a - e1"]
    by (auto simp: move_position_def Let_def sub min_def)
  then obtain p2 where p2: "move_position a p1 e1 = Inr p2" "0 \<le> p2" "p2 < axis_max a"
      "explicit (extent a) \<Longrightarrow> p2 + e1 \<le> axis_max a" by auto
  then have "\<exists>e2. fit_extent a p2 e1 = Inr e2"
    using e1 by (auto simp: fit_extent_def sub)
  then show ?thesis using m p0 e0 p1 e1 p2 by (auto simp: resolve_axis_def)
qed

lemma start_total:
  assumes d: "old_dpi a \<in> supported" "target_dpi a \<in> supported"
    and ok: "axis_ok (offset_step (old_dpi a)) m (old (position a)) (old (extent a))" and m: "m \<le> 15000"
    and same: "\<not> explicit (position a) \<Longrightarrow> current (position a) = old (position a)"
      "\<not> explicit (extent a) \<Longrightarrow> current (extent a) = old (extent a)"
  shows "\<exists>p0. start_position a = Inr p0 \<and> (explicit (position a) \<longrightarrow> p0 = current (position a))
      \<and> (\<not> explicit (position a) \<longrightarrow> 0 \<le> p0 \<and> offset_step (target_dpi a) dvd p0)"
    and "\<exists>e0. start_extent a = Inr e0 \<and> (explicit (extent a) \<longrightarrow> e0 = current (extent a))
      \<and> (\<not> explicit (extent a) \<longrightarrow> 0 \<le> e0)"
proof -
  have o: "0 \<le> old (position a)" "old (position a) \<le> 15000" "0 \<le> old (extent a)"
    "old (extent a) \<le> 15000" "offset_step (old_dpi a) dvd old (position a)"
    using ok m by (auto simp: axis_ok_def)
  obtain v where v: "scale_extent (old (position a)) (old_dpi a) (target_dpi a) = Inr v" "0 \<le> v" "v < 2 ^ 30"
    using scale_total [OF d o(1,2)] .
  obtain q where q: "quantize_position v (target_dpi a) = Inr q" using quantize_total [OF d(2) v(2,3)] .
  obtain u where u: "scale_extent (old (extent a)) (old_dpi a) (target_dpi a) = Inr u" "0 \<le> u"
    using scale_total [OF d o(3,4)] .
  show "\<exists>p0. start_position a = Inr p0 \<and> (explicit (position a) \<longrightarrow> p0 = current (position a))
      \<and> (\<not> explicit (position a) \<longrightarrow> 0 \<le> p0 \<and> offset_step (target_dpi a) dvd p0)"
    using v q quantize_Inr [OF d(2) q] o same(1)
    by (auto simp: start_position_def quantize_scaled_position_def resolution_changed_def)
  show "\<exists>e0. start_extent a = Inr e0 \<and> (explicit (extent a) \<longrightarrow> e0 = current (extent a))
      \<and> (\<not> explicit (extent a) \<longrightarrow> 0 \<le> e0)"
    using u o same(2) by (auto simp: start_extent_def)
qed

text \<open>One axis, when at most one of its two values is written.\<close>

lemma resolve_axis_iff:
  assumes d: "old_dpi a \<in> supported" "target_dpi a \<in> supported"
    and ok: "axis_ok (offset_step (old_dpi a)) m (old (position a)) (old (extent a))" and m: "m \<le> 15000"
    and same: "\<not> explicit (position a) \<Longrightarrow> current (position a) = old (position a)"
      "\<not> explicit (extent a) \<Longrightarrow> current (extent a) = old (extent a)"
    and one: "\<not> explicit (position a) \<or> \<not> explicit (extent a)"
    and lim: "0 < axis_max a" "axis_max a < 2 ^ 30"
  shows "(\<exists>r. resolve_axis a = Inr r) \<longleftrightarrow>
      (explicit (position a) \<longrightarrow> 0 \<le> current (position a) \<and> current (position a) < axis_max a)
      \<and> (explicit (extent a) \<longrightarrow> 0 < current (extent a) \<and> current (extent a) \<le> axis_max a)"
    and "resolve_axis a = Inr (p, e) \<Longrightarrow> axis_ok (offset_step (target_dpi a)) (axis_max a) p e"
proof -
  obtain p0 e0 where s: "start_position a = Inr p0" "start_extent a = Inr e0"
    "explicit (position a) \<Longrightarrow> p0 = current (position a)"
    "\<not> explicit (position a) \<Longrightarrow> 0 \<le> p0 \<and> offset_step (target_dpi a) dvd p0"
    "explicit (extent a) \<Longrightarrow> e0 = current (extent a)" "\<not> explicit (extent a) \<Longrightarrow> 0 \<le> e0"
    using start_total [OF d ok m same] by auto
  show "(\<exists>r. resolve_axis a = Inr r) \<longleftrightarrow>
      (explicit (position a) \<longrightarrow> 0 \<le> current (position a) \<and> current (position a) < axis_max a)
      \<and> (explicit (extent a) \<longrightarrow> 0 < current (extent a) \<and> current (extent a) \<le> axis_max a)"
    (is "?l \<longleftrightarrow> ?r")
  proof
    assume ?l
    then obtain p1 e1 where "snap_position a p0 e0 = Inr p1" "check_extent a e0 = Inr e1"
      using s by (auto simp: resolve_axis_def result_simps split: if_splits)
    then show ?r using s by (auto simp: snap_position_def check_extent_def split: if_splits)
  next
    assume ?r
    then show ?l using s by (intro resolve_axis_total [OF d(2) lim s(1,2) one]) force+
  qed
  show "axis_ok (offset_step (target_dpi a)) (axis_max a) p e" if "resolve_axis a = Inr (p, e)"
    by (rule resolve_axis_ok [OF d(2) that]) (use s in auto)
qed

definition wide_bed :: "property_catalog \<Rightarrow> bool" where
  "wide_bed c \<longleftrightarrow> (\<forall>d \<in> set (cat_resolutions c). 0 < pixels_at (cat_width c) d \<and> 0 < pixels_at (cat_height c) d)"

definition axis_writable :: "nat list \<Rightarrow> nat \<Rightarrow> nat \<Rightarrow> int \<Rightarrow> int \<Rightarrow> int \<Rightarrow> bool" where
  "axis_writable w pos ext p e limit \<longleftrightarrow> (pos \<in> set w \<longrightarrow> 0 \<le> p \<and> p < limit)
     \<and> (ext \<in> set w \<longrightarrow> 0 < e \<and> e \<le> limit)"

lemma resolve_iff:
  assumes shape: "flatbed_shape c" and small: "small_bed c" and wide: "wide_bed c"
    and acc: "accepts c s"
    and one: "WIA_IPS_XPOS \<notin> set w \<or> WIA_IPS_XEXTENT \<notin> set w" "WIA_IPS_YPOS \<notin> set w \<or> WIA_IPS_YEXTENT \<notin> set w"
    and same: "WIA_IPS_XPOS \<notin> set w \<Longrightarrow> x_position cur = x_position s"
      "WIA_IPS_XEXTENT \<notin> set w \<Longrightarrow> x_extent cur = x_extent s"
      "WIA_IPS_YPOS \<notin> set w \<Longrightarrow> y_position cur = y_position s"
      "WIA_IPS_YEXTENT \<notin> set w \<Longrightarrow> y_extent cur = y_extent s"
    and rest: "fs_brightness cur = fs_brightness s" "fs_contrast cur = fs_contrast s"
      "compression cur = compression s" "format cur = format s"
    and mode: "resolve_mode_and_depth cur w = Inr t" "resolve_resolutions t w = Inr (d, d)"
      "(data_type t, depth t) \<in> {(2, 8), (3, 24)}"
  shows "(\<exists>r. resolve c s cur w = Inr r) \<longleftrightarrow> d \<in> set (cat_resolutions c) \<and> data_type t \<in> set (data_types c)
     \<and> axis_writable w WIA_IPS_XPOS WIA_IPS_XEXTENT (x_position cur) (x_extent cur) (pixels_at (cat_width c) d)
     \<and> axis_writable w WIA_IPS_YPOS WIA_IPS_YEXTENT (y_position cur) (y_extent cur) (pixels_at (cat_height c) d)"
proof (cases "d \<in> set (cat_resolutions c)")
  case False
  then have "\<nexists>r. resolve c s cur w = Inr r"
    using resolve_Inr [OF shape] mode by (metis prod.inject sum.inject(2))
  with False show ?thesis by simp
next
  case True
  then have sup: "d \<in> supported" using shape by (auto simp: flatbed_shape_def)
  let ?W = "pixels_at (cat_width c) d" and ?H = "pixels_at (cat_height c) d"
  let ?X = "x_axis s cur w d ?W" and ?Y = "y_axis s cur w d ?H"
  note a = accepted_settings [OF shape acc]
  have b: "?W \<le> 25 * d" "?H \<le> 25 * d" "bed_width c s \<le> 25 * x_resolution s" "bed_height c s \<le> 25 * x_resolution s"
    using pixels_at_small sup a(1) small by (simp_all add: small_bed_def)
  have D: "d \<le> 600" "x_resolution s \<le> 600" using sup a(1) by auto
  have lim: "0 < ?W" "?W < 2 ^ 30" "0 < ?H" "?H < 2 ^ 30" "bed_width c s \<le> 15000" "bed_height c s \<le> 15000"
    using wide True b D by (auto simp: wide_bed_def)
  have m: "max_extent c d = (?W, ?H)"
    using True sup shape by (intro max_extent_flatbed) (auto simp: flatbed_shape_def)
  note ok = accepted_axes [OF shape acc]
  have X: "(\<exists>r. resolve_axis ?X = Inr r) \<longleftrightarrow>
       axis_writable w WIA_IPS_XPOS WIA_IPS_XEXTENT (x_position cur) (x_extent cur) ?W"
    and XI: "\<And>p e. resolve_axis ?X = Inr (p, e) \<Longrightarrow> axis_ok (offset_step d) ?W p e"
    using resolve_axis_iff [of ?X "bed_width c s"] a sup ok lim one same
    by (simp_all add: x_axis_def is_written_def axis_writable_def)
  have Y: "(\<exists>r. resolve_axis ?Y = Inr r) \<longleftrightarrow>
       axis_writable w WIA_IPS_YPOS WIA_IPS_YEXTENT (y_position cur) (y_extent cur) ?H"
    and YI: "\<And>p e. resolve_axis ?Y = Inr (p, e) \<Longrightarrow> axis_ok (offset_step d) ?H p e"
    using resolve_axis_iff [of ?Y "bed_height c s"] a sup ok lim one same
    by (simp_all add: y_axis_def is_written_def axis_writable_def)
  have cur: "fs_brightness t = fs_brightness s" "fs_contrast t = fs_contrast s"
    "compression t = compression s" "format t = format s"
    by (subst mode_and_depth_Inr(1) [OF mode(1)], simp add: rest)+
  have tone: "\<bar>fs_brightness s\<bar> \<le> 1000" "\<bar>fs_contrast s\<bar> \<le> 1000" "compression s = 0" "format s = BMP_FORMAT"
    using acc by (simp_all add: accepts_small [OF shape small])
  obtain c' where old: "with_settings c s = Inr c'" using acc with_settings_total [OF shape] by blast
  show ?thesis
  proof
    assume "\<exists>r. resolve c s cur w = Inr r"
    then obtain r where r: "resolve c s cur w = Inr r" by blast
    then have "accepts c r" and "resolve_axis ?X = Inr (x_position r, x_extent r)"
      "resolve_axis ?Y = Inr (y_position r, y_extent r)" and "data_type r = data_type t"
      using mode by (auto elim!: resolve_Inr [OF shape] dest: arg_cong [where f = data_type])
    moreover have "data_type r \<in> set (data_types c)" using \<open>accepts c r\<close> by (simp add: accepts_def)
    ultimately show "d \<in> set (cat_resolutions c) \<and> data_type t \<in> set (data_types c)
       \<and> axis_writable w WIA_IPS_XPOS WIA_IPS_XEXTENT (x_position cur) (x_extent cur) ?W
       \<and> axis_writable w WIA_IPS_YPOS WIA_IPS_YEXTENT (y_position cur) (y_extent cur) ?H"
      using True X Y by auto
  next
    assume r: "d \<in> set (cat_resolutions c) \<and> data_type t \<in> set (data_types c)
       \<and> axis_writable w WIA_IPS_XPOS WIA_IPS_XEXTENT (x_position cur) (x_extent cur) ?W
       \<and> axis_writable w WIA_IPS_YPOS WIA_IPS_YEXTENT (y_position cur) (y_extent cur) ?H"
    then obtain xp xe yp ye where x: "resolve_axis ?X = Inr (xp, xe)" and y: "resolve_axis ?Y = Inr (yp, ye)"
      using X Y by (metis prod.exhaust)
    let ?r = "t\<lparr>x_resolution := d, y_resolution := d, x_position := xp, x_extent := xe,
      y_position := yp, y_extent := ye\<rparr>"
    have "accepts c ?r"
      using XI [OF x] YI [OF y] r mode(3) cur tone by (simp add: accepts_small [OF shape small])
    then obtain c'' where "with_settings c ?r = Inr c''" using with_settings_total [OF shape] by blast
    then have "resolve c s cur w = Inr ?r"
      using old mode x y m lim by (simp add: resolve_def Let_def)
    then show "\<exists>r. resolve c s cur w = Inr r" by blast
  qed
qed

section \<open>The initial catalog\<close>

lemma flatbed_resolutions_sorted: "sorted_wrt (<) (flatbed_resolutions caps)"
proof -
  have "sorted_wrt (<) (resolutions caps)"
    unfolding resolutions_filter sorted_wrt_map by (intro sorted_wrt_filter dpi_bits_sorted)
  then have "sorted_wrt (<) (filter (\<lambda>d. d \<in> {75, 100, 150, 200, 300, 600}) (resolutions caps))"
    by (rule sorted_wrt_filter)
  then show ?thesis unfolding flatbed_resolutions_def sorted_wrt_map word_less_def .
qed

lemma hd_resolution_least: "d \<in> set (flatbed_resolutions caps) \<Longrightarrow> hd (flatbed_resolutions caps) \<le> d"
  using flatbed_resolutions_sorted [of caps] by (cases "flatbed_resolutions caps") auto

lemma pixels_at_pos_mono:
  assumes "uint u \<le> 30000" and "d \<in> supported" and "d' \<in> supported" and "d \<le> d'" and "0 < pixels_at u d"
  shows "0 < pixels_at u d'"
proof -
  have "uint u * d div 1200 \<le> uint u * d' div 1200"
    using assms(4) by (intro zdiv_mono1 mult_left_mono) auto
  then show ?thesis using assms pixels_at_small(1) by simp
qed

lemma flatbed_wide:
  assumes "flatbed caps a b = Inr c" and "small_bed c"
  shows "wide_bed c"
proof -
  let ?d = "hd (flatbed_resolutions caps)"
  have ne: "flatbed_resolutions caps \<noteq> []"
    and w: "0 < pixels_at (cap_width_units caps) ?d" and h: "0 < pixels_at (flatbed_units caps) ?d"
    by (rule flatbed_Inr [OF assms(1)], simp)+
  have s: "?d \<in> supported"
    using ne flatbed_resolutions_supported [of caps] hd_in_set by (metis subset_iff)
  show ?thesis
    unfolding wide_bed_def flatbed_fields [OF assms(1)]
  proof
    fix d assume d: "d \<in> set (flatbed_resolutions caps)"
    then have "d \<in> supported" using flatbed_resolutions_supported by (rule rev_subsetD)
    then show "0 < pixels_at (cap_width_units caps) d \<and> 0 < pixels_at (flatbed_units caps) d"
      using assms(2) s w h hd_resolution_least [OF d] pixels_at_pos_mono
      by (simp add: small_bed_def flatbed_fields [OF assms(1)] del: insert_iff)
  qed
qed

section \<open>Single writes\<close>

text \<open>The settings after an application wrote one of the eight properties.\<close>

definition write_setting :: "nat \<Rightarrow> int \<Rightarrow> flatbed_settings \<Rightarrow> flatbed_settings" where
  "write_setting i v s =
     (if i = WIA_IPS_XRES then s\<lparr>x_resolution := v\<rparr>
      else if i = WIA_IPS_YRES then s\<lparr>y_resolution := v\<rparr>
      else if i = WIA_IPS_XPOS then s\<lparr>x_position := v\<rparr>
      else if i = WIA_IPS_YPOS then s\<lparr>y_position := v\<rparr>
      else if i = WIA_IPS_XEXTENT then s\<lparr>x_extent := v\<rparr>
      else if i = WIA_IPS_YEXTENT then s\<lparr>y_extent := v\<rparr>
      else if i = WIA_IPA_DATATYPE then s\<lparr>data_type := v\<rparr>
      else if i = WIA_IPA_DEPTH then s\<lparr>depth := v\<rparr>
      else s)"

definition writable :: "property_catalog \<Rightarrow> flatbed_settings \<Rightarrow> nat \<Rightarrow> int \<Rightarrow> bool" where
  "writable c s i v \<longleftrightarrow>
     (if i = WIA_IPS_XRES \<or> i = WIA_IPS_YRES then v \<in> set (cat_resolutions c)
      else if i = WIA_IPS_XPOS then 0 \<le> v \<and> v < fst (max_extent c (x_resolution s))
      else if i = WIA_IPS_YPOS then 0 \<le> v \<and> v < snd (max_extent c (x_resolution s))
      else if i = WIA_IPS_XEXTENT then 0 < v \<and> v \<le> fst (max_extent c (x_resolution s))
      else if i = WIA_IPS_YEXTENT then 0 < v \<and> v \<le> snd (max_extent c (x_resolution s))
      else if i = WIA_IPA_DATATYPE then v \<in> set (data_types c)
      else v \<in> set (all_depths c))"

definition resolve_write :: "property_catalog \<Rightarrow> flatbed_settings \<Rightarrow> nat \<Rightarrow> int \<Rightarrow> flatbed_settings hr" where
  "resolve_write c s i v = resolve c s (write_setting i v s) [i]"

lemma mode_fails:
  assumes "flatbed_shape c" and "resolve_mode_and_depth cur w = Inl e"
  shows "\<nexists>r. resolve c s cur w = Inr r"
  using resolve_Inr [OF assms(1)] assms(2) by (metis sum.distinct(1))

lemmas write_defs =
  resolve_write_def write_setting_def writable_def property_id_defs axis_writable_def
  resolve_mode_and_depth_def resolve_resolutions_def is_written_def depth_of_type_def

lemma single_write_iff:
  assumes typed: "flatbed_typed c" and small: "small_bed c" and wide: "wide_bed c"
    and acc: "accepts c s" and i: "i \<in> set (map fst (setting_values s))"
  shows "(\<exists>r. resolve_write c s i v = Inr r) \<longleftrightarrow> writable c s i v"
proof -
  have shape: "flatbed_shape c" and types: "set (data_types c) \<subseteq> {2, 3}"
    using typed by (simp_all add: flatbed_typed_def)
  note a = accepted_settings [OF shape acc]
  have m: "max_extent c (x_resolution s) = (bed_width c s, bed_height c s)"
    using a shape by (intro max_extent_flatbed) (auto simp: flatbed_shape_def)
  have wd: "0 < bed_width c s" "0 < bed_height c s" using wide a by (auto simp: wide_bed_def)
  have dep: "v \<in> set (all_depths c) \<longleftrightarrow> v = 8 \<and> 2 \<in> set (data_types c) \<or> v = 24 \<and> 3 \<in> set (data_types c)"
    using types by (force simp: all_depths_def depth_for_def WIA_DATA_GRAYSCALE_def WIA_DATA_COLOR_def)
  note main = resolve_iff [OF shape small wide acc, where w = "[i]"]
  consider "i = WIA_IPS_XRES" | "i = WIA_IPS_YRES" | "i = WIA_IPS_XPOS" | "i = WIA_IPS_YPOS"
    | "i = WIA_IPS_XEXTENT" | "i = WIA_IPS_YEXTENT" | "i = WIA_IPA_DATATYPE" | "i = WIA_IPA_DEPTH"
    using i by (auto simp: setting_values_def)
  then show ?thesis
  proof cases
    case 7
    show ?thesis
    proof (cases "v \<in> {2, 3}")
      case True
      then show ?thesis
        using 7 a main [of "s\<lparr>data_type := v\<rparr>" "s\<lparr>data_type := v, depth := (if v = 2 then 8 else 24)\<rparr>" "x_resolution s"]
        by (auto simp: write_defs)
    next
      case False
      then have "\<exists>e. resolve_mode_and_depth (s\<lparr>data_type := v\<rparr>) [i] = Inl e"
        using 7 by (simp add: resolve_mode_and_depth_def is_written_def depth_of_type_def property_id_defs)
      moreover have "v \<notin> set (data_types c)" using False types by blast
      ultimately show ?thesis
        using 7 mode_fails [OF shape]
        by (auto simp: write_defs)
    qed
  next
    case 8
    show ?thesis
    proof (cases "v \<in> {8, 24}")
      case True
      then show ?thesis
        using 8 a main [of "s\<lparr>depth := v\<rparr>" "s\<lparr>depth := v, data_type := (if v = 8 then 2 else 3)\<rparr>" "x_resolution s"]
        by (auto simp: write_defs dep)
    next
      case False
      then have "\<exists>e. resolve_mode_and_depth (s\<lparr>depth := v\<rparr>) [i] = Inl e"
        using 8 by (simp add: resolve_mode_and_depth_def is_written_def property_id_defs)
      then show ?thesis
        using 8 mode_fails [OF shape] False
        by (auto simp: write_defs dep)
    qed
  next
    case 1
    then show ?thesis
      using a main [of "s\<lparr>x_resolution := v\<rparr>" "s\<lparr>x_resolution := v\<rparr>" v]
      by (auto simp: write_defs)
  next
    case 2
    then show ?thesis
      using a main [of "s\<lparr>y_resolution := v\<rparr>" "s\<lparr>y_resolution := v\<rparr>" v]
      by (auto simp: write_defs)
  next
    case 3
    then show ?thesis
      using a m main [of "s\<lparr>x_position := v\<rparr>" "s\<lparr>x_position := v\<rparr>" "x_resolution s"]
      by (auto simp: write_defs)
  next
    case 4
    then show ?thesis
      using a m main [of "s\<lparr>y_position := v\<rparr>" "s\<lparr>y_position := v\<rparr>" "x_resolution s"]
      by (auto simp: write_defs)
  next
    case 5
    then show ?thesis
      using a m main [of "s\<lparr>x_extent := v\<rparr>" "s\<lparr>x_extent := v\<rparr>" "x_resolution s"]
      by (auto simp: write_defs)
  next
    case 6
    then show ?thesis
      using a m main [of "s\<lparr>y_extent := v\<rparr>" "s\<lparr>y_extent := v\<rparr>" "x_resolution s"]
      by (auto simp: write_defs)
  qed
qed
text \<open>
  Property C14: single writes. Let the current settings be accepted, on a bed of at most 25
  inches. An application that writes exactly one of the eight settings is accepted if and
  only if the value is a listed resolution, data type or depth, a start position on the bed,
  or a positive extent that is no larger than the bed. In particular a change of
  resolution alone is never refused, whatever the current region: scaling, snapping and
  clamping always produce a region that the scanner can take.
\<close>

theorem single_writes_are_accepted:
  assumes "flatbed caps item_name full_item_name = Inr c"
    and "cap_width_units caps \<le> 30000" and "flatbed_length_units caps \<le> 30000"
    and "with_settings c s = Inr c'"
    and "i \<in> {WIA_IPS_XRES, WIA_IPS_YRES, WIA_IPS_XPOS, WIA_IPS_YPOS, WIA_IPS_XEXTENT,
      WIA_IPS_YEXTENT, WIA_IPA_DATATYPE, WIA_IPA_DEPTH}"
  shows "(\<exists>r. resolve c s (write_setting i v s) [i] = Inr r) \<longleftrightarrow> writable c s i v"
proof -
  have typed: "flatbed_typed c" using assms(1) by (rule flatbed_typed_initial)
  have small: "small_bed c"
    using assms(2,3)
    by (auto simp: flatbed_fields [OF assms(1)] small_bed_def flatbed_units_def word_le_def min_def)
  have "accepts c s"
    using assms(4) with_settings_iff typed by (auto simp: flatbed_typed_def)
  from single_write_iff [OF typed small flatbed_wide [OF assms(1) small] this, of i v] assms(5)
  show ?thesis by (simp add: setting_values_def resolve_write_def)
qed

section \<open>Witnesses\<close>

definition office_write :: flatbed_settings where
  "office_write = office_settings\<lparr>x_position := 100\<rparr>"

lemma office_fields:
  assumes "flatbed office_caps office_item office_full = Inr c"
  shows "item_kind c = Flatbed" "cat_resolutions c = [75, 300]" "data_types c = [2, 3]"
    "cat_width c = 10200" "cat_height c = 14040"
  by (simp_all only: flatbed_fields [OF assms] office_lists)
     (simp_all add: office_caps_def flatbed_units_def)

lemma office_resolved:
  obtains c c' r where "flatbed office_caps office_item office_full = Inr c"
    and "with_settings c office_settings = Inr c'"
    and "resolve c office_settings office_write [WIA_IPS_XPOS] = Inr r"
proof -
  obtain c c' where c: "flatbed office_caps office_item office_full = Inr c"
      "with_settings c office_settings = Inr c'" "flatbed_typed c" "small_bed c"
    by (rule office_catalog)
  have shape: "flatbed_shape c" using c(3) by (simp add: flatbed_typed_def)
  have acc: "accepts c office_settings" using with_settings_iff [OF shape] c(2) by blast
  have "max_extent c 300 = (2550, 3510)"
    by (subst max_extent_flatbed) (simp_all add: office_fields [OF c(1)] pixels_at_def)
  then have "writable c office_settings WIA_IPS_XPOS 100"
    by (simp add: writable_def property_id_defs office_settings_def)
  then have "\<exists>r. resolve_write c office_settings WIA_IPS_XPOS 100 = Inr r"
    using single_write_iff [OF c(3,4) flatbed_wide [OF c(1,4)] acc] by (simp add: setting_values_def)
  then show ?thesis
    using that [OF c(1,2)] by (auto simp: resolve_write_def office_write_def write_setting_def property_id_defs)
qed

theorem resolution_honours_writes_witness:
  "\<exists>c s. resolve c office_settings office_write [WIA_IPS_XPOS] = Inr s
     \<and> \<bar>x_position s - 100\<bar> < offset_step (x_resolution s) \<and> compression s = 0"
proof -
  obtain c c' r where c: "flatbed office_caps office_item office_full = Inr c"
      "resolve c office_settings office_write [WIA_IPS_XPOS] = Inr r"
    by (rule office_resolved)
  from resolution_honours_writes [OF c] c(2) show ?thesis
    by (auto simp: office_write_def office_settings_def)
qed

theorem resolution_is_idempotent_witness:
  "\<exists>c s. resolve c office_settings office_write [WIA_IPS_XPOS] = Inr s
     \<and> resolve c s s [WIA_IPS_XPOS, WIA_IPS_YPOS] = Inr s"
proof -
  obtain c c' r where c: "flatbed office_caps office_item office_full = Inr c"
      "resolve c office_settings office_write [WIA_IPS_XPOS] = Inr r"
    by (rule office_resolved)
  from resolution_is_idempotent [OF c] c(2) show ?thesis by blast
qed

theorem single_writes_are_accepted_witness:
  "\<exists>c r. resolve c office_settings (write_setting WIA_IPS_XRES 75 office_settings) [WIA_IPS_XRES] = Inr r"
proof -
  obtain c c' r where c: "flatbed office_caps office_item office_full = Inr c"
      "with_settings c office_settings = Inr c'"
    by (rule office_resolved)
  have "cap_width_units office_caps \<le> 30000" "flatbed_length_units office_caps \<le> 30000"
    by (simp_all add: office_caps_def)
  note single_writes_are_accepted [OF c(1) this c(2), of WIA_IPS_XRES 75]
  moreover have "writable c office_settings WIA_IPS_XRES 75"
    by (simp add: writable_def flatbed_fields [OF c(1)] office_lists)
  ultimately show ?thesis by auto
qed

end
