(* ===== verification/Minidriver.thy ===== *)
theory Minidriver
  imports Wia_Constants Wia_Transfer
begin

unbundle bit_operations_syntax

text \<open>
  The life of the minidriver object: the tree of driver items
  (\<open>src/com_server/minidrv/tree.rs\<close>), the lifecycle of its connection
  (\<open>src/com_server/minidrv.rs\<close>), the service lock and the exclusive borrow of the
  connection (\<open>src/com_server/minidrv/locking.rs\<close>), and the cancellation of an acquisition
  (\<open>src/com_server/minidrv/cancel.rs\<close>). The calls of Windows are a parameter: functions on
  the whole state of the driver, since Windows may call the driver again before it returns.
\<close>

definition E_NOTIMPL :: int where "E_NOTIMPL = as_i32 0x80004001"
definition WIA_ERROR_BUSY :: int where "WIA_ERROR_BUSY = as_i32 0x80210006"

section \<open>State\<close>

text \<open>The handles of driver items and of STI devices are numbers; a BSTR is its code units.\<close>

record item_connection =
  tree_root :: nat
  conn_helper :: "nat option"
  conn_device :: "nat list"
  conn_name :: "nat list"
  clients :: u32

datatype lifecycle = Idle | Busy | Connected item_connection | Failed

text \<open>
  The running acquisition has a cancellation flag, an \<open>Arc\<close> that the transfer shares: its
  address is a number, and the flags are a store.
\<close>

record 'w driver =
  life :: lifecycle
  active :: "(nat list \<times> nat) option"
  cancel_flags :: "nat \<Rightarrow> bool"
  fresh_flag :: nat
  mini_world :: 'w

definition driver_new :: "'w \<Rightarrow> 'w driver" where
  "driver_new w = \<lparr>life = Idle, active = None, cancel_flags = (\<lambda>_. False), fresh_flag = 0, mini_world = w\<rparr>"

record 's windows =
  sys_alloc :: "nat list \<Rightarrow> 's \<Rightarrow> bool \<times> 's"
  sys_free :: "nat list \<Rightarrow> 's \<Rightarrow> 's"
  create_drv_item :: "int \<Rightarrow> nat list \<Rightarrow> nat list \<Rightarrow> 's \<Rightarrow> (int \<times> nat option) \<times> 's"
  add_to_folder :: "nat \<Rightarrow> nat \<Rightarrow> 's \<Rightarrow> int \<times> 's"
  unlink_item :: "nat \<Rightarrow> int \<Rightarrow> 's \<Rightarrow> int \<times> 's"
  release_item :: "nat \<Rightarrow> 's \<Rightarrow> 's"
  retain_helper :: "nat \<Rightarrow> 's \<Rightarrow> 's"
  release_helper :: "nat \<Rightarrow> 's \<Rightarrow> 's"
  lock_device :: "nat \<Rightarrow> nat \<Rightarrow> 's \<Rightarrow> int \<times> 's"
  unlock_device :: "nat \<Rightarrow> 's \<Rightarrow> int \<times> 's"

section \<open>The tree of driver items\<close>

definition ROOT_FLAGS :: int where "ROOT_FLAGS = 0x4c"
definition FLATBED_FLAGS :: int where "FLATBED_FLAGS = 0x82003"
definition DISCONNECTED :: int where "DISCONNECTED = 0x100"
definition MAX_NAME_UNITS :: nat where "MAX_NAME_UNITS = 16 * 1024"

definition tree_bstring_new :: "'s windows \<Rightarrow> nat list \<Rightarrow> 's \<Rightarrow> unit hr \<times> 's" where
  "tree_bstring_new win u s =
     (if length u > MAX_NAME_UNITS then (Inl E_INVALIDARG, s)
      else case sys_alloc win u s of
          (True, s) \<Rightarrow> (Inr (), s)
        | (False, s) \<Rightarrow> (Inl E_OUTOFMEMORY, s))"

text \<open>A string that lives as long as the scope \<open>k\<close>.\<close>

definition with_tree_bstring :: "'s windows \<Rightarrow> nat list \<Rightarrow> ('s \<Rightarrow> 'a hr \<times> 's) \<Rightarrow> 's \<Rightarrow> 'a hr \<times> 's" where
  "with_tree_bstring win u k s = (case tree_bstring_new win u s of
     (Inl er, s) \<Rightarrow> (Inl er, s)
   | (Inr _, s) \<Rightarrow> (case k s of (r, s) \<Rightarrow> (r, sys_free win u s)))"

definition create_item :: "'s windows \<Rightarrow> int \<Rightarrow> nat list \<Rightarrow> nat list \<Rightarrow> 's \<Rightarrow> nat hr \<times> 's" where
  "create_item win fl name full s = (case create_drv_item win fl name full s of ((hr, item), s) \<Rightarrow>
     (if hr \<noteq> 0 then Inl hr else ok_or E_POINTER item, s))"

definition tree_disconnect :: "'s windows \<Rightarrow> nat \<Rightarrow> 's \<Rightarrow> unit hr \<times> 's" where
  "tree_disconnect win r s = (case unlink_item win r DISCONNECTED s of (hr, s) \<Rightarrow>
     (if hr = 0 then Inr () else Inl hr, release_item win r s))"

text \<open>The child is linked into the root and its construction reference released.\<close>

definition add_flatbed :: "'s windows \<Rightarrow> nat list \<Rightarrow> nat \<Rightarrow> 's \<Rightarrow> unit hr \<times> 's" where
  "add_flatbed win full r =
     with_tree_bstring win (map of_char ''Flatbed'') (
     with_tree_bstring win (full @ map of_char (CHR 0x5C # ''Flatbed'')) (\<lambda>s.
       case create_item win FLATBED_FLAGS (map of_char ''Flatbed'')
              (full @ map of_char (CHR 0x5C # ''Flatbed'')) s of
         (Inl er, s) \<Rightarrow> (Inl er, s)
       | (Inr child, s) \<Rightarrow> (case add_to_folder win child r s of (hr, s) \<Rightarrow>
           (if hr \<noteq> 0 then Inl hr else Inr (), release_item win child s))))"

text \<open>\<open>mini\<close> says whether the pointer of the minidriver is non-null.\<close>

definition tree_create :: "'s windows \<Rightarrow> bool \<Rightarrow> nat list \<Rightarrow> 's \<Rightarrow> nat hr \<times> 's" where
  "tree_create win mini full s =
     (if \<not> mini \<or> full = [] \<or> length full + 8 > MAX_NAME_UNITS \<or> 0 \<in> set full
      then (Inl E_INVALIDARG, s)
      else with_tree_bstring win (map of_char ''Root'') (with_tree_bstring win full (\<lambda>s.
        case create_item win ROOT_FLAGS (map of_char ''Root'') full s of
          (Inl er, s) \<Rightarrow> (Inl er, s)
        | (Inr r, s) \<Rightarrow> (case add_flatbed win full r s of
             (Inl er, s) \<Rightarrow> (Inl er, snd (tree_disconnect win r s))
           | (Inr _, s) \<Rightarrow> (Inr r, s)))) s)"

section \<open>Connecting and disconnecting\<close>

definition retain :: "'s windows \<Rightarrow> nat option \<Rightarrow> 's \<Rightarrow> 's" where
  "retain win h s = (case h of None \<Rightarrow> s | Some p \<Rightarrow> retain_helper win p s)"

definition drop_helper :: "'s windows \<Rightarrow> nat option \<Rightarrow> 's \<Rightarrow> 's" where
  "drop_helper win h s = (case h of None \<Rightarrow> s | Some p \<Rightarrow> release_helper win p s)"

text \<open>The part of \<open>initialize_tree\<close> that runs under the mutex: a further client, or a claim.\<close>

definition claim :: "nat list \<Rightarrow> nat list \<Rightarrow> 'w driver \<Rightarrow> nat option hr \<times> 'w driver" where
  "claim device name d = (case life d of
     Connected c \<Rightarrow>
       if conn_device c \<noteq> device \<or> conn_name c \<noteq> name then (Inl E_INVALIDARG, d)
       else (case checked_add32 (clients c) 1 of
           None \<Rightarrow> (Inl E_UNEXPECTED, d)
         | Some n \<Rightarrow> (Inr (Some (tree_root c)), d\<lparr>life := Connected (c\<lparr>clients := n\<rparr>)\<rparr>))
   | Busy \<Rightarrow> (Inl WIA_ERROR_BUSY, d)
   | Failed \<Rightarrow> (Inl E_UNEXPECTED, d)
   | Idle \<Rightarrow> (Inr None, d\<lparr>life := Busy\<rparr>))"

definition initialize_tree ::
    "'w driver windows \<Rightarrow> bool \<Rightarrow> nat list \<Rightarrow> nat list \<Rightarrow> nat option \<Rightarrow> 'w driver \<Rightarrow> nat hr \<times> 'w driver" where
  "initialize_tree win this device name sti d =
     (if device = [] \<or> name = [] \<or> 0 \<in> set device \<or> 0 \<in> set name then (Inl E_INVALIDARG, d)
      else case claim device name d of
        (Inl er, d) \<Rightarrow> (Inl er, d)
      | (Inr (Some r), d) \<Rightarrow> (Inr r, d)
      | (Inr None, d) \<Rightarrow> (case tree_create win this name d of
            (Inr r, d) \<Rightarrow>
              (Inr r, (retain win sti d)\<lparr>life := Connected \<lparr>tree_root = r, conn_helper = sti,
                 conn_device = device, conn_name = name, clients = 1\<rparr>\<rparr>)
          | (Inl er, d) \<Rightarrow> (Inl er, d\<lparr>life := Idle\<rparr>)))"

definition disconnect_client :: "'w driver windows \<Rightarrow> 'w driver \<Rightarrow> int \<times> 'w driver" where
  "disconnect_client win d = (case life d of
     Idle \<Rightarrow> (E_UNEXPECTED, d)
   | Busy \<Rightarrow> (WIA_ERROR_BUSY, d)
   | Failed \<Rightarrow> (E_UNEXPECTED, d)
   | Connected c \<Rightarrow>
       if clients c > 1 then (0, d\<lparr>life := Connected (c\<lparr>clients := clients c - 1\<rparr>)\<rparr>)
       else case tree_disconnect win (tree_root c) (d\<lparr>life := Busy\<rparr>) of (result, d) \<Rightarrow>
         (case result of Inr _ \<Rightarrow> 0 | Inl hr \<Rightarrow> hr,
          (drop_helper win (conn_helper c) d)\<lparr>life := (case result of Inr _ \<Rightarrow> Idle | Inl _ \<Rightarrow> Failed)\<rparr>))"

section \<open>The exclusive borrow of the connection\<close>

record borrow =
  borrowed :: "item_connection option"
  failed :: bool

definition LOCK_TIMEOUT_MS :: nat where "LOCK_TIMEOUT_MS = 5000"

definition borrow_take :: "'w driver \<Rightarrow> borrow hr \<times> 'w driver" where
  "borrow_take d = (case life d of
     Busy \<Rightarrow> (Inl WIA_ERROR_BUSY, d)
   | Connected c \<Rightarrow> (Inr \<lparr>borrowed = Some c, failed = False\<rparr>, d\<lparr>life := Busy\<rparr>)
   | _ \<Rightarrow> (Inl E_UNEXPECTED, d))"

text \<open>Dropping a connection drops its tree, then its helper.\<close>

definition drop_connection :: "'s windows \<Rightarrow> item_connection option \<Rightarrow> 's \<Rightarrow> 's" where
  "drop_connection win c s = (case c of
     None \<Rightarrow> s
   | Some c \<Rightarrow> drop_helper win (conn_helper c) (snd (tree_disconnect win (tree_root c) s)))"

definition quarantine :: "'w driver windows \<Rightarrow> borrow \<Rightarrow> 'w driver \<Rightarrow> borrow \<times> 'w driver" where
  "quarantine win b d =
     (\<lparr>borrowed = None, failed = True\<rparr>, (drop_connection win (borrowed b) d)\<lparr>life := Failed\<rparr>)"

text \<open>The connection of a borrow that asks its helper is present in every use of the code.\<close>

definition call_helper :: "'s windows \<Rightarrow> bool \<Rightarrow> borrow \<Rightarrow> 's \<Rightarrow> unit hr \<times> 's" where
  "call_helper win lock b s = (case conn_helper (the (borrowed b)) of
     None \<Rightarrow> (Inl E_UNEXPECTED, s)
   | Some p \<Rightarrow>
       (case (if lock then lock_device win p LOCK_TIMEOUT_MS s else unlock_device win p s) of (hr, s) \<Rightarrow>
         (if hr = 0 then Inr () else if hr < 0 then Inl hr else Inl E_UNEXPECTED, s)))"

text \<open>\<open>Drop\<close> of the borrow; \<open>panicking\<close> is \<open>std::thread::panicking\<close>.\<close>

definition borrow_drop :: "'w driver windows \<Rightarrow> bool \<Rightarrow> borrow \<Rightarrow> 'w driver \<Rightarrow> 'w driver" where
  "borrow_drop win panicking b d =
     (if panicking \<or> failed b then (drop_connection win (borrowed b) d)\<lparr>life := Failed\<rparr>
      else case borrowed b of Some c \<Rightarrow> d\<lparr>life := Connected c\<rparr> | None \<Rightarrow> d)"

definition dispatch_lock :: "'w driver windows \<Rightarrow> bool \<Rightarrow> 'w driver \<Rightarrow> int \<times> 'w driver" where
  "dispatch_lock win lock d = (case borrow_take d of
     (Inl hr, d) \<Rightarrow> (hr, d)
   | (Inr b, d) \<Rightarrow> (case call_helper win lock b d of
         (Inr _, d) \<Rightarrow> (0, borrow_drop win False b d)
       | (Inl er, d) \<Rightarrow>
           if \<not> lock then (case quarantine win b d of (b, d) \<Rightarrow> (er, borrow_drop win False b d))
           else (er, borrow_drop win False b d)))"

section \<open>Capabilities under the service lock\<close>

text \<open>
  Releasing the service lock, by \<open>release\<close> or by dropping the guard while a panic unwinds:
  a failure quarantines the connection.
\<close>

definition service_unlock :: "'w driver windows \<Rightarrow> borrow \<Rightarrow> 'w driver \<Rightarrow> unit hr \<times> borrow \<times> 'w driver" where
  "service_unlock win b d = (case call_helper win False b d of
     (Inr _, d) \<Rightarrow> (Inr (), b, d)
   | (Inl er, d) \<Rightarrow> (case quarantine win b d of (b, d) \<Rightarrow> (Inl er, b, d)))"

text \<open>
  \<open>query\<close> and \<open>publish\<close> are closures of the driver, which may panic. The publisher also
  sets the flag that asks for quarantine if it fails.
\<close>

definition with_locked_capabilities ::
    "'w driver windows \<Rightarrow> ('w driver \<Rightarrow> 'c hr outcome \<times> 'w driver) \<Rightarrow>
     ('c \<Rightarrow> 'w driver \<Rightarrow> ('a hr outcome \<times> bool) \<times> 'w driver) \<Rightarrow> borrow \<Rightarrow> 'w driver \<Rightarrow>
     ('a hr outcome \<times> bool) \<times> borrow \<times> 'w driver" where
  "with_locked_capabilities win query publish b d = (case call_helper win True b d of
     (Inl er, d) \<Rightarrow> ((Returned (Inl er), False), b, d)
   | (Inr _, d) \<Rightarrow> (case query d of (caps, d) \<Rightarrow> (case service_unlock win b d of (unlock, b, d) \<Rightarrow>
       (case caps of
          Panicked \<Rightarrow> ((Panicked, False), b, d)
        | Returned (Inl primary) \<Rightarrow> ((Returned (Inl primary), False), b, d)
        | Returned (Inr c) \<Rightarrow> (case unlock of
              Inl er \<Rightarrow> ((Returned (Inl er), False), b, d)
            | Inr _ \<Rightarrow> (case publish c d of (r, d) \<Rightarrow> (r, b, d)))))))"

definition with_guarded_locked_capabilities ::
    "'w driver windows \<Rightarrow> ('w driver \<Rightarrow> 'c hr outcome \<times> 'w driver) \<Rightarrow>
     ('c \<Rightarrow> 'w driver \<Rightarrow> ('a hr outcome \<times> bool) \<times> 'w driver) \<Rightarrow> borrow \<Rightarrow> 'w driver \<Rightarrow>
     'a hr outcome \<times> borrow \<times> 'w driver" where
  "with_guarded_locked_capabilities win query publish b d =
     (case with_locked_capabilities win query publish b d of ((r, flag), b, d) \<Rightarrow>
       (case r of
          Returned (Inl er) \<Rightarrow>
            if flag then (case quarantine win b d of (b, d) \<Rightarrow> (r, b, d)) else (r, b, d)
        | _ \<Rightarrow> (r, b, d)))"

text \<open>The whole call, under \<open>catch_unwind\<close>; the query is the one of the STI object.\<close>

definition with_live_capabilities_guarded ::
    "'w driver windows \<Rightarrow> ('w driver \<Rightarrow> 'c hr outcome \<times> 'w driver) \<Rightarrow>
     ('c \<Rightarrow> 'w driver \<Rightarrow> ('a hr outcome \<times> bool) \<times> 'w driver) \<Rightarrow> 'w driver \<Rightarrow> 'a hr \<times> 'w driver" where
  "with_live_capabilities_guarded win query publish d = (case borrow_take d of
     (Inl er, d) \<Rightarrow> (Inl er, d)
   | (Inr b, d) \<Rightarrow> (case with_guarded_locked_capabilities win query publish b d of (r, b, d) \<Rightarrow>
       (case r of
          Panicked \<Rightarrow> (Inl E_UNEXPECTED, borrow_drop win True b d)
        | Returned r \<Rightarrow> (r, borrow_drop win False b d))))"

section \<open>Cancellation\<close>

definition job_begin :: "nat list \<Rightarrow> 'w driver \<Rightarrow> nat hr \<times> 'w driver" where
  "job_begin device d = (case active d of
     Some _ \<Rightarrow> (Inl WIA_ERROR_BUSY, d)
   | None \<Rightarrow> (let f = fresh_flag d in
       (Inr f, d\<lparr>active := Some (device, f), cancel_flags := (cancel_flags d)(f := False),
          fresh_flag := Suc f\<rparr>)))"

definition job_cancel :: "nat list \<Rightarrow> 'w driver \<Rightarrow> bool \<times> 'w driver" where
  "job_cancel device d = (case active d of
     Some (dev, f) \<Rightarrow>
       if dev = device then (True, d\<lparr>cancel_flags := (cancel_flags d)(f := True)\<rparr>) else (False, d)
   | None \<Rightarrow> (False, d))"

definition job_remove :: "nat \<Rightarrow> 'w driver \<Rightarrow> bool \<times> 'w driver" where
  "job_remove f d = (case active d of
     Some (_, g) \<Rightarrow> if g = f then (cancel_flags d f, d\<lparr>active := None\<rparr>) else (False, d)
   | None \<Rightarrow> (False, d))"

text \<open>\<open>finish\<close> consumes the job, whose \<open>Drop\<close> removes it a second time.\<close>

definition job_finish :: "nat \<Rightarrow> 'w driver \<Rightarrow> bool \<times> 'w driver" where
  "job_finish f d = (case job_remove f d of (stopped, d) \<Rightarrow> (stopped, snd (job_remove f d)))"

section \<open>Acquisition\<close>

text \<open>What an acquisition reads from the item, from \<open>properties.rs\<close>.\<close>

record snapshot =
  snap_settings :: flatbed_settings
  snap_item :: scalars
  snap_full_item :: scalars

definition failed_status :: "int \<Rightarrow> int" where
  "failed_status hr = (if hr < 0 then hr else E_UNEXPECTED)"

text \<open>The result code of an \<open>io::Error\<close>, by its payload, its OS code or its kind.\<close>

definition os_status :: "int \<Rightarrow> int" where
  "os_status code =
     (if code < 0 then code
      else if code > 0 then as_i32 (0x80070000 OR nat code AND 0xFFFF)
      else E_UNEXPECTED)"

fun kind_status :: "error_kind \<Rightarrow> int" where
  "kind_status InvalidInput = E_INVALIDARG"
| "kind_status WouldBlock = WIA_ERROR_BUSY"
| "kind_status PermissionDenied = as_i32 0x80070005"
| "kind_status NotConnected = as_i32 0x80210005"
| "kind_status OutOfMemory = as_i32 0x8007000E"
| "kind_status _ = as_i32 0x80004005"

fun error_status :: "io_error \<Rightarrow> int" where
  "error_status (Custom _ (TransferError original _)) = error_status original"
| "error_status (Custom _ (StreamError _ hr)) = failed_status hr"
| "error_status (Custom _ (CallbackError _ hr)) = failed_status hr"
| "error_status (Os code _) = os_status code"
| "error_status (Custom k _) = kind_status k"

fun acquire_outcome :: "transfer_outcome io \<Rightarrow> int" where
  "acquire_outcome (Inr (Completed _)) = 0"
| "acquire_outcome (Inr Skipped) = 0"
| "acquire_outcome (Inr Cancelled) = 1"
| "acquire_outcome (Inl er) = error_status er"

text \<open>
  \<open>dispatch\<close> of an acquisition: it owns the connection and the job; both are given up on
  every path, the unwinding of a panic included, which \<open>catch_hresult\<close> turns into a code.
\<close>

definition dispatch_acquire ::
    "'w driver windows \<Rightarrow> ('w driver \<Rightarrow> 'p hr outcome \<times> 'w driver) \<Rightarrow>
     ('p \<Rightarrow> nat \<Rightarrow> 'w driver \<Rightarrow> transfer_outcome io outcome \<times> 'w driver) \<Rightarrow> 'w driver \<Rightarrow>
     int \<times> 'w driver" where
  "dispatch_acquire win read_item run d = (case borrow_take d of
     (Inl hr, d) \<Rightarrow> (hr, d)
   | (Inr b, d) \<Rightarrow> (case job_begin (conn_device (the (borrowed b))) d of
       (Inl hr, d) \<Rightarrow> (hr, borrow_drop win False b d)
     | (Inr f, d) \<Rightarrow> (case read_item d of
         (Panicked, d) \<Rightarrow> (E_UNEXPECTED, borrow_drop win True b (snd (job_remove f d)))
       | (Returned (Inl hr), d) \<Rightarrow>
           (failed_status hr, borrow_drop win False b (snd (job_remove f d)))
       | (Returned (Inr snapshot), d) \<Rightarrow> (case run snapshot f d of
           (Panicked, d) \<Rightarrow> (E_UNEXPECTED, borrow_drop win True b (snd (job_remove f d)))
         | (Returned result, d) \<Rightarrow> (case job_finish f d of (stopped, d) \<Rightarrow>
             (case result of
                Inr _ \<Rightarrow> if stopped then 1 else acquire_outcome result
              | Inl _ \<Rightarrow> acquire_outcome result,
              borrow_drop win False b d))))))"

end
