(* ===== verification/Minidriver_Entries.thy ===== *)
theory Minidriver_Entries
  imports Minidriver
begin

unbundle bit_operations_syntax

text \<open>
  The entries of \<open>IWiaMiniDrv\<close> that do not touch the properties of an item: connection and
  lock (\<open>minidrv.rs\<close>, \<open>locking.rs\<close>), notifications (\<open>cancel.rs\<close>), commands and events
  (\<open>capabilities.rs\<close>), formats (\<open>formats.rs\<close>) and error texts (\<open>errors.rs\<close>), all in
  \<open>src/com_server/minidrv\<close>. A pointer argument is a flag that says whether it is non-null, or
  an optional value; an output is the value stored, \<open>None\<close> when there is no place for it or the
  pointer stored is null.
\<close>

section \<open>Reports and names\<close>

text \<open>What an entry returns and what it leaves in the caller's device error.\<close>

definition report :: "bool \<Rightarrow> int \<Rightarrow> int \<times> int option" where
  "report has_error result =
     (if \<not> has_error then (E_POINTER, None) else (result, Some (if result < 0 then result else 0)))"

definition read_bstr :: "nat list option \<Rightarrow> nat list hr" where
  "read_bstr value = (case value of
     None \<Rightarrow> Inl E_INVALIDARG
   | Some u \<Rightarrow>
       if u = [] \<or> length u > 16 * 1024 then Inl E_INVALIDARG
       else if 0 \<in> set u then Inl E_INVALIDARG
       else Inr u)"

section \<open>Connection\<close>

definition initialize_entry ::
    "'w driver windows \<Rightarrow> bool \<Rightarrow> bool \<Rightarrow> int \<Rightarrow> nat list option \<Rightarrow> nat list option \<Rightarrow> nat option \<Rightarrow>
     bool \<Rightarrow> bool \<Rightarrow> 'w driver \<Rightarrow> ((int \<times> int option) \<times> nat option) \<times> 'w driver" where
  "initialize_entry win this ctx fl device_id full_name sti root_ptr has_error d =
     (if \<not> has_error then ((report False E_POINTER, None), d)
      else if \<not> this \<or> \<not> ctx \<or> \<not> root_ptr \<or> fl \<noteq> 0 then ((report True E_INVALIDARG, None), d)
      else case and_then (read_bstr device_id) (\<lambda>device.
             and_then (read_bstr full_name) (\<lambda>name. Inr (device, name))) of
          Inl hr \<Rightarrow> ((report True hr, None), d)
        | Inr (device, name) \<Rightarrow> (case initialize_tree win this device name sti d of
              (Inr item, d) \<Rightarrow> ((report True 0, Some item), d)
            | (Inl hr, d) \<Rightarrow> ((report True hr, None), d)))"

definition uninitialize :: "'w driver windows \<Rightarrow> bool \<Rightarrow> bool \<Rightarrow> 'w driver \<Rightarrow> int \<times> 'w driver" where
  "uninitialize win this ctx d =
     (if \<not> this \<or> \<not> ctx then (E_INVALIDARG, d) else disconnect_client win d)"

definition free_context :: "int \<Rightarrow> bool \<Rightarrow> int \<times> int option" where
  "free_context fl has_error = report has_error (if fl = 0 then 0 else E_INVALIDARG)"

definition unsupported_item :: "bool \<Rightarrow> int \<times> int option" where
  "unsupported_item has_error = report has_error E_NOTIMPL"

definition lock_entry ::
    "'w driver windows \<Rightarrow> bool \<Rightarrow> bool \<Rightarrow> bool \<Rightarrow> int \<Rightarrow> bool \<Rightarrow> 'w driver \<Rightarrow> (int \<times> int option) \<times> 'w driver" where
  "lock_entry win lock this ctx fl has_error d =
     (if \<not> has_error then ((E_POINTER, None), d)
      else if \<not> this \<or> \<not> ctx \<or> fl \<noteq> 0 then (report True E_INVALIDARG, d)
      else case dispatch_lock win lock d of (result, d) \<Rightarrow> (report True result, d))"

section \<open>Commands and events\<close>

definition WIA_CMD_SYNCHRONIZE :: guid where
  "WIA_CMD_SYNCHRONIZE = \<lparr>data1 = 0x9b26b7b2, data2 = 0xacad, data3 = 0x11d2,
     data4 = [0xa0, 0x93, 0x00, 0xc0, 0x4f, 0x72, 0xdc, 0x3c]\<rparr>"

definition WIA_EVENT_DEVICE_CONNECTED :: guid where
  "WIA_EVENT_DEVICE_CONNECTED = \<lparr>data1 = 0xa28bbade, data2 = 0x64b6, data3 = 0x11d2,
     data4 = [0xa2, 0x31, 0x00, 0xc0, 0x4f, 0xa3, 0x18, 0x09]\<rparr>"

definition WIA_EVENT_DEVICE_DISCONNECTED :: guid where
  "WIA_EVENT_DEVICE_DISCONNECTED = \<lparr>data1 = 0x143e4e83, data2 = 0x6497, data3 = 0x11d2,
     data4 = [0xa2, 0x31, 0x00, 0xc0, 0x4f, 0xa3, 0x18, 0x09]\<rparr>"

definition CANCEL_IO :: guid where
  "CANCEL_IO = \<lparr>data1 = 0xc860f7b8, data2 = 0x9ccd, data3 = 0x41ea,
     data4 = [0xbb, 0xbf, 0x4d, 0xd0, 0x9c, 0x5b, 0x17, 0x95]\<rparr>"

record dev_cap =
  cap_guid :: guid
  cap_flags :: nat
  cap_name :: "nat list"
  cap_description :: "nat list"
  cap_icon :: "nat list"

text \<open>\<open>wide!\<close>: an ASCII literal as UTF-16 with its terminator.\<close>

definition wide :: "string \<Rightarrow> nat list" where
  "wide s = map of_char s @ [0]"

definition SYNCHRONIZE :: dev_cap where
  "SYNCHRONIZE = \<lparr>cap_guid = WIA_CMD_SYNCHRONIZE, cap_flags = 0, cap_name = wide ''Synchronize'',
     cap_description = wide ''Synchronize the flatbed item tree with the scanner'',
     cap_icon = wide ''sti.dll,-2000''\<rparr>"

definition CONNECTED :: dev_cap where
  "CONNECTED = \<lparr>cap_guid = WIA_EVENT_DEVICE_CONNECTED, cap_flags = 1,
     cap_name = wide ''Device Connected'', cap_description = wide ''The scanner was connected'',
     cap_icon = wide ''sti.dll,-1001''\<rparr>"

definition DISCONNECTED_EVENT :: dev_cap where
  "DISCONNECTED_EVENT = \<lparr>cap_guid = WIA_EVENT_DEVICE_DISCONNECTED, cap_flags = 1,
     cap_name = wide ''Device Disconnected'', cap_description = wide ''The scanner was disconnected'',
     cap_icon = wide ''sti.dll,-1001''\<rparr>"

definition WIA_DEVICE_COMMANDS :: int where "WIA_DEVICE_COMMANDS = 1"
definition WIA_DEVICE_EVENTS :: int where "WIA_DEVICE_EVENTS = 2"

definition select_caps :: "int \<Rightarrow> dev_cap list hr" where
  "select_caps fl =
     (if fl = WIA_DEVICE_COMMANDS then Inr [SYNCHRONIZE]
      else if fl = WIA_DEVICE_EVENTS then Inr [CONNECTED, DISCONNECTED_EVENT]
      else if fl = WIA_DEVICE_COMMANDS OR WIA_DEVICE_EVENTS
      then Inr [SYNCHRONIZE, CONNECTED, DISCONNECTED_EVENT]
      else Inl E_INVALIDARG)"

definition declares_event :: "guid \<Rightarrow> bool" where
  "declares_event g = list_ex (\<lambda>c. cap_guid c = g) [CONNECTED, DISCONNECTED_EVENT]"

text \<open>The outputs of an entry that returns a list.\<close>

record 'a list_output =
  out_result :: "int \<times> int option"
  out_count :: "int option"
  out_list :: "'a list option"

definition capabilities_entry :: "bool \<Rightarrow> int \<Rightarrow> bool \<Rightarrow> bool \<Rightarrow> bool \<Rightarrow> dev_cap list_output" where
  "capabilities_entry this fl count_ptr list_ptr has_error =
     (let cleared = (if count_ptr then Some 0 else None) in
      if \<not> has_error then \<lparr>out_result = (E_POINTER, None), out_count = cleared, out_list = None\<rparr>
      else if \<not> this \<or> \<not> count_ptr
      then \<lparr>out_result = report True E_INVALIDARG, out_count = cleared, out_list = None\<rparr>
      else case select_caps fl of
          Inl hr \<Rightarrow> \<lparr>out_result = report True hr, out_count = cleared, out_list = None\<rparr>
        | Inr table \<Rightarrow> \<lparr>out_result = report True S_OK, out_count = Some (int (length table)),
              out_list = (if list_ptr then Some table else None)\<rparr>)"

definition command_entry :: "bool \<Rightarrow> bool \<Rightarrow> int \<Rightarrow> guid option \<Rightarrow> bool \<Rightarrow> int \<times> int option" where
  "command_entry this ctx fl cmd has_error =
     (if \<not> has_error then (E_POINTER, None)
      else report True
        (case cmd of
           None \<Rightarrow> E_POINTER
         | Some g \<Rightarrow>
             if \<not> this \<or> \<not> ctx \<or> fl \<noteq> 0 then E_INVALIDARG
             else if g = WIA_CMD_SYNCHRONIZE then S_OK else E_NOTIMPL))"

text \<open>A notification reaches the running acquisition without taking the lifecycle.\<close>

definition notify :: "bool \<Rightarrow> guid option \<Rightarrow> nat list option \<Rightarrow> nat \<Rightarrow> 'w driver \<Rightarrow> int \<times> 'w driver" where
  "notify this event device reserved d = (case (event, device) of
     (Some g, Some _) \<Rightarrow>
       if \<not> this then (E_POINTER, d)
       else if reserved \<noteq> 0 then (E_INVALIDARG, d)
       else if g \<noteq> CANCEL_IO then (if declares_event g then 0 else E_NOTIMPL, d)
       else (case read_bstr device of Inl hr \<Rightarrow> (hr, d) | Inr dev \<Rightarrow> (0, snd (job_cancel dev d)))
   | _ \<Rightarrow> (E_POINTER, d))"

section \<open>Formats\<close>

definition WIA_ITEM_TYPE_IMAGE :: int where "WIA_ITEM_TYPE_IMAGE = 0x00000001"
definition WIA_ITEM_TYPE_FILE :: int where "WIA_ITEM_TYPE_FILE = 0x00000002"
definition WIA_ITEM_TYPE_FOLDER :: int where "WIA_ITEM_TYPE_FOLDER = 0x00000004"
definition WIA_ITEM_TYPE_ROOT :: int where "WIA_ITEM_TYPE_ROOT = 0x00000008"
definition WIA_ITEM_TYPE_TRANSFER :: int where "WIA_ITEM_TYPE_TRANSFER = 0x00002000"
definition WIA_ITEM_TYPE_PROGRAMMABLE :: int where "WIA_ITEM_TYPE_PROGRAMMABLE = 0x00080000"

definition WIA_IMG_FMT_BMP :: guid where
  "WIA_IMG_FMT_BMP = \<lparr>data1 = 0xb96b3cab, data2 = 0x0728, data3 = 0x11d3,
     data4 = [0x9d, 0x7b, 0, 0, 0xf8, 0x1e, 0xf3, 0x2e]\<rparr>"

definition select_formats :: "int \<Rightarrow> (guid \<times> int) list hr" where
  "select_formats item_type =
     (if item_type AND (WIA_ITEM_TYPE_ROOT OR WIA_ITEM_TYPE_FOLDER) \<noteq> 0
         \<or> item_type AND WIA_ITEM_TYPE_IMAGE = 0
         \<or> item_type AND WIA_ITEM_TYPE_TRANSFER = 0
      then Inl E_INVALIDARG
      else Inr [(WIA_IMG_FMT_BMP, TYMED_FILE)])"

definition helper_failure :: "int \<Rightarrow> int" where
  "helper_failure hr = (if hr < 0 then hr else E_UNEXPECTED)"

text \<open>\<open>item_type_of\<close> is \<open>wiasGetItemType\<close>: its code and its output.\<close>

definition formats_entry ::
    "'w driver windows \<Rightarrow> ('w driver \<Rightarrow> (int \<times> int) \<times> 'w driver) \<Rightarrow> bool \<Rightarrow> bool \<Rightarrow> int \<Rightarrow> bool \<Rightarrow> bool \<Rightarrow>
     bool \<Rightarrow> 'w driver \<Rightarrow> (guid \<times> int) list_output \<times> 'w driver" where
  "formats_entry win item_type_of this ctx fl count_ptr list_ptr has_error d =
     (let cleared = (if count_ptr then Some 0 else None);
          refuse = (\<lambda>r. \<lparr>out_result = r, out_count = cleared, out_list = None\<rparr>) in
      if \<not> has_error then (refuse (E_POINTER, None), d)
      else if \<not> this \<or> \<not> ctx \<or> \<not> count_ptr \<or> fl \<noteq> 0 then (refuse (report True E_INVALIDARG), d)
      else case borrow_take d of
          (Inl hr, d) \<Rightarrow> (refuse (report True hr), d)
        | (Inr b, d) \<Rightarrow> (case item_type_of d of ((hr, item_type), d) \<Rightarrow>
            ((if hr \<noteq> S_OK then refuse (report True (helper_failure hr))
              else case select_formats item_type of
                  Inl hr \<Rightarrow> refuse (report True hr)
                | Inr infos \<Rightarrow> \<lparr>out_result = report True S_OK, out_count = Some (int (length infos)),
                      out_list = (if list_ptr then Some infos else None)\<rparr>),
             borrow_drop win False b d)))"

section \<open>Error texts\<close>

definition E_FAIL :: int where "E_FAIL = as_i32 0x80004005"
definition E_ACCESSDENIED :: int where "E_ACCESSDENIED = as_i32 0x80070005"
definition FACILITY_WIN32_PREFIX :: nat where "FACILITY_WIN32_PREFIX = 0x80070000"

definition fixed_texts :: "(int \<times> string) list" where
  "fixed_texts =
    [(0, ''No error.''),
     (WIA_ERROR_BUSY, ''The scanner is busy with another operation. Wait for it to finish and try again.''),
     (as_i32 0x80210005, ''The scanner is not responding. Check that it is switched on and connected by USB.''),
     (as_i32 0x80210001, ''The scanner reported a general error.''),
     (as_i32 0x80210002, ''The scanner reported a paper jam.''),
     (as_i32 0x80210003, ''The scanner reported that no paper is loaded.''),
     (as_i32 0x80210004, ''The scanner reported a paper handling problem.''),
     (as_i32 0x80210007, ''The scanner is warming up. Try again shortly.''),
     (as_i32 0x80210008, ''The scanner needs attention before it can continue.''),
     (as_i32 0x80210009, ''The scan item no longer exists.''),
     (as_i32 0x8021000A, ''Communication with the scanner failed.''),
     (as_i32 0x8021000B, ''The scanner rejected the command.''),
     (as_i32 0x8021000C, ''The requested scan settings are not supported by the scanner.''),
     (as_i32 0x8021000D, ''The scanner is locked by another application.''),
     (as_i32 0x8021000E, ''The scanner driver stopped unexpectedly.''),
     (as_i32 0x8021000F, ''The scanner returned an unexpected response.''),
     (as_i32 0x80210010, ''The scanner cover is open.''),
     (E_INVALIDARG, ''The scan request contained an invalid setting or argument.''),
     (E_POINTER, ''The scan request was missing required data.''),
     (E_NOTIMPL, ''The requested operation is not supported by this scanner driver.''),
     (E_UNEXPECTED, ''The scanner driver encountered an unexpected internal state.''),
     (E_FAIL, ''The scan failed.''),
     (E_OUTOFMEMORY, ''There is not enough memory to complete the scan.''),
     (E_ACCESSDENIED, ''Access to the scanner was denied.'')]"

fun decimal_digits :: "nat \<Rightarrow> string" where
  "decimal_digits n =
     (if n < 10 then [char_of (48 + n)] else decimal_digits (n div 10) @ [char_of (48 + n mod 10)])"

declare decimal_digits.simps [simp del]

text \<open>
  \<open>system_message\<close> stands for \<open>FormatMessageW\<close>: the text that Windows has for a Win32 code,
  already trimmed, if any.
\<close>

definition describe :: "(nat \<Rightarrow> scalars option) \<Rightarrow> int \<Rightarrow> scalars option" where
  "describe system_message code = (case map_of fixed_texts code of
     Some s \<Rightarrow> Some (map of_char s)
   | None \<Rightarrow>
       if as_u32 code AND 0xFFFF0000 \<noteq> FACILITY_WIN32_PREFIX then None
       else let win32 = as_u32 code AND 0xFFFF in
         Some (case system_message win32 of
             Some s \<Rightarrow> s
           | None \<Rightarrow> map of_char (''Windows error '' @ decimal_digits win32 @ ''.'')))"

text \<open>The text is copied, with its terminator, into a block of the COM allocator \<open>alloc\<close>.\<close>

definition error_string_entry ::
    "(nat \<Rightarrow> scalars option) \<Rightarrow> (nat \<Rightarrow> bool) \<Rightarrow> bool \<Rightarrow> int \<Rightarrow> int \<Rightarrow> bool \<Rightarrow> bool \<Rightarrow>
     (int \<times> int option) \<times> nat list option" where
  "error_string_entry system_message alloc this fl code text_ptr has_error =
     (if \<not> has_error then ((E_POINTER, None), None)
      else if \<not> this \<or> fl \<noteq> 0 then (report True E_INVALIDARG, None)
      else case describe system_message code of
          None \<Rightarrow> (report True E_INVALIDARG, None)
        | Some s \<Rightarrow>
            if \<not> text_ptr then (report True S_OK, None)
            else
              let units = encode_utf16 s @ [0] in
              case checked_mul64 (length units) 2 of
                None \<Rightarrow> (report True E_OUTOFMEMORY, None)
              | Some n \<Rightarrow>
                  if alloc n then (report True S_OK, Some units)
                  else (report True E_OUTOFMEMORY, None))"

end
