(* ===== verification/Wia_Native.thy ===== *)
theory Wia_Native
  imports Wia_Validation
begin

text \<open>
  Publication of a catalog through the WIA service library, from
  \<open>src/com_server/minidrv/properties/native.rs\<close>: the initial publication, and the update of
  an item by the difference of two catalogs. The service library and the BSTR allocator are
  parameters, a record of their calls over a world \<open>'w\<close>. A pointer argument is the data
  behind it; the storage it points to lives until the call that uses it has returned.
\<close>

section \<open>Native representations\<close>

definition PRSPEC_LPWSTR :: nat where "PRSPEC_LPWSTR = 0"
definition PRSPEC_PROPID :: nat where "PRSPEC_PROPID = 1"

text \<open>
  A \<open>PROPSPEC\<close> is a tagged union: the kind selects the identifier or the name pointer, which
  is null or gives access to UTF-16 code units. Any other kind has no member.
\<close>

datatype prop_spec = IdSpec nat | NameSpec "(nat \<Rightarrow> nat) option" | OtherSpec nat

fun spec_kind :: "prop_spec \<Rightarrow> nat" where
  "spec_kind (IdSpec i) = PRSPEC_PROPID"
| "spec_kind (NameSpec p) = PRSPEC_LPWSTR"
| "spec_kind (OtherSpec k) = k"

definition from_id :: "nat \<Rightarrow> prop_spec" where
  "from_id propid = IdSpec propid"

fun spec_id :: "prop_spec \<Rightarrow> nat option" where
  "spec_id (IdSpec i) = Some i"
| "spec_id _ = None"

fun name_ptr :: "prop_spec \<Rightarrow> (nat \<Rightarrow> nat) option option" where
  "name_ptr (NameSpec p) = Some p"
| "name_ptr _ = None"

datatype variant_data = LongData int | GuidData guid | BstrData "nat list"

record prop_variant =
  vt :: nat
  vdata :: variant_data

datatype valid_value =
    RangeValue int int int int
  | ListValue int int "int list"
  | GuidListValue int guid "guid list"
  | FlagValue int int
  | NoneValue int

record property_info =
  info_access :: nat
  info_vt :: nat
  info_valid :: valid_value

record 'w service =
  set_item_names :: "nat list \<Rightarrow> nat list list \<Rightarrow> 'w \<Rightarrow> int \<times> 'w"
  write_multiple :: "prop_spec list \<Rightarrow> prop_variant list \<Rightarrow> 'w \<Rightarrow> int \<times> 'w"
  set_item_attribute :: "prop_spec \<Rightarrow> property_info \<Rightarrow> 'w \<Rightarrow> int \<times> 'w"
  alloc_string :: "nat list \<Rightarrow> 'w \<Rightarrow> bool \<times> 'w"
  free_string :: "nat list \<Rightarrow> 'w \<Rightarrow> 'w"

section \<open>Storage\<close>

text \<open>Only a text needs an allocation, which can fail.\<close>

definition variant_new :: "'w service \<Rightarrow> property_value \<Rightarrow> 'w \<Rightarrow> prop_variant hr \<times> 'w" where
  "variant_new sv v w = (case v of
     Long n \<Rightarrow> (Inr \<lparr>vt = VT_I4, vdata = LongData n\<rparr>, w)
   | Guid g \<Rightarrow> (Inr \<lparr>vt = VT_CLSID, vdata = GuidData g\<rparr>, w)
   | Text s \<Rightarrow>
       if length (encode_utf16 s) > 2 ^ 32 - 1 then (Inl E_INVALIDARG, w)
       else case alloc_string sv (encode_utf16 s) w of
           (True, w) \<Rightarrow> (Inr \<lparr>vt = VT_BSTR, vdata = BstrData (encode_utf16 s)\<rparr>, w)
         | (False, w) \<Rightarrow> (Inl E_OUTOFMEMORY, w))"

text \<open>Dropping a variant frees its text.\<close>

definition drop_variant :: "'w service \<Rightarrow> prop_variant \<Rightarrow> 'w \<Rightarrow> 'w" where
  "drop_variant sv v w = (case vdata v of BstrData s \<Rightarrow> free_string sv s w | _ \<Rightarrow> w)"

definition drop_variants :: "'w service \<Rightarrow> prop_variant list \<Rightarrow> 'w \<Rightarrow> 'w" where
  "drop_variants sv vs w = fold (drop_variant sv) vs w"

text \<open>\<open>from_values\<close> collects; what it has collected is dropped when a later value fails.\<close>

fun from_values ::
    "'w service \<Rightarrow> prop_variant list \<Rightarrow> property_value list \<Rightarrow> 'w \<Rightarrow> prop_variant list hr \<times> 'w" where
  "from_values sv done [] w = (Inr done, w)"
| "from_values sv done (v # vs) w = (case variant_new sv v w of
     (Inl er, w) \<Rightarrow> (Inl er, drop_variants sv done w)
   | (Inr x, w) \<Rightarrow> from_values sv (done @ [x]) vs w)"

definition attribute_new :: "property_attribute \<Rightarrow> property_info hr" where
  "attribute_new a = (case a of
     NoValidity ac t \<Rightarrow> Inr \<lparr>info_access = ac, info_vt = t, info_valid = NoneValue 0\<rparr>
   | RangeLong ac lo nominal hi step \<Rightarrow>
       Inr \<lparr>info_access = ac, info_vt = VT_I4, info_valid = RangeValue lo nominal hi step\<rparr>
   | ListLong ac vs nominal \<Rightarrow>
       if vs = [] \<or> length vs > 2 ^ 31 - 1 then Inl E_INVALIDARG
       else Inr \<lparr>info_access = ac, info_vt = VT_I4,
              info_valid = ListValue (int (length vs)) nominal vs\<rparr>
   | ListGuid ac vs nominal \<Rightarrow>
       if vs = [] \<or> length vs > 2 ^ 31 - 1 then Inl E_INVALIDARG
       else Inr \<lparr>info_access = ac, info_vt = VT_CLSID,
              info_valid = GuidListValue (int (length vs)) nominal vs\<rparr>
   | FlagLong ac nominal bits \<Rightarrow>
       Inr \<lparr>info_access = ac, info_vt = VT_I4, info_valid = FlagValue nominal bits\<rparr>)"

fun attributes_new :: "property_attribute list \<Rightarrow> property_info list hr" where
  "attributes_new [] = Inr []"
| "attributes_new (a # as) = and_then (attribute_new a) (\<lambda>x. and_then (attributes_new as) (\<lambda>xs. Inr (x # xs)))"

definition ensure_s_ok :: "int \<Rightarrow> unit hr" where
  "ensure_s_ok hr = (if hr = S_OK then Inr () else if hr < 0 then Inl hr else Inl E_UNEXPECTED)"

definition write_plan :: "property_catalog \<Rightarrow> nat hr" where
  "write_plan c =
     (if length (ids c) \<noteq> length (initial_values c) \<or> length (ids c) \<noteq> length (attributes c)
         \<or> length (ids c) \<noteq> length (names c)
      then Inl E_INVALIDARG else Inr (length (ids c)))"

section \<open>Publication\<close>

definition wide_name :: "string \<Rightarrow> nat list" where
  "wide_name name = encode_utf16 (map of_char name) @ [0]"

fun publish_attributes ::
    "'w service \<Rightarrow> (prop_spec \<times> property_attribute) list \<Rightarrow> 'w \<Rightarrow> unit hr \<times> 'w" where
  "publish_attributes sv [] w = (Inr (), w)"
| "publish_attributes sv ((spec, a) # rest) w = (case attribute_new a of
     Inl er \<Rightarrow> (Inl er, w)
   | Inr info \<Rightarrow> (case set_item_attribute sv spec info w of (hr, w) \<Rightarrow>
       (case ensure_s_ok hr of Inl er \<Rightarrow> (Inl er, w) | Inr _ \<Rightarrow> publish_attributes sv rest w)))"

definition publish_with :: "'w service \<Rightarrow> property_catalog \<Rightarrow> 'w \<Rightarrow> unit hr \<times> 'w" where
  "publish_with sv c w = (case write_plan c of
     Inl er \<Rightarrow> (Inl er, w)
   | Inr n \<Rightarrow>
       if n = 0 \<or> n > 2 ^ 31 - 1 then (Inl E_INVALIDARG, w)
       else case set_item_names sv (ids c) (map wide_name (names c)) w of (hr, w) \<Rightarrow>
         (case ensure_s_ok hr of
            Inl er \<Rightarrow> (Inl er, w)
          | Inr _ \<Rightarrow> (case from_values sv [] (initial_values c) w of
                (Inl er, w) \<Rightarrow> (Inl er, w)
              | (Inr vs, w) \<Rightarrow>
                  let specs = map from_id (ids c);
                      (hr, w) = write_multiple sv specs vs w;
                      (r, w) = (case ensure_s_ok hr of
                          Inl er \<Rightarrow> (Inl er, w)
                        | Inr _ \<Rightarrow> publish_attributes sv (zip specs (attributes c)) w)
                  in (r, drop_variants sv vs w))))"

text \<open>\<open>publish\<close> rejects a null context, here the flag \<open>context\<close>.\<close>

definition publish :: "bool \<Rightarrow> 'w service \<Rightarrow> property_catalog \<Rightarrow> 'w \<Rightarrow> unit hr \<times> 'w" where
  "publish context sv c w = (if \<not> context then (Inl E_INVALIDARG, w) else publish_with sv c w)"

definition write_long_with :: "nat \<Rightarrow> int \<Rightarrow> 'w service \<Rightarrow> 'w \<Rightarrow> unit hr \<times> 'w" where
  "write_long_with propid v sv w = (case variant_new sv (Long v) w of
     (Inl er, w) \<Rightarrow> (Inl er, w)
   | (Inr x, w) \<Rightarrow> (case write_multiple sv [from_id propid] [x] w of
        (hr, w) \<Rightarrow> (ensure_s_ok hr, drop_variant sv x w)))"

definition write_long :: "bool \<Rightarrow> 'w service \<Rightarrow> nat \<Rightarrow> int \<Rightarrow> 'w \<Rightarrow> unit hr \<times> 'w" where
  "write_long context sv propid v w =
     (if \<not> context then (Inl E_INVALIDARG, w) else write_long_with propid v sv w)"

section \<open>Updates\<close>

definition DEPENDENT_VALUE_IDS :: "nat list" where
  "DEPENDENT_VALUE_IDS = [4103, 4104, 4109, 4112, 4114, 4116, 6147, 6148, 6149, 6150, 6151, 6152,
     6167, 6168]"

definition DEPENDENT_ATTRIBUTE_IDS :: "nat list" where
  "DEPENDENT_ATTRIBUTE_IDS = [4104, 6148, 6149, 6150, 6151, 6152]"

record delta_plan =
  value_specs :: "prop_spec list"
  value_storage :: "prop_variant list"
  attribute_specs :: "prop_spec list"
  attribute_storage :: "property_info list"

text \<open>Two catalogs that may differ in values and attributes only.\<close>

definition comparable :: "property_catalog \<Rightarrow> property_catalog \<Rightarrow> unit hr" where
  "comparable before after =
     and_then (write_plan before) (\<lambda>n. and_then (write_plan after) (\<lambda>m.
       if n = 0 \<or> m = 0 \<or> n \<noteq> m \<or> n > 2 ^ 32 - 1 \<or> ids before \<noteq> ids after \<or> names before \<noteq> names after
       then Inl E_INVALIDARG else Inr ()))"

definition changed_indices :: "'a list \<Rightarrow> 'a list \<Rightarrow> nat list" where
  "changed_indices before after =
     filter (\<lambda>k. before ! k \<noteq> after ! k) [0..<min (length before) (length after)]"

definition build_delta_plan ::
    "'w service \<Rightarrow> property_catalog \<Rightarrow> property_catalog \<Rightarrow> 'w \<Rightarrow> delta_plan hr \<times> 'w" where
  "build_delta_plan sv before after w = (case comparable before after of
     Inl er \<Rightarrow> (Inl er, w)
   | Inr _ \<Rightarrow>
       let value_indices = changed_indices (initial_values before) (initial_values after);
           attribute_indices = changed_indices (attributes before) (attributes after)
       in if list_ex (\<lambda>k. ids after ! k \<notin> set DEPENDENT_VALUE_IDS) value_indices
             \<or> list_ex (\<lambda>k. ids after ! k \<notin> set DEPENDENT_ATTRIBUTE_IDS) attribute_indices
          then (Inl E_INVALIDARG, w)
          else case from_values sv [] (map (\<lambda>k. initial_values after ! k) value_indices) w of
               (Inl er, w) \<Rightarrow> (Inl er, w)
             | (Inr storage, w) \<Rightarrow>
                 (case attributes_new (map (\<lambda>k. attributes after ! k) attribute_indices) of
                    Inl er \<Rightarrow> (Inl er, drop_variants sv storage w)
                  | Inr infos \<Rightarrow>
                      (Inr \<lparr>value_specs = map (\<lambda>k. from_id (ids after ! k)) value_indices,
                            value_storage = storage,
                            attribute_specs = map (\<lambda>k. from_id (ids after ! k)) attribute_indices,
                            attribute_storage = infos\<rparr>, w)))"

fun write_attributes ::
    "'w service \<Rightarrow> (prop_spec \<times> property_info) list \<Rightarrow> 'w \<Rightarrow> unit hr \<times> 'w" where
  "write_attributes sv [] w = (Inr (), w)"
| "write_attributes sv ((spec, info) # rest) w =
     (case set_item_attribute sv spec info w of (hr, w) \<Rightarrow>
       (case ensure_s_ok hr of Inl er \<Rightarrow> (Inl er, w) | Inr _ \<Rightarrow> write_attributes sv rest w))"

definition finalize_result :: "unit hr \<Rightarrow> unit hr" where
  "finalize_result r = (case r of
     Inr _ \<Rightarrow> Inr () | Inl hr \<Rightarrow> if hr < 0 then Inl hr else Inl E_UNEXPECTED)"

definition update_with ::
    "'w service \<Rightarrow> property_catalog \<Rightarrow> property_catalog \<Rightarrow> ('w \<Rightarrow> unit hr \<times> 'w) \<Rightarrow> 'w \<Rightarrow> unit hr \<times> 'w" where
  "update_with sv before after finalize w = (case build_delta_plan sv before after w of
     (Inl er, w) \<Rightarrow> (Inl er, w)
   | (Inr plan, w) \<Rightarrow>
       let (written, w) = (if value_specs plan \<noteq> []
             then case write_multiple sv (value_specs plan) (value_storage plan) w of
                    (hr, w) \<Rightarrow> (ensure_s_ok hr, w)
             else (Inr (), w));
           (written, w) = (case written of
               Inl er \<Rightarrow> (Inl er, w)
             | Inr _ \<Rightarrow> write_attributes sv (zip (attribute_specs plan) (attribute_storage plan)) w);
           (r, w) = (case written of
               Inl er \<Rightarrow> (Inl er, w)
             | Inr _ \<Rightarrow> (case finalize w of (r, w) \<Rightarrow> (finalize_result r, w)))
       in (r, drop_variants sv (value_storage plan) w))"

definition update ::
    "bool \<Rightarrow> 'w service \<Rightarrow> property_catalog \<Rightarrow> property_catalog \<Rightarrow> ('w \<Rightarrow> unit hr \<times> 'w) \<Rightarrow> 'w \<Rightarrow>
     unit hr \<times> 'w" where
  "update context sv before after finalize w =
     (if \<not> context then (Inl E_INVALIDARG, w) else update_with sv before after finalize w)"

end
