(* ===== verification/Item_Entries.thy ===== *)
theory Item_Entries
  imports Minidriver_Entries Wia_Native Wia_Validation
begin

unbundle bit_operations_syntax

text \<open>
  The entries of \<open>IWiaMiniDrv\<close> that work on the properties of an item, from
  \<open>src/com_server/minidrv/properties.rs\<close> (reading and initialization),
  \<open>properties/validation_entry.rs\<close> (validation of writes), \<open>properties/read_entry.rs\<close>
  (refresh of the document handling status) and \<open>acquire.rs\<close> (acquisition). Reading the item
  through the service library is a second record of calls, beside the one of \<open>Wia_Native\<close>.
\<close>

section \<open>Fallible steps\<close>

definition bind_hr :: "('s \<Rightarrow> 'a hr \<times> 's) \<Rightarrow> ('a \<Rightarrow> 's \<Rightarrow> 'b hr \<times> 's) \<Rightarrow> 's \<Rightarrow> 'b hr \<times> 's" where
  "bind_hr m f s = (case m s of (Inl er, s) \<Rightarrow> (Inl er, s) | (Inr a, s) \<Rightarrow> f a s)"

definition pure_hr :: "'a hr \<Rightarrow> 's \<Rightarrow> 'a hr \<times> 's" where
  "pure_hr r s = (r, s)"

section \<open>Reading the item\<close>

text \<open>
  A read of a value returns its code, the current value and the value before the write (of
  which the code uses one or both). A string is a BSTR that the caller frees.
\<close>

record 's item_reader =
  get_item_type :: "'s \<Rightarrow> (int \<times> int) \<times> 's"
  read_prop_long :: "nat \<Rightarrow> 's \<Rightarrow> (int \<times> int \<times> int) \<times> 's"
  read_prop_guid :: "nat \<Rightarrow> 's \<Rightarrow> (int \<times> guid \<times> guid) \<times> 's"
  read_prop_str :: "nat \<Rightarrow> 's \<Rightarrow> (int \<times> nat list option) \<times> 's"
  free_read_str :: "nat list \<Rightarrow> 's \<Rightarrow> 's"
  validate_item_properties :: "prop_spec list \<Rightarrow> 's \<Rightarrow> int \<times> 's"

definition read_item_type :: "'s item_reader \<Rightarrow> 's \<Rightarrow> int hr \<times> 's" where
  "read_item_type rd s = (case get_item_type rd s of ((hr, t), s) \<Rightarrow>
     (if hr \<noteq> S_OK then Inl hr else Inr t, s))"

definition read_long :: "'s item_reader \<Rightarrow> nat \<Rightarrow> 's \<Rightarrow> int hr \<times> 's" where
  "read_long rd i s = (case read_prop_long rd i s of ((hr, v, _), s) \<Rightarrow>
     (if hr \<noteq> S_OK then Inl hr else Inr v, s))"

definition read_guid :: "'s item_reader \<Rightarrow> nat \<Rightarrow> 's \<Rightarrow> guid hr \<times> 's" where
  "read_guid rd i s = (case read_prop_guid rd i s of ((hr, v, _), s) \<Rightarrow>
     (if hr \<noteq> S_OK then Inl hr else Inr v, s))"

definition into_string :: "nat list \<Rightarrow> scalars hr" where
  "into_string units =
     (if length units > MAX_BSTR_CODE_UNITS then Inl E_INVALIDARG
      else ok_or E_INVALIDARG (decode_utf16 units))"

text \<open>The string is freed on every path, also when a failed read has left one.\<close>

definition read_str :: "'s item_reader \<Rightarrow> nat \<Rightarrow> 's \<Rightarrow> scalars hr \<times> 's" where
  "read_str rd i s = (case read_prop_str rd i s of ((hr, raw), s) \<Rightarrow>
     (if hr \<noteq> S_OK then Inl hr
      else case raw of None \<Rightarrow> Inl E_POINTER | Some u \<Rightarrow> into_string u,
      case raw of None \<Rightarrow> s | Some u \<Rightarrow> free_read_str rd u s))"

text \<open>\<open>read_service_string\<close> differs in the code of a read that fails.\<close>

definition read_service_string :: "'s item_reader \<Rightarrow> nat \<Rightarrow> 's \<Rightarrow> scalars hr \<times> 's" where
  "read_service_string rd i s = (case read_prop_str rd i s of ((hr, raw), s) \<Rightarrow>
     (if hr \<noteq> S_OK then Inl (helper_failure hr)
      else case raw of None \<Rightarrow> Inl E_POINTER | Some u \<Rightarrow> into_string u,
      case raw of None \<Rightarrow> s | Some u \<Rightarrow> free_read_str rd u s))"

definition valid_item_name :: "scalars \<Rightarrow> bool" where
  "valid_item_name v \<longleftrightarrow> v \<noteq> [] \<and> 0 \<notin> set (encode_utf16 v)"

definition read_name ::
    "(nat \<Rightarrow> 's \<Rightarrow> scalars hr \<times> 's) \<Rightarrow> nat \<Rightarrow> 's \<Rightarrow> scalars hr \<times> 's" where
  "read_name rd i = bind_hr (rd i) (\<lambda>v.
     pure_hr (if \<not> valid_item_name v then Inl E_INVALIDARG else Inr v))"

definition read_item_names :: "'s item_reader \<Rightarrow> 's \<Rightarrow> (scalars \<times> scalars) hr \<times> 's" where
  "read_item_names rd =
     bind_hr (read_name (read_service_string rd) WIA_IPA_ITEM_NAME) (\<lambda>item.
     bind_hr (read_name (read_service_string rd) WIA_IPA_FULL_ITEM_NAME) (\<lambda>full_item.
       pure_hr (Inr (item, full_item))))"

definition read_values :: "'s item_reader \<Rightarrow> 's \<Rightarrow> snapshot hr \<times> 's" where
  "read_values rd =
     bind_hr (read_item_type rd) (\<lambda>item_type.
     if item_type AND WIA_ITEM_TYPE_ROOT \<noteq> 0 \<or> item_type AND WIA_ITEM_TYPE_IMAGE = 0
        \<or> item_type AND WIA_ITEM_TYPE_TRANSFER = 0
     then pure_hr (Inl E_INVALIDARG)
     else
       bind_hr (read_long rd WIA_IPS_XRES) (\<lambda>xr.
       bind_hr (read_long rd WIA_IPS_YRES) (\<lambda>yr.
       bind_hr (read_long rd WIA_IPS_XPOS) (\<lambda>xp.
       bind_hr (read_long rd WIA_IPS_YPOS) (\<lambda>yp.
       bind_hr (read_long rd WIA_IPS_XEXTENT) (\<lambda>xe.
       bind_hr (read_long rd WIA_IPS_YEXTENT) (\<lambda>ye.
       bind_hr (read_long rd WIA_IPA_DATATYPE) (\<lambda>t.
       bind_hr (read_long rd WIA_IPA_DEPTH) (\<lambda>bits.
       bind_hr (read_long rd WIA_IPS_BRIGHTNESS) (\<lambda>br.
       bind_hr (read_long rd WIA_IPS_CONTRAST) (\<lambda>co.
       bind_hr (read_long rd WIA_IPA_COMPRESSION) (\<lambda>cm.
       bind_hr (read_guid rd WIA_IPA_FORMAT) (\<lambda>fm.
       let settings = \<lparr>x_resolution = xr, y_resolution = yr, x_position = xp, y_position = yp,
             x_extent = xe, y_extent = ye, data_type = t, depth = bits, fs_brightness = br,
             fs_contrast = co, compression = cm, format = guid_bytes fm\<rparr> in
       bind_hr (read_name (read_str rd) WIA_IPA_ITEM_NAME) (\<lambda>item.
       bind_hr (read_name (read_str rd) WIA_IPA_FULL_ITEM_NAME) (\<lambda>full_item.
         pure_hr (and_then (map_err (\<lambda>_. E_INVALIDARG) (to_request settings)) (\<lambda>_.
           Inr \<lparr>snap_settings = settings, snap_item = item, snap_full_item = full_item\<rparr>))
         )))))))))))))))"

section \<open>Initialization\<close>

definition FLATBED_TYPE :: int where
  "FLATBED_TYPE = WIA_ITEM_TYPE_IMAGE OR WIA_ITEM_TYPE_FILE OR WIA_ITEM_TYPE_TRANSFER
     OR WIA_ITEM_TYPE_PROGRAMMABLE"

definition ROOT_STATUS_UNKNOWN :: int where "ROOT_STATUS_UNKNOWN = 0"

definition helper_item_type :: "'s item_reader \<Rightarrow> 's \<Rightarrow> int hr \<times> 's" where
  "helper_item_type rd s = (case read_item_type rd s of (r, s) \<Rightarrow>
     (case r of Inl hr \<Rightarrow> Inl (helper_failure hr) | Inr t \<Rightarrow> Inr t, s))"

text \<open>The catalog of the item, as both the initialization and the validation rebuild it.\<close>

definition item_catalog :: "'s item_reader \<Rightarrow> capabilities \<Rightarrow> 's \<Rightarrow> property_catalog hr \<times> 's" where
  "item_catalog rd caps =
     bind_hr (helper_item_type rd) (\<lambda>item_type.
     if item_type AND WIA_ITEM_TYPE_ROOT \<noteq> 0 then
       (if item_type AND (WIA_ITEM_TYPE_IMAGE OR WIA_ITEM_TYPE_TRANSFER) \<noteq> 0
        then pure_hr (Inl E_INVALIDARG)
        else pure_hr (root caps ROOT_STATUS_UNKNOWN))
     else if item_type AND FLATBED_TYPE \<noteq> FLATBED_TYPE then pure_hr (Inl E_INVALIDARG)
     else bind_hr (read_item_names rd) (\<lambda>(name, full_name). pure_hr (flatbed caps name full_name)))"

text \<open>
  A publication in two stages: nothing is written before the flag that asks for quarantine
  is set, which is the second component of the result.
\<close>

definition guarded ::
    "('s \<Rightarrow> 'p hr \<times> 's) \<Rightarrow> ('p \<Rightarrow> 's \<Rightarrow> 'a hr \<times> 's) \<Rightarrow> 's \<Rightarrow> ('a hr outcome \<times> bool) \<times> 's" where
  "guarded plan act s = (case plan s of
     (Inl er, s) \<Rightarrow> ((Returned (Inl er), False), s)
   | (Inr p, s) \<Rightarrow> (case act p s of (r, s) \<Rightarrow> ((Returned r, True), s)))"

definition init_publish ::
    "'s service \<Rightarrow> 's item_reader \<Rightarrow> capabilities \<Rightarrow> 's \<Rightarrow> (unit hr outcome \<times> bool) \<times> 's" where
  "init_publish sv rd caps = guarded (item_catalog rd caps) (\<lambda>c. publish True sv c)"

definition item_entry ::
    "bool \<Rightarrow> ('w driver \<Rightarrow> unit hr \<times> 'w driver) \<Rightarrow> bool \<Rightarrow> 'w driver \<Rightarrow> (int \<times> int option) \<times> 'w driver" where
  "item_entry valid run has_error d =
     (if \<not> has_error then ((E_POINTER, None), d)
      else if \<not> valid then (report True E_INVALIDARG, d)
      else case run d of (r, d) \<Rightarrow> (report True (case r of Inl er \<Rightarrow> er | Inr _ \<Rightarrow> S_OK), d))"

definition init_entry ::
    "'w driver windows \<Rightarrow> 'w driver service \<Rightarrow> 'w driver item_reader \<Rightarrow>
     ('w driver \<Rightarrow> capabilities hr outcome \<times> 'w driver) \<Rightarrow> bool \<Rightarrow> bool \<Rightarrow> int \<Rightarrow> bool \<Rightarrow> 'w driver \<Rightarrow>
     (int \<times> int option) \<times> 'w driver" where
  "init_entry win sv rd query this ctx fl =
     item_entry (this \<and> ctx \<and> fl = 0)
       (with_live_capabilities_guarded win query (init_publish sv rd))"

section \<open>Validation of writes\<close>

definition MAX_PROPERTY_SPECS :: nat where "MAX_PROPERTY_SPECS = 128"

datatype requested_property = ById nat | ByName scalars

text \<open>
  A name is read up to its terminator, at most \<open>MAX_BSTR_CODE_UNITS\<close> units of it.
\<close>

fun scan_name :: "(nat \<Rightarrow> nat) \<Rightarrow> nat \<Rightarrow> nat \<Rightarrow> nat" where
  "scan_name p n 0 = n"
| "scan_name p n (Suc k) = (if p n = 0 then n else scan_name p (Suc n) k)"

definition read_spec :: "prop_spec \<Rightarrow> requested_property hr" where
  "read_spec spec = (case spec_id spec of
     Some i \<Rightarrow> Inr (ById i)
   | None \<Rightarrow> (case name_ptr spec of
       None \<Rightarrow> Inl E_INVALIDARG
     | Some None \<Rightarrow> Inl E_POINTER
     | Some (Some p) \<Rightarrow>
         let n = scan_name p 0 MAX_BSTR_CODE_UNITS in
         if n = MAX_BSTR_CODE_UNITS then Inl E_INVALIDARG
         else and_then (ok_or E_INVALIDARG (decode_utf16 (map p [0..<n]))) (\<lambda>s. Inr (ByName s))))"

fun read_requested :: "prop_spec list \<Rightarrow> requested_property list hr" where
  "read_requested [] = Inr []"
| "read_requested (spec # specs) =
     and_then (read_spec spec) (\<lambda>r. and_then (read_requested specs) (\<lambda>rs. Inr (r # rs)))"

definition name_matches :: "scalars \<Rightarrow> string \<Rightarrow> bool" where
  "name_matches name v \<longleftrightarrow> map ascii_lower (map of_char v) = map ascii_lower name"

definition property_index :: "property_catalog \<Rightarrow> requested_property \<Rightarrow> nat option" where
  "property_index c r = (case r of
     ById i \<Rightarrow> List.find (\<lambda>k. ids c ! k = i) [0..<length (ids c)]
   | ByName s \<Rightarrow> List.find (\<lambda>k. name_matches s (names c ! k)) [0..<length (names c)])"

fun attribute_access :: "property_attribute \<Rightarrow> nat" where
  "attribute_access (NoValidity ac _) = ac"
| "attribute_access (RangeLong ac _ _ _ _) = ac"
| "attribute_access (ListLong ac _ _) = ac"
| "attribute_access (ListGuid ac _ _) = ac"
| "attribute_access (FlagLong ac _ _) = ac"

fun canonical_loop :: "property_catalog \<Rightarrow> nat list \<Rightarrow> requested_property list \<Rightarrow> nat list hr" where
  "canonical_loop c acc [] = Inr acc"
| "canonical_loop c acc (r # rs) = (case property_index c r of
     None \<Rightarrow> Inl E_INVALIDARG
   | Some k \<Rightarrow>
       if attribute_access (attributes c ! k) AND 2 = 0 then Inl E_INVALIDARG
       else canonical_loop c (if ids c ! k \<in> set acc then acc else acc @ [ids c ! k]) rs)"

definition canonical_ids :: "property_catalog \<Rightarrow> requested_property list \<Rightarrow> nat list hr" where
  "canonical_ids c requested = canonical_loop c [] requested"

definition SETTING_LONGS :: "nat list" where
  "SETTING_LONGS = [WIA_IPS_XRES, WIA_IPS_YRES, WIA_IPS_XPOS, WIA_IPS_YPOS, WIA_IPS_XEXTENT,
     WIA_IPS_YEXTENT, WIA_IPA_DATATYPE, WIA_IPA_DEPTH, WIA_IPS_BRIGHTNESS, WIA_IPS_CONTRAST,
     WIA_IPA_COMPRESSION]"

text \<open>The value before the write is asked for, and used, only where there was a write.\<close>

fun read_long_pairs ::
    "'s item_reader \<Rightarrow> nat list \<Rightarrow> nat list \<Rightarrow> 's \<Rightarrow> (int \<times> int) list hr \<times> 's" where
  "read_long_pairs rd written [] = pure_hr (Inr [])"
| "read_long_pairs rd written (i # is) = (\<lambda>s. case read_prop_long rd i s of ((hr, v, before), s) \<Rightarrow>
     if hr \<noteq> S_OK then (Inl (helper_failure hr), s)
     else bind_hr (read_long_pairs rd written is) (\<lambda>ps.
       pure_hr (Inr ((if i \<in> set written then before else v, v) # ps))) s)"

definition settings_of :: "int list \<Rightarrow> guid \<Rightarrow> flatbed_settings" where
  "settings_of vs g = \<lparr>x_resolution = vs ! 0, y_resolution = vs ! 1, x_position = vs ! 2,
     y_position = vs ! 3, x_extent = vs ! 4, y_extent = vs ! 5, data_type = vs ! 6, depth = vs ! 7,
     fs_brightness = vs ! 8, fs_contrast = vs ! 9, compression = vs ! 10, format = guid_bytes g\<rparr>"

definition read_settings_pair ::
    "'s item_reader \<Rightarrow> nat list \<Rightarrow> 's \<Rightarrow> (flatbed_settings \<times> flatbed_settings) hr \<times> 's" where
  "read_settings_pair rd written =
     bind_hr (read_long_pairs rd written SETTING_LONGS) (\<lambda>ps.
     bind_hr (\<lambda>s. case read_prop_guid rd WIA_IPA_FORMAT s of ((hr, v, before), s) \<Rightarrow>
         (if hr \<noteq> S_OK then Inl (helper_failure hr)
          else Inr (if WIA_IPA_FORMAT \<in> set written then before else v, v), s)) (\<lambda>(g, g').
       pure_hr (Inr (settings_of (map fst ps) g, settings_of (map snd ps) g'))))"

definition read_intent :: "'s item_reader \<Rightarrow> 's \<Rightarrow> int hr \<times> 's" where
  "read_intent rd s = (case read_prop_long rd WIA_IPS_CUR_INTENT s of ((hr, v, _), s) \<Rightarrow>
     (if hr \<noteq> S_OK then Inl (helper_failure hr) else Inr v, s))"

definition validate_specs :: "'s item_reader \<Rightarrow> prop_spec list \<Rightarrow> 's \<Rightarrow> unit hr \<times> 's" where
  "validate_specs rd specs s =
     (if specs = [] then (Inr (), s)
      else case validate_item_properties rd specs s of (hr, s) \<Rightarrow>
        (if hr = S_OK then Inr () else Inl (helper_failure hr), s))"

text \<open>All that is done before the first write: nothing to do, or the two catalogs.\<close>

definition validation_plan ::
    "'s item_reader \<Rightarrow> requested_property list \<Rightarrow> capabilities \<Rightarrow> 's \<Rightarrow>
     ((property_catalog \<times> property_catalog) \<times> nat list) option hr \<times> 's" where
  "validation_plan rd requested caps =
     bind_hr (item_catalog rd caps) (\<lambda>c.
     bind_hr (pure_hr (canonical_ids c requested)) (\<lambda>is.
     if is = [] then pure_hr (Inr None)
     else
       bind_hr (validate_specs rd (map from_id
         (filter (\<lambda>i. i \<notin> set SETTING_LONGS \<and> i \<noteq> WIA_IPA_FORMAT) is))) (\<lambda>_.
       bind_hr (read_settings_pair rd is) (\<lambda>(old_s, cur).
       bind_hr (if WIA_IPS_CUR_INTENT \<in> set is
           then bind_hr (read_intent rd) (\<lambda>v. pure_hr (Inr (Some v))) else pure_hr (Inr None)) (\<lambda>intent.
       bind_hr (pure_hr (prepare_catalogs c old_s cur intent is)) (\<lambda>plan. pure_hr (Inr (Some plan))))))))"

text \<open>Only a plan that writes sets the flag that asks for quarantine.\<close>

definition validate_publish ::
    "'s service \<Rightarrow> 's item_reader \<Rightarrow> requested_property list \<Rightarrow> capabilities \<Rightarrow> 's \<Rightarrow>
     (unit hr outcome \<times> bool) \<times> 's" where
  "validate_publish sv rd requested caps s = (case validation_plan rd requested caps s of
     (Inl er, s) \<Rightarrow> ((Returned (Inl er), False), s)
   | (Inr None, s) \<Rightarrow> ((Returned (Inr ()), False), s)
   | (Inr (Some ((before, after), canonical)), s) \<Rightarrow>
       (case update True sv before after (validate_specs rd (map from_id canonical)) s of (r, s) \<Rightarrow>
         ((Returned r, True), s)))"

text \<open>\<open>specs\<close> is \<open>None\<close> for a null pointer; otherwise its length is the count.\<close>

definition property_entry_check :: "bool \<Rightarrow> bool \<Rightarrow> int \<Rightarrow> nat \<Rightarrow> prop_spec list option \<Rightarrow>
    requested_property list hr" where
  "property_entry_check this ctx fl n specs =
     (if \<not> this \<or> \<not> ctx \<or> fl \<noteq> 0 \<or> n > MAX_PROPERTY_SPECS then Inl E_INVALIDARG
      else if n \<noteq> 0 \<and> specs = None then Inl E_POINTER
      else read_requested (case specs of None \<Rightarrow> [] | Some xs \<Rightarrow> take n xs))"

definition validate_entry ::
    "'w driver windows \<Rightarrow> 'w driver service \<Rightarrow> 'w driver item_reader \<Rightarrow>
     ('w driver \<Rightarrow> capabilities hr outcome \<times> 'w driver) \<Rightarrow> bool \<Rightarrow> bool \<Rightarrow> int \<Rightarrow> nat \<Rightarrow>
     prop_spec list option \<Rightarrow> bool \<Rightarrow> 'w driver \<Rightarrow> (int \<times> int option) \<times> 'w driver" where
  "validate_entry win sv rd query this ctx fl n specs has_error =
     item_entry True
       (bind_hr (pure_hr (property_entry_check this ctx fl n specs)) (\<lambda>requested.
          with_live_capabilities_guarded win query (validate_publish sv rd requested))) has_error"

section \<open>Refreshing the status\<close>

definition DOCUMENT_HANDLING_STATUS_NAME :: string where
  "DOCUMENT_HANDLING_STATUS_NAME = ''Document Handling Status''"

definition FLAT_READY :: int where "FLAT_READY = 0x02"

definition requests_status :: "requested_property list \<Rightarrow> bool" where
  "requests_status requested = list_ex (\<lambda>r. case r of
     ById i \<Rightarrow> i = WIA_DPS_DOCUMENT_HANDLING_STATUS
   | ByName s \<Rightarrow> s = map of_char DOCUMENT_HANDLING_STATUS_NAME) requested"

definition refresh_publish ::
    "'s service \<Rightarrow> 's item_reader \<Rightarrow> capabilities \<Rightarrow> 's \<Rightarrow> (unit hr outcome \<times> bool) \<times> 's" where
  "refresh_publish sv rd caps s = (case helper_item_type rd s of
     (Inl er, s) \<Rightarrow> ((Returned (Inl er), False), s)
   | (Inr item_type, s) \<Rightarrow>
       if item_type AND WIA_ITEM_TYPE_ROOT = 0 then ((Returned (Inr ()), False), s)
       else (case write_long True sv WIA_DPS_DOCUMENT_HANDLING_STATUS FLAT_READY s of (r, s) \<Rightarrow>
         ((Returned r, True), s)))"

definition read_properties_entry ::
    "'w driver windows \<Rightarrow> 'w driver service \<Rightarrow> 'w driver item_reader \<Rightarrow>
     ('w driver \<Rightarrow> capabilities hr outcome \<times> 'w driver) \<Rightarrow> bool \<Rightarrow> bool \<Rightarrow> int \<Rightarrow> nat \<Rightarrow>
     prop_spec list option \<Rightarrow> bool \<Rightarrow> 'w driver \<Rightarrow> (int \<times> int option) \<times> 'w driver" where
  "read_properties_entry win sv rd query this ctx fl n specs has_error =
     item_entry True
       (bind_hr (pure_hr (property_entry_check this ctx fl n specs)) (\<lambda>requested.
          if \<not> requests_status requested
          then (\<lambda>d. case borrow_take d of
              (Inl hr, d) \<Rightarrow> (Inl hr, d)
            | (Inr b, d) \<Rightarrow> (Inr (), borrow_drop win False b d))
          else with_live_capabilities_guarded win query (refresh_publish sv rd))) has_error"

section \<open>Acquisition\<close>

text \<open>
  The transfer context is its size field and whether its callback is non-null. The transfer
  itself is the one of the STI object, with the flag of the job.
\<close>

definition TRANSFER_CONTEXT_SIZE :: int where "TRANSFER_CONTEXT_SIZE = 144"

definition acquire_entry ::
    "'w driver windows \<Rightarrow> 'w driver item_reader \<Rightarrow>
     (snapshot \<Rightarrow> nat \<Rightarrow> 'w driver \<Rightarrow> transfer_outcome io outcome \<times> 'w driver) \<Rightarrow> bool \<Rightarrow> bool \<Rightarrow> int \<Rightarrow>
     (int \<times> bool) option \<Rightarrow> bool \<Rightarrow> 'w driver \<Rightarrow> (int \<times> int option) \<times> 'w driver" where
  "acquire_entry win rd run this ctx fl context_size has_error d =
     (if \<not> has_error then ((E_POINTER, None), d)
      else case context_size of
        None \<Rightarrow> (report True E_INVALIDARG, d)
      | Some (n, callback) \<Rightarrow>
          if \<not> this \<or> \<not> ctx \<or> fl \<noteq> 2 then (report True E_INVALIDARG, d)
          else if n \<noteq> TRANSFER_CONTEXT_SIZE then (report True E_INVALIDARG, d)
          else if \<not> callback then (report True E_POINTER, d)
          else case dispatch_acquire win (\<lambda>s. case read_values rd s of (r, s) \<Rightarrow> (Returned r, s)) run d of
              (hr, d) \<Rightarrow> (report True hr, d))"

end
