(* ===== verification/Minidriver_Lifecycle.thy ===== *)
theory Minidriver_Lifecycle
  imports Minidriver "HOL-Library.Multiset"
begin

unbundle bit_operations_syntax

text \<open>
  What every call of the minidriver keeps: the references that the driver owns, the exclusive
  borrow of the connection, the running acquisition, and the service lock. Windows is a
  parameter, with its contract in the locales \<open>windows_calls\<close>, \<open>windows_lock\<close> and
  \<open>windows_item\<close>; the calls of the driver are the steps of \<open>driver_step\<close>.
\<close>

section \<open>What Windows may do while it is called\<close>

text \<open>The references that the driver owns: driver items, STI helpers and strings.\<close>

datatype reference = ItemRef nat | HelperRef nat | StringRef "nat list"

text \<open>
  A computation during a borrow may call the driver again from any thread. As long as the
  lifecycle is \<open>Busy\<close> every entry of the driver is refused without an effect on the lifecycle
  or on the running job (\<open>busy_driver_refuses\<close> below), so it is left with the references it adds.
\<close>

definition settled :: "('w \<Rightarrow> reference multiset) \<Rightarrow> reference multiset \<Rightarrow> 'w driver \<Rightarrow> 'w driver \<Rightarrow> bool" where
  "settled refs m s s' \<longleftrightarrow> life s' = Busy \<and> active s' = active s \<and> refs (mini_world s') = m"

locale windows_calls =
  fixes win :: "'w driver windows" and refs :: "'w \<Rightarrow> reference multiset"
  assumes alloc_call: "life s = Busy \<Longrightarrow> sys_alloc win u s = (b, s') \<Longrightarrow>
      settled refs (refs (mini_world s) + (if b then {#StringRef u#} else {#})) s s'"
    and free_call: "life s = Busy \<Longrightarrow> settled refs (refs (mini_world s) - {#StringRef u#}) s (sys_free win u s)"
    and create_call: "life s = Busy \<Longrightarrow> create_drv_item win fl nm fu s = ((hr, item), s') \<Longrightarrow>
      settled refs (refs (mini_world s)
        + (case item of Some i \<Rightarrow> if hr = 0 then {#ItemRef i#} else {#} | None \<Rightarrow> {#})) s s'"
    and add_call: "life s = Busy \<Longrightarrow> add_to_folder win i j s = (hr, s') \<Longrightarrow> settled refs (refs (mini_world s)) s s'"
    and unlink_call: "life s = Busy \<Longrightarrow> unlink_item win i g s = (hr, s') \<Longrightarrow> settled refs (refs (mini_world s)) s s'"
    and release_call: "life s = Busy \<Longrightarrow> settled refs (refs (mini_world s) - {#ItemRef i#}) s (release_item win i s)"
    and retain_call: "life s = Busy \<Longrightarrow> settled refs (refs (mini_world s) + {#HelperRef h#}) s (retain_helper win h s)"
    and drop_call: "life s = Busy \<Longrightarrow> settled refs (refs (mini_world s) - {#HelperRef h#}) s (release_helper win h s)"
    and lock_call: "life s = Busy \<Longrightarrow> lock_device win h t s = (hr, s') \<Longrightarrow> settled refs (refs (mini_world s)) s s'"
    and unlock_call: "life s = Busy \<Longrightarrow> unlock_device win h s = (hr, s') \<Longrightarrow> settled refs (refs (mini_world s)) s s'"

text \<open>A closure of the driver that runs during a borrow and gives back what it takes.\<close>

definition neutral :: "('w \<Rightarrow> reference multiset) \<Rightarrow> ('w driver \<Rightarrow> 'r \<times> 'w driver) \<Rightarrow> bool" where
  "neutral refs f \<longleftrightarrow> (\<forall>s. life s = Busy \<longrightarrow> settled refs (refs (mini_world s)) s (snd (f s)))"

lemma neutralD: "neutral refs f \<Longrightarrow> life s = Busy \<Longrightarrow> f s = (r, s') \<Longrightarrow> settled refs (refs (mini_world s)) s s'"
  by (metis neutral_def snd_conv)

lemma settled_trans: "settled refs m s s' \<Longrightarrow> settled refs n s' s'' \<Longrightarrow> settled refs n s s''"
  by (simp add: settled_def)

lemma settledD: "settled refs m s s' \<Longrightarrow> life s' = Busy \<and> active s' = active s \<and> refs (mini_world s') = m"
  by (simp add: settled_def)

text \<open>What a connection owns.\<close>

definition helper_refs :: "nat option \<Rightarrow> reference multiset" where
  "helper_refs h = (case h of None \<Rightarrow> {#} | Some p \<Rightarrow> {#HelperRef p#})"

definition connection_refs :: "item_connection \<Rightarrow> reference multiset" where
  "connection_refs c = {#ItemRef (tree_root c)#} + helper_refs (conn_helper c)"

definition owned :: "lifecycle \<Rightarrow> reference multiset" where
  "owned l = (case l of Connected c \<Rightarrow> connection_refs c | _ \<Rightarrow> {#})"

context windows_calls
begin

lemma tree_bstring_new_settled:
  assumes "life s = Busy" and "tree_bstring_new win u s = (r, s')"
  shows "settled refs (refs (mini_world s) + (case r of Inr _ \<Rightarrow> {#StringRef u#} | Inl _ \<Rightarrow> {#})) s s'"
proof (cases "length u > MAX_NAME_UNITS")
  case True
  then show ?thesis using assms by (auto simp: tree_bstring_new_def settled_def)
next
  case False
  obtain b v where b: "sys_alloc win u s = (b, v)" by fastforce
  show ?thesis using alloc_call [OF assms(1) b] assms(2) b False
    by (cases b) (auto simp: tree_bstring_new_def)
qed

lemma with_tree_bstring_settled:
  assumes busy: "life s = Busy" and run: "with_tree_bstring win u k s = (r, s')"
    and k: "\<And>v r v'. life v = Busy \<Longrightarrow> k v = (r, v') \<Longrightarrow> settled refs (refs (mini_world v) + m r) v v'"
    and err: "\<And>er. m (Inl er) = {#}"
  shows "settled refs (refs (mini_world s) + m r) s s'"
proof -
  obtain b v where b: "tree_bstring_new win u s = (b, v)" by fastforce
  note bs = tree_bstring_new_settled [OF busy b]
  show ?thesis
  proof (cases b)
    case (Inl er)
    then show ?thesis using run b bs err [of er] by (auto simp: with_tree_bstring_def)
  next
    case (Inr x)
    obtain t v' where t: "k v = (t, v')" by fastforce
    have v: "life v = Busy" "refs (mini_world v) = refs (mini_world s) + {#StringRef u#}"
      using bs Inr by (simp_all add: settled_def)
    have k1: "settled refs (refs (mini_world v) + m t) v v'" using k [OF v(1) t] .
    have r: "r = t" "s' = sys_free win u v'" using run b Inr t by (simp_all add: with_tree_bstring_def)
    have "settled refs (refs (mini_world v') - {#StringRef u#}) v' s'"
      unfolding r using k1 by (intro free_call) (simp add: settled_def)
    moreover have "refs (mini_world v') - {#StringRef u#} = refs (mini_world s) + m r"
      using k1 v(2) r(1) by (simp add: settled_def)
    ultimately show ?thesis using bs k1 by (auto simp: settled_def)
  qed
qed

lemma create_item_settled:
  assumes "life s = Busy" and "create_item win fl nm fu s = (r, s')"
  shows "settled refs (refs (mini_world s) + (case r of Inr i \<Rightarrow> {#ItemRef i#} | Inl _ \<Rightarrow> {#})) s s'"
proof -
  obtain hr item v where c: "create_drv_item win fl nm fu s = ((hr, item), v)" by (metis prod.collapse)
  show ?thesis using create_call [OF assms(1) c] assms(2) c
    by (cases item) (auto simp: create_item_def split: if_splits)
qed

lemma tree_disconnect_settled:
  assumes "life s = Busy" and "tree_disconnect win i s = (r, s')"
  shows "settled refs (refs (mini_world s) - {#ItemRef i#}) s s'"
proof -
  obtain hr v where u: "unlink_item win i DISCONNECTED s = (hr, v)" by fastforce
  note l = unlink_call [OF assms(1) u]
  then have "settled refs (refs (mini_world v) - {#ItemRef i#}) v (release_item win i v)"
    by (intro release_call) (simp add: settled_def)
  then show ?thesis using l assms(2) u by (auto simp: tree_disconnect_def settled_def)
qed

lemma add_flatbed_settled:
  assumes busy: "life s = Busy" and run: "add_flatbed win fu i s = (r, s')"
  shows "settled refs (refs (mini_world s)) s s'"
proof -
  let ?k = "\<lambda>s. case create_item win FLATBED_FLAGS (map of_char ''Flatbed'')
              (fu @ map of_char (CHR 0x5C # ''Flatbed'')) s of
         (Inl er, s) \<Rightarrow> (Inl er, s)
       | (Inr child, s) \<Rightarrow> (case add_to_folder win child i s of (hr, s) \<Rightarrow>
           (if hr \<noteq> 0 then Inl hr else Inr (), release_item win child s))"
  have k: "settled refs (refs (mini_world v) + {#}) v v'" if "life v = Busy" and "?k v = (r, v')" for v v' and r :: "unit hr"
  proof -
    obtain c u where c: "create_item win FLATBED_FLAGS (map of_char ''Flatbed'')
              (fu @ map of_char (CHR 0x5C # ''Flatbed'')) v = (c, u)" by fastforce
    note cs = create_item_settled [OF that(1) c]
    show ?thesis
    proof (cases c)
      case (Inl er)
      then show ?thesis using that(2) c cs by simp
    next
      case (Inr child)
      obtain hr t where a: "add_to_folder win child i u = (hr, t)" by fastforce
      have as: "settled refs (refs (mini_world u)) u t" using cs by (intro add_call [OF _ a]) (simp add: settled_def)
      then have "settled refs (refs (mini_world t) - {#ItemRef child#}) t (release_item win child t)"
        by (intro release_call) (simp add: settled_def)
      then show ?thesis using that(2) c cs Inr a as by (auto simp: settled_def)
    qed
  qed
  have "settled refs (refs (mini_world v) + {#}) v v'"
    if "life v = Busy" and "with_tree_bstring win (fu @ map of_char (CHR 0x5C # ''Flatbed'')) ?k v = (r, v')"
    for v v' and r :: "unit hr"
    by (rule with_tree_bstring_settled [OF that k]) simp_all
  from with_tree_bstring_settled [OF busy run [unfolded add_flatbed_def] this] show ?thesis by simp
qed

lemma tree_create_settled:
  assumes busy: "life s = Busy" and run: "tree_create win mini fu s = (r, s')"
  shows "settled refs (refs (mini_world s) + (case r of Inr i \<Rightarrow> {#ItemRef i#} | Inl _ \<Rightarrow> {#})) s s'"
proof (cases "\<not> mini \<or> fu = [] \<or> length fu + 8 > MAX_NAME_UNITS \<or> 0 \<in> set fu")
  case True
  then show ?thesis using busy run by (auto simp: tree_create_def settled_def)
next
  case False
  let ?m = "\<lambda>r :: nat hr. case r of Inr i \<Rightarrow> {#ItemRef i#} | Inl _ \<Rightarrow> {#}"
  let ?k = "\<lambda>s. case create_item win ROOT_FLAGS (map of_char ''Root'') fu s of
          (Inl er, s) \<Rightarrow> (Inl er, s)
        | (Inr r, s) \<Rightarrow> (case add_flatbed win fu r s of
             (Inl er, s) \<Rightarrow> (Inl er, snd (tree_disconnect win r s))
           | (Inr _, s) \<Rightarrow> (Inr r, s))"
  have k: "settled refs (refs (mini_world v) + ?m r) v v'" if "life v = Busy" and "?k v = (r, v')" for v v' r
  proof -
    obtain c u where c: "create_item win ROOT_FLAGS (map of_char ''Root'') fu v = (c, u)" by fastforce
    note cs = create_item_settled [OF that(1) c]
    show ?thesis
    proof (cases c)
      case (Inl er)
      then show ?thesis using that(2) c cs by auto
    next
      case (Inr i)
      obtain a t where a: "add_flatbed win fu i u = (a, t)" by fastforce
      have u: "life u = Busy" using cs by (simp add: settled_def)
      note as = add_flatbed_settled [OF u a]
      obtain b t' where d: "tree_disconnect win i t = (b, t')" by fastforce
      have "settled refs (refs (mini_world t) - {#ItemRef i#}) t t'"
        using as by (intro tree_disconnect_settled [OF _ d]) (simp add: settled_def)
      then show ?thesis using that(2) c cs Inr a as d by (cases a) (auto simp: settled_def)
    qed
  qed
  have inner: "settled refs (refs (mini_world v) + ?m r) v v'"
    if "life v = Busy" and "with_tree_bstring win fu ?k v = (r, v')" for v v' r
    by (rule with_tree_bstring_settled [OF that k]) simp_all
  have "with_tree_bstring win (map of_char ''Root'') (with_tree_bstring win fu ?k) s = (r, s')"
    using run False by (simp add: tree_create_def)
  from with_tree_bstring_settled [where m = ?m, OF busy this inner] show ?thesis by simp
qed

end

section \<open>Borrows\<close>

definition borrow_refs :: "borrow \<Rightarrow> reference multiset" where
  "borrow_refs b = (case borrowed b of None \<Rightarrow> {#} | Some c \<Rightarrow> connection_refs c)"

text \<open>Between two entries: no borrow, and the driver owns what its connection owns.\<close>

definition at_rest :: "('w \<Rightarrow> reference multiset) \<Rightarrow> reference multiset \<Rightarrow> (nat list \<times> nat) option \<Rightarrow> 'w driver \<Rightarrow> bool" where
  "at_rest refs R a d \<longleftrightarrow> life d \<noteq> Busy \<and> active d = a \<and> refs (mini_world d) = R + owned (life d)"

text \<open>Inside a borrow, which owns the connection until it is quarantined.\<close>

definition holding :: "('w \<Rightarrow> reference multiset) \<Rightarrow> reference multiset \<Rightarrow> (nat list \<times> nat) option \<Rightarrow> borrow \<Rightarrow> 'w driver \<Rightarrow> bool" where
  "holding refs R a b d \<longleftrightarrow> active d = a \<and> refs (mini_world d) = R + borrow_refs b
     \<and> (if failed b then life d = Failed \<and> borrowed b = None else life d = Busy \<and> borrowed b \<noteq> None)"

lemma holding_settled:
  "holding refs R a b d \<Longrightarrow> \<not> failed b \<Longrightarrow> settled refs (refs (mini_world d)) d d' \<Longrightarrow> holding refs R a b d'"
  by (simp add: holding_def settled_def)

lemma holding_busy: "holding refs R a b d \<Longrightarrow> \<not> failed b \<Longrightarrow> life d = Busy \<and> active d = a \<and> (\<exists>c. borrowed b = Some c)"
  by (auto simp: holding_def)

lemma borrow_take_holding:
  assumes "at_rest refs R a d" and "borrow_take d = (r, d')"
  shows "case r of Inl _ \<Rightarrow> d' = d | Inr b \<Rightarrow> holding refs R a b d' \<and> \<not> failed b
    \<and> (\<exists>c. life d = Connected c \<and> borrowed b = Some c)"
  using assms by (auto simp: borrow_take_def at_rest_def holding_def borrow_refs_def owned_def split: lifecycle.splits)

context windows_calls
begin

lemma drop_helper_settled:
  "life s = Busy \<Longrightarrow> settled refs (refs (mini_world s) - helper_refs h) s (drop_helper win h s)"
  using drop_call by (auto simp: drop_helper_def helper_refs_def settled_def split: option.splits)

lemma drop_connection_settled:
  assumes "life s = Busy"
  shows "settled refs (refs (mini_world s) - connection_refs c) s (drop_connection win (Some c) s)"
proof -
  obtain r v where t: "tree_disconnect win (tree_root c) s = (r, v)" by fastforce
  note l = tree_disconnect_settled [OF assms t]
  then have "settled refs (refs (mini_world v) - helper_refs (conn_helper c)) v (drop_helper win (conn_helper c) v)"
    by (intro drop_helper_settled) (simp add: settled_def)
  then show ?thesis using l t by (auto simp: drop_connection_def connection_refs_def settled_def)
qed

lemma call_helper_holding:
  assumes h: "holding refs R a b s" "\<not> failed b" and c: "call_helper win lock b s = (r, s')"
  shows "holding refs R a b s'"
proof (cases "conn_helper (the (borrowed b))")
  case None
  then show ?thesis using h c by (auto simp: call_helper_def)
next
  case (Some p)
  note busy = holding_busy [OF h]
  obtain hr v where v: "(if lock then lock_device win p LOCK_TIMEOUT_MS s else unlock_device win p s) = (hr, v)"
    by fastforce
  then have "settled refs (refs (mini_world s)) s v"
    using busy lock_call unlock_call by (auto split: if_splits)
  with holding_settled [OF h] show ?thesis using c v Some by (auto simp: call_helper_def)
qed

lemma quarantine_holding:
  assumes "holding refs R a b d" and "quarantine win b d = (b', d')"
  shows "holding refs R a b' d' \<and> failed b'"
proof (cases "borrowed b")
  case None
  then show ?thesis using assms by (auto simp: quarantine_def drop_connection_def holding_def borrow_refs_def)
next
  case (Some c)
  then have "settled refs (refs (mini_world d) - connection_refs c) d (drop_connection win (borrowed b) d)"
    using drop_connection_settled [of d c] assms(1) by (auto simp: holding_def split: if_splits)
  then show ?thesis using assms Some by (auto simp: quarantine_def holding_def settled_def borrow_refs_def)
qed

lemma borrow_drop_stable:
  assumes "holding refs R a b d"
  shows "at_rest refs R a (borrow_drop win p b d)"
    and "p \<or> failed b \<Longrightarrow> life (borrow_drop win p b d) = Failed"
    and "\<not> p \<Longrightarrow> \<not> failed b \<Longrightarrow> life (borrow_drop win p b d) = Connected (the (borrowed b))"
proof -
  show "at_rest refs R a (borrow_drop win p b d)"
  proof (cases "borrowed b")
    case None
    then show ?thesis
      using assms by (auto simp: borrow_drop_def drop_connection_def holding_def borrow_refs_def at_rest_def owned_def split: if_splits)
  next
    case (Some c)
    then have "life d = Busy" "\<not> failed b" using assms by (auto simp: holding_def split: if_splits)
    then show ?thesis
      using assms Some drop_connection_settled [of d c]
      by (auto simp: borrow_drop_def holding_def borrow_refs_def at_rest_def owned_def settled_def)
  qed
  show "p \<or> failed b \<Longrightarrow> life (borrow_drop win p b d) = Failed" by (auto simp: borrow_drop_def)
  show "\<not> p \<Longrightarrow> \<not> failed b \<Longrightarrow> life (borrow_drop win p b d) = Connected (the (borrowed b))"
    using assms by (auto simp: borrow_drop_def holding_def)
qed

lemma service_unlock_holding:
  assumes "holding refs R a b d" "\<not> failed b" and "service_unlock win b d = (r, b', d')"
  shows "holding refs R a b' d' \<and> (case r of Inr _ \<Rightarrow> b' = b | Inl _ \<Rightarrow> failed b')"
proof -
  obtain c v where c: "call_helper win False b d = (c, v)" by fastforce
  have h: "holding refs R a b v" by (rule call_helper_holding [OF assms(1,2) c])
  show ?thesis
    using quarantine_holding [OF h] assms(3) c h
    by (auto simp: service_unlock_def split: sum.splits prod.splits)
qed

lemma with_locked_holding:
  assumes h: "holding refs R a b d" "\<not> failed b" and q: "neutral refs query" and p: "\<And>c. neutral refs (publish c)"
    and run: "with_locked_capabilities win query publish b d = (r, b', d')"
  shows "holding refs R a b' d'"
proof -
  obtain l d1 where l: "call_helper win True b d = (l, d1)" by fastforce
  note h1 = call_helper_holding [OF h l]
  show ?thesis
  proof (cases l)
    case (Inl er)
    then show ?thesis using run l h1 by (simp add: with_locked_capabilities_def)
  next
    case (Inr u)
    obtain caps d2 where caps: "query d1 = (caps, d2)" by fastforce
    have h2: "holding refs R a b d2"
      using holding_settled [OF h1 h(2) neutralD [OF q _ caps]] holding_busy [OF h1 h(2)] by blast
    obtain un b3 d3 where un: "service_unlock win b d2 = (un, b3, d3)" by (metis prod.collapse)
    note h3 = service_unlock_holding [OF h2 h(2) un]
    note defs = with_locked_capabilities_def l Inr caps un
    show ?thesis
    proof (cases "\<exists>c u. caps = Returned (Inr c) \<and> un = Inr u")
      case True
      then obtain c where c: "caps = Returned (Inr c)" "b3 = b" using h3 by auto
      obtain pr d4 where pr: "publish c d3 = (pr, d4)" by fastforce
      then have "holding refs R a b d4"
        using holding_settled [of refs R a b d3] neutralD [OF p _ pr] h3 h(2) c(2) holding_busy by blast
      then show ?thesis using run True c pr by (auto simp: defs)
    next
      case False
      then have "b' = b3 \<and> d' = d3"
        using run by (auto simp: defs split: outcome.splits sum.splits)
      then show ?thesis using h3 by simp
    qed
  qed
qed

lemma guarded_holding:
  assumes h: "holding refs R a b d" "\<not> failed b" and q: "neutral refs query" and p: "\<And>c. neutral refs (publish c)"
    and run: "with_guarded_locked_capabilities win query publish b d = (r, b', d')"
  shows "holding refs R a b' d'"
proof -
  obtain s flag b1 d1 where s: "with_locked_capabilities win query publish b d = ((s, flag), b1, d1)"
    by (metis prod.collapse)
  have h1: "holding refs R a b1 d1" by (rule with_locked_holding [OF h q p s])
  then show ?thesis
    using quarantine_holding [OF h1] run s
    by (auto simp: with_guarded_locked_capabilities_def split: outcome.splits sum.splits if_splits prod.splits)
qed

lemma live_guarded_stable:
  assumes s: "at_rest refs R a d" and q: "neutral refs query" and p: "\<And>c. neutral refs (publish c)"
  shows "at_rest refs R a (snd (with_live_capabilities_guarded win query publish d))"
proof -
  obtain t d1 where t: "borrow_take d = (t, d1)" by fastforce
  note h = borrow_take_holding [OF s t]
  show ?thesis
  proof (cases t)
    case (Inl er)
    then show ?thesis using s t h by (simp add: with_live_capabilities_guarded_def)
  next
    case (Inr b)
    obtain r b2 d2 where r: "with_guarded_locked_capabilities win query publish b d1 = (r, b2, d2)"
      by (metis prod.collapse)
    have "holding refs R a b2 d2" using h Inr by (intro guarded_holding [OF _ _ q p r]) simp_all
    then show ?thesis
      using borrow_drop_stable(1) t Inr r by (simp add: with_live_capabilities_guarded_def split: outcome.splits)
  qed
qed

lemma dispatch_lock_stable:
  assumes s: "at_rest refs R a d"
  shows "at_rest refs R a (snd (dispatch_lock win lock d))"
proof -
  obtain t d1 where t: "borrow_take d = (t, d1)" by fastforce
  note h = borrow_take_holding [OF s t]
  show ?thesis
  proof (cases t)
    case (Inl er)
    then show ?thesis using s t h by (simp add: dispatch_lock_def)
  next
    case (Inr b)
    obtain r d2 where r: "call_helper win lock b d1 = (r, d2)" by fastforce
    have h2: "holding refs R a b d2" using h Inr by (intro call_helper_holding [OF _ _ r]) simp_all
    obtain b3 d3 where q: "quarantine win b d2 = (b3, d3)" by fastforce
    have "holding refs R a b3 d3" using quarantine_holding [OF h2 q] by blast
    then show ?thesis
      using borrow_drop_stable(1) h2 t Inr r q by (simp add: dispatch_lock_def split: sum.splits)
  qed
qed

lemma disconnect_stable:
  assumes s: "at_rest refs R a d"
  shows "at_rest refs R a (snd (disconnect_client win d))"
proof (cases "\<exists>c. life d = Connected c \<and> \<not> clients c > 1")
  case False
  then show ?thesis
    using s by (auto simp: disconnect_client_def at_rest_def owned_def connection_refs_def split: lifecycle.splits)
next
  case True
  then obtain c where c: "life d = Connected c" "\<not> clients c > 1" by blast
  let ?d = "d\<lparr>life := Busy\<rparr>"
  obtain r d1 where r: "tree_disconnect win (tree_root c) ?d = (r, d1)" by fastforce
  have d1: "settled refs (refs (mini_world ?d) - {#ItemRef (tree_root c)#}) ?d d1"
    by (rule tree_disconnect_settled [OF _ r]) simp
  then have "settled refs (refs (mini_world d1) - helper_refs (conn_helper c)) d1 (drop_helper win (conn_helper c) d1)"
    by (intro drop_helper_settled) (simp add: settled_def)
  then show ?thesis
    using s c r d1
    by (auto simp: disconnect_client_def at_rest_def settled_def owned_def connection_refs_def split: sum.splits)
qed

lemma initialize_stable:
  assumes s: "at_rest refs R a d"
  shows "at_rest refs R a (snd (initialize_tree win this device name sti d))"
proof (cases "device = [] \<or> name = [] \<or> 0 \<in> set device \<or> 0 \<in> set name")
  case True
  then show ?thesis using s by (simp add: initialize_tree_def)
next
  case False
  obtain r d1 where r: "claim device name d = (r, d1)" by fastforce
  show ?thesis
  proof (cases "r = Inr None")
    case True
    then have d: "life d = Idle" "d1 = d\<lparr>life := Busy\<rparr>"
      using r by (auto simp: claim_def split: lifecycle.splits if_splits option.splits)
    obtain t d2 where t: "tree_create win this name d1 = (t, d2)" by fastforce
    have d2: "settled refs (refs (mini_world d1) + (case t of Inr i \<Rightarrow> {#ItemRef i#} | Inl _ \<Rightarrow> {#})) d1 d2"
      using d by (intro tree_create_settled [OF _ t]) simp
    have "settled refs (refs (mini_world d2) + helper_refs sti) d2 (retain win sti d2)"
      using d2 retain_call by (auto simp: retain_def helper_refs_def settled_def split: option.splits)
    then show ?thesis
      using s d d2 t r True False
      by (auto simp: initialize_tree_def at_rest_def settled_def owned_def connection_refs_def split: sum.splits)
  next
    case neq: False
    then show ?thesis
      using s r False
      by (auto simp: initialize_tree_def claim_def at_rest_def owned_def connection_refs_def
          split: sum.splits lifecycle.splits if_splits option.splits)
  qed
qed

end

section \<open>Acquisitions\<close>

lemma job_remove_own: "active d = Some (dev, f) \<Longrightarrow> job_remove f d = (cancel_flags d f, d\<lparr>active := None\<rparr>)"
  by (simp add: job_remove_def)

lemma job_finish_own: "active d = Some (dev, f) \<Longrightarrow> job_finish f d = (cancel_flags d f, d\<lparr>active := None\<rparr>)"
  by (simp add: job_finish_def job_remove_own) (simp add: job_remove_def)

lemma job_begin_idle:
  "active d = None \<Longrightarrow> job_begin dev d = (Inr (fresh_flag d),
     d\<lparr>active := Some (dev, fresh_flag d), cancel_flags := (cancel_flags d)(fresh_flag d := False),
       fresh_flag := Suc (fresh_flag d)\<rparr>)"
  by (simp add: job_begin_def Let_def)

text \<open>The state in which an acquisition reads the item, and its flag.\<close>

definition acquiring :: "item_connection \<Rightarrow> 'w driver \<Rightarrow> 'w driver" where
  "acquiring c d = d\<lparr>life := Busy, active := Some (conn_device c, fresh_flag d),
     cancel_flags := (cancel_flags d)(fresh_flag d := False), fresh_flag := Suc (fresh_flag d)\<rparr>"

context windows_calls
begin

lemma holding_active: "holding refs R a b d \<Longrightarrow> holding refs R None b (d\<lparr>active := None\<rparr>)"
  by (simp add: holding_def)

lemma acquire_steps:
  assumes s: "at_rest refs R None d" and c: "life d = Connected c"
    and q: "neutral refs read_item" and p: "\<And>p f. neutral refs (run p f)"
    and r1: "read_item (acquiring c d) = (r, d1)"
    and r2: "\<And>p. r = Returned (Inr p) \<Longrightarrow> run p (fresh_flag d) d1 = (res p, d2 p)"
  defines "b \<equiv> \<lparr>borrowed = Some c, failed = False\<rparr>"
  shows "holding refs R None b (d1\<lparr>active := None\<rparr>)"
    and "\<And>p. r = Returned (Inr p) \<Longrightarrow> holding refs R None b ((d2 p)\<lparr>active := None\<rparr>)"
    and "dispatch_acquire win read_item run d = (case r of
       Panicked \<Rightarrow> (E_UNEXPECTED, borrow_drop win True b (d1\<lparr>active := None\<rparr>))
     | Returned (Inl hr) \<Rightarrow> (failed_status hr, borrow_drop win False b (d1\<lparr>active := None\<rparr>))
     | Returned (Inr p) \<Rightarrow> (case res p of
         Panicked \<Rightarrow> (E_UNEXPECTED, borrow_drop win True b ((d2 p)\<lparr>active := None\<rparr>))
       | Returned result \<Rightarrow>
           (case result of
              Inr _ \<Rightarrow> if cancel_flags (d2 p) (fresh_flag d) then 1 else acquire_outcome result
            | Inl _ \<Rightarrow> acquire_outcome result,
            borrow_drop win False b ((d2 p)\<lparr>active := None\<rparr>))))"
proof -
  have t: "borrow_take d = (Inr b, d\<lparr>life := Busy\<rparr>)" using c by (simp add: borrow_take_def b_def)
  have j: "job_begin (conn_device (the (borrowed b))) (d\<lparr>life := Busy\<rparr>) = (Inr (fresh_flag d), acquiring c d)"
    using s by (simp add: job_begin_def at_rest_def acquiring_def b_def Let_def)
  have h0: "holding refs R (Some (conn_device c, fresh_flag d)) b (acquiring c d)" "\<not> failed b"
    using s c by (simp_all add: acquiring_def holding_def at_rest_def borrow_refs_def owned_def b_def)
  have h1: "holding refs R (Some (conn_device c, fresh_flag d)) b d1"
    using holding_settled [OF h0 neutralD [OF q _ r1]] holding_busy [OF h0] by blast
  have h2: "holding refs R (Some (conn_device c, fresh_flag d)) b (d2 p)" if "r = Returned (Inr p)" for p
    using holding_settled [OF h1 h0(2) neutralD [OF p _ r2 [OF that]]] holding_busy [OF h1 h0(2)] by blast
  have a1: "active d1 = Some (conn_device c, fresh_flag d)" using h1 by (simp add: holding_def)
  have a2: "active (d2 p) = Some (conn_device c, fresh_flag d)" if "r = Returned (Inr p)" for p
    using h2 [OF that] by (simp add: holding_def)
  show "holding refs R None b (d1\<lparr>active := None\<rparr>)" by (rule holding_active [OF h1])
  show "holding refs R None b ((d2 p)\<lparr>active := None\<rparr>)" if "r = Returned (Inr p)" for p
    by (rule holding_active [OF h2 [OF that]])
  show "dispatch_acquire win read_item run d = (case r of
       Panicked \<Rightarrow> (E_UNEXPECTED, borrow_drop win True b (d1\<lparr>active := None\<rparr>))
     | Returned (Inl hr) \<Rightarrow> (failed_status hr, borrow_drop win False b (d1\<lparr>active := None\<rparr>))
     | Returned (Inr p) \<Rightarrow> (case res p of
         Panicked \<Rightarrow> (E_UNEXPECTED, borrow_drop win True b ((d2 p)\<lparr>active := None\<rparr>))
       | Returned result \<Rightarrow>
           (case result of
              Inr _ \<Rightarrow> if cancel_flags (d2 p) (fresh_flag d) then 1 else acquire_outcome result
            | Inl _ \<Rightarrow> acquire_outcome result,
            borrow_drop win False b ((d2 p)\<lparr>active := None\<rparr>))))"
    using r2 a2
    by (auto simp: dispatch_acquire_def t j r1 job_remove_own [OF a1] job_remove_own job_finish_own
        split: outcome.splits sum.splits)
qed

lemma acquire_answer:
  assumes s: "at_rest refs R None d" and c: "life d = Connected c"
    and q: "neutral refs read_item" and p: "\<And>p f. neutral refs (run p f)"
    and r1: "read_item (acquiring c d) = (r, d1)"
  defines "b \<equiv> \<lparr>borrowed = Some c, failed = False\<rparr>"
    and "res \<equiv> \<lambda>p. fst (run p (fresh_flag d) d1)" and "d2 \<equiv> \<lambda>p. snd (run p (fresh_flag d) d1)"
  shows "holding refs R None b (d1\<lparr>active := None\<rparr>)"
    and "r = Returned (Inr p') \<Longrightarrow> holding refs R None b ((d2 p')\<lparr>active := None\<rparr>)"
    and "dispatch_acquire win read_item run d = (case r of
       Panicked \<Rightarrow> (E_UNEXPECTED, borrow_drop win True b (d1\<lparr>active := None\<rparr>))
     | Returned (Inl hr) \<Rightarrow> (failed_status hr, borrow_drop win False b (d1\<lparr>active := None\<rparr>))
     | Returned (Inr p) \<Rightarrow> (case res p of
         Panicked \<Rightarrow> (E_UNEXPECTED, borrow_drop win True b ((d2 p)\<lparr>active := None\<rparr>))
       | Returned result \<Rightarrow>
           (case result of
              Inr _ \<Rightarrow> if cancel_flags (d2 p) (fresh_flag d) then 1 else acquire_outcome result
            | Inl _ \<Rightarrow> acquire_outcome result,
            borrow_drop win False b ((d2 p)\<lparr>active := None\<rparr>))))"
proof -
  have eq: "run p (fresh_flag d) d1 = (res p, d2 p)" for p by (simp add: res_def d2_def)
  show "holding refs R None b (d1\<lparr>active := None\<rparr>)"
    and "r = Returned (Inr p') \<Longrightarrow> holding refs R None b ((d2 p')\<lparr>active := None\<rparr>)"
    and "dispatch_acquire win read_item run d = (case r of
       Panicked \<Rightarrow> (E_UNEXPECTED, borrow_drop win True b (d1\<lparr>active := None\<rparr>))
     | Returned (Inl hr) \<Rightarrow> (failed_status hr, borrow_drop win False b (d1\<lparr>active := None\<rparr>))
     | Returned (Inr p) \<Rightarrow> (case res p of
         Panicked \<Rightarrow> (E_UNEXPECTED, borrow_drop win True b ((d2 p)\<lparr>active := None\<rparr>))
       | Returned result \<Rightarrow>
           (case result of
              Inr _ \<Rightarrow> if cancel_flags (d2 p) (fresh_flag d) then 1 else acquire_outcome result
            | Inl _ \<Rightarrow> acquire_outcome result,
            borrow_drop win False b ((d2 p)\<lparr>active := None\<rparr>))))"
    unfolding b_def
    by (rule acquire_steps [where run = run and ?d2.0 = d2 and res = res, OF s c q p r1], rule eq, assumption?)+
qed

lemma dispatch_acquire_stable:
  assumes s: "at_rest refs R None d" and q: "neutral refs read_item" and p: "\<And>p f. neutral refs (run p f)"
  shows "at_rest refs R None (snd (dispatch_acquire win read_item run d))"
proof (cases "\<exists>c. life d = Connected c")
  case False
  then have "borrow_take d = (Inl E_UNEXPECTED, d) \<or> borrow_take d = (Inl WIA_ERROR_BUSY, d)"
    by (auto simp: borrow_take_def split: lifecycle.splits)
  then show ?thesis using s by (auto simp: dispatch_acquire_def)
next
  case True
  then obtain c where c: "life d = Connected c" by blast
  obtain r d1 where r: "read_item (acquiring c d) = (r, d1)" by fastforce
  note st = acquire_answer [where run = run, OF s c q p r]
  show ?thesis
    using borrow_drop_stable(1) [OF st(1)] borrow_drop_stable(1) [OF st(2)]
    by (auto simp: st(3) split: outcome.splits sum.splits)
qed

end

section \<open>The driver between two calls\<close>

text \<open>
  The entries of the minidriver that use its connection, each with any arguments. The closures
  of the entries that publish or transfer are those of the item entries; here they may be any
  that give back the references they take.
\<close>

inductive driver_step :: "'w driver windows \<Rightarrow> ('w \<Rightarrow> reference multiset) \<Rightarrow> 'w driver \<Rightarrow> 'w driver \<Rightarrow> bool"
  for win refs where
  step_initialize: "initialize_tree win this device name sti d = (r, d') \<Longrightarrow> driver_step win refs d d'"
| step_disconnect: "disconnect_client win d = (hr, d') \<Longrightarrow> driver_step win refs d d'"
| step_lock: "dispatch_lock win lock d = (hr, d') \<Longrightarrow> driver_step win refs d d'"
| step_publish: "neutral refs (query :: 'w driver \<Rightarrow> capabilities hr outcome \<times> 'w driver) \<Longrightarrow>
    (\<And>c. neutral refs (publish c)) \<Longrightarrow>
    with_live_capabilities_guarded win query publish d = (r :: unit hr, d') \<Longrightarrow> driver_step win refs d d'"
| step_acquire: "neutral refs read_item \<Longrightarrow> (\<And>(p :: snapshot) f. neutral refs (run p f)) \<Longrightarrow>
    dispatch_acquire win read_item run d = (hr, d') \<Longrightarrow> driver_step win refs d d'"
| step_cancel: "job_cancel device d = (b, d') \<Longrightarrow> driver_step win refs d d'"

inductive_cases driver_stepE: "driver_step win refs d d'"

lemma job_cancel_stable: "at_rest refs R None d \<Longrightarrow> job_cancel device d = (False, d)"
  by (simp add: job_cancel_def at_rest_def)

context windows_calls
begin

lemma driver_step_stable:
  assumes "driver_step win refs d d'" and "at_rest refs R None d"
  shows "at_rest refs R None d'"
  using assms(1)
proof cases
  case (step_initialize this device name sti r)
  then show ?thesis using initialize_stable [OF assms(2), of this device name sti] by simp
next
  case (step_disconnect hr)
  then show ?thesis using disconnect_stable [OF assms(2)] by simp
next
  case (step_lock lock hr)
  then show ?thesis using dispatch_lock_stable [OF assms(2), of lock] by simp
next
  case (step_publish query publish r)
  then show ?thesis using live_guarded_stable [OF assms(2) step_publish(1), of publish] by simp
next
  case (step_acquire read_item run hr)
  then show ?thesis using dispatch_acquire_stable [OF assms(2) step_acquire(1), of run] by simp
next
  case (step_cancel device b)
  then show ?thesis using job_cancel_stable [OF assms(2), of device] assms(2) by simp
qed

lemma driver_steps_stable:
  "(driver_step win refs)\<^sup>*\<^sup>* d d' \<Longrightarrow> at_rest refs R None d \<Longrightarrow> at_rest refs R None d'"
  by (induction rule: rtranclp_induct) (auto intro: driver_step_stable)

end

section \<open>The service lock\<close>

text \<open>
  \<open>locked\<close> says that this driver holds the lock of the service device. Locking and unlocking
  with \<open>S_OK\<close> take and give it up; a lock call that fails leaves it, and so does every other
  call while the driver is busy.
\<close>

locale windows_lock = windows_calls +
  fixes locked :: "'w \<Rightarrow> bool"
  assumes lock_takes: "life s = Busy \<Longrightarrow> lock_device win h t s = (hr, s') \<Longrightarrow>
      locked (mini_world s') = (if hr = 0 then True else locked (mini_world s))"
    and unlock_gives: "life s = Busy \<Longrightarrow> unlock_device win h s = (0, s') \<Longrightarrow> \<not> locked (mini_world s')"

text \<open>Two publications that agree where the lock is held, or free.\<close>

lemma with_locked_cong:
  assumes "\<And>s. P s \<Longrightarrow> query s = query' s" and "\<And>c s. Q s \<Longrightarrow> publish c s = publish' c s"
    and "\<And>d1 u. call_helper win True b d = (Inr u, d1) \<Longrightarrow> P d1"
    and "\<And>d1 u d2 caps b' d3. call_helper win True b d = (Inr u, d1) \<Longrightarrow> query d1 = (caps, d2) \<Longrightarrow>
      service_unlock win b d2 = (Inr u, b', d3) \<Longrightarrow> Q d3"
  shows "with_locked_capabilities win query publish b d = with_locked_capabilities win query' publish' b d"
proof -
  obtain l d1 where l: "call_helper win True b d = (l, d1)" by fastforce
  show ?thesis
  proof (cases l)
    case (Inl er)
    then show ?thesis using l by (simp add: with_locked_capabilities_def)
  next
    case (Inr u)
    then have q: "query d1 = query' d1" using assms(1,3) l by blast
    obtain caps d2 where caps: "query d1 = (caps, d2)" by fastforce
    obtain un b3 d3 where un: "service_unlock win b d2 = (un, b3, d3)" by (metis prod.collapse)
    have "publish c d3 = publish' c d3" if "un = Inr v" for c v
      using assms(2,4) l Inr caps un that by auto
    then show ?thesis
      using l Inr caps un q by (auto simp: with_locked_capabilities_def split: outcome.splits sum.splits)
  qed
qed

context windows_lock
begin

lemma live_guarded_scope:
  assumes rest: "at_rest refs R a d" and q: "neutral refs query"
    and same: "\<And>s. life s = Busy \<Longrightarrow> locked (mini_world s) \<Longrightarrow> query s = query' s"
      "\<And>c s. life s = Busy \<Longrightarrow> \<not> locked (mini_world s) \<Longrightarrow> publish c s = publish' c s"
  shows "with_live_capabilities_guarded win query publish d = with_live_capabilities_guarded win query' publish' d"
proof (cases "\<exists>c. life d = Connected c")
  case False
  then show ?thesis by (auto simp: with_live_capabilities_guarded_def borrow_take_def split: lifecycle.splits)
next
  case True
  then obtain c where c: "life d = Connected c" by blast
  let ?b = "\<lparr>borrowed = Some c, failed = False\<rparr>" and ?d = "d\<lparr>life := Busy\<rparr>"
  have t: "borrow_take d = (Inr ?b, ?d)" using c by (simp add: borrow_take_def)
  have h: "holding refs R a ?b ?d" "\<not> failed ?b" using borrow_take_holding [OF rest t] by simp_all
  have "with_locked_capabilities win query publish ?b ?d = with_locked_capabilities win query' publish' ?b ?d"
  proof (rule with_locked_cong [where P = "\<lambda>s. life s = Busy \<and> locked (mini_world s)"
        and Q = "\<lambda>s. life s = Busy \<and> \<not> locked (mini_world s)"])
    fix d1 u assume l: "call_helper win True ?b ?d = (Inr u, d1)"
    have h1: "holding refs R a ?b d1" by (rule call_helper_holding [OF h l])
    then show "life d1 = Busy \<and> locked (mini_world d1)"
      using l lock_takes [of ?d] holding_busy [OF h1 h(2)]
      by (auto simp: call_helper_def split: option.splits prod.splits if_splits)
    fix d2 caps b' d3 assume caps: "query d1 = (caps, d2)" and un: "service_unlock win ?b d2 = (Inr u, b', d3)"
    have h2: "holding refs R a ?b d2"
      using holding_settled [OF h1 h(2) neutralD [OF q _ caps]] holding_busy [OF h1 h(2)] by blast
    have h3: "holding refs R a b' d3" "b' = ?b" using service_unlock_holding [OF h2 h(2) un] by auto
    have "call_helper win False ?b d2 = (Inr (), d3)"
      using un by (auto simp: service_unlock_def split: sum.splits prod.splits)
    then show "life d3 = Busy \<and> \<not> locked (mini_world d3)"
      using unlock_gives [of d2] holding_busy [OF h2 h(2)] holding_busy [OF h3(1)] h3(2) h(2)
      by (auto simp: call_helper_def split: option.splits prod.splits if_splits)
  qed (use same in blast)+
  then show ?thesis by (simp add: with_live_capabilities_guarded_def with_guarded_locked_capabilities_def t)
qed

end

section \<open>Refusals\<close>

lemma busy_refused:
  assumes "life d = Busy"
  shows "initialize_tree win this device name sti d \<in> {(Inl E_INVALIDARG, d), (Inl WIA_ERROR_BUSY, d)}"
    "disconnect_client win d = (WIA_ERROR_BUSY, d)"
    "dispatch_lock win lock d = (WIA_ERROR_BUSY, d)"
    "with_live_capabilities_guarded win query publish d = (Inl WIA_ERROR_BUSY, d)"
    "dispatch_acquire win read_item run d = (WIA_ERROR_BUSY, d)"
    "borrow_take d = (Inl WIA_ERROR_BUSY, d)"
  using assms
  by (auto simp: initialize_tree_def claim_def disconnect_client_def dispatch_lock_def borrow_take_def
      with_live_capabilities_guarded_def dispatch_acquire_def)

lemma failed_refused:
  assumes "life d = Failed"
  shows "initialize_tree win this device name sti d \<in> {(Inl E_INVALIDARG, d), (Inl E_UNEXPECTED, d)}"
    "disconnect_client win d = (E_UNEXPECTED, d)"
    "dispatch_lock win lock d = (E_UNEXPECTED, d)"
    "with_live_capabilities_guarded win query publish d = (Inl E_UNEXPECTED, d)"
    "dispatch_acquire win read_item run d = (E_UNEXPECTED, d)"
    "borrow_take d = (Inl E_UNEXPECTED, d)"
  using assms
  by (auto simp: initialize_tree_def claim_def disconnect_client_def dispatch_lock_def borrow_take_def
      with_live_capabilities_guarded_def dispatch_acquire_def)

section \<open>Survival of a publication\<close>

text \<open>
  \<open>item\<close> is whatever a failed publication must not leave half written behind a connection that
  still works.
\<close>

definition keeps :: "('w \<Rightarrow> 'i) \<Rightarrow> ('w driver \<Rightarrow> 'r \<times> 'w driver) \<Rightarrow> bool" where
  "keeps item f \<longleftrightarrow> (\<forall>s. life s = Busy \<longrightarrow> item (mini_world (snd (f s))) = item (mini_world s))"

lemma keepsD: "keeps item f \<Longrightarrow> life s = Busy \<Longrightarrow> f s = (r, s') \<Longrightarrow> item (mini_world s') = item (mini_world s)"
  by (metis keeps_def snd_conv)

locale windows_item = windows_calls win refs for win :: "'w driver windows" and refs +
  fixes item :: "'w \<Rightarrow> 'i"
  assumes item_lock: "keeps item (lock_device win h t)" and item_unlock: "keeps item (unlock_device win h)"

context windows_item
begin

lemma call_helper_keeps:
  "life s = Busy \<Longrightarrow> call_helper win lock b s = (r, s') \<Longrightarrow> item (mini_world s') = item (mini_world s)"
  using keepsD [OF item_lock] keepsD [OF item_unlock]
  by (auto simp: call_helper_def split: option.splits prod.splits if_splits)

lemma with_locked_published:
  assumes h: "holding refs R a b d" "\<not> failed b" and q: "neutral refs query" "keeps item query"
    and run: "with_locked_capabilities win query publish b d = ((r, flag), b', d')"
  shows "(r = Panicked \<or> (\<exists>er. r = Returned (Inl er))) \<and> \<not> flag \<and> (b' \<noteq> b \<longrightarrow> failed b')
      \<and> (b' = b \<longrightarrow> item (mini_world d') = item (mini_world d))
    \<or> (\<exists>caps s. life s = Busy \<and> item (mini_world s) = item (mini_world d)
        \<and> publish caps s = ((r, flag), d') \<and> b' = b \<and> (\<exists>v. fst (query v) = Returned (Inr caps)))"
proof -
  obtain l d1 where l: "call_helper win True b d = (l, d1)" by fastforce
  note busy = holding_busy [OF h]
  note h1 = call_helper_holding [OF h l] and k1 = call_helper_keeps [OF _ l]
  show ?thesis
  proof (cases l)
    case (Inl er)
    then show ?thesis using run l k1 busy by (auto simp: with_locked_capabilities_def)
  next
    case (Inr u)
    obtain caps d2 where caps: "query d1 = (caps, d2)" by fastforce
    have h2: "holding refs R a b d2"
      using holding_settled [OF h1 h(2) neutralD [OF q(1) _ caps]] holding_busy [OF h1 h(2)] by blast
    have k2: "item (mini_world d2) = item (mini_world d1)"
      using keepsD [OF q(2) _ caps] holding_busy [OF h1 h(2)] by blast
    obtain un b3 d3 where un: "service_unlock win b d2 = (un, b3, d3)" by (metis prod.collapse)
    note h3 = service_unlock_holding [OF h2 h(2) un]
    have k3: "item (mini_world d3) = item (mini_world d2)" if "un = Inr v" for v
      using un that call_helper_keeps [of d2] holding_busy [OF h2 h(2)] by (auto simp: service_unlock_def split: sum.splits prod.splits)
    have f3: "b3 \<noteq> b \<longrightarrow> failed b3" "b3 = b \<longrightarrow> item (mini_world d3) = item (mini_world d)"
      using h3 h(2) k1 k2 k3 busy by (auto split: sum.splits)
    show ?thesis
    proof (cases "\<exists>c v. caps = Returned (Inr c) \<and> un = Inr v")
      case True
      then obtain c v where cv: "caps = Returned (Inr c)" "un = Inr v" by blast
      then have "b3 = b" "life d3 = Busy" using h3 h(2) holding_busy [of refs R a b d3] by auto
      moreover have "publish c d3 = ((r, flag), d')" "b' = b3"
        using run l Inr caps un cv by (auto simp: with_locked_capabilities_def split: prod.splits)
      moreover have "fst (query d1) = Returned (Inr c)" using caps cv by simp
      ultimately show ?thesis using f3 by blast
    next
      case False
      then have "b' = b3 \<and> d' = d3 \<and> \<not> flag \<and> (r = Panicked \<or> (\<exists>er. r = Returned (Inl er)))"
        using run l Inr caps un
        by (auto simp: with_locked_capabilities_def split: outcome.splits sum.splits)
      then show ?thesis using f3 by simp
    qed
  qed
qed

lemma live_guarded_survival:
  assumes rest: "at_rest refs R a d" and c: "life d = Connected c"
    and q: "neutral refs query" "keeps item query" and p: "\<And>c. neutral refs (publish c)"
    and undone: "\<And>caps s er s'. life s = Busy \<Longrightarrow> publish caps s = ((Returned (Inl er), False), s') \<Longrightarrow>
      item (mini_world s') = item (mini_world s)"
    and run: "with_live_capabilities_guarded win query publish d = (r, d')"
  shows "life d' = Connected c \<or> life d' = Failed"
    and "r = Inr x \<Longrightarrow> life d' = Connected c \<and> (\<exists>caps s s' f. life s = Busy
           \<and> item (mini_world s) = item (mini_world d)
           \<and> publish caps s = ((Returned (Inr x), f), s') \<and> mini_world d' = mini_world s'
           \<and> (\<exists>v. fst (query v) = Returned (Inr caps)))"
    and "r = Inl er \<Longrightarrow> life d' = Connected c \<Longrightarrow> item (mini_world d') = item (mini_world d)"
proof -
  let ?b = "\<lparr>borrowed = Some c, failed = False\<rparr>" and ?d = "d\<lparr>life := Busy\<rparr>"
  have t: "borrow_take d = (Inr ?b, ?d)" using c by (simp add: borrow_take_def)
  have h: "holding refs R a ?b ?d" "\<not> failed ?b" using borrow_take_holding [OF rest t] by simp_all
  obtain s flag b1 d1 where s: "with_locked_capabilities win query publish ?b ?d = ((s, flag), b1, d1)"
    by (metis prod.collapse)
  have h1: "holding refs R a b1 d1" by (rule with_locked_holding [OF h q(1) p s])
  note cases = with_locked_published [OF h q s]
  obtain b2 d2 where q2: "quarantine win b1 d1 = (b2, d2)" by fastforce
  note h2 = quarantine_holding [OF h1 q2]
  have drop: "life (borrow_drop win pn b1 d1) = (if pn \<or> failed b1 then Failed else Connected c)" for pn
    using borrow_drop_stable(2,3) [OF h1, of pn] cases by auto
  have drop2: "life (borrow_drop win False b2 d2) = Failed"
    using borrow_drop_stable(2) h2 by blast
  have kept: "mini_world (borrow_drop win False b1 d1) = mini_world d1" if "\<not> failed b1"
    using that h1 by (auto simp: borrow_drop_def holding_def)
  note run' = run [unfolded with_live_capabilities_guarded_def t with_guarded_locked_capabilities_def]
  show "life d' = Connected c \<or> life d' = Failed"
    using run' s q2 drop drop2 by (auto split: outcome.splits sum.splits if_splits)
  show "life d' = Connected c \<and> (\<exists>caps s s' f. life s = Busy \<and> item (mini_world s) = item (mini_world d)
           \<and> publish caps s = ((Returned (Inr x), f), s') \<and> mini_world d' = mini_world s'
           \<and> (\<exists>v. fst (query v) = Returned (Inr caps)))" if "r = Inr x"
  proof -
    have sx: "s = Returned (Inr x)" "d' = borrow_drop win False b1 d1"
      using run' s q2 that by (auto split: outcome.splits sum.splits if_splits)
    then obtain caps v where v: "life v = Busy" "item (mini_world v) = item (mini_world ?d)"
      "publish caps v = ((Returned (Inr x), flag), d1)" "b1 = ?b"
      "\<exists>v. fst (query v) = Returned (Inr caps)" using cases by auto
    then have "life d' = Connected c" "mini_world d' = mini_world d1" using drop [of False] kept sx(2) by simp_all
    moreover have "item (mini_world v) = item (mini_world d)" using v(2) by simp
    ultimately show ?thesis using v(1,3,5) by metis
  qed
  show "item (mini_world d') = item (mini_world d)" if "r = Inl er" and "life d' = Connected c"
  proof -
    have "s = Returned (Inl er)" "\<not> flag" "d' = borrow_drop win False b1 d1"
      using run' s q2 that drop drop2 by (auto split: outcome.splits sum.splits if_splits)
    moreover then have "\<not> failed b1" using that(2) drop [of False] by auto
    ultimately show ?thesis using cases kept undone by auto
  qed
qed

end

end
