(* ===== verification/Minidriver_Properties.thy ===== *)
theory Minidriver_Properties
  imports Minidriver_Lifecycle Wia_Properties
begin

unbundle bit_operations_syntax

text \<open>
  The correctness of the minidriver object, and an instance of its contract in memory.
\<close>

section \<open>Properties\<close>

text \<open>Every error of an acquisition is a failure code.\<close>

lemma win32_range: "0x80070000 OR (n AND 0xFFFF) < (2 :: nat) ^ 32"
proof -
  define low where "low = n AND 0xFFFF"
  have "low = take_bit 16 n" by (simp add: low_def take_bit_eq_mask mask_eq_exp_minus_1)
  then have "low < 2 ^ 32" using take_bit_nat_less_exp [of 16 n] by simp
  then have "take_bit 32 (0x80070000 OR low) = 0x80070000 OR low"
    by (simp add: take_bit_nat_eq_self)
  then show ?thesis
    using take_bit_nat_less_exp [of 32 "0x80070000 OR low"] by (simp add: low_def)
qed

lemma win32_failure: "as_i32 (0x80070000 OR (n AND 0xFFFF)) < 0"
proof -
  define low where "low = n AND 0xFFFF"
  have "(0x80070000 :: int) \<le> 0x80070000 OR int low" by (rule or_greater_eq) simp
  then have "int 0x80070000 \<le> int (0x80070000 OR low)" by (simp add: of_nat_or_eq)
  then have "2 ^ 31 \<le> 0x80070000 OR low" by simp
  then show ?thesis using win32_range [of n] by (simp add: as_i32_def low_def)
qed

lemma unexpected_failed: "E_UNEXPECTED < 0"
  by (simp add: E_UNEXPECTED_def as_i32_def)

lemma failed_status_failed: "failed_status hr < 0"
  by (simp add: failed_status_def E_UNEXPECTED_def as_i32_def)

lemma os_status_failed: "os_status code < 0"
  using win32_failure [of "nat code"] by (simp add: os_status_def E_UNEXPECTED_def as_i32_def)

lemma kind_status_failed: "kind_status k < 0"
  by (cases k) (simp_all add: E_INVALIDARG_def WIA_ERROR_BUSY_def as_i32_def)

lemma error_status_failed: "error_status er < 0"
  by (induction er rule: error_status.induct)
    (simp_all only: error_status.simps failed_status_failed os_status_failed kind_status_failed)

lemma neutral_notified:
  assumes "neutral refs g"
  shows "neutral refs (\<lambda>s. case g s of (r, s) \<Rightarrow> (r, snd (job_cancel device s)))"
proof -
  have "settled refs m s (snd (job_cancel device s'))" if "settled refs m s s'" for m s s'
    using that by (auto simp: settled_def job_cancel_def split: option.splits)
  then show ?thesis using assms by (simp add: neutral_def case_prod_unfold)
qed


text \<open>
  Property C5: no reference leaks and no borrow is forgotten. After any sequence of calls, each
  with any arguments, closures and answers of Windows, panics included, the driver is not busy,
  has no running acquisition, and owns exactly the root item and the STI helper of its
  connection, if it has one, beside what it was given at the start.
\<close>

theorem driver_owns_its_connection:
  assumes "windows_calls win refs" and "(driver_step win refs)\<^sup>*\<^sup>* (driver_new w) d"
  shows "life d \<noteq> Busy \<and> active d = None
    \<and> refs (mini_world d) = refs w + (case life d of
        Connected c \<Rightarrow> {#ItemRef (tree_root c)#}
          + (case conn_helper c of None \<Rightarrow> {#} | Some h \<Rightarrow> {#HelperRef h#})
      | _ \<Rightarrow> {#})"
proof -
  have "at_rest refs (refs w) None (driver_new w)"
    by (simp add: at_rest_def driver_new_def owned_def)
  from windows_calls.driver_steps_stable [OF assms this] show ?thesis
    by (auto simp: at_rest_def owned_def connection_refs_def helper_refs_def split: lifecycle.splits)
qed

text \<open>
  Property C29: the scanner is asked with the service lock held and the item is published
  with it released. A call that publishes depends on its query only where the lock is held,
  and on its publisher only where the lock is not held, both with the driver marked busy.
\<close>

theorem queried_locked_published_unlocked:
  assumes "windows_lock win refs locked" and "life d = Connected c"
    and "refs (mini_world d) = R + connection_refs c" and "neutral refs query"
    and "\<forall>s. life s = Busy \<and> locked (mini_world s) \<longrightarrow> query s = query' s"
    and "\<forall>caps s. life s = Busy \<and> \<not> locked (mini_world s) \<longrightarrow> publish caps s = publish' caps s"
  shows "with_live_capabilities_guarded win query publish d = with_live_capabilities_guarded win query' publish' d"
proof -
  have "at_rest refs R (active d) d" using assms(2,3) by (simp add: at_rest_def owned_def)
  from windows_lock.live_guarded_scope [OF assms(1) this assms(4), of query' publish publish'] assms(5,6)
  show ?thesis by blast
qed

text \<open>
  Property C28: what an acquisition answers. It reads the item and runs the transfer with a new
  flag, both with the driver marked busy; a panic answers \<open>E_UNEXPECTED\<close> and fails the driver;
  otherwise the connection is given back, and a successful transfer answers \<open>S_FALSE\<close> if its
  flag was raised, \<open>S_OK\<close> or \<open>S_FALSE\<close> by its own outcome if it was not, while an error keeps
  precedence over a cancellation.
\<close>

theorem acquisition_answers:
  assumes "windows_calls win refs" and "life d = Connected c" and "active d = None"
    and "refs (mini_world d) = R + connection_refs c"
    and "neutral refs read_item" and "\<forall>p f. neutral refs (run p f)"
    and "dispatch_acquire win read_item run d = (hr, d')"
  shows "active d' = None
    \<and> (case read_item (acquiring c d) of
        (Panicked, _) \<Rightarrow> hr = E_UNEXPECTED \<and> life d' = Failed
      | (Returned (Inl er), _) \<Rightarrow> hr = (if er < 0 then er else E_UNEXPECTED) \<and> life d' = Connected c
      | (Returned (Inr p), d1) \<Rightarrow> (case run p (fresh_flag d) d1 of
          (Panicked, _) \<Rightarrow> hr = E_UNEXPECTED \<and> life d' = Failed
        | (Returned (Inl er), _) \<Rightarrow> hr = error_status er \<and> life d' = Connected c
        | (Returned (Inr tr), d2) \<Rightarrow> life d' = Connected c
            \<and> hr = (if cancel_flags d2 (fresh_flag d) \<or> tr = Cancelled then 1 else 0)))"
proof -
  have rest: "at_rest refs R None d" using assms(2-4) by (simp add: at_rest_def owned_def)
  obtain r d1 where r: "read_item (acquiring c d) = (r, d1)" by fastforce
  let ?run = "\<lambda>p. run p (fresh_flag d) d1"
  note st = windows_calls.acquire_answer [where run = run, OF assms(1) rest assms(2,5) assms(6) [rule_format] r]
  note drop = windows_calls.borrow_drop_stable [OF assms(1)]
  note end1 = drop [OF st(1)] and end2 = drop [OF st(2)]
  note d' = assms(7) [unfolded st(3)]
  show ?thesis
  proof (cases r)
    case Panicked
    then show ?thesis using d' end1 by (auto simp: r at_rest_def)
  next
    case (Returned r')
    show ?thesis
    proof (cases r')
      case (Inl er)
      then show ?thesis
        using d' end1(1) end1(3) [of False] Returned by (auto simp: r at_rest_def failed_status_def)
    next
      case (Inr p)
      note rp = Returned [unfolded Inr]
      note e2 = end2 [OF rp]
      obtain res d2 where res: "?run p = (res, d2)" by fastforce
      show ?thesis
      proof (cases res)
        case Panicked
        then show ?thesis using d' e2(1,2) rp res by (auto simp: r at_rest_def)
      next
        case ret: (Returned result)
        then show ?thesis
          using d' e2(1) e2(3) [of False] rp res
          by (cases result; cases "projr result") (auto simp: r at_rest_def)
      qed
    qed
  qed
qed


section \<open>An office\<close>

text \<open>
  Windows in memory, for any further fields that a world may have: it counts the references that the driver owns, remembers the service lock,
  and answers every fallible call with the next code of a script, success when it is used up.
\<close>

record office =
  office_refs :: "reference multiset"
  office_locked :: bool
  office_script :: "int list"
  office_next :: nat

definition in_office :: "('a office_scheme \<Rightarrow> 'a office_scheme) \<Rightarrow> 'a office_scheme driver \<Rightarrow> 'a office_scheme driver" where
  "in_office f d = d\<lparr>mini_world := f (mini_world d)\<rparr>"

definition gains :: "reference \<Rightarrow> 'a office_scheme \<Rightarrow> 'a office_scheme" where
  "gains r w = w\<lparr>office_refs := office_refs w + {#r#}\<rparr>"

definition loses :: "reference \<Rightarrow> 'a office_scheme \<Rightarrow> 'a office_scheme" where
  "loses r w = w\<lparr>office_refs := office_refs w - {#r#}\<rparr>"

definition reply :: "'a office_scheme \<Rightarrow> int" where
  "reply w = (case office_script w of [] \<Rightarrow> 0 | hr # _ \<Rightarrow> hr)"

definition replied :: "'a office_scheme \<Rightarrow> 'a office_scheme" where
  "replied w = w\<lparr>office_script := tl (office_script w)\<rparr>"

definition office_create :: "'a office_scheme \<Rightarrow> (int \<times> nat option) \<times> 'a office_scheme" where
  "office_create w = (let i = office_next w in
     if reply w = 0 then ((0, Some i), gains (ItemRef i) (replied w\<lparr>office_next := Suc i\<rparr>))
     else ((reply w, None), replied w))"

definition office_lock :: "'a office_scheme \<Rightarrow> 'a office_scheme" where
  "office_lock w = (replied w)\<lparr>office_locked := reply w = 0 \<or> office_locked w\<rparr>"

definition office_unlock :: "'a office_scheme \<Rightarrow> 'a office_scheme" where
  "office_unlock w = (replied w)\<lparr>office_locked := reply w \<noteq> 0 \<and> office_locked w\<rparr>"

definition office_windows :: "'a office_scheme driver windows" where
  "office_windows = \<lparr>
     sys_alloc = \<lambda>u d. if reply (mini_world d) = 0
       then (True, in_office (gains (StringRef u) \<circ> replied) d) else (False, in_office replied d),
     sys_free = \<lambda>u. in_office (loses (StringRef u)),
     create_drv_item = \<lambda>fl name full d. (fst (office_create (mini_world d)),
       in_office (snd \<circ> office_create) d),
     add_to_folder = \<lambda>child folder d. (reply (mini_world d), in_office replied d),
     unlink_item = \<lambda>item gone d. (reply (mini_world d), in_office replied d),
     release_item = \<lambda>i. in_office (loses (ItemRef i)),
     retain_helper = \<lambda>h. in_office (gains (HelperRef h)),
     release_helper = \<lambda>h. in_office (loses (HelperRef h)),
     lock_device = \<lambda>h t d. (reply (mini_world d), in_office office_lock d),
     unlock_device = \<lambda>h d. (reply (mini_world d), in_office office_unlock d)\<rparr>"

lemmas office_defs = office_windows_def in_office_def gains_def loses_def reply_def replied_def
  office_create_def office_lock_def office_unlock_def

interpretation desk: windows_calls office_windows office_refs
  by unfold_locales (auto simp: office_defs settled_def Let_def split: if_splits list.splits)

interpretation desk: windows_lock office_windows office_refs office_locked
  by unfold_locales (auto simp: office_defs split: list.splits)

interpretation desk: windows_item office_windows office_refs office.more
  by unfold_locales (auto simp: office_defs keeps_def split: list.splits)

definition empty_office :: office where
  "empty_office = \<lparr>office_refs = {#}, office_locked = False, office_script = [], office_next = 1\<rparr>"

text \<open>The driver after its first client has connected.\<close>

definition desk_driver :: "office driver" where
  "desk_driver = snd (initialize_tree office_windows True [0x64] [0x6E] (Some 7) (driver_new empty_office))"

definition desk_connection :: item_connection where
  "desk_connection = \<lparr>tree_root = 1, conn_helper = Some 7, conn_device = [0x64], conn_name = [0x6E], clients = 1\<rparr>"

lemmas desk_run = desk_driver_def desk_connection_def initialize_tree_def claim_def driver_new_def tree_create_def
  with_tree_bstring_def tree_bstring_new_def MAX_NAME_UNITS_def create_item_def add_flatbed_def
  retain_def office_defs empty_office_def ok_or_def Let_def

lemma desk_connected: "life desk_driver = Connected desk_connection"
  by (simp add: desk_run)

lemma desk_idle: "active desk_driver = None" by (simp add: desk_run)

lemma desk_references: "refs = office_refs \<Longrightarrow> refs (mini_world desk_driver) = {#} + connection_refs desk_connection"
  by (simp add: desk_run connection_refs_def helper_refs_def)

text \<open>A scanner that does not answer, an item that reads, and a transfer that skips.\<close>

definition desk_query :: "office driver \<Rightarrow> capabilities hr outcome \<times> office driver" where
  "desk_query d = (Returned (Inl E_POINTER), d)"

definition desk_read :: "office driver \<Rightarrow> snapshot hr outcome \<times> office driver" where
  "desk_read d = (Returned (Inr \<lparr>snap_settings = letter_settings, snap_item = map of_char ''Flatbed'', snap_full_item = map of_char ''0000''\<rparr>), d)"

definition desk_scan :: "snapshot \<Rightarrow> nat \<Rightarrow> office driver \<Rightarrow> transfer_outcome io outcome \<times> office driver" where
  "desk_scan p f d = (Returned (Inr Skipped), d)"

lemma desk_neutral: "neutral office_refs desk_query" "neutral office_refs desk_read"
  "\<And>p f. neutral office_refs (desk_scan p f)"
  by (simp_all add: neutral_def settled_def desk_query_def desk_read_def desk_scan_def)


lemma desk_reached: "(driver_step office_windows office_refs)\<^sup>*\<^sup>* (driver_new empty_office) desk_driver"
proof -
  have "driver_step office_windows office_refs (driver_new empty_office) desk_driver"
    by (rule step_initialize) (auto simp: desk_driver_def intro: prod.collapse [symmetric])
  then show ?thesis by simp
qed

lemma driver_owns_its_connection_witness:
  "office_refs (mini_world desk_driver) = {#ItemRef 1, HelperRef 7#}"
  using driver_owns_its_connection [OF desk.windows_calls_axioms desk_reached]
  by (simp add: desk_connected desk_connection_def empty_office_def)

lemma queried_locked_published_unlocked_witness:
  "with_live_capabilities_guarded office_windows desk_query (\<lambda>_ d. ((Returned (Inr ()), False), d)) desk_driver
   = with_live_capabilities_guarded office_windows
       (\<lambda>d. if office_locked (mini_world d) then desk_query d else (Panicked, d))
       (\<lambda>_ d. if office_locked (mini_world d) then ((Panicked, True), d) else ((Returned (Inr ()), False), d)) desk_driver"
  by (rule queried_locked_published_unlocked [OF desk.windows_lock_axioms desk_connected
        desk_references [OF refl] desk_neutral(1)]) simp_all

lemma acquisition_answers_witness:
  "fst (dispatch_acquire office_windows desk_read desk_scan desk_driver) = 0"
proof -
  obtain hr d where r: "dispatch_acquire office_windows desk_read desk_scan desk_driver = (hr, d)" by fastforce
  show ?thesis
    using acquisition_answers [where run = desk_scan, OF desk.windows_calls_axioms desk_connected desk_idle
        desk_references [OF refl] desk_neutral(2) _ r] desk_neutral(3)
    by (simp add: r desk_read_def desk_scan_def acquiring_def)
qed


end
