(* ===== verification/Native_Store.thy ===== *)
theory Native_Store
  imports Wia_Native Validation_Properties
begin

unbundle bit_operations_syntax

text \<open>
  The item as the service keeps it, and what the calls of \<open>Wia_Native\<close> do to it: the contract
  of the service library as locales (\<open>item_frame\<close>, \<open>item_store\<close>, \<open>obliging_store\<close>), updates by
  position, and the catalogs that the validation prepares as a legal update.
\<close>

section \<open>The stored item\<close>

text \<open>What the service keeps of an item: a stored value and a description per property.\<close>

type_synonym stored_values = "nat \<Rightarrow> prop_variant option"
type_synonym stored_infos = "nat \<Rightarrow> property_info option"

text \<open>
  What the driver relies on. Whatever a call returns, it touches at most the properties that
  it names; allocating and freeing a string touches none.
\<close>

locale item_frame =
  fixes sv :: "'w service"
    and stored :: "'w \<Rightarrow> stored_values"
    and described :: "'w \<Rightarrow> stored_infos"
  assumes write_frame: "write_multiple sv (map from_id is) vs w = (hr, w') \<Longrightarrow>
      described w' = described w \<and> (\<forall>i. i \<notin> set is \<longrightarrow> stored w' i = stored w i)"
    and attribute_frame: "set_item_attribute sv (from_id j) info w = (hr, w') \<Longrightarrow>
      stored w' = stored w \<and> (\<forall>i. i \<noteq> j \<longrightarrow> described w' i = described w i)"
    and names_frame: "set_item_names sv is ns w = (hr, w') \<Longrightarrow>
      stored w' = stored w \<and> described w' = described w"
    and alloc_frame: "alloc_string sv u w = (b, w') \<Longrightarrow> stored w' = stored w \<and> described w' = described w"
    and free_frame: "stored (free_string sv u w) = stored w" "described (free_string sv u w) = described w"

text \<open>And \<open>S_OK\<close> means that the call did what it was asked.\<close>

locale item_store = item_frame +
  assumes written: "length vs = length is \<Longrightarrow> write_multiple sv (map from_id is) vs w = (S_OK, w') \<Longrightarrow>
      stored w' = stored w ++ map_of (rev (zip is vs))"
    and attribute_set: "set_item_attribute sv (from_id i) info w = (S_OK, w') \<Longrightarrow>
      described w' = (described w)(i \<mapsto> info)"

text \<open>A computation that leaves the item alone.\<close>

definition keeps_item ::
    "('w \<Rightarrow> stored_values) \<Rightarrow> ('w \<Rightarrow> stored_infos) \<Rightarrow> ('w \<Rightarrow> 'r \<times> 'w) \<Rightarrow> bool" where
  "keeps_item st de f \<longleftrightarrow> (\<forall>w. st (snd (f w)) = st w \<and> de (snd (f w)) = de w)"

lemma keeps_itemD: "keeps_item st de f \<Longrightarrow> f w = (r, w') \<Longrightarrow> st w' = st w \<and> de w' = de w"
  by (metis keeps_item_def snd_conv)

text \<open>The variant that carries a value.\<close>

definition variant_of :: "property_value \<Rightarrow> prop_variant" where
  "variant_of v = (case v of
     Long n \<Rightarrow> \<lparr>vt = VT_I4, vdata = LongData n\<rparr>
   | Guid g \<Rightarrow> \<lparr>vt = VT_CLSID, vdata = GuidData g\<rparr>
   | Text s \<Rightarrow> \<lparr>vt = VT_BSTR, vdata = BstrData (encode_utf16 s)\<rparr>)"

lemma attributes_new_Inr [result_simps]:
  "attributes_new as = Inr xs \<longleftrightarrow> list_all2 (\<lambda>a x. attribute_new a = Inr x) as xs"
  by (induction as arbitrary: xs) (auto simp: result_simps list_all2_Cons1)

lemma ensure_s_ok_Inr [result_simps]: "ensure_s_ok hr = Inr u \<longleftrightarrow> hr = S_OK"
  by (simp add: ensure_s_ok_def)

lemma finalize_result_Inr [result_simps]: "finalize_result r = Inr u \<longleftrightarrow> r = Inr ()"
  by (auto simp: finalize_result_def split: sum.splits)

lemma from_id_spec [simp]: "spec_id (from_id i) = Some i" by (simp add: from_id_def)

text \<open>Updates by position of a list of distinct identifiers.\<close>

lemma map_of_indexed:
  assumes "inj_on f A" and "set ks \<subseteq> A" and "j \<in> A"
  shows "map_of (rev (map (\<lambda>k. (f k, g k)) ks)) (f j) = (if j \<in> set ks then Some (g j) else None)"
  using assms(2)
proof (induction ks)
  case (Cons k ks)
  have "f k = f j \<longleftrightarrow> k = j" using assms(1,3) Cons.prems by (auto dest: inj_onD)
  then show ?case using Cons by (auto simp: map_add_def)
qed simp

lemma map_of_indexed_none:
  "i \<notin> f ` set ks \<Longrightarrow> map_of (rev (map (\<lambda>k. (f k, g k)) ks)) i = None"
  by (induction ks) (auto simp: map_add_def)

lemma lookup_at:
  assumes "distinct is" and "length xs = length is" and "k < length is"
  shows "map_of (zip is xs) (is ! k) = Some (xs ! k)"
  using assms by (simp add: map_of_zip_nth)

text \<open>\<open>k\<close> is changed when the two lists differ there.\<close>

lemma set_changed_indices:
  "set (changed_indices xs ys) = {k. k < length xs \<and> k < length ys \<and> xs ! k \<noteq> ys ! k}"
  by (auto simp: changed_indices_def)

lemma changed_update:
  fixes m :: "nat \<Rightarrow> 'b option" and h :: "'a \<Rightarrow> 'b"
  assumes "distinct is" and "length xs = length is" and "length ys = length is"
  defines "ks \<equiv> changed_indices xs ys"
  defines "new \<equiv> m ++ map_of (rev (zip (map ((!) is) ks) (map (\<lambda>k. h (ys ! k)) ks)))"
  shows "i \<notin> set is \<or> map_of (zip is xs) i = map_of (zip is ys) i \<Longrightarrow> new i = m i"
    and "i \<in> set is \<Longrightarrow> m i = map_option h (map_of (zip is xs) i) \<Longrightarrow>
      new i = map_option h (map_of (zip is ys) i)"
proof -
  let ?g = "\<lambda>k. h (ys ! k)"
  have new: "new = m ++ map_of (rev (map (\<lambda>k. (is ! k, ?g k)) ks))"
    unfolding new_def by (simp add: zip_map_map zip_same_conv_map comp_def)
  have inj: "inj_on ((!) is) {..<length is}" using assms(1) by (simp add: inj_on_nth)
  have sub: "set ks \<subseteq> {..<length is}" using assms(2) by (auto simp: ks_def set_changed_indices)
  have at: "new (is ! k) = (if k \<in> set ks then Some (?g k) else m (is ! k))" if "k < length is" for k
    unfolding new map_add_def using map_of_indexed [OF inj sub, of k ?g] that by simp
  have changed: "k \<in> set ks \<longleftrightarrow> xs ! k \<noteq> ys ! k" if "k < length is" for k
    using that assms(2,3) by (simp add: ks_def set_changed_indices)
  show "new i = m i" if "i \<notin> set is \<or> map_of (zip is xs) i = map_of (zip is ys) i"
  proof (cases "i \<in> set is")
    case True
    then obtain k where k: "k < length is" "is ! k = i" by (auto simp: in_set_conv_nth)
    then have "map_of (zip is xs) i = Some (xs ! k)" "map_of (zip is ys) i = Some (ys ! k)"
      using lookup_at [OF assms(1)] assms(2,3) by auto
    with k show ?thesis using that True at [of k] changed [of k] lookup_at [OF assms(1)] assms(2,3) by auto
  next
    case False
    then have "i \<notin> (!) is ` set ks" using sub nth_mem by fastforce
    then show ?thesis unfolding new map_add_def by (simp add: map_of_indexed_none)
  qed
  show "new i = map_option h (map_of (zip is ys) i)"
    if "i \<in> set is" and "m i = map_option h (map_of (zip is xs) i)"
  proof -
    note i = that
    obtain k where "k < length is" "is ! k = i" using i(1) by (auto simp: in_set_conv_nth)
    moreover from this have "map_of (zip is xs) i = Some (xs ! k)" "map_of (zip is ys) i = Some (ys ! k)"
      using lookup_at [OF assms(1)] assms(2,3) by auto
    ultimately show ?thesis using i(2) at [of k] changed [of k] by auto
  qed
qed

context item_frame
begin

lemma variant_new_keeps:
  assumes "variant_new sv v w = (r, w')"
  shows "stored w' = stored w \<and> described w' = described w \<and> (\<forall>x. r = Inr x \<longrightarrow> x = variant_of v)"
  using assms alloc_frame
  by (auto simp: variant_new_def variant_of_def split: property_value.splits if_splits prod.splits bool.splits)

lemma drop_variants_keeps [simp]:
  "stored (drop_variants sv vs w) = stored w" "described (drop_variants sv vs w) = described w"
proof -
  have one: "stored (drop_variant sv v w) = stored w" "described (drop_variant sv v w) = described w" for v w
    using free_frame by (simp_all add: drop_variant_def split: variant_data.splits)
  show "stored (drop_variants sv vs w) = stored w" "described (drop_variants sv vs w) = described w"
    by (induction vs arbitrary: w) (simp_all add: drop_variants_def one)
qed

lemma from_values_keeps:
  assumes "from_values sv done vs w = (r, w')"
  shows "stored w' = stored w \<and> described w' = described w
    \<and> (\<forall>xs. r = Inr xs \<longrightarrow> xs = done @ map variant_of vs)"
  using assms
proof (induction vs arbitrary: "done" w)
  case (Cons v vs)
  obtain s w1 where v: "variant_new sv v w = (s, w1)" by fastforce
  then show ?case using Cons variant_new_keeps [OF v] by (cases s) fastforce+
qed auto

lemma write_attributes_frame:
  assumes "write_attributes sv (zip (map from_id is) infos) w = (r, w')"
  shows "stored w' = stored w \<and> (\<forall>i. i \<notin> set is \<longrightarrow> described w' i = described w i)"
  using assms
proof (induction "is" arbitrary: infos w)
  case (Cons i js)
  show ?case
  proof (cases infos)
    case (Cons x xs)
    obtain hr w1 where a: "set_item_attribute sv (from_id i) x w = (hr, w1)" by fastforce
    have "stored w' = stored w1 \<and> (\<forall>i. i \<notin> set js \<longrightarrow> described w' i = described w1 i)"
      using Cons.prems a Cons Cons.IH [of xs w1] by (auto split: sum.splits)
    then show ?thesis using attribute_frame [OF a] by auto
  qed (use Cons.prems in simp)
qed simp

lemma update_with_frame:
  assumes up: "update_with sv before after fin w = (r, w')"
    and fin: "keeps_item stored described fin"
  shows "(i \<notin> set DEPENDENT_VALUE_IDS \<longrightarrow> stored w' i = stored w i)
    \<and> (i \<notin> set DEPENDENT_ATTRIBUTE_IDS \<longrightarrow> described w' i = described w i)"
proof -
  let ?ks = "changed_indices (initial_values before) (initial_values after)"
  let ?js = "changed_indices (attributes before) (attributes after)"
  obtain b w1 where b: "build_delta_plan sv before after w = (b, w1)" by fastforce
  then have w1: "stored w1 = stored w \<and> described w1 = described w"
    using from_values_keeps
    by (auto simp: build_delta_plan_def Let_def split: sum.splits if_splits prod.splits)
  show ?thesis
  proof (cases b)
    case (Inl er)
    then show ?thesis using up b w1 by (auto simp: update_with_def)
  next
    case (Inr plan)
    then have "value_specs plan = map from_id (map ((!) (ids after)) ?ks)
        \<and> attribute_specs plan = map from_id (map ((!) (ids after)) ?js)
        \<and> set (map ((!) (ids after)) ?ks) \<subseteq> set DEPENDENT_VALUE_IDS
        \<and> set (map ((!) (ids after)) ?js) \<subseteq> set DEPENDENT_ATTRIBUTE_IDS"
      using b by (auto simp: build_delta_plan_def Let_def list_ex_iff split: sum.splits if_splits prod.splits)
    then obtain ns js where plan: "value_specs plan = map from_id ns" "attribute_specs plan = map from_id js"
      and dep: "set ns \<subseteq> set DEPENDENT_VALUE_IDS" "set js \<subseteq> set DEPENDENT_ATTRIBUTE_IDS" by blast
    obtain v w2 where v: "(if value_specs plan \<noteq> []
             then case write_multiple sv (value_specs plan) (value_storage plan) w1 of
                    (hr, w) \<Rightarrow> (ensure_s_ok hr, w)
             else (Inr (), w1)) = (v, w2)" by fastforce
    then have w2: "described w2 = described w1" "i \<notin> set DEPENDENT_VALUE_IDS \<longrightarrow> stored w2 i = stored w1 i"
      using write_frame [of ns "value_storage plan" w1] dep(1) plan(1)
      by (auto split: if_splits prod.splits dest: subsetD)
    obtain a w3 where a: "(case v of Inl er \<Rightarrow> (Inl er, w2)
             | Inr _ \<Rightarrow> write_attributes sv (zip (attribute_specs plan) (attribute_storage plan)) w2) = (a, w3)"
      by fastforce
    then have w3: "stored w3 = stored w2" "i \<notin> set DEPENDENT_ATTRIBUTE_IDS \<longrightarrow> described w3 i = described w2 i"
      using write_attributes_frame [of js "attribute_storage plan" w2] dep(2) plan(2)
      by (auto split: sum.splits)
    have "stored w' = stored w3 \<and> described w' = described w3"
      using up b Inr v a keeps_itemD [OF fin] by (auto simp: update_with_def Let_def split: sum.splits prod.splits)
    with w1 w2 w3 show ?thesis by simp
  qed
qed

end

context item_store
begin

lemma write_attributes_stores:
  assumes "write_attributes sv (zip (map from_id is) infos) w = (Inr (), w')"
    and "length infos = length is"
  shows "stored w' = stored w \<and> described w' = described w ++ map_of (rev (zip is infos))"
  using assms(2,1)
proof (induction infos "is" arbitrary: w rule: list_induct2)
  case (Cons x infos i js)
  then obtain w1 where a: "set_item_attribute sv (from_id i) x w = (S_OK, w1)"
    and r: "write_attributes sv (zip (map from_id js) infos) w1 = (Inr (), w')"
    by (auto split: prod.splits sum.splits simp: ensure_s_ok_def split: if_splits)
  from Cons.IH [OF r] attribute_set [OF a] attribute_frame [OF a] show ?case by (auto simp: map_add_def fun_eq_iff split: option.splits)
qed simp

lemma update_with_stores:
  assumes up: "update_with sv before after fin w = (Inr (), w')"
    and fin: "keeps_item stored described fin"
  defines "ks \<equiv> changed_indices (initial_values before) (initial_values after)"
    and "js \<equiv> changed_indices (attributes before) (attributes after)"
  shows "comparable before after = Inr ()"
    and "stored w' = stored w ++ map_of (rev (zip (map ((!) (ids after)) ks)
           (map (\<lambda>k. variant_of (initial_values after ! k)) ks)))"
    and "\<exists>infos. list_all2 (\<lambda>a x. attribute_new a = Inr x) (map ((!) (attributes after)) js) infos
           \<and> described w' = described w ++ map_of (rev (zip (map ((!) (ids after)) js) infos))"
proof -
  obtain plan w1 where b: "build_delta_plan sv before after w = (Inr plan, w1)"
    using up by (auto simp: update_with_def split: prod.splits sum.splits)
  have cmp: "comparable before after = Inr ()"
    using b by (auto simp: build_delta_plan_def split: sum.splits)
  then obtain storage w0 infos where
    v: "from_values sv [] (map ((!) (initial_values after)) ks) w = (Inr storage, w0)"
    and a: "attributes_new (map ((!) (attributes after)) js) = Inr infos"
    and plan: "w1 = w0" "value_specs plan = map (\<lambda>k. from_id (ids after ! k)) ks"
      "value_storage plan = storage" "attribute_specs plan = map (\<lambda>k. from_id (ids after ! k)) js"
      "attribute_storage plan = infos"
    using b by (auto simp: build_delta_plan_def Let_def ks_def js_def split: sum.splits prod.splits if_splits)
  have st: "storage = map variant_of (map ((!) (initial_values after)) ks)"
    and w0: "stored w0 = stored w" "described w0 = described w"
    using from_values_keeps [OF v] by simp_all
  have al: "list_all2 (\<lambda>a x. attribute_new a = Inr x) (map ((!) (attributes after)) js) infos"
    using a by (simp add: result_simps)
  then have len: "length infos = length (map ((!) (ids after)) js)" by (auto dest: list_all2_lengthD)
  obtain w2 where m: "stored w2 = stored w ++ map_of (rev (zip (map ((!) (ids after)) ks)
           (map (\<lambda>k. variant_of (initial_values after ! k)) ks)))" "described w2 = described w"
    and r: "\<exists>w3 w4 r. write_attributes sv (zip (map from_id (map ((!) (ids after)) js)) infos) w2 = (Inr (), w3)
        \<and> fin w3 = (r, w4) \<and> w' = drop_variants sv storage w4"
  proof (cases "ks = []")
    case True
    then show ?thesis
      using that [of w0] w0 up plan
      by (auto simp: update_with_def b comp_def split: prod.splits sum.splits)
  next
    case False
    then obtain w2 where "write_multiple sv (map from_id (map ((!) (ids after)) ks)) storage w0 = (S_OK, w2)"
      and r: "\<exists>w3 w4 r. write_attributes sv (zip (map from_id (map ((!) (ids after)) js)) infos) w2 = (Inr (), w3)
        \<and> fin w3 = (r, w4) \<and> w' = drop_variants sv storage w4"
      using up plan
      by (auto simp: update_with_def b comp_def ensure_s_ok_def split: prod.splits sum.splits if_splits)
    from written [OF _ this(1)] write_frame [OF this(1)] st w0 show ?thesis by (intro that [OF _ _ r]) (simp_all add: comp_def)
  qed
  then obtain w3 w4 r' where wa: "write_attributes sv (zip (map from_id (map ((!) (ids after)) js)) infos) w2 = (Inr (), w3)"
    and fw: "fin w3 = (r', w4)" "w' = drop_variants sv storage w4" by blast
  show "comparable before after = Inr ()" by (rule cmp)
  from write_attributes_stores [OF wa len] keeps_itemD [OF fin fw(1)] m
  show "stored w' = stored w ++ map_of (rev (zip (map ((!) (ids after)) ks)
           (map (\<lambda>k. variant_of (initial_values after ! k)) ks)))"
    and "\<exists>infos. list_all2 (\<lambda>a x. attribute_new a = Inr x) (map ((!) (attributes after)) js) infos
           \<and> described w' = described w ++ map_of (rev (zip (map ((!) (ids after)) js) infos))"
    using al by (auto simp: fw(2))
qed

end

section \<open>Updates of the item\<close>

text \<open>A description of a property, when it has a native form.\<close>

definition info_of :: "property_attribute \<Rightarrow> property_info" where
  "info_of a = (case attribute_new a of Inr x \<Rightarrow> x | Inl _ \<Rightarrow> undefined)"

text \<open>The item and a catalog agree on the value and on the description of a property.\<close>

definition agrees_value :: "stored_values \<Rightarrow> property_catalog \<Rightarrow> nat \<Rightarrow> bool" where
  "agrees_value st c i \<longleftrightarrow> st i = map_option variant_of (value_of c i)"

definition agrees_info :: "stored_infos \<Rightarrow> property_catalog \<Rightarrow> nat \<Rightarrow> bool" where
  "agrees_info st c i \<longleftrightarrow> st i = map_option info_of (attribute_of c i)"

lemma comparable_Inr:
  assumes "comparable before after = Inr ()"
  shows "ids before = ids after" "names before = names after" "ids after \<noteq> []"
    "length (initial_values before) = length (ids after)" "length (initial_values after) = length (ids after)"
    "length (attributes before) = length (ids after)" "length (attributes after) = length (ids after)"
    "length (names after) = length (ids after)"
  using assms by (auto simp: comparable_def write_plan_def result_simps split: if_splits)

context item_store
begin

lemma update_with_agrees:
  assumes up: "update_with sv before after fin w = (Inr (), w')"
    and fin: "keeps_item stored described fin"
    and dist: "distinct (ids after)"
  shows "value_of before i = value_of after i \<longrightarrow> stored w' i = stored w i"
    and "attribute_of before i = attribute_of after i \<longrightarrow> described w' i = described w i"
    and "agrees_value (stored w) before i \<longrightarrow> i \<in> set (ids after) \<longrightarrow> agrees_value (stored w') after i"
    and "agrees_info (described w) before i \<longrightarrow> i \<in> set (ids after) \<longrightarrow> agrees_info (described w') after i"
proof -
  let ?ks = "changed_indices (initial_values before) (initial_values after)"
  let ?js = "changed_indices (attributes before) (attributes after)"
  note main = update_with_stores [OF up fin]
  note f = comparable_Inr [OF main(1)]
  from main(3) obtain infos where
    infos: "list_all2 (\<lambda>a x. attribute_new a = Inr x) (map ((!) (attributes after)) ?js) infos"
    and d: "described w' = described w ++ map_of (rev (zip (map ((!) (ids after)) ?js) infos))" by blast
  have "infos = map (\<lambda>k. info_of (attributes after ! k)) ?js"
    using infos by (auto simp: list_all2_conv_all_nth info_of_def intro!: nth_equalityI)
  with d have d: "described w' = described w ++ map_of (rev (zip (map ((!) (ids after)) ?js)
      (map (\<lambda>k. info_of (attributes after ! k)) ?js)))" by simp
  note v = changed_update [OF dist f(4,5), where m = "stored w" and h = variant_of and i = i]
  note a = changed_update [OF dist f(6,7), where m = "described w" and h = info_of and i = i]
  show "value_of before i = value_of after i \<longrightarrow> stored w' i = stored w i"
    using v(1) f(1) by (simp add: main(2) value_of_def)
  show "attribute_of before i = attribute_of after i \<longrightarrow> described w' i = described w i"
    using a(1) f(1) by (simp add: d attribute_of_def)
  show "agrees_value (stored w) before i \<longrightarrow> i \<in> set (ids after) \<longrightarrow> agrees_value (stored w') after i"
    using v(2) f(1) by (simp add: main(2) value_of_def agrees_value_def)
  show "agrees_info (described w) before i \<longrightarrow> i \<in> set (ids after) \<longrightarrow> agrees_info (described w') after i"
    using a(2) f(1) by (simp add: d attribute_of_def agrees_info_def)
qed

end

section \<open>Prepared updates\<close>

lemma dependent_ids: "set DEPENDENT_VALUE_IDS = set selected_ids"
  by (auto simp: DEPENDENT_VALUE_IDS_def selected_ids_def property_id_defs)

lemma prepared_catalogs:
  assumes shape: "flatbed_shape c" and p: "prepare_catalogs c old_s cur intent ws = Inr ((before, after), ws')"
  obtains b s target where "selects c old_s b" and "accepts c old_s" and "accepts c s" and "selects c s after"
    and "intent_target cur intent ws = Inr (target, ws')" and "resolve c old_s target ws' = Inr s"
    and "before = b\<lparr>initial_values := initial_values before\<rparr>" and "aligned before"
    and "value_of before = value_of b ++ map_of (rev (map (apsnd Long) (setting_values cur)))"
proof -
  obtain target s b where t: "intent_target cur intent ws = Inr (target, ws')"
    and s: "resolve c old_s target ws' = Inr s" and b: "with_settings c old_s = Inr b"
    and bf: "with_service_values b cur = Inr before" and af: "with_settings c s = Inr after"
    using p by (auto simp: prepare_catalogs_def result_simps)
  have sb: "accepts c old_s" "selects c old_s b" and sa: "accepts c s" "selects c s after"
    using b af with_settings_iff [OF shape] by blast+
  note f = selects_frame [OF sb(2)]
  have sub: "fst ` set (setting_values cur) \<subseteq> set (ids b)"
    using shape unfolding f(2) flatbed_shape_def by (auto simp: setting_values_def selected_ids_def)
  obtain xs where "set_values (setting_values cur) b = Inr (b\<lparr>initial_values := xs\<rparr>)"
    "length xs = length (ids b)"
    "map_of (zip (ids b) xs) = value_of b ++ map_of (rev (map (apsnd Long) (setting_values cur)))"
    by (rule set_values_result [OF f(9) sub])
  then have "before = b\<lparr>initial_values := initial_values before\<rparr>" "aligned before"
    "value_of before = value_of b ++ map_of (rev (map (apsnd Long) (setting_values cur)))"
    using bf f(9) by (auto simp: with_service_values_def aligned_def value_of_def)
  then show ?thesis using that [OF sb(2,1) sa t s] by blast
qed

lemma prepared_frame:
  assumes shape: "flatbed_shape c" and p: "prepare_catalogs c old_s cur intent ws = Inr ((before, after), ws')"
  shows "ids before = ids c" "names before = names c" "ids after = ids c" "names after = names c"
    "aligned before" "aligned after"
    "value_of before i \<noteq> value_of after i \<Longrightarrow> i \<in> set DEPENDENT_VALUE_IDS \<and> (\<exists>n. value_of after i = Some (Long n))"
    "attribute_of before i \<noteq> attribute_of after i \<Longrightarrow> i \<in> set DEPENDENT_ATTRIBUTE_IDS"
    "i \<in> set DEPENDENT_ATTRIBUTE_IDS \<Longrightarrow>
       (\<exists>lo nominal hi step. attribute_of after i = Some (RangeLong (WIA_PROP_RW OR WIA_PROP_RANGE) lo nominal hi step))
       \<or> (\<exists>vs nominal. attribute_of after i = Some (rw_list vs nominal)
            \<and> (vs = cat_resolutions c \<or> vs = all_depths c))"
proof -
  obtain b s target where sb: "selects c old_s b" and sa: "selects c s after"
    and bf: "before = b\<lparr>initial_values := initial_values before\<rparr>" "aligned before"
      "value_of before = value_of b ++ map_of (rev (map (apsnd Long) (setting_values cur)))"
    by (rule prepared_catalogs [OF shape p])
  note fb = selects_frame [OF sb] and fa = selects_frame [OF sa]
  have "ids before = ids b" "names before = names b" and ab: "attributes before = attributes b"
    by (subst bf(1), simp)+
  then show "ids before = ids c" "names before = names c" using fb by simp_all
  then have at: "attribute_of before = attribute_of b" using ab fb(2) by (simp add: attribute_of_def)
  show "ids after = ids c" "names after = names c" "aligned before" "aligned after" using fa bf(2) by simp_all
  show "i \<in> set DEPENDENT_VALUE_IDS \<and> (\<exists>n. value_of after i = Some (Long n))"
    if ne: "value_of before i \<noteq> value_of after i"
  proof (cases "i \<in> set selected_ids")
    case True
    then have "\<exists>n. value_of after i = Some (Long n)"
      using selected_inside(1-14) [OF sa] by (auto simp: selected_ids_def)
    then show ?thesis using True dependent_ids by simp
  next
    case False
    then have "i \<notin> dom (map_of (rev (map (apsnd Long) (setting_values cur))))"
      by (auto simp: dom_map_of_conv_image_fst selected_ids_def setting_values_def)
    then have "value_of before i = value_of b i" by (simp add: bf(3) map_add_dom_app_simps)
    then show ?thesis using ne selected_outside(1) [OF sa False] selected_outside(1) [OF sb False] by simp
  qed
  show "i \<in> set DEPENDENT_ATTRIBUTE_IDS" if ne: "attribute_of before i \<noteq> attribute_of after i"
  proof (rule ccontr)
    assume no: "i \<notin> set DEPENDENT_ATTRIBUTE_IDS"
    show False
    proof (cases "i \<in> set selected_ids")
      case True
      then have "i \<in> {WIA_IPS_XRES, WIA_IPA_DATATYPE, WIA_IPA_CHANNELS_PER_PIXEL, WIA_IPA_PIXELS_PER_LINE,
          WIA_IPA_NUMBER_OF_LINES, WIA_IPA_ITEM_SIZE, WIA_IPS_MIN_HORIZONTAL_SIZE, WIA_IPS_MIN_VERTICAL_SIZE}"
        using no by (auto simp: DEPENDENT_ATTRIBUTE_IDS_def selected_ids_def property_id_defs)
      then have "attribute_of b i = attribute_of c i" "attribute_of after i = attribute_of c i"
        using selected_inside(15-22) [OF sb] selected_inside(15-22) [OF sa] by auto
      then show False using ne at by simp
    next
      case False
      then show False using ne at selected_outside(2) [OF sa] selected_outside(2) [OF sb] by simp
    qed
  qed
  show "(\<exists>lo nominal hi step. attribute_of after i = Some (RangeLong (WIA_PROP_RW OR WIA_PROP_RANGE) lo nominal hi step))
       \<or> (\<exists>vs nominal. attribute_of after i = Some (rw_list vs nominal)
            \<and> (vs = cat_resolutions c \<or> vs = all_depths c))"
    if "i \<in> set DEPENDENT_ATTRIBUTE_IDS"
  proof -
    have "i \<in> {WIA_IPS_YRES, WIA_IPA_DEPTH, WIA_IPS_XPOS, WIA_IPS_YPOS, WIA_IPS_XEXTENT, WIA_IPS_YEXTENT}"
      using that by (auto simp: DEPENDENT_ATTRIBUTE_IDS_def property_id_defs)
    then show ?thesis using selected_inside(23-28) [OF sa] by auto
  qed
qed

text \<open>The lists of a flatbed catalog are short and not empty.\<close>

lemma flatbed_small:
  assumes "flatbed caps a b = Inr c"
  shows "length (ids c) = 38" "cat_resolutions c \<noteq> []" "length (cat_resolutions c) \<le> 10"
    "all_depths c \<noteq> []" "length (all_depths c) \<le> 2"
proof -
  obtain h v n w k where c: "c = push_all_props
       (flatbed_entries (flatbed_resolutions caps) (flatbed_data_types caps)
         (filter (\<lambda>x. x > 0) (map depth_for (flatbed_data_types caps))) a b n h v w k)
       ((empty_catalog Flatbed)\<lparr>cat_resolutions := flatbed_resolutions caps,
          data_types := flatbed_data_types caps, default_resolution := hd (flatbed_resolutions caps),
          cat_width := cap_width_units caps, cat_height := flatbed_units caps\<rparr>)"
    and ne: "flatbed_resolutions caps \<noteq> []" "flatbed_data_types caps \<noteq> []"
    by (rule flatbed_Inr [OF assms])
  show "length (ids c) = 38"
    by (simp add: c push_all_props_fields empty_catalog_def flatbed_entries_def entries_defs)
  show "cat_resolutions c \<noteq> []" using ne by (simp add: flatbed_fields [OF assms])
  have "length (flatbed_resolutions caps) \<le> length (resolutions caps)"
    by (simp add: flatbed_resolutions_def)
  also have "\<dots> \<le> 10"
    by (simp add: resolutions_def dpi_bits_def List.map_filter_def
        order.trans [OF length_filter_le])
  finally show "length (cat_resolutions c) \<le> 10" by (simp add: flatbed_fields [OF assms])
  show "length (all_depths c) \<le> 2" "all_depths c \<noteq> []"
    using ne(2) by (auto simp: all_depths_def flatbed_fields [OF assms] flatbed_data_types_def depth_for_def
        WIA_DATA_GRAYSCALE_def WIA_DATA_COLOR_def)
qed

lemma catalog_nth:
  assumes "aligned c" and "k < length (ids c)"
  shows "value_of c (ids c ! k) = Some (initial_values c ! k)"
    "attribute_of c (ids c ! k) = Some (attributes c ! k)"
  using assms by (simp_all add: value_of_def attribute_of_def aligned_def lookup_at)

text \<open>A service that grants every write.\<close>

locale obliging_store = item_store +
  assumes write_granted: "fst (write_multiple sv specs vs w) = S_OK"
    and attribute_granted: "fst (set_item_attribute sv spec info w) = S_OK"
    and names_granted: "fst (set_item_names sv is ns w) = S_OK"
    and alloc_granted: "fst (alloc_string sv u w)"

lemma from_values_longs:
  "list_all (\<lambda>v. \<exists>n. v = Long n) vs \<Longrightarrow> from_values sv acc vs w = (Inr (acc @ map variant_of vs), w)"
  by (induction vs arbitrary: acc) (auto simp: variant_new_def variant_of_def)

lemma attributes_new_total:
  "list_all (\<lambda>a. \<exists>x. attribute_new a = Inr x) as \<Longrightarrow> \<exists>xs. attributes_new as = Inr xs"
  by (induction as) auto

lemma drop_longs: "list_all (\<lambda>v. \<exists>n. v = Long n) vs \<Longrightarrow> drop_variants sv (map variant_of vs) w = w"
  by (induction vs arbitrary: w) (auto simp: drop_variants_def drop_variant_def variant_of_def)

lemma prepared_plan:
  assumes c: "flatbed caps a b = Inr c"
    and p: "prepare_catalogs c old_s cur intent ws = Inr ((before, after), ws')"
  shows "\<exists>plan. build_delta_plan sv before after w = (Inr plan, w)
     \<and> drop_variants sv (value_storage plan) v = v"
proof -
  have shape: "flatbed_shape c" using flatbed_typed_initial [OF c] by (simp add: flatbed_typed_def)
  note f = prepared_frame [OF shape p] and small = flatbed_small [OF c]
  have al: "length (initial_values before) = length (ids c)" "length (initial_values after) = length (ids c)"
    "length (attributes before) = length (ids c)" "length (attributes after) = length (ids c)"
    "distinct (ids c)" "length (names c) = length (ids c)"
    using f(1-6) by (auto simp: aligned_def)
  have cmp: "comparable before after = Inr ()"
    using f(1-4) al small(1) by (simp add: comparable_def write_plan_def)
  let ?ks = "changed_indices (initial_values before) (initial_values after)"
  let ?js = "changed_indices (attributes before) (attributes after)"
  have v: "ids after ! k \<in> set DEPENDENT_VALUE_IDS \<and> (\<exists>n. initial_values after ! k = Long n)"
    if "k \<in> set ?ks" for k
  proof -
    have k: "k < length (ids c)" "initial_values before ! k \<noteq> initial_values after ! k"
      using that al by (auto simp: set_changed_indices)
    then have "value_of before (ids c ! k) = Some (initial_values before ! k)"
      "value_of after (ids c ! k) = Some (initial_values after ! k)"
      using catalog_nth(1) [OF f(5), of k] catalog_nth(1) [OF f(6), of k] f(1,3) by simp_all
    with k f(7) [of "ids c ! k"] f(3) show ?thesis by auto
  qed
  have at: "ids after ! k \<in> set DEPENDENT_ATTRIBUTE_IDS \<and> (\<exists>x. attribute_new (attributes after ! k) = Inr x)"
    if "k \<in> set ?js" for k
  proof -
    have k: "k < length (ids c)" "attributes before ! k \<noteq> attributes after ! k"
      using that al by (auto simp: set_changed_indices)
    then have l: "attribute_of before (ids c ! k) = Some (attributes before ! k)"
      "attribute_of after (ids c ! k) = Some (attributes after ! k)"
      using catalog_nth(2) [OF f(5), of k] catalog_nth(2) [OF f(6), of k] f(1,3) by simp_all
    with k f(8) [of "ids c ! k"] have d: "ids c ! k \<in> set DEPENDENT_ATTRIBUTE_IDS" by auto
    with f(9) [OF d] l f(3) small show ?thesis by (auto simp: attribute_new_def rw_list_def)
  qed
  have longs: "list_all (\<lambda>v. \<exists>n. v = Long n) (map ((!) (initial_values after)) ?ks)"
    using v by (auto simp: list_all_iff)
  have "list_all (\<lambda>a. \<exists>x. attribute_new a = Inr x) (map ((!) (attributes after)) ?js)"
    using at by (auto simp: list_all_iff)
  then obtain infos where infos: "attributes_new (map ((!) (attributes after)) ?js) = Inr infos"
    using attributes_new_total by blast
  have nv: "\<not> list_ex (\<lambda>k. ids after ! k \<notin> set DEPENDENT_VALUE_IDS) ?ks"
    "\<not> list_ex (\<lambda>k. ids after ! k \<notin> set DEPENDENT_ATTRIBUTE_IDS) ?js"
    using v at by (auto simp: list_ex_iff)
  show ?thesis
    using cmp nv infos from_values_longs [OF longs, where acc = "[]" and sv = sv and w = w] drop_longs [OF longs]
    by (auto simp: build_delta_plan_def Let_def)
qed

context obliging_store
begin

lemma granted_attributes: "fst (write_attributes sv xs w) = Inr ()"
proof (induction xs arbitrary: w)
  case (Cons x xs)
  obtain spec info where x: "x = (spec, info)" by force
  have "fst (set_item_attribute sv spec info w) = S_OK" by (rule attribute_granted)
  then show ?case using Cons unfolding x by (auto simp: ensure_s_ok_def split: prod.splits)
qed simp

lemma granted_update:
  assumes "build_delta_plan sv before after w = (Inr plan, w1)"
    and "\<And>v. drop_variants sv (value_storage plan) v = v"
  shows "\<exists>w2. update_with sv before after fin w = map_prod finalize_result id (fin w2)
    \<and> update_with sv before after (Pair (Inr ())) w = (Inr (), w2)"
proof -
  have "\<exists>w1'. (if value_specs plan \<noteq> []
             then case write_multiple sv (value_specs plan) (value_storage plan) w1 of
                    (hr, w) \<Rightarrow> (ensure_s_ok hr, w)
             else (Inr (), w1)) = (Inr (), w1')"
    using write_granted [of "value_specs plan" "value_storage plan" w1]
    by (auto simp: ensure_s_ok_def split: prod.splits)
  then obtain w1' where w1': "(if value_specs plan \<noteq> []
             then case write_multiple sv (value_specs plan) (value_storage plan) w1 of
                    (hr, w) \<Rightarrow> (ensure_s_ok hr, w)
             else (Inr (), w1)) = (Inr (), w1')" by blast
  obtain w2 where "write_attributes sv (zip (attribute_specs plan) (attribute_storage plan)) w1' = (Inr (), w2)"
    using granted_attributes by (metis prod.collapse)
  then show ?thesis
    using assms w1' by (intro exI [of _ w2]) (auto simp: update_with_def finalize_result_def split: prod.splits)
qed

end

end
