(* ===== verification/Native_Strings.thy ===== *)
theory Native_Strings
  imports Wia_Native "HOL-Library.Multiset"
begin

unbundle bit_operations_syntax

text \<open>
  The strings that the publication of a catalog allocates: the contract of the allocator as
  the locale \<open>string_heap\<close>, and every call of \<open>Wia_Native\<close> frees exactly what it allocates.
\<close>

section \<open>The contract of the allocator\<close>

text \<open>
  \<open>live\<close> is what the driver owns in a world, the string \<open>u\<close> as \<open>tag u\<close>; \<open>steady\<close> are the
  worlds in which the service may be called, and every call stays in them.
\<close>

definition heap_of :: "('w \<Rightarrow> bool) \<Rightarrow> ('w \<Rightarrow> 'r multiset) \<Rightarrow> 'r multiset \<Rightarrow> 'w \<Rightarrow> bool" where
  "heap_of steady live L w \<longleftrightarrow> steady w \<and> live w = L"

locale string_heap =
  fixes sv :: "'w service" and steady :: "'w \<Rightarrow> bool" and live :: "'w \<Rightarrow> 'r multiset"
    and tag :: "nat list \<Rightarrow> 'r"
  assumes alloc_heap: "heap_of steady live L w \<Longrightarrow> alloc_string sv u w = (b, w') \<Longrightarrow>
      heap_of steady live (if b then L + {#tag u#} else L) w'"
    and free_heap: "heap_of steady live L w \<Longrightarrow> heap_of steady live (L - {#tag u#}) (free_string sv u w)"
    and write_heap: "heap_of steady live L w \<Longrightarrow> write_multiple sv specs vs w = (hr, w') \<Longrightarrow>
      heap_of steady live L w'"
    and attribute_heap: "heap_of steady live L w \<Longrightarrow> set_item_attribute sv spec info w = (hr, w') \<Longrightarrow>
      heap_of steady live L w'"
    and names_heap: "heap_of steady live L w \<Longrightarrow> set_item_names sv is ns w = (hr, w') \<Longrightarrow>
      heap_of steady live L w'"

text \<open>The strings that a list of variants owns.\<close>

fun strings_of :: "prop_variant list \<Rightarrow> nat list multiset" where
  "strings_of [] = {#}"
| "strings_of (v # vs) = (case vdata v of BstrData u \<Rightarrow> {#u#} | _ \<Rightarrow> {#}) + strings_of vs"

lemma strings_of_append [simp]: "strings_of (xs @ ys) = strings_of xs + strings_of ys"
  by (induction xs) (simp_all add: ac_simps)

section \<open>Every call frees what it allocates\<close>

context string_heap
begin

lemma drop_variant_heap:
  assumes "heap_of steady live (L + image_mset tag (strings_of [v])) w"
  shows "heap_of steady live L (drop_variant sv v w)"
proof (cases "vdata v")
  case (BstrData u)
  then show ?thesis using free_heap [OF assms, of u] by (simp add: drop_variant_def)
qed (use assms in \<open>simp_all add: drop_variant_def\<close>)

lemma drop_variants_heap:
  "heap_of steady live (L + image_mset tag (strings_of vs)) w \<Longrightarrow> heap_of steady live L (drop_variants sv vs w)"
proof (induction vs arbitrary: w)
  case (Cons v vs)
  have "heap_of steady live (L + image_mset tag (strings_of vs)) (drop_variant sv v w)"
    using Cons.prems by (intro drop_variant_heap) (simp add: ac_simps)
  then show ?case using Cons.IH by (simp add: drop_variants_def)
qed (simp add: drop_variants_def)

lemma variant_new_heap:
  assumes "heap_of steady live L w" and "variant_new sv v w = (r, w')"
  shows "heap_of steady live (L + (case r of Inr x \<Rightarrow> image_mset tag (strings_of [x]) | Inl _ \<Rightarrow> {#})) w'"
proof (cases "\<exists>s. v = Text s \<and> length (encode_utf16 s) \<le> 2 ^ 32 - 1")
  case True
  then obtain s where s: "v = Text s" "length (encode_utf16 s) \<le> 2 ^ 32 - 1" by blast
  obtain b w1 where b: "alloc_string sv (encode_utf16 s) w = (b, w1)" by fastforce
  show ?thesis using alloc_heap [OF assms(1) b] assms(2) s b by (cases b) (auto simp: variant_new_def)
next
  case False
  then show ?thesis using assms by (cases v) (auto simp: variant_new_def)
qed

lemma from_values_heap:
  assumes "from_values sv acc vs w = (r, w')"
    and "heap_of steady live (L + image_mset tag (strings_of acc)) w"
  shows "heap_of steady live (L + (case r of Inr xs \<Rightarrow> image_mset tag (strings_of xs) | Inl _ \<Rightarrow> {#})) w'"
  using assms
proof (induction vs arbitrary: acc w)
  case (Cons v vs)
  obtain s w1 where v: "variant_new sv v w = (s, w1)" by fastforce
  note h = variant_new_heap [OF Cons.prems(2) v]
  show ?case
  proof (cases s)
    case (Inl er)
    then show ?thesis using Cons.prems(1) v h drop_variants_heap by auto
  next
    case (Inr x)
    then have "heap_of steady live (L + image_mset tag (strings_of (acc @ [x]))) w1" using h by (simp add: ac_simps)
    then show ?thesis using Cons.IH Cons.prems(1) v Inr by simp
  qed
qed auto

lemma write_attributes_heap:
  "heap_of steady live L w \<Longrightarrow> write_attributes sv xs w = (r, w') \<Longrightarrow> heap_of steady live L w'"
proof (induction xs arbitrary: w)
  case (Cons x xs)
  obtain spec info where x: "x = (spec, info)" by fastforce
  obtain hr w1 where a: "set_item_attribute sv spec info w = (hr, w1)" by fastforce
  note h = attribute_heap [OF Cons.prems(1) a]
  show ?case using Cons.prems(2) Cons.IH [OF h] h x a by (auto split: sum.splits)
qed simp

lemma publish_attributes_heap:
  "heap_of steady live L w \<Longrightarrow> publish_attributes sv xs w = (r, w') \<Longrightarrow> heap_of steady live L w'"
proof (induction xs arbitrary: w)
  case (Cons x xs)
  obtain spec at where x: "x = (spec, at)" by fastforce
  show ?case
  proof (cases "attribute_new at")
    case (Inl er)
    then show ?thesis using Cons.prems x by simp
  next
    case (Inr info)
    obtain hr w1 where a: "set_item_attribute sv spec info w = (hr, w1)" by fastforce
    note h = attribute_heap [OF Cons.prems(1) a]
    show ?thesis using Cons.prems(2) Cons.IH [OF h] h x a Inr by (auto split: sum.splits)
  qed
qed simp

lemma publish_with_heap:
  assumes start: "heap_of steady live L w" and run: "publish_with sv c w = (r, w')"
  shows "heap_of steady live L w'"
proof (cases "\<exists>n. write_plan c = Inr n \<and> n \<noteq> 0 \<and> n \<le> 2 ^ 31 - 1")
  case False
  then show ?thesis using start run by (auto simp: publish_with_def split: sum.splits if_splits)
next
  case True
  then obtain n where n: "write_plan c = Inr n" "n \<noteq> 0" "\<not> n > 2 ^ 31 - 1" by auto
  obtain hr w1 where names: "set_item_names sv (ids c) (map wide_name (names c)) w = (hr, w1)" by fastforce
  note h1 = names_heap [OF start names]
  obtain s w2 where v: "from_values sv [] (initial_values c) w1 = (s, w2)" by fastforce
  have h2: "heap_of steady live (L + (case s of Inr xs \<Rightarrow> image_mset tag (strings_of xs) | Inl _ \<Rightarrow> {#})) w2"
    using from_values_heap [OF v, of L] h1 by simp
  show ?thesis
  proof (cases "\<exists>u vs. ensure_s_ok hr = Inr u \<and> s = Inr vs")
    case False
    then show ?thesis using h1 h2 run n names v by (auto simp: publish_with_def split: sum.splits)
  next
    case True
    then obtain u vs where s: "ensure_s_ok hr = Inr u" "s = Inr vs" by blast
    obtain hr' w3 where w3: "write_multiple sv (map from_id (ids c)) vs w2 = (hr', w3)" by fastforce
    note h3 = write_heap [OF h2 w3]
    obtain r' w4 where w4: "(case ensure_s_ok hr' of Inl er \<Rightarrow> (Inl er, w3)
        | Inr _ \<Rightarrow> publish_attributes sv (zip (map from_id (ids c)) (attributes c)) w3) = (r', w4)" by fastforce
    then have "heap_of steady live (L + image_mset tag (strings_of vs)) w4"
      using h3 s(2) publish_attributes_heap by (auto split: sum.splits)
    then have "heap_of steady live L (drop_variants sv vs w4)" by (rule drop_variants_heap)
    then show ?thesis using run n names v s w3 w4 by (simp add: publish_with_def Let_def)
  qed
qed

end

context string_heap
begin

lemma build_delta_plan_heap:
  assumes start: "heap_of steady live L w" and run: "build_delta_plan sv before after w = (r, w')"
  shows "heap_of steady live
    (L + (case r of Inr plan \<Rightarrow> image_mset tag (strings_of (value_storage plan)) | Inl _ \<Rightarrow> {#})) w'"
proof -
  let ?vs = "map (\<lambda>k. initial_values after ! k) (changed_indices (initial_values before) (initial_values after))"
  obtain s w1 where v: "from_values sv [] ?vs w = (s, w1)" by fastforce
  have h: "heap_of steady live (L + (case s of Inr xs \<Rightarrow> image_mset tag (strings_of xs) | Inl _ \<Rightarrow> {#})) w1"
    using from_values_heap [OF v, of L] start by simp
  show ?thesis
    using run start v h drop_variants_heap
    by (auto simp: build_delta_plan_def Let_def split: sum.splits if_splits)
qed

lemma update_with_heap:
  assumes start: "heap_of steady live L w" and run: "update_with sv before after fin w = (r, w')"
    and fin: "\<And>v r v' M. heap_of steady live M v \<Longrightarrow> fin v = (r, v') \<Longrightarrow> heap_of steady live M v'"
  shows "heap_of steady live L w'"
proof -
  obtain b w1 where b: "build_delta_plan sv before after w = (b, w1)" by fastforce
  note h = build_delta_plan_heap [OF start b]
  show ?thesis
  proof (cases b)
    case (Inl er)
    then show ?thesis using run b h by (auto simp: update_with_def)
  next
    case (Inr plan)
    let ?M = "L + image_mset tag (strings_of (value_storage plan))"
    obtain v w2 where v: "(if value_specs plan \<noteq> []
             then case write_multiple sv (value_specs plan) (value_storage plan) w1 of
                    (hr, w) \<Rightarrow> (ensure_s_ok hr, w)
             else (Inr (), w1)) = (v, w2)" by fastforce
    obtain a w3 where a: "(case v of Inl er \<Rightarrow> (Inl er, w2)
             | Inr _ \<Rightarrow> write_attributes sv (zip (attribute_specs plan) (attribute_storage plan)) w2) = (a, w3)"
      by fastforce
    obtain f w4 where f: "(case a of Inl er \<Rightarrow> (Inl er, w3)
             | Inr _ \<Rightarrow> (case fin w3 of (r, w) \<Rightarrow> (finalize_result r, w))) = (f, w4)" by fastforce
    have "heap_of steady live ?M w2"
      using v h Inr write_heap by (auto split: if_splits prod.splits)
    then have "heap_of steady live ?M w3" using a write_attributes_heap by (auto split: sum.splits)
    then have "heap_of steady live ?M w4" using f fin by (auto split: sum.splits prod.splits)
    moreover have "w' = drop_variants sv (value_storage plan) w4"
      using run b Inr v a f by (simp add: update_with_def Let_def)
    ultimately show ?thesis using drop_variants_heap by simp
  qed
qed

lemma write_long_with_heap:
  assumes "heap_of steady live L w" and "write_long_with i v sv w = (r, w')"
  shows "heap_of steady live L w'"
  using assms write_heap by (auto simp: write_long_with_def variant_new_def drop_variant_def split: prod.splits)

text \<open>The whole calls.\<close>

lemma publish_heap:
  "heap_of steady live L w \<Longrightarrow> publish ctx sv c w = (r, w') \<Longrightarrow> heap_of steady live L w'"
  by (auto simp: publish_def intro: publish_with_heap split: if_splits)

lemma write_long_heap:
  "heap_of steady live L w \<Longrightarrow> write_long ctx sv i v w = (r, w') \<Longrightarrow> heap_of steady live L w'"
  by (auto simp: write_long_def intro: write_long_with_heap split: if_splits)

lemma update_heap:
  assumes "heap_of steady live L w" and "update ctx sv before after fin w = (r, w')"
    and "\<And>v r v' M. heap_of steady live M v \<Longrightarrow> fin v = (r, v') \<Longrightarrow> heap_of steady live M v'"
  shows "heap_of steady live L w'"
  using assms(1,2) update_with_heap [OF assms(1) _ assms(3)] by (simp add: update_def split: if_splits)

end

end
