(* ===== verification/Native_Properties.thy ===== *)
theory Native_Properties
  imports Native_Store Native_Strings
begin

unbundle bit_operations_syntax

text \<open>
  The correctness of publication and update: what they store, what they never touch, and that
  they free every string they allocate.
\<close>

section \<open>Publication\<close>

context item_store
begin

lemma publish_attributes_stores:
  assumes "publish_attributes sv (zip (map from_id is) as) w = (Inr (), w')" and "length as = length is"
  shows "stored w' = stored w \<and> described w' = described w ++ map_of (rev (zip is (map info_of as)))"
  using assms(2,1)
proof (induction as "is" arbitrary: w rule: list_induct2)
  case (Cons a as i js)
  then obtain x w1 where x: "attribute_new a = Inr x" and a: "set_item_attribute sv (from_id i) x w = (S_OK, w1)"
    and r: "publish_attributes sv (zip (map from_id js) as) w1 = (Inr (), w')"
    by (auto split: prod.splits sum.splits simp: ensure_s_ok_def split: if_splits)
  then have "info_of a = x" by (simp add: info_of_def)
  with Cons.IH [OF r] attribute_set [OF a] attribute_frame [OF a] show ?case
    by (auto simp: map_add_def fun_eq_iff split: option.splits)
qed simp

lemma publish_with_stores:
  assumes "publish_with sv c w = (Inr (), w')"
  shows "stored w' = stored w ++ map_of (rev (zip (ids c) (map variant_of (initial_values c))))
    \<and> described w' = described w ++ map_of (rev (zip (ids c) (map info_of (attributes c))))"
proof -
  have len: "length (initial_values c) = length (ids c)" "length (attributes c) = length (ids c)"
    using assms by (auto simp: publish_with_def write_plan_def split: sum.splits if_splits)
  then obtain w1 vs w2 w3 w4 where n: "set_item_names sv (ids c) (map wide_name (names c)) w = (S_OK, w1)"
    and v: "from_values sv [] (initial_values c) w1 = (Inr vs, w2)"
    and wr: "write_multiple sv (map from_id (ids c)) vs w2 = (S_OK, w3)"
    and at: "publish_attributes sv (zip (map from_id (ids c)) (attributes c)) w3 = (Inr (), w4)"
    and w': "w' = drop_variants sv vs w4"
    using assms by (auto simp: publish_with_def Let_def ensure_s_ok_def split: sum.splits if_splits prod.splits)
  have vs: "vs = map variant_of (initial_values c)" and "stored w2 = stored w1 \<and> described w2 = described w1"
    using from_values_keeps [OF v] by auto
  with names_frame [OF n] written [OF _ wr] write_frame [OF wr] publish_attributes_stores [OF at] len
  show ?thesis by (simp add: w')
qed

lemma publish_with_agrees:
  assumes "publish_with sv c w = (Inr (), w')" and "aligned c"
  shows "(i \<in> set (ids c) \<longrightarrow> agrees_value (stored w') c i \<and> agrees_info (described w') c i)
    \<and> (i \<notin> set (ids c) \<longrightarrow> stored w' i = stored w i \<and> described w' i = described w i)"
proof -
  have d: "distinct (ids c)" "length (initial_values c) = length (ids c)" "length (attributes c) = length (ids c)"
    using assms(2) by (auto simp: aligned_def)
  have one: "map_of (rev (zip (ids c) (map h xs))) i = map_option h (map_of (zip (ids c) xs) i)"
    if "length xs = length (ids c)" for h :: "'x \<Rightarrow> 'y" and xs
  proof (cases "i \<in> set (ids c)")
    case True
    then obtain k where k: "k < length (ids c)" "ids c ! k = i" by (auto simp: in_set_conv_nth)
    have z: "zip (ids c) (map h xs) = map (\<lambda>k. (ids c ! k, h (xs ! k))) [0..<length (ids c)]"
      using that by (auto intro!: nth_equalityI)
    have "map_of (rev (zip (ids c) (map h xs))) i = Some (h (xs ! k))"
      unfolding z using map_of_indexed [of "(!) (ids c)" "{0..<length (ids c)}" "[0..<length (ids c)]" k
          "\<lambda>k. h (xs ! k)"] k d(1) by (auto simp: inj_on_nth)
    moreover have "map_of (zip (ids c) xs) i = Some (xs ! k)"
      using lookup_at [OF d(1) that k(1)] k(2) by simp
    ultimately show ?thesis by simp
  next
    case False
    then have "i \<notin> dom (map_of (rev (zip (ids c) (map h xs))))" "i \<notin> dom (map_of (zip (ids c) xs))"
      using that by (auto simp: dom_map_of_conv_image_fst dest: set_zip_leftD)
    then show ?thesis by (simp add: domIff)
  qed
  have dom: "i \<in> set (ids c) \<Longrightarrow> \<exists>v a. value_of c i = Some v \<and> attribute_of c i = Some a"
    "i \<notin> set (ids c) \<Longrightarrow> value_of c i = None \<and> attribute_of c i = None"
    using dom_value_of [OF assms(2)] dom_attribute_of [OF assms(2)] by (blast, blast)
  show ?thesis
    using publish_with_stores [OF assms(1)] one [OF d(2), of variant_of] one [OF d(3), of info_of] dom
    by (auto simp: agrees_value_def agrees_info_def value_of_def attribute_of_def map_add_def)
qed

end

section \<open>An item in memory\<close>

text \<open>A service that keeps one item and the strings that are allocated.\<close>

record memory_item =
  mem_values :: stored_values
  mem_infos :: stored_infos
  mem_strings :: "nat list multiset"

definition memory_service :: "memory_item service" where
  "memory_service = \<lparr>
     set_item_names = (\<lambda>_ _ m. (S_OK, m)),
     write_multiple = (\<lambda>specs vs m. (S_OK,
       m\<lparr>mem_values := mem_values m ++ map_of (rev (zip (map (the \<circ> spec_id) specs) vs))\<rparr>)),
     set_item_attribute = (\<lambda>spec info m. (S_OK, m\<lparr>mem_infos := (mem_infos m)(the (spec_id spec) \<mapsto> info)\<rparr>)),
     alloc_string = (\<lambda>u m. (True, m\<lparr>mem_strings := add_mset u (mem_strings m)\<rparr>)),
     free_string = (\<lambda>u m. m\<lparr>mem_strings := mem_strings m - {#u#}\<rparr>)\<rparr>"

interpretation memory: obliging_store memory_service mem_values mem_infos
  by unfold_locales
    (auto simp: memory_service_def comp_def map_add_def split: option.splits dest!: map_of_SomeD dest: set_zip_leftD)

interpretation memory: string_heap memory_service "\<lambda>_. True" mem_strings id
  by unfold_locales (auto simp: memory_service_def heap_of_def)

section \<open>Properties\<close>

lemma prepared_update_runs:
  assumes "obliging_store sv stored described" and "flatbed caps item_name full_item_name = Inr c"
    and "prepare_catalogs c old_s cur intent written = Inr ((before, after), ws)"
  shows "\<exists>v. update True sv before after finalize w = (finalize_result (fst (finalize v)), snd (finalize v))
    \<and> update True sv before after (Pair (Inr ())) w = (Inr (), v)"
proof -
  obtain plan where plan: "build_delta_plan sv before after w = (Inr plan, w)"
      "\<And>v. drop_variants sv (value_storage plan) v = v"
    using prepared_plan [OF assms(2,3), of sv w] by (metis prod.inject sum.inject(2))
  from obliging_store.granted_update [OF assms(1) plan, of finalize] obtain v where
    "update_with sv before after finalize w = map_prod finalize_result id (finalize v)"
    "update_with sv before after (Pair (Inr ())) w = (Inr (), v)" by blast
  then show ?thesis by (intro exI [of _ v]) (simp add: update_def map_prod_def case_prod_unfold)
qed

text \<open>
  Property C34: an update is closed over the dependent properties. Whatever the service and
  the finalizer answer, at whatever point the update fails, the values of all other properties
  and the descriptions of all but the six dependent ones are left as they were, provided that
  a service call touches at most the properties it names.
\<close>

theorem update_touches_only_dependents:
  assumes "item_frame sv stored described" and "keeps_item stored described finalize"
    and "update ctx sv before after finalize w = (r, w')"
  shows "(i \<notin> {4103, 4104, 4109, 4112, 4114, 4116, 6147, 6148, 6149, 6150, 6151, 6152, 6167, 6168} \<longrightarrow>
       stored w' i = stored w i)
    \<and> (i \<notin> {4104, 6148, 6149, 6150, 6151, 6152} \<longrightarrow> described w' i = described w i)"
proof (cases ctx)
  case True
  with item_frame.update_with_frame [OF assms(1) _ assms(2)] assms(3) show ?thesis
    by (simp add: update_def DEPENDENT_VALUE_IDS_def DEPENDENT_ATTRIBUTE_IDS_def)
qed (use assms(3) in \<open>simp add: update_def\<close>)

text \<open>
  Property C30: an update that reports success has brought the item from the first catalog to
  the second. A property on which the item agreed with the catalog before the update, value
  and description, agrees with the catalog after it; where the two catalogs are equal nothing
  is written at all.
\<close>

theorem successful_update_stores_the_catalog:
  assumes "item_store sv stored described" and "keeps_item stored described finalize"
    and "distinct (ids after)" and "update ctx sv before after finalize w = (Inr (), w')"
  shows "(i \<in> set (ids after) \<and> agrees_value (stored w) before i \<longrightarrow> agrees_value (stored w') after i)
    \<and> (i \<in> set (ids after) \<and> agrees_info (described w) before i \<longrightarrow> agrees_info (described w') after i)
    \<and> (value_of before i = value_of after i \<longrightarrow> stored w' i = stored w i)
    \<and> (attribute_of before i = attribute_of after i \<longrightarrow> described w' i = described w i)"
proof -
  have up: "update_with sv before after finalize w = (Inr (), w')"
    using assms(4) by (auto simp: update_def split: if_splits)
  show ?thesis using item_store.update_with_agrees [OF assms(1) up assms(2,3), of i] by blast
qed

text \<open>
  Property C31: the catalogs that the validation prepares are always a legal update. The
  consistency checks of the update pass, every changed attribute has a native form, and no
  string is allocated: when the service grants the writes, the update reaches its finalizer
  and returns what the finalizer decides.
\<close>

theorem prepared_update_reaches_validation:
  assumes "obliging_store sv stored described" and "flatbed caps item_name full_item_name = Inr c"
    and "prepare_catalogs c old_s cur intent written = Inr ((before, after), ws)"
  shows "\<exists>v. update True sv before after finalize w = (finalize_result (fst (finalize v)), snd (finalize v))
    \<and> update True sv before after (Pair (Inr ())) w = (Inr (), v)"
  using assms by (rule prepared_update_runs)

text \<open>
  Property C36: a publication that reports success has stored the whole catalog, the value and
  the description of each of its properties, and nothing else.
\<close>

theorem successful_publication_stores_the_catalog:
  assumes "item_store sv stored described" and "published c"
    and "publish ctx sv c w = (Inr (), w')"
  shows "(i \<in> set (ids c) \<longrightarrow> agrees_value (stored w') c i \<and> agrees_info (described w') c i)
    \<and> (i \<notin> set (ids c) \<longrightarrow> stored w' i = stored w i \<and> described w' i = described w i)"
proof -
  have "publish_with sv c w = (Inr (), w')"
    using assms(3) by (auto simp: publish_def split: if_splits)
  moreover have "aligned c"
    using published_cases [OF assms(2)] by (auto simp: well_typed_def flatbed_typed_def)
  ultimately show ?thesis by (rule item_store.publish_with_agrees [OF assms(1)])
qed

text \<open>
  Property C35: no string leaks. On every path through the publication, the update and the
  write of one value, failures of the allocator, of the service and of the finalizer included,
  exactly the strings that were allocated by the call have been freed when it returns.
\<close>

theorem strings_are_freed:
  assumes "string_heap sv steady live tag" and "steady w"
    and "\<forall>v. steady v \<longrightarrow> steady (snd (finalize v)) \<and> live (snd (finalize v)) = live v"
  shows "live (snd (publish ctx sv c w)) = live w
    \<and> live (snd (update ctx sv before after finalize w)) = live w
    \<and> live (snd (write_long ctx sv propid n w)) = live w"
proof -
  have w: "heap_of steady live (live w) w" using assms(2) by (simp add: heap_of_def)
  have fin: "heap_of steady live M v'" if "heap_of steady live M v" and "finalize v = (r, v')" for v r v' M
    using assms(3) [rule_format, of v] that by (simp add: heap_of_def)
  have "heap_of steady live (live w) (snd (publish ctx sv c w))"
    by (rule string_heap.publish_heap [OF assms(1) w, of ctx c "fst (publish ctx sv c w)"]) simp
  moreover have "heap_of steady live (live w) (snd (write_long ctx sv propid n w))"
    by (rule string_heap.write_long_heap [OF assms(1) w, of ctx propid n "fst (write_long ctx sv propid n w)"]) simp
  moreover have "heap_of steady live (live w) (snd (update ctx sv before after finalize w))"
    by (rule string_heap.update_heap [OF assms(1) w _ fin, of ctx before after finalize
          "fst (update ctx sv before after finalize w)"]) simp_all
  ultimately show ?thesis by (simp add: heap_of_def)
qed

section \<open>Witnesses\<close>

definition empty_item :: memory_item where
  "empty_item = \<lparr>mem_values = Map.empty, mem_infos = Map.empty, mem_strings = {#}\<rparr>"

lemma office_prepared:
  obtains c before after ws where "flatbed office_caps office_item office_full = Inr c"
    and "prepare_catalogs c office_settings office_write None [WIA_IPS_XPOS] = Inr ((before, after), ws)"
proof -
  obtain c c' r where c: "flatbed office_caps office_item office_full = Inr c"
      "with_settings c office_settings = Inr c'" "resolve c office_settings office_write [WIA_IPS_XPOS] = Inr r"
    by (rule office_resolved)
  have shape: "flatbed_shape c" using flatbed_typed_initial [OF c(1)] by (simp add: flatbed_typed_def)
  have sel: "selects c office_settings c'" using with_settings_iff [OF shape] c(2) by blast
  have sub: "fst ` set (setting_values office_write) \<subseteq> set (ids c')"
    using shape unfolding selects_frame [OF sel] flatbed_shape_def
    by (auto simp: setting_values_def selected_ids_def)
  obtain before where "with_service_values c' office_write = Inr before"
    using set_values_result [OF selects_frame(9) [OF sel] sub] by (auto simp: with_service_values_def)
  moreover have "accepts c r" by (rule resolve_Inr [OF shape c(3)])
  then obtain after where "with_settings c r = Inr after" using with_settings_total [OF shape] by blast
  ultimately show ?thesis
    using that c by (simp add: prepare_catalogs_def intent_target_def)
qed

lemma office_prepared_distinct:
  assumes "flatbed office_caps office_item office_full = Inr c"
    and "prepare_catalogs c office_settings office_write None [WIA_IPS_XPOS] = Inr ((before, after), ws)"
  shows "distinct (ids after)" "ids after \<noteq> []"
proof -
  have shape: "flatbed_shape c" using flatbed_typed_initial [OF assms(1)] by (simp add: flatbed_typed_def)
  show "distinct (ids after)" "ids after \<noteq> []"
    using prepared_frame(3,6) [OF shape assms(2)] flatbed_small(1) [OF assms(1)] by (auto simp: aligned_def)
qed

lemma memory_keeps: "keeps_item mem_values mem_infos (Pair (Inr ()))"
  by (simp add: keeps_item_def)

theorem update_touches_only_dependents_witness:
  "\<forall>before after. mem_values (snd (update True memory_service before after (Pair (Inr ())) empty_item))
     WIA_IPA_FORMAT = None"
proof (intro allI)
  fix before after
  show "mem_values (snd (update True memory_service before after (Pair (Inr ())) empty_item)) WIA_IPA_FORMAT = None"
    using update_touches_only_dependents [OF memory.item_frame_axioms memory_keeps prod.collapse [symmetric],
        where ctx = True and i = WIA_IPA_FORMAT]
    by (simp add: empty_item_def WIA_IPA_FORMAT_def)
qed

text \<open>The item that agrees with a catalog.\<close>

definition item_of :: "property_catalog \<Rightarrow> memory_item" where
  "item_of c = \<lparr>mem_values = (\<lambda>i. map_option variant_of (value_of c i)),
     mem_infos = (\<lambda>i. map_option info_of (attribute_of c i)), mem_strings = {#}\<rparr>"

theorem successful_update_stores_the_catalog_witness:
  "\<exists>c before after ws w. prepare_catalogs c office_settings office_write None [WIA_IPS_XPOS] = Inr ((before, after), ws)
     \<and> update True memory_service before after (Pair (Inr ())) (item_of before) = (Inr (), w)
     \<and> (\<forall>i \<in> set (ids after). agrees_value (mem_values w) after i \<and> agrees_info (mem_infos w) after i)"
proof -
  obtain c before after ws where c: "flatbed office_caps office_item office_full = Inr c"
      "prepare_catalogs c office_settings office_write None [WIA_IPS_XPOS] = Inr ((before, after), ws)"
    by (rule office_prepared)
  obtain w where w: "update True memory_service before after (Pair (Inr ())) (item_of before) = (Inr (), w)"
    using prepared_update_runs [OF memory.obliging_store_axioms c, where finalize = "Pair (Inr ())"] by metis
  have "agrees_value (mem_values w) after i \<and> agrees_info (mem_infos w) after i" if "i \<in> set (ids after)" for i
    using successful_update_stores_the_catalog
        [OF memory.item_store_axioms memory_keeps office_prepared_distinct(1) [OF c] w, of i] that
    by (simp add: item_of_def agrees_value_def agrees_info_def)
  with c w show ?thesis by blast
qed

theorem prepared_update_reaches_validation_witness:
  "\<exists>c before after ws v. flatbed office_caps office_item office_full = Inr c
     \<and> prepare_catalogs c office_settings office_write None [WIA_IPS_XPOS] = Inr ((before, after), ws)
     \<and> update True memory_service before after (Pair (Inr ())) empty_item = (Inr (), v)"
proof -
  obtain c before after ws where c: "flatbed office_caps office_item office_full = Inr c"
      "prepare_catalogs c office_settings office_write None [WIA_IPS_XPOS] = Inr ((before, after), ws)"
    by (rule office_prepared)
  from prepared_update_reaches_validation [OF memory.obliging_store_axioms c, where finalize = "Pair (Inr ())"] c
  show ?thesis by metis
qed

theorem successful_publication_stores_the_catalog_witness:
  "\<exists>c w. published c \<and> publish True memory_service c empty_item = (Inr (), w)
     \<and> agrees_value (mem_values w) c WIA_DPS_DOCUMENT_HANDLING_STATUS"
proof -
  obtain c where c: "root office_caps 0 = Inr c"
    by (simp add: root_def validate_capabilities_def office_caps_def)
  have "\<exists>w. publish True memory_service c empty_item = (Inr (), w)"
  proof -
    have "c = push_all_props (root_entries 0) (empty_catalog Root)" using c by (auto simp: root_def result_simps)
    then show ?thesis
      by (simp add: publish_def publish_with_def write_plan_def push_all_props_fields root_entries_def
          empty_catalog_def memory_service_def variant_new_def ensure_s_ok_def attribute_new_def Let_def)
  qed
  then obtain w where w: "publish True memory_service c empty_item = (Inr (), w)" by blast
  have "WIA_DPS_DOCUMENT_HANDLING_STATUS \<in> set (ids c)"
    using c by (auto simp: root_def result_simps push_all_props_fields root_entries_def)
  then show ?thesis
    using published_root [OF c] w
      successful_publication_stores_the_catalog [OF memory.item_store_axioms published_root [OF c] w]
    by blast
qed

theorem strings_are_freed_witness:
  "\<forall>c. mem_strings (snd (publish True memory_service c empty_item)) = {#}"
  using strings_are_freed [OF memory.string_heap_axioms, where finalize = "Pair (Inr ())"]
  by (simp add: empty_item_def)

end
