(* ===== verification/Item_Contract.thy ===== *)
theory Item_Contract
  imports Item_Entries Minidriver_Properties Native_Properties
begin

unbundle bit_operations_syntax

text \<open>
  The property entries against the contract of the service library: the locale \<open>item_calls\<close>,
  the reads of the item as computations that leave it alone, and what a call of the driver
  leaves of its connection and of the item.
\<close>

section \<open>The contract of the service library\<close>

text \<open>
  A computation that runs while the driver is busy, gives back what it takes and leaves the
  item alone.
\<close>

definition reading :: "('w \<Rightarrow> reference multiset) \<Rightarrow> ('w \<Rightarrow> 'i) \<Rightarrow> ('w driver \<Rightarrow> 'r \<times> 'w driver) \<Rightarrow> bool" where
  "reading refs item f \<longleftrightarrow> neutral refs f \<and> keeps item f"

definition owned_string :: "nat list option \<Rightarrow> reference multiset" where
  "owned_string raw = (case raw of None \<Rightarrow> {#} | Some u \<Rightarrow> {#StringRef u#})"

locale item_calls = windows_item win refs item
  for win :: "'w driver windows" and refs and item :: "'w \<Rightarrow> 'i" +
  fixes sv :: "'w driver service" and rd :: "'w driver item_reader"
  assumes type_call: "reading refs item (get_item_type rd)"
    and long_call: "reading refs item (read_prop_long rd i)"
    and guid_call: "reading refs item (read_prop_guid rd i)"
    and validate_call: "reading refs item (validate_item_properties rd specs)"
    and str_call: "life s = Busy \<Longrightarrow> read_prop_str rd i s = ((hr, raw), s') \<Longrightarrow>
      settled refs (refs (mini_world s) + owned_string raw) s s'
      \<and> item (mini_world s') = item (mini_world s)"
    and free_call': "life s = Busy \<Longrightarrow>
      settled refs (refs (mini_world s) - {#StringRef u#}) s (free_read_str rd u s)
      \<and> item (mini_world (free_read_str rd u s)) = item (mini_world s)"
    and service_heap: "string_heap sv (\<lambda>s. life s = Busy \<and> active s = a) (\<lambda>s. refs (mini_world s)) StringRef"

lemma readingD:
  assumes "reading refs item f" and "life s = Busy" and "f s = (r, s')"
  shows "settled refs (refs (mini_world s)) s s' \<and> item (mini_world s') = item (mini_world s) \<and> life s' = Busy"
  using assms neutralD [of refs f s r s'] keepsD [of item f s r s'] by (simp add: reading_def settled_def)

lemma readingI:
  assumes "\<And>s r s'. life s = Busy \<Longrightarrow> f s = (r, s') \<Longrightarrow>
    settled refs (refs (mini_world s)) s s' \<and> item (mini_world s') = item (mini_world s)"
  shows "reading refs item f"
  using assms unfolding reading_def neutral_def keeps_def by (metis prod.collapse)

lemma reading_pure: "reading refs item (pure_hr r)"
  by (rule readingI) (simp add: pure_hr_def settled_def)

lemma reading_bind:
  assumes "reading refs item m" and "\<And>x. reading refs item (f x)"
  shows "reading refs item (bind_hr m f)"
proof (rule readingI)
  fix s r s' assume busy: "life s = Busy" and run: "bind_hr m f s = (r, s')"
  obtain x v where m: "m s = (x, v)" by fastforce
  note h = readingD [OF assms(1) busy m]
  show "settled refs (refs (mini_world s)) s s' \<and> item (mini_world s') = item (mini_world s)"
  proof (cases x)
    case (Inl er)
    then show ?thesis using run m h by (simp add: bind_hr_def)
  next
    case (Inr y)
    then have "f y v = (r, s')" using run m by (simp add: bind_hr_def)
    moreover have "life v = Busy" using h by blast
    ultimately show ?thesis using readingD [OF assms(2), of v] h by (simp add: settled_def)
  qed
qed

lemma reading_post:
  assumes "reading refs item f"
  shows "reading refs item (\<lambda>s. case f s of (r, s) \<Rightarrow> (g r, s))"
proof (rule readingI)
  fix s r s' assume "life s = Busy" and "(case f s of (r, s) \<Rightarrow> (g r, s)) = (r, s')"
  with readingD [OF assms, of s "fst (f s)" s'] show
    "settled refs (refs (mini_world s)) s s' \<and> item (mini_world s') = item (mini_world s)"
    by (cases "f s") simp
qed

text \<open>The hints by which the reads of the item are found to be such computations.\<close>

lemmas reading_steps = reading_pure reading_bind reading_post

context item_calls
begin

lemma item_type_reading: "reading refs item (read_item_type rd)" "reading refs item (helper_item_type rd)"
proof -
  show r: "reading refs item (read_item_type rd)"
    using reading_post [OF type_call, of "\<lambda>(hr, t). if hr \<noteq> S_OK then Inl hr else Inr t"]
    by (simp add: read_item_type_def [abs_def] case_prod_unfold cong: if_cong)
  show "reading refs item (helper_item_type rd)"
    unfolding helper_item_type_def [abs_def] by (rule reading_post [OF r])
qed

lemma long_reading: "reading refs item (read_long rd i)" "reading refs item (read_intent rd)"
  using reading_post [OF long_call, of "\<lambda>(hr, v, _). if hr \<noteq> S_OK then Inl hr else Inr v"]
    reading_post [OF long_call, of "\<lambda>(hr, v, _). if hr \<noteq> S_OK then Inl (helper_failure hr) else Inr v"]
  by (simp_all add: read_long_def [abs_def] read_intent_def [abs_def] case_prod_unfold)

lemma guid_reading: "reading refs item (read_guid rd i)"
  using reading_post [OF guid_call, of "\<lambda>(hr, v, _). if hr \<noteq> S_OK then Inl hr else Inr v"]
  by (simp add: read_guid_def [abs_def] case_prod_unfold)

lemma string_reading:
  "reading refs item (\<lambda>s. case read_prop_str rd i s of ((hr, raw), s) \<Rightarrow>
     (g hr raw, case raw of None \<Rightarrow> s | Some u \<Rightarrow> free_read_str rd u s))"
proof (rule readingI)
  fix s r s'
  assume busy: "life s = Busy" and run: "(case read_prop_str rd i s of ((hr, raw), s) \<Rightarrow>
     (g hr raw, case raw of None \<Rightarrow> s | Some u \<Rightarrow> free_read_str rd u s)) = (r, s')"
  obtain hr raw v where c: "read_prop_str rd i s = ((hr, raw), v)" by (metis prod.collapse)
  note h = str_call [OF busy c]
  then have "life v = Busy" by (simp add: settled_def)
  note f = free_call' [OF this]
  show "settled refs (refs (mini_world s)) s s' \<and> item (mini_world s') = item (mini_world s)"
    using run c h f by (cases raw) (auto simp: owned_string_def settled_def)
qed

lemma names_reading: "reading refs item (read_name (read_str rd) i)" "reading refs item (read_item_names rd)"
  unfolding read_item_names_def read_name_def read_str_def [abs_def] read_service_string_def [abs_def]
  by (intro reading_steps string_reading)+

lemma catalog_reading: "reading refs item (item_catalog rd caps)"
  unfolding item_catalog_def
  by (auto simp: split_beta intro!: reading_steps item_type_reading names_reading)

lemma values_reading: "reading refs item (read_values rd)"
  unfolding read_values_def Let_def
  by (auto intro!: reading_steps item_type_reading names_reading long_reading guid_reading)

end

context item_calls
begin

lemma long_pairs_reading: "reading refs item (read_long_pairs rd written is)"
proof (induction "is")
  case (Cons i "is")
  let ?read = "\<lambda>s. case read_prop_long rd i s of ((hr, v, before), s) \<Rightarrow>
    (if hr \<noteq> S_OK then Inl (helper_failure hr) else Inr (v, before), s)"
  have "read_long_pairs rd written (i # is) = bind_hr ?read (\<lambda>(v, before).
      bind_hr (read_long_pairs rd written is) (\<lambda>ps.
        pure_hr (Inr ((if i \<in> set written then before else v, v) # ps))))"
    by (rule ext) (simp add: bind_hr_def split: prod.splits)
  moreover have "reading refs item ?read"
    using reading_post [OF long_call, of "\<lambda>(hr, v, before). if hr \<noteq> S_OK then Inl (helper_failure hr)
      else Inr (v, before)"] by (simp add: case_prod_unfold)
  ultimately show ?case using Cons by (simp add: split_beta reading_bind reading_pure)
qed (simp add: reading_pure)

lemma settings_pair_reading: "reading refs item (read_settings_pair rd written)"
proof -
  have "reading refs item (\<lambda>s. case read_prop_guid rd WIA_IPA_FORMAT s of ((hr, v, before), s) \<Rightarrow>
      (if hr \<noteq> S_OK then Inl (helper_failure hr)
       else Inr (if WIA_IPA_FORMAT \<in> set written then before else v, v), s))"
    using reading_post [OF guid_call, of "\<lambda>(hr, v, before). if hr \<noteq> S_OK then Inl (helper_failure hr)
      else Inr (if WIA_IPA_FORMAT \<in> set written then before else v, v)"] by (simp add: case_prod_unfold)
  then show ?thesis
    unfolding read_settings_pair_def
    by (auto simp: split_beta intro!: reading_bind reading_pure long_pairs_reading)
qed

lemma specs_reading: "reading refs item (validate_specs rd specs)"
proof -
  have "reading refs item (\<lambda>s. case validate_item_properties rd specs s of (hr, s) \<Rightarrow>
      (if hr = S_OK then Inr () else Inl (helper_failure hr), s))"
    by (rule reading_post [OF validate_call])
  then show ?thesis
    by (cases "specs = []") (simp_all add: validate_specs_def [abs_def] reading_pure [unfolded pure_hr_def])
qed

lemma plan_reading: "reading refs item (validation_plan rd requested caps)"
  unfolding validation_plan_def
  by (auto simp: split_beta intro!: reading_bind reading_pure catalog_reading specs_reading
      settings_pair_reading long_reading)

lemma reading_neutral: "reading refs item f \<Longrightarrow> neutral refs f"
  by (simp add: reading_def)

end

text \<open>Neutral computations as computations that keep the heap of the service.\<close>

lemma neutral_heap:
  "neutral refs f \<longleftrightarrow> (\<forall>a L s r s'. heap_of (\<lambda>s. life s = Busy \<and> active s = a) (\<lambda>s. refs (mini_world s)) L s
     \<longrightarrow> f s = (r, s') \<longrightarrow> heap_of (\<lambda>s. life s = Busy \<and> active s = a) (\<lambda>s. refs (mini_world s)) L s')"
proof -
  have "neutral refs f \<longleftrightarrow> (\<forall>s r s'. life s = Busy \<longrightarrow> f s = (r, s') \<longrightarrow> settled refs (refs (mini_world s)) s s')"
    unfolding neutral_def by (metis prod.collapse snd_conv)
  then show ?thesis by (auto simp: heap_of_def settled_def)
qed

lemma neutral_guarded:
  assumes "neutral refs plan" and "\<And>p. neutral refs (act p)"
  shows "neutral refs (guarded plan act)"
  unfolding neutral_def
proof (intro allI impI)
  fix s :: "'a driver" assume busy: "life s = Busy"
  obtain r v where p: "plan s = (r, v)" by fastforce
  note h = neutralD [OF assms(1) busy p]
  show "settled refs (refs (mini_world s)) s (snd (guarded plan act s))"
  proof (cases r)
    case (Inr x)
    obtain r' v' where a: "act x v = (r', v')" by fastforce
    have "life v = Busy" using h by (simp add: settled_def)
    from neutralD [OF assms(2) this a] show ?thesis using h p a Inr by (simp add: guarded_def settled_def)
  qed (use h p in \<open>simp add: guarded_def\<close>)
qed

context item_calls
begin

lemma service_neutral: "neutral refs (publish ctx sv c)" "neutral refs (write_long ctx sv i v)"
  unfolding neutral_heap
  using string_heap.publish_heap [OF service_heap] string_heap.write_long_heap [OF service_heap] by blast+

lemma update_neutral:
  assumes "neutral refs fin"
  shows "neutral refs (update ctx sv before after fin)"
  unfolding neutral_heap
proof (intro allI impI)
  fix a L s r s'
  assume "heap_of (\<lambda>s. life s = Busy \<and> active s = a) (\<lambda>s. refs (mini_world s)) L s"
    and "update ctx sv before after fin s = (r, s')"
  then show "heap_of (\<lambda>s. life s = Busy \<and> active s = a) (\<lambda>s. refs (mini_world s)) L s'"
    by (rule string_heap.update_heap [OF service_heap]) (use assms in \<open>unfold neutral_heap, blast\<close>)
qed

lemma publishers_neutral:
  "neutral refs (init_publish sv rd caps)"
  "neutral refs (validate_publish sv rd requested caps)"
  "neutral refs (refresh_publish sv rd caps)"
proof -
  show "neutral refs (init_publish sv rd caps)"
    unfolding init_publish_def
    by (intro neutral_guarded reading_neutral catalog_reading service_neutral)
  show "neutral refs (validate_publish sv rd requested caps)"
    unfolding neutral_def
  proof (intro allI impI)
    fix s :: "'w driver" assume busy: "life s = Busy"
    obtain r v where p: "validation_plan rd requested caps s = (r, v)" by fastforce
    note h = neutralD [OF reading_neutral [OF plan_reading] busy p]
    have v: "life v = Busy" using h by (simp add: settled_def)
    have u: "settled refs (refs (mini_world v)) v v'"
      if "update True sv b a (validate_specs rd specs) v = (x, v')" for a b specs x v'
      using neutralD [OF update_neutral [OF reading_neutral [OF specs_reading]] v that] .
    show "settled refs (refs (mini_world s)) s (snd (validate_publish sv rd requested caps s))"
      using p h u by (auto simp: validate_publish_def settled_def split: sum.splits option.splits prod.splits)
  qed
  show "neutral refs (refresh_publish sv rd caps)"
    unfolding neutral_def
  proof (intro allI impI)
    fix s :: "'w driver" assume busy: "life s = Busy"
    obtain r v where p: "helper_item_type rd s = (r, v)" by fastforce
    note h = neutralD [OF reading_neutral [OF item_type_reading(2)] busy p]
    have v: "life v = Busy" using h by (simp add: settled_def)
    have u: "settled refs (refs (mini_world v)) v v'"
      if "write_long True sv i n v = (x, v')" for i n x v'
      using neutralD [OF service_neutral(2) v that] .
    show "settled refs (refs (mini_world s)) s (snd (refresh_publish sv rd caps s))"
      using p h u by (auto simp: refresh_publish_def settled_def split: sum.splits prod.splits)
  qed
qed

text \<open>What fails without having asked for quarantine has not touched the item.\<close>

lemma publishers_undone:
  assumes "life s = Busy"
  shows "init_publish sv rd caps s = ((Returned (Inl er), False), s') \<Longrightarrow> item (mini_world s') = item (mini_world s)"
    and "validate_publish sv rd requested caps s = ((Returned (Inl er), False), s') \<Longrightarrow>
      item (mini_world s') = item (mini_world s)"
    and "refresh_publish sv rd caps s = ((Returned (Inl er), False), s') \<Longrightarrow>
      item (mini_world s') = item (mini_world s)"
  using readingD [OF catalog_reading assms] readingD [OF plan_reading assms]
    readingD [OF item_type_reading(2) assms]
  by (auto simp: init_publish_def guarded_def validate_publish_def refresh_publish_def
      split: prod.splits sum.splits option.splits if_splits)

end

section \<open>The entries\<close>

text \<open>
  \<open>survives\<close> says what a call of the driver that begins with the connection \<open>c\<close> leaves: the
  connection and, unless it succeeded, the item as it was; or a failed driver that owns nothing.
  Never a half written item behind a connection that works.
\<close>

definition survives ::
    "('w \<Rightarrow> reference multiset) \<Rightarrow> ('w \<Rightarrow> 'i) \<Rightarrow> reference multiset \<Rightarrow> item_connection \<Rightarrow> 'w driver \<Rightarrow>
     bool \<Rightarrow> 'w driver \<Rightarrow> bool" where
  "survives refs item R c d good d' \<longleftrightarrow>
     (life d' = Connected c \<and> refs (mini_world d') = R + connection_refs c
        \<and> (\<not> good \<longrightarrow> item (mini_world d') = item (mini_world d))
      \<or> life d' = Failed \<and> refs (mini_world d') = R \<and> \<not> good)
     \<and> active d' = active d"

lemma survives_unchanged: "at_rest refs R a d \<Longrightarrow> life d = Connected c \<Longrightarrow> survives refs item R c d good d"
  by (simp add: survives_def at_rest_def owned_def)

context item_calls
begin

lemma publication_survives:
  assumes rest: "at_rest refs R a d" and c: "life d = Connected c" and q: "reading refs item query"
    and p: "\<And>caps. neutral refs (pub caps)"
    and undone: "\<And>caps s er s'. life s = Busy \<Longrightarrow> pub caps s = ((Returned (Inl er), False), s') \<Longrightarrow>
      item (mini_world s') = item (mini_world s)"
    and run: "with_live_capabilities_guarded win query pub d = (r, d')"
  shows "survives refs item R c d (\<not> isl r) d'"
proof -
  have q': "neutral refs query" "keeps item query" using q by (simp_all add: reading_def)
  have stable: "at_rest refs R a d'" using live_guarded_stable [where publish = pub, OF rest q'(1) p] run by simp
  have alive: "life d' = Connected c \<or> life d' = Failed"
    by (rule live_guarded_survival(1) [OF rest c q' _ _ run]) (fact p, erule (1) undone)
  show ?thesis
  proof (cases r)
    case (Inl er)
    have "item (mini_world d') = item (mini_world d)" if "life d' = Connected c"
      by (rule live_guarded_survival(3) [OF rest c q' _ _ run Inl that]) (fact p, erule (1) undone)
    then show ?thesis using alive Inl stable rest by (auto simp: survives_def at_rest_def owned_def)
  next
    case (Inr x)
    have "life d' = Connected c"
      by (rule conjunct1 [OF live_guarded_survival(2) [OF rest c q' _ _ run Inr]]) (fact p, erule (1) undone)
    then show ?thesis using Inr stable rest by (auto simp: survives_def at_rest_def owned_def)
  qed
qed

text \<open>A call of the driver under the checks of an entry; the error code of a failure is not \<open>S_OK\<close>.\<close>

lemma entry_survives:
  assumes "at_rest refs R a d" and "life d = Connected c"
    and "\<And>r d'. run d = (r, d') \<Longrightarrow> survives refs item R c d (\<not> isl r) d'"
    and "item_entry valid run has_error d = ((hr, er), d')"
  shows "\<exists>good. survives refs item R c d good d' \<and> (good \<longrightarrow> hr = S_OK)"
proof -
  obtain r d1 where r: "run d = (r, d1)" by fastforce
  show ?thesis
    using assms(3) [OF r] assms(4) r survives_unchanged [OF assms(1,2), of item False]
    by (cases r) (auto simp: item_entry_def report_def split: if_splits)
qed

lemma publications_survive:
  assumes "at_rest refs R a d" and "life d = Connected c" and "reading refs item query"
  shows "with_live_capabilities_guarded win query (init_publish sv rd) d = (r, d') \<Longrightarrow>
      survives refs item R c d (\<not> isl r) d'"
    and "with_live_capabilities_guarded win query (validate_publish sv rd requested) d = (r, d') \<Longrightarrow>
      survives refs item R c d (\<not> isl r) d'"
    and "with_live_capabilities_guarded win query (refresh_publish sv rd) d = (r, d') \<Longrightarrow>
      survives refs item R c d (\<not> isl r) d'"
  by (rule publication_survives [OF assms]; (rule publishers_neutral | erule (1) publishers_undone | assumption))+

lemma checked_survives:
  assumes "at_rest refs R a d" and "life d = Connected c"
    and "\<And>x r d'. k x d = (r, d') \<Longrightarrow> survives refs item R c d (\<not> isl r) d'"
    and "bind_hr (pure_hr check) k d = (r, d')"
  shows "survives refs item R c d (\<not> isl r) d'"
  using assms survives_unchanged [OF assms(1,2), of item]
  by (cases check) (auto simp: bind_hr_def pure_hr_def)

lemma glance_survives:
  assumes "at_rest refs R a d" and "life d = Connected c"
    and "(case borrow_take d of (Inl hr, d) \<Rightarrow> (Inl hr, d) | (Inr b, d) \<Rightarrow> (Inr (), borrow_drop win False b d)) = (r, d')"
  shows "survives refs item R c d (\<not> isl r) d'"
  using assms by (auto simp: borrow_take_def borrow_drop_def survives_def at_rest_def owned_def)

end

end
