(* ===== verification/Entry_Properties.thy ===== *)
theory Entry_Properties
  imports Item_Contract
begin

unbundle bit_operations_syntax

text \<open>
  The correctness of the property entries: a failed entry leaves the item, and an accepted write
  leaves settings that the scanner accepts. The item in memory is an instance of the contract.
\<close>

section \<open>Properties\<close>

lemma entries_survive:
  assumes calls: "item_calls win refs item sv rd" and rest: "at_rest refs R a d" and c: "life d = Connected c"
    and q: "reading refs item query"
  shows "init_entry win sv rd query this ctx fl has_error d = ((hr, er), d') \<Longrightarrow>
      \<exists>good. survives refs item R c d good d' \<and> (good \<longrightarrow> hr = S_OK)"
    and "validate_entry win sv rd query this ctx fl n specs has_error d = ((hr, er), d') \<Longrightarrow>
      \<exists>good. survives refs item R c d good d' \<and> (good \<longrightarrow> hr = S_OK)"
    and "read_properties_entry win sv rd query this ctx fl n specs has_error d = ((hr, er), d') \<Longrightarrow>
      \<exists>good. survives refs item R c d good d' \<and> (good \<longrightarrow> hr = S_OK)"
proof -
  note publications = item_calls.publications_survive [OF calls rest c q]
  note entry = item_calls.entry_survives [OF calls rest c]
    and checked = item_calls.checked_survives [OF calls rest c]
    and glance = item_calls.glance_survives [OF calls rest c]
  show "\<exists>good. survives refs item R c d good d' \<and> (good \<longrightarrow> hr = S_OK)"
    if "init_entry win sv rd query this ctx fl has_error d = ((hr, er), d')"
    by (rule entry [OF _ that [unfolded init_entry_def]]) (erule publications(1))
  show "\<exists>good. survives refs item R c d good d' \<and> (good \<longrightarrow> hr = S_OK)"
    if "validate_entry win sv rd query this ctx fl n specs has_error d = ((hr, er), d')"
    by (rule entry [OF _ that [unfolded validate_entry_def]], erule checked [rotated]) (erule publications(2))
  show "\<exists>good. survives refs item R c d good d' \<and> (good \<longrightarrow> hr = S_OK)"
    if "read_properties_entry win sv rd query this ctx fl n specs has_error d = ((hr, er), d')"
    by (rule entry [OF _ that [unfolded read_properties_entry_def]], erule checked [rotated])
      (auto split: if_splits intro: publications(3) glance)
qed

text \<open>
  Property C12: a failed entry never leaves a half written item behind a working connection.
  After the initialization, the validation of a write or the refresh of a status, with any
  arguments and any answers of Windows and of the service library, either the connection is the
  one before and owns what it owned, and the item is as it was unless the entry answered
  \<open>S_OK\<close>; or the driver has failed, has released everything it owned, and answers
  \<open>E_UNEXPECTED\<close> from then on.
\<close>

theorem failed_entries_leave_the_item:
  assumes "item_calls win refs item sv rd" and "life d = Connected c" and "active d = a"
    and "refs (mini_world d) = R + connection_refs c" and "reading refs item query"
    and "((hr, er), d') \<in> {init_entry win sv rd query this ctx fl has_error d,
       validate_entry win sv rd query this ctx fl n specs has_error d,
       read_properties_entry win sv rd query this ctx fl n specs has_error d}"
  shows "active d' = a
    \<and> (life d' = Connected c \<and> refs (mini_world d') = R + connection_refs c
         \<and> (hr \<noteq> S_OK \<longrightarrow> item (mini_world d') = item (mini_world d))
       \<or> life d' = Failed \<and> refs (mini_world d') = R \<and> disconnect_client win d' = (E_UNEXPECTED, d'))"
proof -
  have rest: "at_rest refs R a d" using assms(2-4) by (simp add: at_rest_def owned_def)
  have "\<exists>good. survives refs item R c d good d' \<and> (good \<longrightarrow> hr = S_OK)"
    using assms(6) entries_survive [OF assms(1) rest assms(2,5)] by (metis insertE singletonD)
  then show ?thesis using assms(3) by (auto simp: survives_def failed_refused)
qed

lemma flatbed_uncompressed:
  assumes "flatbed caps a b = Inr c"
  shows "bit (compression_mask caps) 0"
proof -
  have "compression_mask caps AND 1 \<noteq> 0"
    using assms by (auto simp: flatbed_def result_simps Let_def split: if_splits)
  then show ?thesis by (simp add: bit_iff_and_push_bit_not_eq_0)
qed

lemma accepted_can_be_scanned:
  assumes c: "flatbed caps a b = Inr c" and s: "accepts c s"
  shows "\<exists>r bytes. to_request s = Inr r \<and> command r caps = Inr bytes"
proof -
  note f = flatbed_fields(2-5) [OF c] flatbed_uncompressed [OF c]
  obtain r where r: "to_request s = Inr r" using s by (auto simp: accepts_def)
  have e: "(data_type s, depth s, mode r) \<in> {(2, 8, Gray), (3, 24, Rgb)}" "int (unat (dpi r)) = x_resolution s"
    "x_resolution s \<in> {75, 100, 150, 200, 300, 600}"
    using r by (simp_all only: request_iff)
  have "x_resolution s \<in> uint ` set (resolutions caps)"
    using s by (auto simp: accepts_def f(1) flatbed_resolutions_def)
  then have "dpi r \<in> set (resolutions caps)" using e(2) by (auto simp flip: word_uint_eq_iff)
  moreover have "data_type s \<in> set (flatbed_data_types caps)" using s by (simp add: accepts_def f(2))
  then have "bit (mode_mask caps) (mode_code (mode r)) \<and> (mode r = Rgb \<longrightarrow> unat (line_order caps) \<le> 1)"
    using e(1) by (auto simp: flatbed_data_types_def WIA_DATA_GRAYSCALE_def WIA_DATA_COLOR_def word_le_nat_alt bit_iff_and_push_bit_not_eq_0 split: if_splits)
  moreover have "x_position s * 1200 + x_extent s * 1200 \<le> uint (cap_width_units caps) * x_resolution s"
    using s pixels_at_units [of "x_resolution s" "cat_width c"] e(3) by (auto simp: accepts_def f(3))
  moreover have "y_position s * 1200 + y_extent s * 1200
      \<le> uint (min (flatbed_length_units caps) (cap_length_units caps)) * x_resolution s"
    using s pixels_at_units [of "x_resolution s" "cat_height c"] e(3) by (auto simp: accepts_def f(4) flatbed_units_def)
  moreover have "uint (min u v) = min (uint u) (uint v)" for u v :: u32
    by (simp add: min_def word_le_def)
  ultimately show ?thesis
    using reaches_scanner [OF r, of caps] r f(5) by simp
qed

section \<open>An accepted write\<close>

text \<open>
  The service library as the store of the item, in the state of the driver: a read of a long
  value answers the stored one, and validating the other properties changes nothing.
\<close>

locale stored_item = item_calls win refs "\<lambda>w. (stored w, described w)" sv rd
  for win :: "'w driver windows" and refs and stored :: "'w \<Rightarrow> stored_values"
    and described :: "'w \<Rightarrow> stored_infos" and sv :: "'w driver service" and rd :: "'w driver item_reader" +
  assumes store: "item_store sv (\<lambda>d. stored (mini_world d)) (\<lambda>d. described (mini_world d))"
    and long_stored: "life s = Busy \<Longrightarrow> read_prop_long rd i s = ((S_OK, v, before), s') \<Longrightarrow>
      stored (mini_world s) i = Some (variant_of (Long v))"
    and validate_keeps: "keeps_item (\<lambda>d. stored (mini_world d)) (\<lambda>d. described (mini_world d))
      (validate_item_properties rd specs)"

lemma canonical_loop_nonempty: "canonical_loop c acc rs = Inr xs \<Longrightarrow> acc \<noteq> [] \<or> rs \<noteq> [] \<Longrightarrow> xs \<noteq> []"
proof (induction c acc rs rule: canonical_loop.induct)
  case (2 c acc r rs)
  then show ?case by (cases acc) (auto split: option.splits if_splits)
qed simp

lemma bind_hr_Inr:
  "bind_hr m f s = (Inr y, s') \<longleftrightarrow> (\<exists>x v. m s = (Inr x, v) \<and> f x v = (Inr y, s'))"
  by (auto simp: bind_hr_def split: prod.splits sum.splits)

lemma pure_hr_Inr: "pure_hr r s = (Inr y, s') \<longleftrightarrow> r = Inr y \<and> s' = s"
  by (auto simp: pure_hr_def)

lemmas hr_steps = bind_hr_Inr pure_hr_Inr

context stored_item
begin

lemma long_pairs_stored:
  assumes "life s = Busy" and "read_long_pairs rd written is s = (Inr ps, s')"
  shows "list_all2 (\<lambda>i v. stored (mini_world s) i = Some (variant_of (Long v))) is (map snd ps)"
  using assms
proof (induction "is" arbitrary: ps s)
  case (Cons i "is")
  obtain hr v before s1 where r: "read_prop_long rd i s = ((hr, v, before), s1)" by (metis prod.collapse)
  then have ok: "hr = S_OK" using Cons.prems(2) by (auto split: if_splits)
  obtain ps' where ps: "read_long_pairs rd written is s1 = (Inr ps', s')" "map snd ps = v # map snd ps'"
    using Cons.prems(2) r ok by (auto simp: hr_steps)
  have s1: "life s1 = Busy" "stored (mini_world s1) = stored (mini_world s)"
    using readingD [OF long_call Cons.prems(1) r] by simp_all
  show ?case
    using Cons.IH [OF s1(1) ps(1)] long_stored [OF Cons.prems(1) r [unfolded ok]] s1(2) ps(2) by simp
qed (simp add: pure_hr_def)

lemma settings_pair_stored:
  assumes "life s = Busy" and "read_settings_pair rd written s = (Inr (old_s, cur), s')"
  shows "\<forall>(i, n) \<in> set (setting_values cur). stored (mini_world s) i = Some (variant_of (Long n))"
proof -
  have "\<exists>ps s1 g. read_long_pairs rd written SETTING_LONGS s = (Inr ps, s1) \<and> cur = settings_of (map snd ps) g"
    using assms(2) unfolding read_settings_pair_def
    by (simp only: hr_steps split_paired_Ex prod.case sum.inject prod.inject) blast
  then obtain ps s1 g where ps: "read_long_pairs rd written SETTING_LONGS s = (Inr ps, s1)"
    and cur: "cur = settings_of (map snd ps) g" by blast
  from long_pairs_stored [OF assms(1) ps] cur show ?thesis
    by (auto simp: SETTING_LONGS_def list_all2_Cons1 settings_of_def setting_values_def)
qed

end

lemma prepared_settings:
  assumes shape: "flatbed_shape c" and p: "prepare_catalogs c old_s cur intent ws = Inr ((before, after), ws')"
  obtains s target where "intent_target cur intent ws = Inr (target, ws')" and "resolve c old_s target ws' = Inr s"
    and "accepts c s" and "distinct (ids after)" and "set selected_ids \<subseteq> set (ids after)"
    and "\<forall>(i, n) \<in> set (setting_values cur). value_of before i = Some (Long n)"
    and "\<forall>(i, n) \<in> set (setting_values s). value_of after i = Some (Long n)"
proof -
  obtain b s target where sb: "selects c old_s b" and s: "accepts c s" and sa: "selects c s after"
    and t: "intent_target cur intent ws = Inr (target, ws')" "resolve c old_s target ws' = Inr s"
    and bf: "value_of before = value_of b ++ map_of (rev (map (apsnd Long) (setting_values cur)))"
    by (rule prepared_catalogs [OF shape p])
  have "distinct (map fst (rev (map (apsnd Long) (setting_values cur))))"
    by (simp add: setting_values_def property_id_defs)
  then have "value_of before i = Some (Long n)" if "(i, n) \<in> set (setting_values cur)" for i n
    unfolding bf using that by (intro map_add_find_right map_of_is_SomeI) force+
  moreover have "\<forall>(i, n) \<in> set (setting_values s). value_of after i = Some (Long n)"
    using selected_inside(1-8) [OF sa] by (simp add: setting_values_def)
  moreover have "distinct (ids after)" "set selected_ids \<subseteq> set (ids after)"
    using selects_frame [OF sa] shape by (simp_all add: aligned_def flatbed_shape_def)
  ultimately show ?thesis using that [OF t s] by blast
qed

lemma root_kind: "root caps st = Inr c \<Longrightarrow> item_kind c = Root"
  by (auto simp: root_def result_simps push_all_props_fields empty_catalog_def Let_def split: if_splits)

lemma prepared_kind: "prepare_catalogs c old_s cur intent ws = Inr p \<Longrightarrow> item_kind c = Flatbed"
  by (auto simp: prepare_catalogs_def result_simps with_settings_def split: if_splits)

lemma item_catalog_source:
  assumes "item_catalog rd caps s = (Inr c, s')"
  shows "(\<exists>st. root caps st = Inr c) \<or> (\<exists>a b. flatbed caps a b = Inr c)"
  using assms by (auto simp: item_catalog_def hr_steps split: if_splits)

text \<open>The successful path of the plan.\<close>

lemma plan_steps:
  assumes "validation_plan rd requested caps s = (Inr plan, s')" and "requested \<noteq> []"
  shows "\<exists>c s1 ws u s2 old_s cur s3 intent p. item_catalog rd caps s = (Inr c, s1)
    \<and> canonical_ids c requested = Inr ws
    \<and> validate_specs rd (map from_id (filter (\<lambda>i. i \<notin> set SETTING_LONGS \<and> i \<noteq> WIA_IPA_FORMAT) ws)) s1 = (Inr u, s2)
    \<and> read_settings_pair rd ws s2 = (Inr (old_s, cur), s3)
    \<and> prepare_catalogs c old_s cur intent ws = Inr p \<and> plan = Some p"
proof -
  have ne: "canonical_ids c requested \<noteq> Inr []" for c
    using canonical_loop_nonempty [of c "[]" requested] assms(2) by (auto simp: canonical_ids_def)
  show ?thesis
    using assms(1) unfolding validation_plan_def
    apply (simp only: hr_steps split_paired_Ex prod.case)
    apply (elim exE conjE)
    subgoal for c v ws v' using ne [of c] by (simp add: hr_steps split_paired_Ex) blast
    done
qed

context stored_item
begin

lemma plan_written:
  assumes busy: "life s = Busy" and run: "validation_plan rd requested caps s = (Inr plan, s')"
    and req: "requested \<noteq> []"
  obtains c a b old_s cur intent ws before after ws' where "plan = Some ((before, after), ws')"
    and "flatbed caps a b = Inr c" and "canonical_ids c requested = Inr ws"
    and "prepare_catalogs c old_s cur intent ws = Inr ((before, after), ws')"
    and "\<forall>(i, n) \<in> set (setting_values cur). stored (mini_world s) i = Some (variant_of (Long n))"
proof -
  obtain c s1 ws u s2 old_s cur s3 intent p where c: "item_catalog rd caps s = (Inr c, s1)"
    and ws: "canonical_ids c requested = Inr ws"
    and sp: "validate_specs rd (map from_id
         (filter (\<lambda>i. i \<notin> set SETTING_LONGS \<and> i \<noteq> WIA_IPA_FORMAT) ws)) s1 = (Inr u, s2)"
    and pr: "read_settings_pair rd ws s2 = (Inr (old_s, cur), s3)"
    and p: "prepare_catalogs c old_s cur intent ws = Inr p" "plan = Some p"
    using plan_steps [OF run req] by blast
  obtain before after ws' where p': "p = ((before, after), ws')" by (metis prod.collapse)
  have "item_kind c = Flatbed" using p(1) prepared_kind by blast
  then obtain a b where "flatbed caps a b = Inr c" using item_catalog_source [OF c] root_kind by fastforce
  moreover have s1: "life s1 = Busy" "stored (mini_world s1) = stored (mini_world s)"
    using readingD [OF catalog_reading busy c] by simp_all
  have s2: "life s2 = Busy" "stored (mini_world s2) = stored (mini_world s1)"
    using readingD [OF specs_reading s1(1) sp] by simp_all
  have "\<forall>(i, n) \<in> set (setting_values cur). stored (mini_world s) i = Some (variant_of (Long n))"
    using settings_pair_stored [OF s2(1) pr] s1(2) s2(2) by simp
  ultimately show ?thesis using that ws p p' by blast
qed

end

context stored_item
begin

lemma specs_keep: "keeps_item (\<lambda>d. stored (mini_world d)) (\<lambda>d. described (mini_world d)) (validate_specs rd specs)"
  using validate_keeps [of specs] by (simp add: keeps_item_def validate_specs_def case_prod_unfold)

text \<open>What a publication of the validation has done when it succeeds.\<close>

lemma validate_publish_stored:
  assumes busy: "life s = Busy" and run: "validate_publish sv rd requested caps s = ((Returned (Inr u), f), s')"
    and req: "requested \<noteq> []"
  shows "\<exists>a b c old_s cur intent ws target ws' r. flatbed caps a b = Inr c
    \<and> canonical_ids c requested = Inr ws \<and> intent_target cur intent ws = Inr (target, ws')
    \<and> resolve c old_s target ws' = Inr r \<and> accepts c r
    \<and> (\<forall>(i, n) \<in> set (setting_values cur). stored (mini_world s) i = Some (variant_of (Long n)))
    \<and> (\<forall>(i, n) \<in> set (setting_values r). stored (mini_world s') i = Some (variant_of (Long n)))
    \<and> (\<forall>i. i \<notin> set DEPENDENT_VALUE_IDS \<longrightarrow> stored (mini_world s') i = stored (mini_world s) i)"
proof -
  obtain plan v where pl: "validation_plan rd requested caps s = (Inr plan, v)"
    using run by (auto simp: validate_publish_def split: prod.splits sum.splits)
  obtain c a b old_s cur intent ws before after ws' where plan: "plan = Some ((before, after), ws')"
    and c: "flatbed caps a b = Inr c" and ws: "canonical_ids c requested = Inr ws"
    and p: "prepare_catalogs c old_s cur intent ws = Inr ((before, after), ws')"
    and cur: "\<forall>(i, n) \<in> set (setting_values cur). stored (mini_world s) i = Some (variant_of (Long n))"
    by (rule plan_written [OF busy pl req])
  have shape: "flatbed_shape c" using flatbed_typed_initial [OF c] by (simp add: flatbed_typed_def)
  obtain r target where t: "intent_target cur intent ws = Inr (target, ws')" "resolve c old_s target ws' = Inr r"
    and r: "accepts c r" and after: "distinct (ids after)" "set selected_ids \<subseteq> set (ids after)"
    and bv: "\<forall>(i, n) \<in> set (setting_values cur). value_of before i = Some (Long n)"
    and av: "\<forall>(i, n) \<in> set (setting_values r). value_of after i = Some (Long n)"
    by (rule prepared_settings [OF shape p])
  have up: "update_with sv before after (validate_specs rd (map from_id ws')) v = (Inr (), s')"
    using run pl plan by (auto simp: validate_publish_def update_def split: prod.splits)
  have v: "stored (mini_world v) = stored (mini_world s)" using readingD [OF plan_reading busy pl] by simp
  have "stored (mini_world s') i = Some (variant_of (Long n))" if "(i, n) \<in> set (setting_values r)" for i n
  proof -
    have sel: "i \<in> fst ` set (setting_values cur)" "i \<in> set selected_ids"
      using that by (auto simp: setting_values_def selected_ids_def)
    from sel(1) obtain m where "(i, m) \<in> set (setting_values cur)" by auto
    with sel(2) have "agrees_value (stored (mini_world v)) before i" "i \<in> set (ids after)"
      using cur bv v after(2) by (fastforce simp: agrees_value_def)+
    then have "agrees_value (stored (mini_world s')) after i"
      using item_store.update_with_agrees(3) [OF store up specs_keep after(1)] by blast
    then show ?thesis using av that by (auto simp: agrees_value_def)
  qed
  moreover have "stored (mini_world s') i = stored (mini_world s) i" if "i \<notin> set DEPENDENT_VALUE_IDS" for i
    using item_frame.update_with_frame [OF item_store.axioms(1) [OF store] up specs_keep, of i] that v by simp
  ultimately show ?thesis using c ws t r cur by blast
qed

end

text \<open>
  Property C11: an accepted write leaves the item with settings that the scanner accepts. When
  the validation of a write succeeds, the item holds exactly the settings that resolve the
  current values of the item against what was written, other properties are as they were, and
  the SET_WINDOW command of these settings passes every check against the capabilities that
  the scanner reported.
\<close>

theorem accepted_write_can_be_scanned:
  assumes "stored_item win refs stored described sv rd" and "life d = Connected con"
    and "refs (mini_world d) = R + connection_refs con" and "reading refs (\<lambda>w. (stored w, described w)) query"
    and "requested \<noteq> []"
    and "with_live_capabilities_guarded win query (validate_publish sv rd requested) d = (Inr (), d')"
  shows "life d' = Connected con
    \<and> (\<exists>caps a b c old_s cur intent ws target ws' s request bytes.
        (\<exists>v. fst (query v) = Returned (Inr caps)) \<and> flatbed caps a b = Inr c
        \<and> canonical_ids c requested = Inr ws
        \<and> (\<forall>(i, n) \<in> set (setting_values cur). stored (mini_world d) i = Some (variant_of (Long n)))
        \<and> intent_target cur intent ws = Inr (target, ws') \<and> resolve c old_s target ws' = Inr s
        \<and> (\<forall>(i, n) \<in> set (setting_values s). stored (mini_world d') i = Some (variant_of (Long n)))
        \<and> to_request s = Inr request \<and> command request caps = Inr bytes)
    \<and> (\<forall>i. i \<notin> set DEPENDENT_VALUE_IDS \<longrightarrow> stored (mini_world d') i = stored (mini_world d) i)"
proof -
  have calls: "item_calls win refs (\<lambda>w. (stored w, described w)) sv rd"
    by (rule stored_item.axioms(1) [OF assms(1)])
  have frame: "windows_item win refs (\<lambda>w. (stored w, described w))" by (rule item_calls.axioms(1) [OF calls])
  have rest: "at_rest refs R (active d) d" using assms(2,3) by (simp add: at_rest_def owned_def)
  have q: "neutral refs query" "keeps (\<lambda>w. (stored w, described w)) query"
    using assms(4) by (simp_all add: reading_def)
  have "life d' = Connected con \<and> (\<exists>caps s s' f. life s = Busy
      \<and> (stored (mini_world s), described (mini_world s)) = (stored (mini_world d), described (mini_world d))
      \<and> validate_publish sv rd requested caps s = ((Returned (Inr ()), f), s') \<and> mini_world d' = mini_world s'
      \<and> (\<exists>v. fst (query v) = Returned (Inr caps)))"
    by (rule windows_item.live_guarded_survival(2) [OF frame rest assms(2) q _ _ assms(6) refl])
      (rule item_calls.publishers_neutral(2) [OF calls], erule item_calls.publishers_undone(2) [OF calls], assumption)
  then obtain caps s s' f v where d': "life d' = Connected con" "mini_world d' = mini_world s'"
    and s: "life s = Busy" "stored (mini_world s) = stored (mini_world d)"
    and run: "validate_publish sv rd requested caps s = ((Returned (Inr ()), f), s')"
    and caps: "fst (query v) = Returned (Inr caps)" by blast
  obtain a b c old_s cur intent ws target ws' r where c: "flatbed caps a b = Inr c" and r: "accepts c r"
    and parts: "canonical_ids c requested = Inr ws" "intent_target cur intent ws = Inr (target, ws')"
      "resolve c old_s target ws' = Inr r"
      "\<forall>(i, n) \<in> set (setting_values cur). stored (mini_world s) i = Some (variant_of (Long n))"
      "\<forall>(i, n) \<in> set (setting_values r). stored (mini_world s') i = Some (variant_of (Long n))"
    and same: "\<forall>i. i \<notin> set DEPENDENT_VALUE_IDS \<longrightarrow> stored (mini_world s') i = stored (mini_world s) i"
    using stored_item.validate_publish_stored [OF assms(1) s(1) run assms(5)] by blast
  obtain request bytes where "to_request r = Inr request" "command request caps = Inr bytes"
    using accepted_can_be_scanned [OF c r] by blast
  note scan = this
  have "\<forall>(i, n) \<in> set (setting_values cur). stored (mini_world d) i = Some (variant_of (Long n))"
    using parts(4) unfolding s(2) .
  moreover have "\<forall>(i, n) \<in> set (setting_values r). stored (mini_world d') i = Some (variant_of (Long n))"
    using parts(5) unfolding d'(2) .
  moreover have "\<forall>i. i \<notin> set DEPENDENT_VALUE_IDS \<longrightarrow> stored (mini_world d') i = stored (mini_world d) i"
    using same unfolding s(2) d'(2) .
  ultimately show ?thesis using d'(1) caps c parts(1-3) scan by (intro conjI exI) assumption+
qed

section \<open>A desk with an item\<close>

text \<open>
  The office of \<open>Minidriver_Properties\<close> with an item: the service stores what it is given, and
  a read answers what is stored, together with a value before the write.
\<close>

record shelf = office +
  shelf_values :: stored_values
  shelf_infos :: stored_infos
  shelf_before :: "nat \<Rightarrow> int"

definition shelf_long :: "shelf \<Rightarrow> nat \<Rightarrow> int option" where
  "shelf_long w i = (case shelf_values w i of
     Some v \<Rightarrow> (case vdata v of LongData n \<Rightarrow> if vt v = VT_I4 then Some n else None | _ \<Rightarrow> None)
   | None \<Rightarrow> None)"

definition shelf_guid :: "shelf \<Rightarrow> nat \<Rightarrow> guid option" where
  "shelf_guid w i = (case shelf_values w i of
     Some v \<Rightarrow> (case vdata v of GuidData g \<Rightarrow> Some g | _ \<Rightarrow> None) | None \<Rightarrow> None)"

definition shelf_text :: "shelf \<Rightarrow> nat \<Rightarrow> nat list option" where
  "shelf_text w i = (case shelf_values w i of
     Some v \<Rightarrow> (case vdata v of BstrData u \<Rightarrow> Some u | _ \<Rightarrow> None) | None \<Rightarrow> None)"

definition no_guid :: guid where "no_guid = guid_from_bytes (replicate 16 0)"

definition shelf_reader :: "shelf driver item_reader" where
  "shelf_reader = \<lparr>
     get_item_type = \<lambda>d. ((S_OK, FLATBED_TYPE), d),
     read_prop_long = \<lambda>i d. (case shelf_long (mini_world d) i of
         Some n \<Rightarrow> (S_OK, n, shelf_before (mini_world d) i) | None \<Rightarrow> (E_INVALIDARG, 0, 0), d),
     read_prop_guid = \<lambda>i d. (case shelf_guid (mini_world d) i of
         Some g \<Rightarrow> (S_OK, g, g) | None \<Rightarrow> (E_INVALIDARG, no_guid, no_guid), d),
     read_prop_str = \<lambda>i d. (case shelf_text (mini_world d) i of
         Some u \<Rightarrow> ((S_OK, Some u), in_office (gains (StringRef u)) d)
       | None \<Rightarrow> ((E_INVALIDARG, None), d)),
     free_read_str = \<lambda>u. in_office (loses (StringRef u)),
     validate_item_properties = \<lambda>specs d. (S_OK, d)\<rparr>"

definition shelf_service :: "shelf driver service" where
  "shelf_service = \<lparr>
     set_item_names = \<lambda>_ _ d. (S_OK, d),
     write_multiple = \<lambda>specs vs. Pair S_OK \<circ> in_office (\<lambda>w. w\<lparr>shelf_values := shelf_values w
       ++ map_of (rev (zip (map (the \<circ> spec_id) specs) vs))\<rparr>),
     set_item_attribute = \<lambda>spec info. Pair S_OK \<circ> in_office (\<lambda>w. w\<lparr>shelf_infos :=
       (shelf_infos w)(the (spec_id spec) \<mapsto> info)\<rparr>),
     alloc_string = \<lambda>u. Pair True \<circ> in_office (gains (StringRef u)),
     free_string = \<lambda>u. in_office (loses (StringRef u))\<rparr>"

lemmas shelf_defs = shelf_reader_def shelf_service_def shelf_long_def in_office_def gains_def loses_def

lemma shelf_long_stored: "shelf_long w i = Some n \<Longrightarrow> shelf_values w i = Some (variant_of (Long n))"
  by (auto simp: shelf_long_def variant_of_def split: option.splits variant_data.splits if_splits)

interpretation shelf: obliging_store shelf_service "\<lambda>d. shelf_values (mini_world d)" "\<lambda>d. shelf_infos (mini_world d)"
  by unfold_locales
    (auto simp: shelf_defs comp_def map_add_def split: option.splits dest!: map_of_SomeD dest: set_zip_leftD)

interpretation shelf: item_calls office_windows office_refs "\<lambda>w. (shelf_values w, shelf_infos w)" shelf_service shelf_reader
  by unfold_locales
    (auto simp: reading_def neutral_def keeps_def settled_def heap_of_def shelf_defs owned_string_def
      office_defs split: option.splits)

interpretation shelf: stored_item office_windows office_refs shelf_values shelf_infos shelf_service shelf_reader
  by unfold_locales
    (auto simp: shelf_reader_def keeps_item_def shelf_long_stored E_INVALIDARG_def S_OK_def as_i32_def split: option.splits)

section \<open>Witnesses\<close>

text \<open>An application has moved the start of the scan from 30 to 100 pixels.\<close>

definition shelf_start :: shelf where
  "shelf_start = \<lparr>office_refs = connection_refs desk_connection, office_locked = False, office_script = [],
     office_next = 3,
     shelf_values = map_of ([(WIA_IPA_FORMAT, variant_of (Guid (guid_from_bytes BMP_FORMAT))),
         (WIA_IPA_ITEM_NAME, variant_of (Text office_item)),
         (WIA_IPA_FULL_ITEM_NAME, variant_of (Text office_full))]
       @ map (apsnd (\<lambda>n. variant_of (Long n))) (setting_values office_write
         @ [(WIA_IPS_BRIGHTNESS, 0), (WIA_IPS_CONTRAST, 0), (WIA_IPA_COMPRESSION, 0)])),
     shelf_infos = Map.empty, shelf_before = (\<lambda>_. 30)\<rparr>"

definition shelf_driver :: "shelf driver" where
  "shelf_driver = (driver_new shelf_start)\<lparr>life := Connected desk_connection\<rparr>"

definition shelf_query :: "shelf driver \<Rightarrow> capabilities hr outcome \<times> shelf driver" where
  "shelf_query d = (Returned (Inr office_caps), d)"

lemma shelf_query_reading: "reading office_refs item shelf_query"
  by (simp add: reading_def neutral_def keeps_def settled_def shelf_query_def)

lemma shelf_connected: "life shelf_driver = Connected desk_connection"
  "office_refs (mini_world shelf_driver) = {#} + connection_refs desk_connection" "active shelf_driver = None"
  by (simp_all add: shelf_driver_def driver_new_def shelf_start_def)

lemma shelf_stored_long:
  "shelf_long (mini_world shelf_driver) i = map_of (setting_values office_write
     @ [(WIA_IPS_BRIGHTNESS, 0), (WIA_IPS_CONTRAST, 0), (WIA_IPA_COMPRESSION, 0)]) i"
  by (simp add: shelf_driver_def driver_new_def shelf_start_def shelf_long_def variant_of_def setting_values_def
      property_id_defs)

lemma shelf_stored_other:
  "shelf_guid (mini_world shelf_driver) WIA_IPA_FORMAT = Some (guid_from_bytes BMP_FORMAT)"
  "shelf_text (mini_world shelf_driver) WIA_IPA_ITEM_NAME = Some (encode_utf16 office_item)"
  "shelf_text (mini_world shelf_driver) WIA_IPA_FULL_ITEM_NAME = Some (encode_utf16 office_full)"
  by (simp_all add: shelf_driver_def driver_new_def shelf_start_def shelf_guid_def shelf_text_def variant_of_def
      property_id_defs)

lemma shelf_name:
  "shelf_text (mini_world d) i = Some (encode_utf16 s) \<Longrightarrow> into_string (encode_utf16 s) = Inr s \<Longrightarrow> valid_item_name s \<Longrightarrow>
   read_name (read_service_string shelf_reader) i d = (Inr s, d)"
  by (simp add: read_name_def read_service_string_def shelf_reader_def bind_hr_def pure_hr_def S_OK_def
      in_office_def gains_def loses_def)

lemma office_names: "into_string (encode_utf16 office_item) = Inr office_item" "valid_item_name office_item"
  "into_string (encode_utf16 office_full) = Inr office_full" "valid_item_name office_full"
  by (simp_all add: office_item_def office_full_def into_string_def encode_utf16_def utf16_units_def
      valid_item_name_def MAX_BSTR_CODE_UNITS_def ok_or_def)

lemma shelf_catalog:
  assumes "flatbed office_caps office_item office_full = Inr c"
  shows "item_catalog shelf_reader office_caps (shelf_driver\<lparr>life := Busy\<rparr>) = (Inr c, shelf_driver\<lparr>life := Busy\<rparr>)"
proof -
  have "helper_item_type shelf_reader d = (Inr FLATBED_TYPE, d)" for d
    by (simp add: helper_item_type_def read_item_type_def shelf_reader_def)
  moreover have "FLATBED_TYPE AND WIA_ITEM_TYPE_ROOT = 0"
    by (simp add: FLATBED_TYPE_def WIA_ITEM_TYPE_ROOT_def WIA_ITEM_TYPE_IMAGE_def WIA_ITEM_TYPE_FILE_def
        WIA_ITEM_TYPE_TRANSFER_def WIA_ITEM_TYPE_PROGRAMMABLE_def)
  moreover have "read_name (read_service_string shelf_reader) WIA_IPA_ITEM_NAME (shelf_driver\<lparr>life := Busy\<rparr>)
      = (Inr office_item, shelf_driver\<lparr>life := Busy\<rparr>)"
    "read_name (read_service_string shelf_reader) WIA_IPA_FULL_ITEM_NAME (shelf_driver\<lparr>life := Busy\<rparr>)
      = (Inr office_full, shelf_driver\<lparr>life := Busy\<rparr>)"
    by (rule shelf_name; simp add: shelf_stored_other office_names)+
  ultimately show ?thesis using assms by (simp add: item_catalog_def bind_hr_def pure_hr_def read_item_names_def)
qed

lemma shelf_reads:
  "read_prop_long shelf_reader i d = (case shelf_long (mini_world d) i of
     Some n \<Rightarrow> (S_OK, n, shelf_before (mini_world d) i) | None \<Rightarrow> (E_INVALIDARG, 0, 0), d)"
  "read_prop_guid shelf_reader i d = (case shelf_guid (mini_world d) i of
     Some g \<Rightarrow> (S_OK, g, g) | None \<Rightarrow> (E_INVALIDARG, no_guid, no_guid), d)"
  "validate_item_properties shelf_reader specs d = (S_OK, d)"
  "shelf_before (mini_world shelf_driver) i = 30"
  by (simp_all add: shelf_reader_def shelf_driver_def driver_new_def shelf_start_def)

lemma shelf_pairs:
  assumes "\<forall>i \<in> set is. shelf_long (mini_world d) i = Some (v i)"
  shows "read_long_pairs shelf_reader written is d =
    (Inr (map (\<lambda>i. (if i \<in> set written then shelf_before (mini_world d) i else v i, v i)) is), d)"
  using assms by (induction "is") (auto simp: pure_hr_def bind_hr_def shelf_reads)

text \<open>The bytes of a GUID are its fields.\<close>

lemma le_bytes_le_nat: "length bs = k \<Longrightarrow> le_bytes k (le_nat bs) = bs"
proof (induction bs arbitrary: k)
  case (Cons b bs)
  have "unat b < 256" using unsigned_less [of b] by simp
  then have "(unat b + 256 * le_nat bs) div 256 = le_nat bs" by simp
  moreover have "(word_of_nat (unat b + 256 * le_nat bs) :: u8) = b"
  proof -
    have "(256 :: u8) = 0" by (simp add: word_uint_eq_iff)
    then have "256 * x = 0" for x :: u8 by (simp only: mult_zero_left)
    then show ?thesis by simp
  qed
  ultimately show ?case using Cons by auto
qed simp

lemma guid_roundtrip:
  assumes "length bs = 16"
  shows "guid_bytes (guid_from_bytes bs) = bs"
proof -
  have 32: "unat (word_of_nat (le_nat xs) :: u32) = le_nat xs" if "length xs = 4" for xs
    using le_nat_less [of xs] that by (simp add: unat_of_nat)
  have 16: "unat (word_of_nat (le_nat xs) :: u16) = le_nat xs" if "length xs = 2" for xs
    using le_nat_less [of xs] that by (simp add: unat_of_nat)
  have "guid_bytes (guid_from_bytes bs) = subslice 0 4 bs @ subslice 4 6 bs @ subslice 6 8 bs @ subslice 8 16 bs"
    using assms by (simp add: guid_bytes_def guid_from_bytes_def 32 16 le_bytes_le_nat subslice_def)
  also have "\<dots> = bs"
    using assms by (auto simp: subslice_def list_eq_iff_nth_eq nth_append)
  finally show ?thesis .
qed

lemma shelf_settings:
  "read_settings_pair shelf_reader [WIA_IPS_XPOS] (shelf_driver\<lparr>life := Busy\<rparr>)
   = (Inr (office_settings, office_write), shelf_driver\<lparr>life := Busy\<rparr>)"
proof -
  define v where "v i = the (map_of (setting_values office_write
     @ [(WIA_IPS_BRIGHTNESS, 0), (WIA_IPS_CONTRAST, 0), (WIA_IPA_COMPRESSION, 0)]) i)" for i
  define ps where "ps = map (\<lambda>i. (if i \<in> set [WIA_IPS_XPOS] then 30 else v i, v i)) SETTING_LONGS"
  let ?d = "shelf_driver\<lparr>life := Busy\<rparr>" and ?g = "guid_from_bytes BMP_FORMAT"
  have "\<forall>i \<in> set SETTING_LONGS. shelf_long (mini_world ?d) i = Some (v i)"
    by (simp add: shelf_stored_long SETTING_LONGS_def setting_values_def property_id_defs v_def)
  then have pairs: "read_long_pairs shelf_reader [WIA_IPS_XPOS] SETTING_LONGS ?d = (Inr ps, ?d)"
    unfolding ps_def by (subst shelf_pairs [where v = v]) (simp_all add: shelf_reads(4))
  have guid: "read_prop_guid shelf_reader WIA_IPA_FORMAT ?d = ((S_OK, ?g, ?g), ?d)"
    by (simp add: shelf_reads(2) shelf_stored_other(1))
  have bytes: "guid_bytes ?g = BMP_FORMAT" by (rule guid_roundtrip) (simp add: BMP_FORMAT_def)
  have "map snd ps = [300, 300, 100, 60, 600, 900, 3, 24, 0, 0, 0]"
    and "map fst ps = [300, 300, 30, 60, 600, 900, 3, 24, 0, 0, 0]"
    by (simp_all add: ps_def v_def SETTING_LONGS_def setting_values_def office_write_def office_settings_def
        property_id_defs)
  then have "settings_of (map snd ps) ?g = office_write" "settings_of (map fst ps) ?g = office_settings"
    by (simp_all add: settings_of_def bytes office_write_def office_settings_def)
  then show ?thesis by (simp add: read_settings_pair_def bind_hr_def pure_hr_def pairs guid)
qed

lemma position_written:
  assumes "flatbed caps a b = Inr c"
  shows "canonical_ids c [ById WIA_IPS_XPOS] = Inr [WIA_IPS_XPOS]"
proof -
  have "\<exists>lo nominal hi step. attribute_of c WIA_IPS_XPOS = Some (RangeLong (WIA_PROP_RW OR WIA_PROP_RANGE) lo nominal hi step)"
    by (rule flatbed_Inr [OF assms])
      (simp add: pushed_lookup empty_catalog_def flatbed_entries_def entries_defs property_id_defs)
  then obtain at where at: "attribute_of c WIA_IPS_XPOS = Some at" "attribute_access at AND 2 \<noteq> 0"
    by (auto simp: WIA_PROP_RW_def WIA_PROP_RANGE_def WIA_PROP_READ_def WIA_PROP_WRITE_def)
  have al: "aligned c" using flatbed_typed_initial [OF assms] by (simp add: flatbed_typed_def flatbed_shape_def)
  have "WIA_IPS_XPOS \<in> set (ids c)"
    using flatbed_typed_initial [OF assms] by (auto simp: flatbed_typed_def flatbed_shape_def selected_ids_def)
  then obtain k where k: "property_index c (ById WIA_IPS_XPOS) = Some k"
    by (cases "property_index c (ById WIA_IPS_XPOS)") (auto simp: property_index_def find_None_iff in_set_conv_nth)
  then have n: "k < length (ids c)" "ids c ! k = WIA_IPS_XPOS" by (auto simp: property_index_def find_Some_iff)
  have "attribute_of c (ids c ! k) = Some (attributes c ! k)"
    using al n(1) lookup_at [of "ids c" "attributes c" k] by (simp add: attribute_of_def aligned_def)
  then have "attributes c ! k = at" using at(1) n(2) by simp
  then show ?thesis using at(2) k n by (simp add: canonical_ids_def)
qed

lemma shelf_validation:
  "\<exists>d. with_live_capabilities_guarded office_windows shelf_query
     (validate_publish shelf_service shelf_reader [ById WIA_IPS_XPOS]) shelf_driver = (Inr (), d)"
proof -
  obtain c before after ws where c: "flatbed office_caps office_item office_full = Inr c"
      "prepare_catalogs c office_settings office_write None [WIA_IPS_XPOS] = Inr ((before, after), ws)"
    by (rule office_prepared)
  let ?d = "shelf_driver\<lparr>life := Busy\<rparr>"
  note can = position_written [OF c(1)]
  have "validation_plan shelf_reader [ById WIA_IPS_XPOS] office_caps ?d = (Inr (Some ((before, after), ws)), ?d)"
  proof -
    have "WIA_IPS_XPOS \<in> set SETTING_LONGS" "WIA_IPS_CUR_INTENT \<notin> set [WIA_IPS_XPOS]"
      by (simp_all add: SETTING_LONGS_def property_id_defs WIA_IPS_CUR_INTENT_def)
    then show ?thesis
      using c(2) by (simp add: validation_plan_def bind_hr_def pure_hr_def shelf_catalog [OF c(1)] can shelf_settings
          validate_specs_def)
  qed
  moreover obtain v where "update True shelf_service before after (validate_specs shelf_reader (map from_id ws)) ?d
      = (Inr (), v)"
    using prepared_update_runs [OF shelf.obliging_store_axioms c, of "validate_specs shelf_reader (map from_id ws)" ?d]
    by (auto simp: validate_specs_def shelf_reads finalize_result_def)
  ultimately have pub: "validate_publish shelf_service shelf_reader [ById WIA_IPS_XPOS] office_caps ?d
      = ((Returned (Inr ()), True), v)"
    by (simp add: validate_publish_def)
  have "shelf_start\<lparr>office_locked := False\<rparr> = shelf_start" by (simp add: shelf_start_def)
  then show ?thesis using pub
    by (simp add: with_live_capabilities_guarded_def borrow_take_def shelf_connected(1)
        with_guarded_locked_capabilities_def with_locked_capabilities_def call_helper_def desk_connection_def
        service_unlock_def shelf_query_def office_defs shelf_driver_def driver_new_def shelf_start_def)
qed

theorem accepted_write_can_be_scanned_witness:
  "\<exists>d s bytes request. with_live_capabilities_guarded office_windows shelf_query
     (validate_publish shelf_service shelf_reader [ById WIA_IPS_XPOS]) shelf_driver = (Inr (), d)
   \<and> to_request s = Inr request \<and> command request office_caps = Inr bytes
   \<and> shelf_values (mini_world d) WIA_IPS_XPOS = Some (variant_of (Long (x_position s)))"
proof -
  obtain d where d: "with_live_capabilities_guarded office_windows shelf_query
     (validate_publish shelf_service shelf_reader [ById WIA_IPS_XPOS]) shelf_driver = (Inr (), d)"
    using shelf_validation by blast
  from accepted_write_can_be_scanned [OF shelf.stored_item_axioms shelf_connected(1,2) shelf_query_reading _ d]
  obtain caps s request bytes where "\<exists>v. fst (shelf_query v) = Returned (Inr caps)"
    "\<forall>(i, n) \<in> set (setting_values s). shelf_values (mini_world d) i = Some (variant_of (Long n))"
    "to_request s = Inr request" "command request caps = Inr bytes" by blast
  moreover then have "caps = office_caps" by (simp add: shelf_query_def)
  ultimately show ?thesis using d by (auto simp: setting_values_def)
qed

text \<open>An item without a name cannot be initialized; it keeps what it had.\<close>

definition bare_driver :: "shelf driver" where
  "bare_driver = shelf_driver\<lparr>mini_world := shelf_start\<lparr>shelf_values := [WIA_IPS_XPOS \<mapsto> variant_of (Long 5)]\<rparr>\<rparr>"

lemma bare_initialization:
  "init_entry office_windows shelf_service shelf_reader shelf_query True True 0 True bare_driver
   = ((E_INVALIDARG, Some E_INVALIDARG), bare_driver)"
proof -
  let ?d = "bare_driver\<lparr>life := Busy\<rparr>"
  have d: "life bare_driver = Connected desk_connection" "office_script (mini_world bare_driver) = []"
    "office_locked (mini_world bare_driver) = False"
    by (simp_all add: bare_driver_def shelf_driver_def shelf_start_def)
  have "shelf_text (mini_world ?d) WIA_IPA_ITEM_NAME = None"
    by (simp add: shelf_text_def bare_driver_def property_id_defs)
  then have "read_name (read_service_string shelf_reader) WIA_IPA_ITEM_NAME ?d = (Inl E_INVALIDARG, ?d)"
    by (simp add: read_name_def read_service_string_def shelf_reader_def bind_hr_def helper_failure_def
        E_INVALIDARG_def S_OK_def as_i32_def)
  moreover have "helper_item_type shelf_reader v = (Inr FLATBED_TYPE, v)" for v
    by (simp add: helper_item_type_def read_item_type_def shelf_reader_def)
  moreover have "FLATBED_TYPE AND WIA_ITEM_TYPE_ROOT = 0"
    by (simp add: FLATBED_TYPE_def WIA_ITEM_TYPE_ROOT_def WIA_ITEM_TYPE_IMAGE_def WIA_ITEM_TYPE_FILE_def
        WIA_ITEM_TYPE_TRANSFER_def WIA_ITEM_TYPE_PROGRAMMABLE_def)
  ultimately have "item_catalog shelf_reader caps ?d = (Inl E_INVALIDARG, ?d)" for caps
    by (simp add: item_catalog_def bind_hr_def read_item_names_def)
  then have "init_publish shelf_service shelf_reader caps ?d = ((Returned (Inl E_INVALIDARG), False), ?d)" for caps
    by (simp add: init_publish_def guarded_def)
  then have "with_live_capabilities_guarded office_windows shelf_query (init_publish shelf_service shelf_reader) bare_driver
      = (Inl E_INVALIDARG, bare_driver)"
    using d by (simp add: with_live_capabilities_guarded_def borrow_take_def with_guarded_locked_capabilities_def
        with_locked_capabilities_def call_helper_def desk_connection_def service_unlock_def shelf_query_def office_defs
        borrow_drop_def bare_driver_def shelf_driver_def driver_new_def shelf_start_def)
  then show ?thesis
    by (simp add: init_entry_def item_entry_def report_def E_INVALIDARG_def as_i32_def)
qed

theorem failed_entries_leave_the_item_witness:
  "\<exists>hr er d. init_entry office_windows shelf_service shelf_reader shelf_query True True 0 True bare_driver = ((hr, er), d)
     \<and> hr \<noteq> S_OK \<and> life d = Connected desk_connection
     \<and> shelf_values (mini_world d) = shelf_values (mini_world bare_driver)"
proof -
  have c: "life bare_driver = Connected desk_connection" "active bare_driver = None"
    "office_refs (mini_world bare_driver) = {#} + connection_refs desk_connection"
    by (simp_all add: bare_driver_def shelf_driver_def driver_new_def shelf_start_def)
  have bad: "E_INVALIDARG \<noteq> S_OK" by (simp add: E_INVALIDARG_def S_OK_def as_i32_def)
  have "(shelf_values (mini_world bare_driver), shelf_infos (mini_world bare_driver))
      = (shelf_values (mini_world bare_driver), shelf_infos (mini_world bare_driver))"
    using failed_entries_leave_the_item [OF shelf.item_calls_axioms c shelf_query_reading,
        of E_INVALIDARG "Some E_INVALIDARG" bare_driver True True 0 True 0 None] bare_initialization bad c(1) by simp
  with bad c(1) bare_initialization show ?thesis by auto
qed

end
