(* ===== verification/Error_Texts.thy ===== *)
theory Error_Texts
  imports Minidriver_Entries Minidriver_Properties
begin

unbundle bit_operations_syntax

text \<open>
  Which of the codes that the driver reports as a device error have a text
  (\<open>src/com_server/minidrv/errors.rs\<close> against \<open>acquire.rs\<close>).
\<close>

section \<open>Which errors have a text\<close>

text \<open>An error whose code is a HRESULT of the caller's stream or callback, or of Windows.\<close>

fun carries_hresult :: "io_error \<Rightarrow> bool" where
  "carries_hresult (Custom _ (TransferError original _)) = carries_hresult original"
| "carries_hresult (Custom _ (StreamError _ _)) = True"
| "carries_hresult (Custom _ (CallbackError _ _)) = True"
| "carries_hresult (Os code _) = (code < 0)"
| "carries_hresult (Custom _ _) = False"

lemma describe_fixed: "code \<in> fst ` set fixed_texts \<Longrightarrow> describe system_message code \<noteq> None"
  using map_of_eq_None_iff [of fixed_texts code] by (auto simp: describe_def)

lemma describe_win32: "describe system_message (as_i32 (0x80070000 OR (n AND 0xFFFF))) \<noteq> None"
proof -
  let ?m = "0x80070000 OR (n AND 0xFFFF)"
  have distrib: "(p OR q) AND r = (p AND r) OR (q AND r)" for p q r :: nat
    by (rule bit_eqI) (auto simp: bit_and_iff bit_or_iff)
  have "?m AND 0xFFFF0000 = (0x80070000 AND 0xFFFF0000) OR (n AND (0xFFFF AND 0xFFFF0000))"
    unfolding distrib by (simp only: and.assoc)
  then have "as_u32 (as_i32 ?m) AND 0xFFFF0000 = FACILITY_WIN32_PREFIX"
    using win32_range [of n] by (simp add: FACILITY_WIN32_PREFIX_def)
  then show ?thesis by (simp add: describe_def Let_def split: option.splits)
qed

lemma kind_described: "describe system_message (kind_status k) \<noteq> None"
  by (rule describe_fixed, cases k) (simp_all add: fixed_texts_def E_FAIL_def E_ACCESSDENIED_def E_OUTOFMEMORY_def)

lemma os_described: "0 \<le> code \<Longrightarrow> describe system_message (os_status code) \<noteq> None"
proof (cases "code = 0")
  case True
  have "E_UNEXPECTED \<in> fst ` set fixed_texts" by (simp add: fixed_texts_def)
  then show ?thesis using True describe_fixed by (simp add: os_status_def)
next
  case False
  assume "0 \<le> code"
  with False describe_win32 [of system_message "nat code"] show ?thesis by (simp add: os_status_def)
qed

lemma carried_described: "\<not> carries_hresult er \<Longrightarrow> describe system_message (error_status er) \<noteq> None"
  by (induction er rule: carries_hresult.induct) (simp_all add: kind_described os_described not_less)

text \<open>\<open>STG_E_MEDIUMFULL\<close>: the stream of the application has no room for the image.\<close>

definition STG_E_MEDIUMFULL :: int where "STG_E_MEDIUMFULL = as_i32 0x80030070"

text \<open>
  Property C37: which errors of an acquisition have a text. Every error that the driver turns
  into a code itself has one, whatever Windows has to say of it. An error that carries the
  code of the caller's stream or callback is passed on as it is: for a full stream the driver
  reports \<open>STG_E_MEDIUMFULL\<close> as the device error, and answers that this value is not an error
  of the driver when it is asked for its text.
\<close>

theorem reported_errors_have_texts:
  "(\<not> carries_hresult er \<longrightarrow>
      (\<exists>t. describe system_message (error_status er) = Some t)
      \<and> fst (fst (error_string_entry system_message alloc True 0 (error_status er) False True)) = S_OK)
   \<and> report True (error_status (Custom k (StreamError fatal STG_E_MEDIUMFULL)))
       = (STG_E_MEDIUMFULL, Some STG_E_MEDIUMFULL)
   \<and> error_string_entry system_message alloc True 0 STG_E_MEDIUMFULL text_ptr True
       = ((E_INVALIDARG, Some E_INVALIDARG), None)"
proof -
  have "STG_E_MEDIUMFULL < 0" "E_INVALIDARG < 0" by (simp_all add: STG_E_MEDIUMFULL_def E_INVALIDARG_def as_i32_def)
  moreover have "describe system_message STG_E_MEDIUMFULL = None"
    by (simp add: describe_def STG_E_MEDIUMFULL_def FACILITY_WIN32_PREFIX_def fixed_texts_def as_i32_def as_u32_def
        E_FAIL_def E_ACCESSDENIED_def E_OUTOFMEMORY_def E_INVALIDARG_def E_POINTER_def E_NOTIMPL_def
        E_UNEXPECTED_def WIA_ERROR_BUSY_def)
  moreover have "\<exists>t. describe system_message (error_status er) = Some t" if "\<not> carries_hresult er"
    using carried_described [OF that] by auto
  ultimately show ?thesis
    by (auto simp: error_string_entry_def report_def failed_status_def S_OK_def)
qed

lemma reported_errors_have_texts_witness:
  "fst (fst (error_string_entry (\<lambda>_. None) (\<lambda>_. True) True 0 (error_status (Os 31 InvalidInput)) False True)) = S_OK"
  using reported_errors_have_texts [of "Os 31 InvalidInput" "\<lambda>_. None" "\<lambda>_. True"] by simp

end
