(* ===== verification/Sti_State.thy ===== *)
theory Sti_State
  imports Session_Slot Wia_Constants Wia_Transfer Protocol
begin

unbundle bit_operations_syntax

text \<open>
  The state of an STI device object and what all its methods share, from
  \<open>src/com_server/sti.rs\<close>: result codes, the SDK structures, the texts of errors, the last
  error, and the scanner session behind the service lock. The helper object of the service,
  the USB session and the texts of Windows error codes are parameters, collected in one
  record; functions of the helper act on the whole object, since the service may call the
  object again before they return, and functions of the session act on what the slot leaves
  to other callers.
\<close>

section \<open>Result codes and structures\<close>

definition hresult_from_win32 :: "u32 \<Rightarrow> int" where
  "hresult_from_win32 e =
     (if e = 0 then S_OK
      else as_i32 (unat (0x80000000 OR push_bit 16 7 OR (e AND 0xffff) :: u32)))"

definition STIERR_INVALID_PARAM :: int where "STIERR_INVALID_PARAM = E_INVALIDARG"
definition STIERR_NOT_INITIALIZED :: int where "STIERR_NOT_INITIALIZED = hresult_from_win32 21"
definition STIERR_ALREADY_INITIALIZED :: int where
  "STIERR_ALREADY_INITIALIZED = hresult_from_win32 1247"
definition STIERR_DEVICE_LOCKED :: int where "STIERR_DEVICE_LOCKED = hresult_from_win32 33"
definition STIERR_NEEDS_LOCK :: int where "STIERR_NEEDS_LOCK = hresult_from_win32 158"
definition STIERR_OLD_VERSION :: int where "STIERR_OLD_VERSION = hresult_from_win32 1150"
definition STIERR_INVALID_DEVICE_NAME :: int where
  "STIERR_INVALID_DEVICE_NAME = hresult_from_win32 123"
definition STIERR_UNSUPPORTED :: int where "STIERR_UNSUPPORTED = as_i32 0x80004001"
definition STIERR_GENERIC :: int where "STIERR_GENERIC = as_i32 0x80004005"
definition INSUFFICIENT_BUFFER :: int where "INSUFFICIENT_BUFFER = hresult_from_win32 122"

definition STI_VERSION_FLAG_MASK :: u32 where "STI_VERSION_FLAG_MASK = 0xff000000"
definition STI_VERSION_FLAG_UNICODE :: u32 where "STI_VERSION_FLAG_UNICODE = 0x01000000"
definition STI_VERSION_MIN_ALLOWED :: u32 where "STI_VERSION_MIN_ALLOWED = 2"
definition STI_VERSION_3 :: u32 where "STI_VERSION_3 = 3 OR STI_VERSION_FLAG_UNICODE"
definition STI_GENCAP_WIA :: u32 where "STI_GENCAP_WIA = 0x10"
definition STI_MAX_INTERNAL_NAME_LENGTH :: nat where "STI_MAX_INTERNAL_NAME_LENGTH = 128"
definition MAX_DEVICE_PATH_WORDS :: nat where "MAX_DEVICE_PATH_WORDS = 32768"
definition STI_DIAGCODE_HWPRESENCE :: u32 where "STI_DIAGCODE_HWPRESENCE = 1"
definition INQUIRY_COMMAND :: bytes where "INQUIRY_COMMAND = [0x1b, 0xa8, 0x12, 0x00]"
definition INQUIRY_READ_BYTES :: nat where "INQUIRY_READ_BYTES = 1024"

lemmas sti_code_defs =
  hresult_from_win32_def STIERR_INVALID_PARAM_def STIERR_NOT_INITIALIZED_def
  STIERR_ALREADY_INITIALIZED_def STIERR_DEVICE_LOCKED_def STIERR_NEEDS_LOCK_def
  STIERR_OLD_VERSION_def STIERR_INVALID_DEVICE_NAME_def STIERR_UNSUPPORTED_def
  STIERR_GENERIC_def INSUFFICIENT_BUFFER_def E_POINTER_def E_INVALIDARG_def S_OK_def as_i32_def

record sti_usd_caps =
  caps_version :: u32
  caps_generic :: u32

record sti_device_status =
  status_size :: u32
  status_mask :: u32
  online_state :: u32
  hardware_status_code :: u32
  event_handling_state :: u32
  polling_interval :: u32

record sti_error_info =
  info_size :: u32
  generic_error :: u32
  vendor_error :: u32
  extended_text :: "u16 list"

record sti_diag =
  diag_size :: u32
  basic_diag_code :: u32
  vendor_diag_code :: u32
  diag_status_mask :: u32
  diag_error_info :: sti_error_info

record sti_notify =
  notify_size :: u32
  notification_code :: guid
  notification_data :: bytes

text \<open>\<open>size_of\<close> of the \<open>repr(C)\<close> structures: all fields are aligned to at most four bytes.\<close>

definition TEXT_UNITS :: nat where "TEXT_UNITS = 255"
definition SIZE_ERROR_INFO :: u32 where "SIZE_ERROR_INFO = 524"
definition SIZE_DEVICE_STATUS :: u32 where "SIZE_DEVICE_STATUS = 24"
definition SIZE_DIAG :: u32 where "SIZE_DIAG = 16 + SIZE_ERROR_INFO"
definition SIZE_NOTIFY :: u32 where "SIZE_NOTIFY = 84"

definition info_new :: sti_error_info where
  "info_new = \<lparr>info_size = SIZE_ERROR_INFO, generic_error = 0, vendor_error = 0,
     extended_text = replicate TEXT_UNITS 0\<rparr>"

text \<open>The slots are overwritten one by one, all but the last, which stays the terminator.\<close>

definition with_message :: "int \<Rightarrow> u16 list \<Rightarrow> sti_error_info" where
  "with_message code units =
     (let written = take (TEXT_UNITS - 1) units
      in info_new\<lparr>generic_error := word_of_int code,
           extended_text := written @ drop (length written) (extended_text info_new)\<rparr>)"

section \<open>Texts\<close>

text \<open>
  What \<open>Display\<close> prints: numbers in decimal, or in hexadecimal padded with zeros, and the
  program's own errors in the format of their implementation. The text of an
  operating-system code comes from Windows; the standard library appends the code.
\<close>

definition literal :: "string \<Rightarrow> scalars" where
  "literal s = map (\<lambda>c. of_char c) s"

definition digit :: "bool \<Rightarrow> nat \<Rightarrow> nat" where
  "digit upper n = (if n < 10 then 48 + n else (if upper then 55 else 87) + n)"

fun digits :: "bool \<Rightarrow> nat \<Rightarrow> nat \<Rightarrow> scalars" where
  "digits upper base n =
     (if n < base \<or> base < 2 then [digit upper n]
      else digits upper base (n div base) @ [digit upper (n mod base)])"

declare digits.simps [simp del]

definition decimal :: "int \<Rightarrow> scalars" where
  "decimal i = (if i < 0 then literal ''-'' else []) @ digits False 10 (nat \<bar>i\<bar>)"

definition hexadecimal :: "bool \<Rightarrow> nat \<Rightarrow> nat \<Rightarrow> scalars" where
  "hexadecimal upper width n =
     (let ds = digits upper 16 n in replicate (width - length ds) 48 @ ds)"

fun show_error :: "(int \<Rightarrow> scalars) \<Rightarrow> io_error \<Rightarrow> scalars"
  and show_payload :: "(int \<Rightarrow> scalars) \<Rightarrow> payload \<Rightarrow> scalars"
  and show_message :: "(int \<Rightarrow> scalars) \<Rightarrow> message \<Rightarrow> scalars" where
  "show_error os (Custom k p) = show_payload os p"
| "show_error os (Os code k) = os code @ literal '' (os error '' @ decimal code @ literal '')''"
| "show_payload os (Message m) = show_message os m"
| "show_payload os HostCancelled = literal ''Scan cancelled''"
| "show_payload os (DiagnosticError er m) = show_message os m @ literal '': '' @ show_error os er"
| "show_payload os (TransferError er m) = show_error os er @ literal ''; scan: '' @ show_message os m"
| "show_payload os (StreamError operation hr) =
     literal ''IStream::'' @ literal operation @ literal '' returned HRESULT 0x''
       @ hexadecimal True 8 (as_u32 hr)"
| "show_payload os (CallbackError operation hr) =
     literal ''WIA transfer callback '' @ literal operation @ literal '' returned HRESULT 0x''
       @ hexadecimal True 8 (as_u32 hr)"
| "show_message os (Lit s) = literal s"
| "show_message os (Num i) = decimal i"
| "show_message os (Hex width i) = hexadecimal False width (nat i)"
| "show_message os (Shown er) = show_error os er"
| "show_message os (Fmt ms) = concat (map (show_message os) ms)"

definition units_of :: "(int \<Rightarrow> scalars) \<Rightarrow> message \<Rightarrow> u16 list" where
  "units_of os m = map word_of_nat (encode_utf16 (show_message os m))"

fun raw_os_error :: "io_error \<Rightarrow> int option" where
  "raw_os_error (Os code k) = Some code"
| "raw_os_error (Custom k p) = None"

definition io_error_hresult :: "io_error \<Rightarrow> int" where
  "io_error_hresult er =
     (let plain = (if kind er = Unsupported then STIERR_UNSUPPORTED else STIERR_GENERIC)
      in case raw_os_error er of
           Some code \<Rightarrow>
             if 0 \<le> code \<and> hresult_from_win32 (word_of_int code) \<noteq> S_OK
             then hresult_from_win32 (word_of_int code) else plain
         | None \<Rightarrow> plain)"

fun access_error_of :: "access_error \<Rightarrow> int \<times> message" where
  "access_error_of access_error.Busy =
     (STIERR_DEVICE_LOCKED, Lit ''Scanner operation is already active'')"
| "access_error_of NotLocked = (STIERR_NEEDS_LOCK, Lit ''LockDevice is required'')"
| "access_error_of IsQuarantined = (STIERR_GENERIC, Lit (''Scanner session is quarantined after ''
     @ ''uncertain transport state; reconnect the device before creating a new driver object''))"
| "access_error_of (OpenFailed er) =
     (io_error_hresult er, Fmt [Lit ''Opening scanner failed: '', Shown er])"

section \<open>State\<close>

text \<open>The service's helper is a number; a null pointer is \<open>None\<close>.\<close>

record sti_inner =
  initialized :: bool
  sti_locked :: bool
  helper :: "nat option"
  helper_port_name :: "u16 list"
  last_error :: int
  last_error_info :: sti_error_info

record ('r, 'w) sti =
  inner :: sti_inner
  session :: "'r connection"
  around :: 'w

definition inner_new :: sti_inner where
  "inner_new = \<lparr>initialized = False, sti_locked = False, helper = None, helper_port_name = [],
     last_error = S_OK, last_error_info = info_new\<rparr>"

definition state_new :: "'w \<Rightarrow> ('r, 'w) sti" where
  "state_new w = \<lparr>inner = inner_new, session = slot_new, around = w\<rparr>"

record ('r, 'w) sti_system =
  table_live :: "nat \<Rightarrow> ('r, 'w) sti \<Rightarrow> bool"
  helper_add_ref :: "nat \<Rightarrow> ('r, 'w) sti \<Rightarrow> ('r, 'w) sti"
  helper_release :: "nat \<Rightarrow> ('r, 'w) sti \<Rightarrow> ('r, 'w) sti"
  get_my_device_port_name :: "nat \<Rightarrow> nat \<Rightarrow> ('r, 'w) sti \<Rightarrow> (int \<times> u16 list) \<times> ('r, 'w) sti"
  usb_open :: "sti_inner \<times> 'w \<Rightarrow> 'r io outcome \<times> sti_inner \<times> 'w"
  usb_open_matching_path :: "u16 list \<Rightarrow> sti_inner \<times> 'w \<Rightarrow> 'r io outcome \<times> sti_inner \<times> 'w"
  usb_write :: "bytes \<Rightarrow> 'r \<Rightarrow> sti_inner \<times> 'w \<Rightarrow> unit io outcome \<times> 'r \<times> sti_inner \<times> 'w"
  usb_read :: "nat \<Rightarrow> 'r \<Rightarrow> sti_inner \<times> 'w \<Rightarrow> (nat \<times> bytes) io outcome \<times> 'r \<times> sti_inner \<times> 'w"
  usb_drop :: "'r \<Rightarrow> sti_inner \<times> 'w \<Rightarrow> unit outcome \<times> sti_inner \<times> 'w"
  os_text :: "int \<Rightarrow> scalars"

definition on_slot ::
    "('r connection \<times> sti_inner \<times> 'w \<Rightarrow> 'a \<times> 'r connection \<times> sti_inner \<times> 'w) \<Rightarrow>
     ('r, 'w) sti \<Rightarrow> 'a \<times> ('r, 'w) sti" where
  "on_slot f s = (case f (session s, inner s, around s) of
     (a, c, i, w) \<Rightarrow> (a, s\<lparr>inner := i, session := c, around := w\<rparr>))"

definition set_last_error_inner ::
    "('r, 'w) sti_system \<Rightarrow> int \<Rightarrow> message \<Rightarrow> sti_inner \<Rightarrow> sti_inner" where
  "set_last_error_inner y code m i =
     i\<lparr>last_error := code, last_error_info := with_message code (units_of (os_text y) m)\<rparr>"

definition set_last_error ::
    "('r, 'w) sti_system \<Rightarrow> int \<Rightarrow> message \<Rightarrow> ('r, 'w) sti \<Rightarrow> ('r, 'w) sti" where
  "set_last_error y code m s = s\<lparr>inner := set_last_error_inner y code m (inner s)\<rparr>"

definition clear_last_error :: "('r, 'w) sti_system \<Rightarrow> ('r, 'w) sti \<Rightarrow> ('r, 'w) sti" where
  "clear_last_error y = set_last_error y S_OK (Lit [])"

section \<open>The scanner session\<close>

definition port_selects_unique_device :: "u16 list \<Rightarrow> bool" where
  "port_selects_unique_device port =
     (let name = takeWhile (\<lambda>u. u \<noteq> 0) port;
          upper = (\<lambda>u :: u16. if 0x61 \<le> u \<and> u \<le> 0x7a then u - 0x20 else u)
      in length name = 4 \<and> map upper name = [0x41, 0x55, 0x54, 0x4f])"

definition open_scanner ::
    "('r, 'w) sti_system \<Rightarrow> u16 list \<Rightarrow> sti_inner \<times> 'w \<Rightarrow> 'r io outcome \<times> sti_inner \<times> 'w" where
  "open_scanner y port =
     (if port_selects_unique_device port then usb_open y else usb_open_matching_path y port)"

text \<open>A fallible call of the session inside an operation: \<open>?\<close> with the error mapped.\<close>

definition then_session ::
    "'a io outcome \<times> 'r \<times> 'x \<Rightarrow> (io_error \<Rightarrow> 'e) \<Rightarrow> ('a \<Rightarrow> 'r \<Rightarrow> 'x \<Rightarrow> ('e + 'b) outcome \<times> 'r \<times> 'x) \<Rightarrow>
     ('e + 'b) outcome \<times> 'r \<times> 'x" where
  "then_session m f k = (case m of
     (Panicked, r, x) \<Rightarrow> (Panicked, r, x)
   | (Returned (Inl er), r, x) \<Rightarrow> (Returned (Inl (f er)), r, x)
   | (Returned (Inr a), r, x) \<Rightarrow> k a r x)"

definition perform_presence_check ::
    "('r, 'w) sti_system \<Rightarrow> 'r \<Rightarrow> sti_inner \<times> 'w \<Rightarrow>
     (int \<times> message + capabilities) outcome \<times> 'r \<times> sti_inner \<times> 'w" where
  "perform_presence_check y r x =
     then_session (usb_write y INQUIRY_COMMAND r x)
       (\<lambda>er. (io_error_hresult er, Fmt [Lit ''INQUIRY write failed: '', Shown er]))
       (\<lambda>_ r x.
          then_session (usb_read y INQUIRY_READ_BYTES r x)
            (\<lambda>er. (io_error_hresult er, Fmt [Lit ''INQUIRY read failed: '', Shown er]))
            (\<lambda>(transferred, response) r x.
               (Returned
                  (if transferred > INQUIRY_READ_BYTES
                   then Inl (STIERR_GENERIC,
                     Lit ''INQUIRY returned more data than its bounded buffer'')
                   else map_err (\<lambda>er. (STIERR_GENERIC,
                       Fmt [Lit ''INQUIRY capability response was invalid: '', Shown er]))
                     (parse (take transferred response))), r, x)))"

text \<open>What both users of the session check first: \<open>None\<close> is to go on.\<close>

definition lock_missing :: "sti_inner \<Rightarrow> (int \<times> string) option" where
  "lock_missing i =
     (if \<not> initialized i then Some (STIERR_NOT_INITIALIZED, ''IStiUSD is not initialized'')
      else if \<not> sti_locked i then Some (STIERR_NEEDS_LOCK, ''LockDevice is required'')
      else None)"

text \<open>\<open>map_err(..).and_then(|result| result)\<close> on the result of \<open>with_session\<close>.\<close>

definition joined :: "(access_error \<Rightarrow> 'e) \<Rightarrow> (access_error + ('e + 'a)) outcome \<Rightarrow> ('e + 'a) outcome" where
  "joined f r = (case r of
     Panicked \<Rightarrow> Panicked | Returned res \<Rightarrow> Returned (and_then (map_err f res) id))"

definition presence_capabilities ::
    "('r, 'w) sti_system \<Rightarrow> ('r, 'w) sti \<Rightarrow> (int \<times> message + capabilities) outcome \<times> ('r, 'w) sti" where
  "presence_capabilities y s = (case lock_missing (inner s) of
     Some (code, text) \<Rightarrow> (Returned (Inl (code, Lit text)), s)
   | None \<Rightarrow>
       (case on_slot (with_session (usb_drop y) (\<lambda>r x.
            case perform_presence_check y r x of
              (Panicked, r, x) \<Rightarrow> (Panicked, r, x)
            | (Returned res, r, x) \<Rightarrow> (Returned (res, \<not> isl res), r, x))) s of
          (res, s) \<Rightarrow> (joined access_error_of res, s)))"

definition live_capabilities ::
    "('r, 'w) sti_system \<Rightarrow> ('r, 'w) sti \<Rightarrow> (int \<times> message + capabilities) outcome \<times> ('r, 'w) sti" where
  "live_capabilities y s = (case presence_capabilities y s of
     (Panicked, s) \<Rightarrow> (Panicked, s)
   | (Returned (Inr c), s) \<Rightarrow> (Returned (Inr c), clear_last_error y s)
   | (Returned (Inl (code, text)), s) \<Rightarrow>
       (Returned (Inl (code, text)), set_last_error y code text s))"

fun scan_access_error :: "access_error \<Rightarrow> io_error" where
  "scan_access_error (OpenFailed er) = er"
| "scan_access_error access_error.Busy =
     Custom WouldBlock (Message (Lit ''Scanner operation is already active''))"
| "scan_access_error NotLocked = Custom NotConnected (Message (Lit ''LockDevice is required''))"
| "scan_access_error IsQuarantined = Custom ConnectionAborted (Message (Lit
     ''Scanner session is quarantined; reconnect before creating a new driver object''))"

text \<open>
  A scan of the model may run out of fuel; then there is no result at all. \<open>run\<close> otherwise
  returns or panics, and answers with the session's health.
\<close>

definition with_scan_session ::
    "('r, 'w) sti_system \<Rightarrow>
     ('r \<Rightarrow> sti_inner \<times> 'w \<Rightarrow> (('a io \<times> session_health) outcome \<times> 'r \<times> sti_inner \<times> 'w) option) \<Rightarrow>
     ('r, 'w) sti \<Rightarrow> ('a io outcome \<times> ('r, 'w) sti) option" where
  "with_scan_session y run s = (case lock_missing (inner s) of
     Some (_, text) \<Rightarrow> Some (Returned (Inl (Custom NotConnected (Message (Lit text)))), s)
   | None \<Rightarrow>
       (case on_slot (with_session (usb_drop y) (\<lambda>r x.
            case run r x of
              None \<Rightarrow> (Returned (None, True), r, x)
            | Some (Panicked, r, x) \<Rightarrow> (Panicked, r, x)
            | Some (Returned (res, health), r, x) \<Rightarrow> (Returned (Some res, health = Ready), r, x))) s of
          (Panicked, s) \<Rightarrow> Some (Panicked, s)
        | (Returned (Inr None), s) \<Rightarrow> None
        | (Returned res, s) \<Rightarrow>
            (case and_then (map_err scan_access_error res) the of
               Inr a \<Rightarrow> Some (Returned (Inr a), clear_last_error y s)
             | Inl er \<Rightarrow> Some (Returned (Inl er),
                 set_last_error y (io_error_hresult er) (Shown er) s))))"

end
