(* ===== verification/Sti_Device.thy ===== *)
theory Sti_Device
  imports Sti_State
begin

unbundle bit_operations_syntax

text \<open>
  The methods of IStiUSD, from \<open>src/com_server/sti.rs\<close>. A method takes the receiver and its
  output structure, either of which may be a null pointer, and returns the \<open>HRESULT\<close>, the
  receiver and the structure; a panic below it is contained by \<open>catch_hresult\<close>.
\<close>

section \<open>Receivers and failures\<close>

definition catch_hresult :: "int outcome \<Rightarrow> int" where
  "catch_hresult r = (case r of Returned hr \<Rightarrow> hr | Panicked \<Rightarrow> E_UNEXPECTED)"

definition caught :: "int outcome \<times> 'x \<Rightarrow> int \<times> 'x" where
  "caught = (\<lambda>(r, x). (catch_hresult r, x))"

text \<open>\<open>state_from_this\<close> with its early return.\<close>

definition on_this ::
    "'s option \<Rightarrow> 'o \<Rightarrow> ('s \<Rightarrow> int outcome \<times> 's \<times> 'o) \<Rightarrow> int outcome \<times> 's option \<times> 'o" where
  "on_this this dst k = (case this of
     None \<Rightarrow> (Returned E_POINTER, None, dst)
   | Some s \<Rightarrow> (case k s of (r, s, dst) \<Rightarrow> (r, Some s, dst)))"

definition fail ::
    "('r, 'w) sti_system \<Rightarrow> int \<Rightarrow> message \<Rightarrow> ('r, 'w) sti \<Rightarrow> 'o \<Rightarrow> int outcome \<times> ('r, 'w) sti \<times> 'o" where
  "fail y code m s dst = (Returned code, set_last_error y code m s, dst)"

definition unsupported ::
    "('r, 'w) sti_system \<Rightarrow> string \<Rightarrow> ('r, 'w) sti \<Rightarrow> 'o \<Rightarrow> int outcome \<times> ('r, 'w) sti \<times> 'o" where
  "unsupported y text = fail y STIERR_UNSUPPORTED (Lit text)"

definition not_initialized ::
    "('r, 'w) sti_system \<Rightarrow> ('r, 'w) sti \<Rightarrow> 'o \<Rightarrow> int outcome \<times> ('r, 'w) sti \<times> 'o" where
  "not_initialized y = fail y STIERR_NOT_INITIALIZED (Lit ''IStiUSD is not initialized'')"

section \<open>The helper's port name\<close>

definition normalize_external_failure :: "int \<Rightarrow> int" where
  "normalize_external_failure hr = (if hr < 0 then hr else STIERR_GENERIC)"

text \<open>The zeroed buffer of \<open>capacity\<close> units after the helper has written to it.\<close>

definition filled :: "nat \<Rightarrow> u16 list \<Rightarrow> u16 list" where
  "filled capacity written = take capacity written @ replicate (capacity - length written) 0"

definition port_in :: "u16 list \<Rightarrow> int + u16 list" where
  "port_in buffer =
     (let name = takeWhile (\<lambda>u. u \<noteq> 0) buffer
      in if length name = length buffer \<or> name = [] then Inl STIERR_INVALID_DEVICE_NAME
         else Inr (take (length name + 1) buffer))"

partial_function (option) port_loop ::
    "('r, 'w) sti_system \<Rightarrow> nat \<Rightarrow> nat \<Rightarrow> ('r, 'w) sti \<Rightarrow> ((int + u16 list) \<times> ('r, 'w) sti) option" where
  "port_loop y h capacity s =
     (case get_my_device_port_name y h capacity s of ((hr, written), s) \<Rightarrow>
        if hr = S_OK then Some (port_in (filled capacity written), s)
        else if hr = INSUFFICIENT_BUFFER \<and> capacity < MAX_DEVICE_PATH_WORDS
        then port_loop y h (min (capacity * 2) MAX_DEVICE_PATH_WORDS) s
        else Some (Inl (normalize_external_failure hr), s))"

definition read_helper_port ::
    "('r, 'w) sti_system \<Rightarrow> nat \<Rightarrow> ('r, 'w) sti \<Rightarrow> ((int + u16 list) \<times> ('r, 'w) sti) option" where
  "read_helper_port y h s =
     (if \<not> table_live y h s then Some (Inl E_POINTER, s)
      else port_loop y h STI_MAX_INTERNAL_NAME_LENGTH s)"

definition add_ref_helper :: "('r, 'w) sti_system \<Rightarrow> nat \<Rightarrow> ('r, 'w) sti \<Rightarrow> (int + unit) \<times> ('r, 'w) sti" where
  "add_ref_helper y h s =
     (if table_live y h s then (Inr (), helper_add_ref y h s) else (Inl E_POINTER, s))"

definition release_helper :: "('r, 'w) sti_system \<Rightarrow> nat \<Rightarrow> ('r, 'w) sti \<Rightarrow> ('r, 'w) sti" where
  "release_helper y h s = (if table_live y h s then helper_release y h s else s)"

section \<open>Initialize\<close>

text \<open>
  The publication of a new helper, one critical section: the result, and the extra
  reference to release when another caller was faster.
\<close>

definition initialize_publish ::
    "('r, 'w) sti_system \<Rightarrow> nat \<Rightarrow> u16 list \<Rightarrow> sti_inner \<Rightarrow> (int \<times> nat option) \<times> sti_inner" where
  "initialize_publish y h port_name i =
     (if initialized i
      then ((STIERR_ALREADY_INITIALIZED, Some h),
        set_last_error_inner y STIERR_ALREADY_INITIALIZED (Lit ''IStiUSD is already initialized'') i)
      else ((S_OK, None), set_last_error_inner y S_OK (Lit [])
        (i\<lparr>initialized := True, helper := Some h, helper_port_name := port_name\<rparr>)))"

text \<open>
  A dedicated device is opened at once; a failure is retried by \<open>LockDevice\<close>, so the
  result of opening is dropped, but a panic goes on.
\<close>

definition initialize_finish ::
    "('r, 'w) sti_system \<Rightarrow> nat \<Rightarrow> u16 list \<Rightarrow> ('r, 'w) sti \<Rightarrow> int outcome \<times> ('r, 'w) sti" where
  "initialize_finish y h port_name s =
     (let ((hr, extra), i) = initialize_publish y h port_name (inner s);
          s = s\<lparr>inner := i\<rparr>;
          s = (case extra of None \<Rightarrow> s | Some h \<Rightarrow> release_helper y h s)
      in if hr = S_OK
         then case on_slot (slot_open (open_scanner y (helper_port_name (inner s)))) s of
             (Panicked, s) \<Rightarrow> (Panicked, s)
           | (Returned _, s) \<Rightarrow> (Returned hr, s)
         else (Returned hr, s))"

definition initialize_live ::
    "('r, 'w) sti_system \<Rightarrow> nat option \<Rightarrow> u32 \<Rightarrow> ('r, 'w) sti \<Rightarrow> (int outcome \<times> ('r, 'w) sti) option" where
  "initialize_live y helper_arg sti_version s =
     (let failing = (\<lambda>code text s. Some (Returned code, set_last_error y code (Lit text) s))
      in case helper_arg of
           None \<Rightarrow> failing E_POINTER ''IStiDeviceControl is null'' s
         | Some h \<Rightarrow>
             if sti_version AND NOT STI_VERSION_FLAG_MASK < STI_VERSION_MIN_ALLOWED
             then failing STIERR_OLD_VERSION ''Unsupported STI version'' s
             else if initialized (inner s)
             then failing STIERR_ALREADY_INITIALIZED ''IStiUSD is already initialized'' s
             else if \<not> table_live y h s
             then failing E_POINTER ''Invalid IStiDeviceControl interface'' s
             else case add_ref_helper y h s of
               (Inl er, s) \<Rightarrow> failing er ''Unable to retain IStiDeviceControl'' s
             | (Inr _, s) \<Rightarrow>
                 (case read_helper_port y h s of
                    None \<Rightarrow> None
                  | Some (Inl er, s) \<Rightarrow> failing er ''GetMyDevicePortName failed'' (release_helper y h s)
                  | Some (Inr port_name, s) \<Rightarrow> Some (initialize_finish y h port_name s)))"

definition initialize ::
    "('r, 'w) sti_system \<Rightarrow> ('r, 'w) sti option \<Rightarrow> nat option \<Rightarrow> u32 \<Rightarrow>
     (int \<times> ('r, 'w) sti option) option" where
  "initialize y this helper_arg sti_version = (case this of
     None \<Rightarrow> Some (E_POINTER, None)
   | Some s \<Rightarrow> map_option (\<lambda>(r, s). (catch_hresult r, Some s))
       (initialize_live y helper_arg sti_version s))"

section \<open>Capabilities, status and notification\<close>

definition usd_capabilities :: sti_usd_caps where
  "usd_capabilities = \<lparr>caps_version = STI_VERSION_3, caps_generic = STI_GENCAP_WIA\<rparr>"

definition get_capabilities ::
    "('r, 'w) sti_system \<Rightarrow> ('r, 'w) sti option \<Rightarrow> sti_usd_caps option \<Rightarrow>
     int \<times> ('r, 'w) sti option \<times> sti_usd_caps option" where
  "get_capabilities y this caps = caught
     (if caps = None then (Returned E_POINTER, this, caps)
      else on_this this caps (\<lambda>s.
        if \<not> initialized (inner s) then not_initialized y s caps
        else (Returned S_OK, clear_last_error y s, Some usd_capabilities)))"

definition empty_status :: sti_device_status where
  "empty_status = \<lparr>status_size = SIZE_DEVICE_STATUS, status_mask = 0, online_state = 0,
     hardware_status_code = 0, event_handling_state = 0, polling_interval = 0\<rparr>"

definition get_status ::
    "('r, 'w) sti_system \<Rightarrow> ('r, 'w) sti option \<Rightarrow> sti_device_status option \<Rightarrow>
     int \<times> ('r, 'w) sti option \<times> sti_device_status option" where
  "get_status y this st = caught (case st of
     None \<Rightarrow> (Returned E_POINTER, this, None)
   | Some supplied \<Rightarrow> on_this this st (\<lambda>s.
       if \<not> initialized (inner s) then not_initialized y s st
       else if status_size supplied \<noteq> SIZE_DEVICE_STATUS
       then fail y STIERR_INVALID_PARAM (Lit ''Invalid STI_DEVICE_STATUS size'') s st
       else unsupported y ''GetStatus is not supported'' s (Some empty_status)))"

definition empty_notify :: sti_notify where
  "empty_notify = \<lparr>notify_size = SIZE_NOTIFY,
     notification_code = \<lparr>data1 = 0, data2 = 0, data3 = 0, data4 = replicate 8 0\<rparr>,
     notification_data = replicate 64 0\<rparr>"

definition get_notification_data ::
    "('r, 'w) sti_system \<Rightarrow> ('r, 'w) sti option \<Rightarrow> sti_notify option \<Rightarrow>
     int \<times> ('r, 'w) sti option \<times> sti_notify option" where
  "get_notification_data y this notification = caught
     (if notification = None then (Returned E_POINTER, this, notification)
      else on_this this notification (\<lambda>s.
        unsupported y ''GetNotificationData is not supported'' s (Some empty_notify)))"

section \<open>Diagnostic\<close>

definition write_diagnostic_error ::
    "('r, 'w) sti_system \<Rightarrow> int \<Rightarrow> message \<Rightarrow> sti_diag \<Rightarrow> sti_diag" where
  "write_diagnostic_error y code m buffer =
     buffer\<lparr>diag_status_mask := 0, diag_error_info := with_message code (units_of (os_text y) m)\<rparr>"

definition write_diagnostic_success :: "u32 \<Rightarrow> u32 \<Rightarrow> sti_diag" where
  "write_diagnostic_success basic vendor = \<lparr>diag_size = SIZE_DIAG, basic_diag_code = basic,
     vendor_diag_code = vendor, diag_status_mask = 0, diag_error_info = info_new\<rparr>"

definition diagnostic_failure ::
    "('r, 'w) sti_system \<Rightarrow> int \<Rightarrow> message \<Rightarrow> ('r, 'w) sti \<Rightarrow> sti_diag \<Rightarrow>
     int outcome \<times> ('r, 'w) sti \<times> sti_diag option" where
  "diagnostic_failure y code m s buffer =
     fail y code m s (Some (write_diagnostic_error y code m buffer))"

definition diagnostic_checked ::
    "('r, 'w) sti_system \<Rightarrow> sti_diag \<Rightarrow> ('r, 'w) sti \<Rightarrow> int outcome \<times> ('r, 'w) sti \<times> sti_diag option" where
  "diagnostic_checked y supplied s =
     (let basic = basic_diag_code supplied; vendor = vendor_diag_code supplied
      in if basic \<noteq> STI_DIAGCODE_HWPRESENCE \<or> vendor \<noteq> 0
         then diagnostic_failure y STIERR_INVALID_PARAM
           (Lit ''Only STI_DIAGCODE_HWPRESENCE is supported'') s supplied
         else case live_capabilities y s of
             (Panicked, s) \<Rightarrow> (Panicked, s, Some supplied)
           | (Returned (Inr _), s) \<Rightarrow>
               (Returned S_OK, clear_last_error y s, Some (write_diagnostic_success basic vendor))
           | (Returned (Inl (code, text)), s) \<Rightarrow> diagnostic_failure y code text s supplied)"

definition diagnostic ::
    "('r, 'w) sti_system \<Rightarrow> ('r, 'w) sti option \<Rightarrow> sti_diag option \<Rightarrow>
     int \<times> ('r, 'w) sti option \<times> sti_diag option" where
  "diagnostic y this buffer = caught (case buffer of
     None \<Rightarrow> (Returned E_POINTER, this, None)
   | Some supplied \<Rightarrow> on_this this buffer (\<lambda>s.
       if diag_size supplied \<noteq> SIZE_DIAG
       then fail y STIERR_INVALID_PARAM (Lit ''Invalid STI_DIAG size'') s buffer
       else diagnostic_checked y supplied s))"

section \<open>The last error\<close>

definition get_last_error ::
    "('r, 'w) sti option \<Rightarrow> u32 option \<Rightarrow> int \<times> ('r, 'w) sti option \<times> u32 option" where
  "get_last_error this code = caught
     (if code = None then (Returned E_POINTER, this, code)
      else on_this this code (\<lambda>s.
        (Returned S_OK, s, Some (word_of_int (last_error (inner s))))))"

definition get_last_error_info ::
    "('r, 'w) sti option \<Rightarrow> sti_error_info option \<Rightarrow> int \<times> ('r, 'w) sti option \<times> sti_error_info option" where
  "get_last_error_info this info = caught
     (if info = None then (Returned E_POINTER, this, info)
      else on_this this info (\<lambda>s. (Returned S_OK, s, Some (last_error_info (inner s)))))"

section \<open>The service lock\<close>

definition set_sti_locked :: "bool \<Rightarrow> ('r, 'w) sti \<Rightarrow> ('r, 'w) sti" where
  "set_sti_locked b s = s\<lparr>inner := (inner s)\<lparr>sti_locked := b\<rparr>\<rparr>"

definition lock_opened ::
    "('r, 'w) sti_system \<Rightarrow> u16 list \<Rightarrow> ('r, 'w) sti \<Rightarrow> (access_error + unit) outcome \<times> ('r, 'w) sti" where
  "lock_opened y path s = (case status_of (session s) of
     StatusLocked \<Rightarrow> (Returned (Inr ()), s)
   | StatusUnlocked \<Rightarrow> on_slot (slot_open (open_scanner y path)) s
   | StatusQuarantined \<Rightarrow> (Returned (Inl IsQuarantined), s)
   | StatusBusy \<Rightarrow> (Returned (Inl access_error.Busy), s))"

definition lock_device ::
    "('r, 'w) sti_system \<Rightarrow> ('r, 'w) sti option \<Rightarrow> int \<times> ('r, 'w) sti option \<times> unit" where
  "lock_device y this = caught (on_this this () (\<lambda>s.
     if \<not> initialized (inner s) then not_initialized y s ()
     else if sti_locked (inner s)
     then fail y STIERR_DEVICE_LOCKED (Lit ''Device is already locked'') s ()
     else case lock_opened y (helper_port_name (inner s)) s of
         (Panicked, s) \<Rightarrow> (Panicked, s, ())
       | (Returned (Inr _), s) \<Rightarrow> (Returned S_OK, clear_last_error y (set_sti_locked True s), ())
       | (Returned (Inl er), s) \<Rightarrow> (case access_error_of er of (code, m) \<Rightarrow> fail y code m s ())))"

definition un_lock_device ::
    "('r, 'w) sti_system \<Rightarrow> ('r, 'w) sti option \<Rightarrow> int \<times> ('r, 'w) sti option \<times> unit" where
  "un_lock_device y this = caught (on_this this () (\<lambda>s.
     let refuse = (\<lambda>er. case access_error_of er of (code, m) \<Rightarrow> fail y code m s ())
     in if \<not> initialized (inner s) then not_initialized y s ()
        else if \<not> sti_locked (inner s) then refuse NotLocked
        else case status_of (session s) of
            StatusBusy \<Rightarrow> refuse access_error.Busy
          | StatusQuarantined \<Rightarrow> refuse IsQuarantined
          | _ \<Rightarrow> (Returned S_OK, clear_last_error y (set_sti_locked False s), ())))"

section \<open>Operations the driver does not have\<close>

definition device_reset ::
    "('r, 'w) sti_system \<Rightarrow> ('r, 'w) sti option \<Rightarrow> int \<times> ('r, 'w) sti option \<times> unit" where
  "device_reset y this =
     caught (on_this this () (\<lambda>s. unsupported y ''DeviceReset is not supported'' s ()))"

text \<open>The count is cleared before the receiver is looked at.\<close>

definition refused_count ::
    "('r, 'w) sti_system \<Rightarrow> string \<Rightarrow> ('r, 'w) sti option \<Rightarrow> u32 option \<Rightarrow>
     int \<times> ('r, 'w) sti option \<times> u32 option" where
  "refused_count y text this actual = caught
     (if actual = None then (Returned E_POINTER, this, actual)
      else on_this this (Some 0) (\<lambda>s. unsupported y text s (Some 0)))"

definition escape ::
    "('r, 'w) sti_system \<Rightarrow> ('r, 'w) sti option \<Rightarrow> u32 option \<Rightarrow>
     int \<times> ('r, 'w) sti option \<times> u32 option" where
  "escape y = refused_count y ''Escape is not supported''"

definition raw_read_data ::
    "('r, 'w) sti_system \<Rightarrow> ('r, 'w) sti option \<Rightarrow> u32 option \<Rightarrow>
     int \<times> ('r, 'w) sti option \<times> u32 option" where
  "raw_read_data y = refused_count y ''RawReadData is not supported''"

definition raw_read_command ::
    "('r, 'w) sti_system \<Rightarrow> ('r, 'w) sti option \<Rightarrow> u32 option \<Rightarrow>
     int \<times> ('r, 'w) sti option \<times> u32 option" where
  "raw_read_command y = refused_count y ''RawReadCommand is not supported''"

definition raw_write_data ::
    "('r, 'w) sti_system \<Rightarrow> ('r, 'w) sti option \<Rightarrow> int \<times> ('r, 'w) sti option \<times> unit" where
  "raw_write_data y this =
     caught (on_this this () (\<lambda>s. unsupported y ''RawWriteData is not supported'' s ()))"

definition raw_write_command ::
    "('r, 'w) sti_system \<Rightarrow> ('r, 'w) sti option \<Rightarrow> int \<times> ('r, 'w) sti option \<times> unit" where
  "raw_write_command y this =
     caught (on_this this () (\<lambda>s. unsupported y ''RawWriteCommand is not supported'' s ()))"

definition set_notification_handle ::
    "('r, 'w) sti_system \<Rightarrow> ('r, 'w) sti option \<Rightarrow> int \<times> ('r, 'w) sti option \<times> unit" where
  "set_notification_handle y this =
     caught (on_this this () (\<lambda>s. unsupported y ''SetNotificationHandle is not supported'' s ()))"

section \<open>Scans and the end of the object\<close>

text \<open>
  The scan runs in a world that consists of the session and what the slot leaves to other
  callers. The cancellation flag is read before the session is borrowed.
\<close>

definition sti_scan_bmp ::
    "('r, 'w \<times> 'o) sti_system \<Rightarrow> nat \<Rightarrow> 'o stream \<Rightarrow>
     ('r \<times> sti_inner \<times> 'w \<Rightarrow> nat io \<times> ('r \<times> sti_inner \<times> 'w)) \<Rightarrow> ('r \<times> sti_inner \<times> 'w) env \<Rightarrow>
     flatbed_settings \<Rightarrow> bool \<Rightarrow> ('r, 'w \<times> 'o) sti \<Rightarrow>
     (scan_summary io outcome \<times> ('r, 'w \<times> 'o) sti) option" where
  "sti_scan_bmp y fuel wr max_transfer e settings cancelled_before s = (case to_request settings of
     Inl er \<Rightarrow> Some (Returned (Inl er), s)
   | Inr request \<Rightarrow>
       if cancelled_before
       then Some (Returned (Inl (Custom Interrupted (Message (Lit ''Scan cancelled'')))), s)
       else with_scan_session y (\<lambda>r (i, w, st).
              map_option (\<lambda>(a, (r, i, w), st). (Returned a, r, i, w, st))
                (scan_request_bmp_in_session fuel wr max_transfer e request
                   (settings_tone settings) ((r, i, w), st))) s)"

definition transfer_bmp ::
    "('r, 'w) sti_system \<Rightarrow> nat \<Rightarrow> 'o stream \<Rightarrow> ('o, 'r \<times> sti_inner \<times> 'w) callback \<Rightarrow>
     ('r \<times> sti_inner \<times> 'w \<Rightarrow> nat io \<times> ('r \<times> sti_inner \<times> 'w)) \<Rightarrow> ('r \<times> sti_inner \<times> 'w) env \<Rightarrow>
     flatbed_settings \<Rightarrow> bool \<Rightarrow> bool \<Rightarrow> u16 list \<Rightarrow> u16 list \<Rightarrow> ('r, 'w) sti \<Rightarrow>
     (transfer_outcome io outcome \<times> ('r, 'w) sti) option" where
  "transfer_bmp y fuel wr cb max_transfer e settings cancelled_before raw_callback item full_item s =
     (case to_request settings of
        Inl er \<Rightarrow> Some (Returned (Inl er), s)
      | Inr request \<Rightarrow>
          if cancelled_before then Some (Returned (Inr Cancelled), s)
          else with_scan_session y (\<lambda>r x.
                 map_option (\<lambda>(a, r, x). (Returned a, r, x))
                   (transfer_in_session fuel wr cb max_transfer e raw_callback request
                      (settings_tone settings) (nat (y_extent settings mod 2 ^ 32))
                      item full_item (r, x))) s)"

text \<open>
  \<open>Drop for State\<close>: the session is closed first; when its destructor panics the helper is
  not released.
\<close>

definition drop_state :: "('r, 'w) sti_system \<Rightarrow> ('r, 'w) sti \<Rightarrow> unit outcome \<times> ('r, 'w) sti" where
  "drop_state y s = (case on_slot (slot_unlock (usb_drop y)) s of
     (Panicked, s) \<Rightarrow> (Panicked, s)
   | (Returned _, s) \<Rightarrow>
       (let taken = helper (inner s);
            s = s\<lparr>inner := (inner s)\<lparr>helper := None\<rparr>\<rparr>
        in (Returned (), case taken of None \<Rightarrow> s | Some h \<Rightarrow> release_helper y h s)))"

section \<open>Every method\<close>

text \<open>
  The table of methods after IUnknown: a call with its arguments, on a live receiver. The
  outputs are left out; what they hold is stated of the methods themselves.
\<close>

datatype sti_call =
    Initialize "nat option" u32
  | GetCapabilities "sti_usd_caps option"
  | GetStatus "sti_device_status option"
  | DeviceReset
  | Diagnostic "sti_diag option"
  | Escape "u32 option"
  | GetLastError "u32 option"
  | LockDevice
  | UnLockDevice
  | RawReadData "u32 option"
  | RawWriteData
  | RawReadCommand "u32 option"
  | RawWriteCommand
  | SetNotificationHandle
  | GetNotificationData "sti_notify option"
  | GetLastErrorInfo "sti_error_info option"

definition without_output :: "int \<times> 's option \<times> 'o \<Rightarrow> (int \<times> 's) option" where
  "without_output = (\<lambda>(hr, this, _). map_option (Pair hr) this)"

fun sti_do :: "('r, 'w) sti_system \<Rightarrow> sti_call \<Rightarrow> ('r, 'w) sti \<Rightarrow> (int \<times> ('r, 'w) sti) option" where
  "sti_do y (Initialize h version) s =
     Option.bind (initialize y (Some s) h version) (\<lambda>(hr, this). map_option (Pair hr) this)"
| "sti_do y (GetCapabilities caps) s = without_output (get_capabilities y (Some s) caps)"
| "sti_do y (GetStatus st) s = without_output (get_status y (Some s) st)"
| "sti_do y DeviceReset s = without_output (device_reset y (Some s))"
| "sti_do y (Diagnostic buffer) s = without_output (diagnostic y (Some s) buffer)"
| "sti_do y (Escape actual) s = without_output (escape y (Some s) actual)"
| "sti_do y (GetLastError code) s = without_output (get_last_error (Some s) code)"
| "sti_do y LockDevice s = without_output (lock_device y (Some s))"
| "sti_do y UnLockDevice s = without_output (un_lock_device y (Some s))"
| "sti_do y (RawReadData actual) s = without_output (raw_read_data y (Some s) actual)"
| "sti_do y RawWriteData s = without_output (raw_write_data y (Some s))"
| "sti_do y (RawReadCommand actual) s = without_output (raw_read_command y (Some s) actual)"
| "sti_do y RawWriteCommand s = without_output (raw_write_command y (Some s))"
| "sti_do y SetNotificationHandle s = without_output (set_notification_handle y (Some s))"
| "sti_do y (GetNotificationData n) s = without_output (get_notification_data y (Some s) n)"
| "sti_do y (GetLastErrorInfo info) s = without_output (get_last_error_info (Some s) info)"

end
