(* ===== verification/Sti_Contract.thy ===== *)
theory Sti_Contract
  imports Sti_Device
begin

text \<open>
  What an STI device object keeps between calls, and the contract with the service's helper
  and the scanner session under which it does (the locale \<open>sti_calls\<close>). The helper may call
  the object again; it is only relied on to count its references, to stay valid while it is
  referenced, to leave the object as some other caller would leave it, and not to call an
  object that is being destroyed.
\<close>

section \<open>The invariant\<close>

definition port_ok :: "u16 list \<Rightarrow> bool" where
  "port_ok port \<longleftrightarrow> 2 \<le> length port \<and> length port \<le> MAX_DEVICE_PATH_WORDS
     \<and> last port = 0 \<and> 0 \<notin> set (butlast port)"

text \<open>The text always ends in a terminator, whatever was recorded.\<close>

definition info_ok :: "int \<Rightarrow> sti_error_info \<Rightarrow> bool" where
  "info_ok code info \<longleftrightarrow> info_size info = SIZE_ERROR_INFO \<and> vendor_error info = 0
     \<and> generic_error info = word_of_int code
     \<and> length (extended_text info) = TEXT_UNITS \<and> last (extended_text info) = 0"

definition inner_ok :: "sti_inner \<Rightarrow> bool" where
  "inner_ok i \<longleftrightarrow> info_ok (last_error i) (last_error_info i)
     \<and> (if initialized i then helper i \<noteq> None \<and> port_ok (helper_port_name i)
        else helper i = None \<and> helper_port_name i = [] \<and> \<not> sti_locked i)"

definition session_held :: "'r connection \<Rightarrow> bool" where
  "session_held c \<longleftrightarrow> (\<exists>r. c = Locked r) \<or> c = InUse \<or> c = Quarantined"

definition sti_ok :: "('r, 'w) sti \<Rightarrow> bool" where
  "sti_ok s \<longleftrightarrow> inner_ok (inner s) \<and> (sti_locked (inner s) \<longrightarrow> session_held (session s))
     \<and> (\<not> initialized (inner s) \<longrightarrow> session s = Unlocked)"

text \<open>Initialization is for good.\<close>

definition initialized_keeps :: "sti_inner \<Rightarrow> sti_inner \<Rightarrow> bool" where
  "initialized_keeps i i' \<longleftrightarrow> (initialized i \<longrightarrow>
     initialized i' \<and> helper i' = helper i \<and> helper_port_name i' = helper_port_name i)"

text \<open>References to the helper \<open>h\<close> beyond the one that the object's state owns.\<close>

definition surplus :: "(nat \<Rightarrow> 'w \<Rightarrow> int) \<Rightarrow> nat \<Rightarrow> ('r, 'w) sti \<Rightarrow> int" where
  "surplus refs h s = refs h (around s) - (if helper (inner s) = Some h then 1 else 0)"

definition sti_moves ::
    "(nat \<Rightarrow> 'w \<Rightarrow> int) \<Rightarrow> (nat \<Rightarrow> int) \<Rightarrow> ('r, 'w) sti \<Rightarrow> ('r, 'w) sti \<Rightarrow> bool" where
  "sti_moves refs d s s' \<longleftrightarrow> (sti_ok s \<longrightarrow> sti_ok s' \<and> initialized_keeps (inner s) (inner s'))
     \<and> (\<forall>h. surplus refs h s' = surplus refs h s + d h)"

abbreviation only :: "nat \<Rightarrow> int \<Rightarrow> nat \<Rightarrow> int" where
  "only h n \<equiv> \<lambda>k. if k = h then n else 0"

text \<open>
  What other callers can do while the slot is busy: their calls are refused, so they leave
  an initialized object as it is, but for the last error.
\<close>

definition undisturbed :: "(nat \<Rightarrow> 'w \<Rightarrow> int) \<Rightarrow> sti_inner \<times> 'w \<Rightarrow> sti_inner \<times> 'w \<Rightarrow> bool" where
  "undisturbed refs = (\<lambda>(i, w) (i', w'). initialized i \<and> inner_ok i \<longrightarrow>
     inner_ok i' \<and> initialized i' \<and> helper i' = helper i \<and> helper_port_name i' = helper_port_name i
     \<and> sti_locked i' = sti_locked i \<and> (\<forall>h. refs h w' = refs h w))"

lemma undisturbedI:
  "(initialized i \<Longrightarrow> inner_ok i \<Longrightarrow> inner_ok i' \<and> initialized i' \<and> helper i' = helper i
     \<and> helper_port_name i' = helper_port_name i \<and> sti_locked i' = sti_locked i
     \<and> (\<forall>h. refs h w' = refs h w)) \<Longrightarrow> undisturbed refs (i, w) (i', w')"
  by (simp add: undisturbed_def)

lemma undisturbed_refl [simp, intro]: "undisturbed refs x x"
  by (cases x) (simp add: undisturbed_def)

lemma undisturbed_trans [trans]: "undisturbed refs x x' \<Longrightarrow> undisturbed refs x' x'' \<Longrightarrow> undisturbed refs x x''"
  by (auto simp: undisturbed_def split: prod.splits)

lemma sti_moves_refl [simp, intro]: "sti_moves refs (\<lambda>_. 0) s s"
  by (simp add: sti_moves_def initialized_keeps_def)

lemma sti_moves_trans:
  "sti_moves refs d s s' \<Longrightarrow> sti_moves refs d' s' s'' \<Longrightarrow> sti_moves refs (\<lambda>h. d h + d' h) s s''"
  by (auto simp: sti_moves_def initialized_keeps_def)

lemma sti_moves_trans0 [trans]:
  "sti_moves refs (\<lambda>_. 0) s s' \<Longrightarrow> sti_moves refs (\<lambda>_. 0) s' s'' \<Longrightarrow> sti_moves refs (\<lambda>_. 0) s s''"
  using sti_moves_trans [of refs "\<lambda>_. 0" s s' "\<lambda>_. 0"] by simp

lemma sti_moves_cancel:
  "sti_moves refs (only h 1) s s' \<Longrightarrow> sti_moves refs (\<lambda>_. 0) s' s'' \<Longrightarrow>
     sti_moves refs (only h (- 1)) s'' s3 \<Longrightarrow> sti_moves refs (\<lambda>_. 0) s s3"
proof -
  assume a: "sti_moves refs (only h 1) s s'" "sti_moves refs (\<lambda>_. 0) s' s''"
    "sti_moves refs (only h (- 1)) s'' s3"
  have "(\<lambda>k. (only h 1) k + 0 + (only h (- 1)) k) = (\<lambda>_. 0)" by auto
  with sti_moves_trans [OF sti_moves_trans [OF a(1,2)] a(3)] show ?thesis by simp
qed

section \<open>The last error\<close>

lemma info_ok_with_message [simp]: "info_ok code (with_message code units)"
proof -
  have "length (take 254 units) \<le> 254" by simp
  then show ?thesis
    by (simp add: info_ok_def with_message_def info_new_def TEXT_UNITS_def Let_def last_append
        min_def)
qed

lemma with_message_units:
  "extended_text (with_message code units)
     = take 254 units @ replicate (255 - min 254 (length units)) 0"
  by (simp add: with_message_def info_new_def TEXT_UNITS_def Let_def min.commute)

lemma set_last_error_inner_simps [simp]:
  "initialized (set_last_error_inner y code m i) = initialized i"
  "sti_locked (set_last_error_inner y code m i) = sti_locked i"
  "helper (set_last_error_inner y code m i) = helper i"
  "helper_port_name (set_last_error_inner y code m i) = helper_port_name i"
  "last_error (set_last_error_inner y code m i) = code"
  "last_error_info (set_last_error_inner y code m i) = with_message code (units_of (os_text y) m)"
  by (simp_all add: set_last_error_inner_def)

lemma set_last_error_simps [simp]:
  "inner (set_last_error y code m s) = set_last_error_inner y code m (inner s)"
  "session (set_last_error y code m s) = session s"
  "around (set_last_error y code m s) = around s"
  by (simp_all add: set_last_error_def)

lemma inner_ok_recorded [simp]:
  "inner_ok i \<Longrightarrow> inner_ok (set_last_error_inner y code m i)"
  by (simp add: inner_ok_def)

lemma recorded_moves [simp, intro]: "sti_moves refs (\<lambda>_. 0) s (set_last_error y code m s)"
  by (simp add: sti_moves_def sti_ok_def initialized_keeps_def surplus_def)

lemma cleared_moves [simp, intro]: "sti_moves refs (\<lambda>_. 0) s (clear_last_error y s)"
  by (simp add: clear_last_error_def recorded_moves)

lemma then_recorded:
  "sti_moves refs d s s' \<Longrightarrow> sti_moves refs d s (set_last_error y code m s')"
  using sti_moves_trans [OF _ recorded_moves] by fastforce

lemma then_cleared: "sti_moves refs d s s' \<Longrightarrow> sti_moves refs d s (clear_last_error y s')"
  unfolding clear_last_error_def by (rule then_recorded)

lemma state_new_ok: "sti_ok (state_new w)"
  by (simp add: sti_ok_def state_new_def inner_new_def inner_ok_def info_ok_def info_new_def
      TEXT_UNITS_def S_OK_def slot_new_def)

section \<open>Calls on the session\<close>

lemma on_slot_cases:
  assumes "on_slot f s = (a, s')"
  obtains c i w where "f (session s, inner s, around s) = (a, c, i, w)"
    and "s' = s\<lparr>inner := i, session := c, around := w\<rparr>"
  using assms by (auto simp: on_slot_def split: prod.splits)

text \<open>
  A call on the slot that leaves the session held when it was, and whose external part is
  quiet, moves no reference.
\<close>

lemma slot_call_moves:
  assumes "on_slot f s = (a, s')" and "initialized (inner s)"
    and "\<And>c i w. f (session s, inner s, around s) = (a, c, i, w) \<Longrightarrow>
      undisturbed refs (inner s, around s) (i, w) \<and> (session_held (session s) \<longrightarrow> session_held c)"
    and "sti_ok s"
  shows "sti_moves refs (\<lambda>_. 0) s s' \<and> sti_locked (inner s') = sti_locked (inner s)
    \<and> initialized (inner s') \<and> helper_port_name (inner s') = helper_port_name (inner s)"
proof -
  obtain c i w where f: "f (session s, inner s, around s) = (a, c, i, w)"
    and s': "s' = s\<lparr>inner := i, session := c, around := w\<rparr>"
    using assms(1) by (rule on_slot_cases)
  from assms(3) [OF f] assms(2,4) show ?thesis
    by (auto simp: s' undisturbed_def sti_ok_def sti_moves_def initialized_keeps_def surplus_def)
qed

lemma opened_slot:
  assumes "slot_open f (c, x) = (a, c', x')" and "\<And>b x''. f x = (b, x'') \<Longrightarrow> undisturbed refs x x''"
  shows "undisturbed refs x x' \<and> (session_held c \<longrightarrow> c' = c) \<and> (a = Returned (Inr ()) \<longrightarrow> session_held c')"
  using assms
  by (cases c) (auto simp: slot_open_def open_entry_def open_exit_def session_held_def
      split: prod.splits outcome.splits sum.splits)

lemma used_slot:
  assumes "with_session d g (c, x) = (a, c', x')"
    and "\<And>r b r' x''. g r x = (b, r', x'') \<Longrightarrow> undisturbed refs x x''"
    and "\<And>r x b x''. d r x = (b, x'') \<Longrightarrow> undisturbed refs x x''"
  shows "undisturbed refs x x' \<and> (session_held c \<longrightarrow> session_held c')"
proof (cases "\<exists>r. c = Locked r")
  case True
  then obtain r where c: "c = Locked r" by blast
  obtain b r' x1 where g: "g r x = (b, r', x1)" by (cases "g r x") auto
  obtain e x2 where d: "d r' x1 = (e, x2)" by (cases "d r' x1") auto
  from assms(1) have "x' = x1 \<or> x' = x2" "session_held c'"
    by (auto simp: c g d with_session_def session_entry_def take_locked_def lease_drop_def Let_def
        session_held_def split: outcome.splits prod.splits if_splits)
  with assms(2) [OF g] assms(3) [OF d] show ?thesis by (auto intro: undisturbed_trans)
next
  case False
  with assms(1) show ?thesis
    by (cases c) (auto simp: with_session_def session_entry_def take_locked_def)
qed

section \<open>The contract\<close>

locale sti_calls =
  fixes y :: "('r, 'w) sti_system" and refs :: "nat \<Rightarrow> 'w \<Rightarrow> int"
  assumes table_stays: "table_live y h s = table_live y h s'"
    and retained_live: "0 < refs h (around s) \<Longrightarrow> table_live y h s"
    and add_ref_call: "sti_ok s \<Longrightarrow> sti_moves refs (only h 1) s (helper_add_ref y h s)"
    and release_call: "sti_moves refs (only h (- 1)) s (helper_release y h s)"
    and dying_release: "initialized (inner s) \<Longrightarrow> helper (inner s) = None \<Longrightarrow>
      helper (inner (helper_release y h s)) = None"
    and port_name_call: "sti_ok s \<Longrightarrow> get_my_device_port_name y h n s = (p, s') \<Longrightarrow>
      sti_moves refs (\<lambda>_. 0) s s'"
    and open_call: "usb_open y x = (a, x') \<Longrightarrow> undisturbed refs x x'"
    and open_path_call: "usb_open_matching_path y us x = (a, x') \<Longrightarrow> undisturbed refs x x'"
    and write_call: "usb_write y bs r x = (b, r', x') \<Longrightarrow> undisturbed refs x x'"
    and read_call: "usb_read y n r x = (c, r', x') \<Longrightarrow> undisturbed refs x x'"
    and drop_call: "usb_drop y r x = (d, x') \<Longrightarrow> undisturbed refs x x'"

context sti_calls
begin

lemma open_scanner_quiet: "open_scanner y port x = (a, x') \<Longrightarrow> undisturbed refs x x'"
  by (auto simp: open_scanner_def split: if_splits intro: open_call open_path_call)

lemma presence_quiet: "perform_presence_check y r x = (a, r', x') \<Longrightarrow> undisturbed refs x x'"
  by (auto simp: perform_presence_check_def then_session_def
      split: prod.splits outcome.splits sum.splits
      dest!: write_call read_call intro: undisturbed_trans)

lemma opening_moves:
  assumes "on_slot (slot_open (open_scanner y port)) s = (a, s')" and "initialized (inner s)"
    and "sti_ok s"
  shows "sti_moves refs (\<lambda>_. 0) s s' \<and> sti_locked (inner s') = sti_locked (inner s)
    \<and> initialized (inner s') \<and> (a = Returned (Inr ()) \<longrightarrow> session_held (session s'))"
proof -
  have slot: "undisturbed refs (inner s, around s) (i, w) \<and> (session_held (session s) \<longrightarrow> session_held c)
      \<and> (a = Returned (Inr ()) \<longrightarrow> session_held c)"
    if "slot_open (open_scanner y port) (session s, inner s, around s) = (a, c, i, w)" for c i w
    using opened_slot [OF that open_scanner_quiet] by auto
  have "sti_moves refs (\<lambda>_. 0) s s' \<and> sti_locked (inner s') = sti_locked (inner s)
    \<and> initialized (inner s') \<and> helper_port_name (inner s') = helper_port_name (inner s)"
    by (rule slot_call_moves [OF assms(1,2) _ assms(3)]) (use slot in blast)
  moreover have "a = Returned (Inr ()) \<longrightarrow> session_held (session s')"
    using assms(1) slot by (auto elim!: on_slot_cases)
  ultimately show ?thesis by blast
qed

lemma using_moves:
  assumes "on_slot (with_session (usb_drop y) g) s = (a, s')" and "initialized (inner s)"
    and "sti_ok s" and "\<And>r b r' x x'. g r x = (b, r', x') \<Longrightarrow> undisturbed refs x x'"
  shows "sti_moves refs (\<lambda>_. 0) s s' \<and> sti_locked (inner s') = sti_locked (inner s)
    \<and> initialized (inner s')"
proof -
  have "sti_moves refs (\<lambda>_. 0) s s' \<and> sti_locked (inner s') = sti_locked (inner s)
    \<and> initialized (inner s') \<and> helper_port_name (inner s') = helper_port_name (inner s)"
  proof (rule slot_call_moves [OF assms(1,2) _ assms(3)])
    fix c i w
    assume "with_session (usb_drop y) g (session s, inner s, around s) = (a, c, i, w)"
    from used_slot [OF this assms(4) drop_call]
    show "undisturbed refs (inner s, around s) (i, w) \<and> (session_held (session s) \<longrightarrow> session_held c)" .
  qed
  then show ?thesis by blast
qed

lemma lock_missing_None: "lock_missing i = None \<longleftrightarrow> initialized i \<and> sti_locked i"
  by (simp add: lock_missing_def)

lemma live_capabilities_moves:
  assumes "live_capabilities y s = (a, s')" and "sti_ok s"
  shows "sti_moves refs (\<lambda>_. 0) s s' \<and> sti_locked (inner s') = sti_locked (inner s)
    \<and> initialized (inner s') = initialized (inner s)"
proof -
  obtain b s1 where p: "presence_capabilities y s = (b, s1)" by fastforce
  have "sti_moves refs (\<lambda>_. 0) s s1 \<and> sti_locked (inner s1) = sti_locked (inner s)
    \<and> initialized (inner s1) = initialized (inner s)"
  proof (cases "lock_missing (inner s)")
    case None
    then have i: "initialized (inner s)" by (simp add: lock_missing_None)
    from None p obtain z where
      "on_slot (with_session (usb_drop y) (\<lambda>r x. case perform_presence_check y r x of
            (Panicked, r, x) \<Rightarrow> (Panicked, r, x)
          | (Returned res, r, x) \<Rightarrow> (Returned (res, \<not> isl res), r, x))) s = (z, s1)"
      by (auto simp: presence_capabilities_def split: prod.splits)
    then have "sti_moves refs (\<lambda>_. 0) s s1 \<and> sti_locked (inner s1) = sti_locked (inner s)
      \<and> initialized (inner s1)"
      by (rule using_moves [OF _ i assms(2)])
        (auto split: prod.splits outcome.splits dest: presence_quiet)
    with i show ?thesis by simp
  next
    case (Some x)
    with p show ?thesis by (auto simp: presence_capabilities_def split: prod.splits)
  qed
  with assms(1) p show ?thesis
    by (auto simp: live_capabilities_def clear_last_error_def then_recorded
        split: outcome.splits sum.splits)
qed

lemma with_scan_session_moves:
  assumes "with_scan_session y run s = Some (a, s')" and "sti_ok s"
    and "\<And>r x b r' x'. run r x = Some (b, r', x') \<Longrightarrow> undisturbed refs x x'"
  shows "sti_moves refs (\<lambda>_. 0) s s' \<and> sti_locked (inner s') = sti_locked (inner s)
    \<and> initialized (inner s') = initialized (inner s)"
proof (cases "lock_missing (inner s)")
  case None
  then have i: "initialized (inner s)" by (simp add: lock_missing_None)
  obtain z s1 where o: "on_slot (with_session (usb_drop y) (\<lambda>r x. case run r x of
            None \<Rightarrow> (Returned (None, True), r, x)
          | Some (Panicked, r, x) \<Rightarrow> (Panicked, r, x)
          | Some (Returned (res, health), r, x) \<Rightarrow> (Returned (Some res, health = Ready), r, x))) s
      = (z, s1)" by fastforce
  have "sti_moves refs (\<lambda>_. 0) s s1 \<and> sti_locked (inner s1) = sti_locked (inner s)
    \<and> initialized (inner s1)"
    by (rule using_moves [OF o i assms(2)])
      (auto split: prod.splits outcome.splits option.splits dest: assms(3))
  with assms(1) o None i show ?thesis
    by (auto simp: with_scan_session_def then_recorded then_cleared clear_last_error_def
        split: outcome.splits sum.splits option.splits prod.splits)
next
  case (Some x)
  with assms show ?thesis by (auto simp: with_scan_session_def split: prod.splits)
qed

end

end
