(* ===== verification/Sti_Life.thy ===== *)
theory Sti_Life
  imports Sti_Contract
begin

unbundle bit_operations_syntax

text \<open>
  Every method of the object keeps its invariant and its references under the contract of
  \<open>Sti_Contract\<close>: the loop over the port name, Initialize with a helper that calls back, the
  other methods, scans, and the end of the object.
\<close>

section \<open>The port name\<close>

lemma port_in_ok:
  assumes "port_in buffer = Inr p" and "length buffer \<le> MAX_DEVICE_PATH_WORDS"
  shows "port_ok p"
proof -
  let ?name = "takeWhile (\<lambda>u. u \<noteq> 0) buffer"
  have n: "length ?name < length buffer" "?name \<noteq> []"
    using assms(1) length_takeWhile_le [of "\<lambda>u. u \<noteq> 0" buffer]
    by (auto simp: port_in_def Let_def split: if_splits)
  have p: "p = ?name @ [buffer ! length ?name]"
    using assms(1) n
    by (auto simp: port_in_def Let_def take_Suc_conv_app_nth takeWhile_eq_take [symmetric] split: if_splits)
  have zero: "buffer ! length ?name = 0"
    using nth_length_takeWhile [OF n(1)] by simp
  moreover have "0 \<notin> set ?name" by (auto dest: set_takeWhileD)
  moreover have "1 \<le> length ?name" using n(2) by (simp add: Suc_le_eq)
  ultimately show ?thesis using n(1) assms(2) unfolding port_ok_def p by simp
qed

lemma length_filled [simp]: "length (filled capacity written) = capacity"
  by (simp add: filled_def min_def)

text \<open>Every code made from a Windows error is a failure.\<close>

lemma as_i32_neg: "bit (w :: u32) 31 \<Longrightarrow> as_i32 (unat w) < 0"
proof -
  assume "bit w 31"
  then have "bit (unat w) 31" by (simp add: bit_unsigned_iff)
  then have "\<not> unat w < 2 ^ 31" by (auto simp: bit_iff_odd)
  moreover have "int (unat w) < 2 ^ 32" using uint_lt2p [of w] by (simp flip: uint_nat)
  ultimately show ?thesis by (simp add: as_i32_def)
qed

lemma hresult_from_win32_neg: "e \<noteq> 0 \<Longrightarrow> hresult_from_win32 e < 0"
  unfolding hresult_from_win32_def by (simp add: as_i32_neg bit_simps)

lemma normalized_neg: "hr \<noteq> S_OK \<Longrightarrow> normalize_external_failure hr < 0"
  by (simp add: normalize_external_failure_def sti_code_defs)

text \<open>What reading the port name can answer.\<close>

definition port_answer :: "int + u16 list \<Rightarrow> bool" where
  "port_answer res \<longleftrightarrow> (case res of Inl er \<Rightarrow> er < 0 | Inr p \<Rightarrow> port_ok p)"

lemma port_in_answer: "length buffer \<le> MAX_DEVICE_PATH_WORDS \<Longrightarrow> port_answer (port_in buffer)"
  using port_in_ok [of buffer] hresult_from_win32_neg [of 123]
  by (auto simp: port_answer_def port_in_def STIERR_INVALID_DEVICE_NAME_def Let_def)

text \<open>One question to the helper, and the capacities it can be asked with.\<close>

definition asked :: "('r, 'w) sti_system \<Rightarrow> nat \<Rightarrow> nat \<Rightarrow> ('r, 'w) sti \<Rightarrow> ('r, 'w) sti" where
  "asked y h capacity s = snd (get_my_device_port_name y h capacity s)"

definition capacities :: "nat \<Rightarrow> nat \<Rightarrow> nat list" where
  "capacities k n = map (\<lambda>j. 128 * 2 ^ j) [k..<Suc n]"

lemma port_loop_returns:
  assumes "k \<le> 8"
  shows "\<exists>res n s'. port_loop y h (128 * 2 ^ k) s = Some (res, s') \<and> k \<le> n \<and> n \<le> 8
    \<and> s' = fold (asked y h) (capacities k n) s \<and> port_answer res"
  using assms
proof (induction "8 - k" arbitrary: k s)
  case 0
  then have k: "k = 8" by simp
  obtain hr written s1 where g: "get_my_device_port_name y h (128 * 2 ^ k) s = ((hr, written), s1)"
    by (metis prod.collapse)
  have "\<exists>res. port_loop y h (128 * 2 ^ k) s = Some (res, s1) \<and> port_answer res"
    using g by (subst port_loop.simps) (auto simp: k MAX_DEVICE_PATH_WORDS_def port_answer_def [of "Inl _"] normalized_neg intro: port_in_answer)
  moreover have "s1 = fold (asked y h) (capacities k 8) s"
    using g by (simp add: k capacities_def asked_def)
  ultimately show ?case using k by blast
next
  case (Suc d)
  obtain hr written s1 where g: "get_my_device_port_name y h (128 * 2 ^ k) s = ((hr, written), s1)"
    by (metis prod.collapse)
  have small: "(2::nat) ^ k \<le> 2 ^ 7" using Suc(2) by (intro power_increasing) auto
  then have bound: "128 * 2 ^ k < MAX_DEVICE_PATH_WORDS"
    "min (128 * 2 ^ k * 2) MAX_DEVICE_PATH_WORDS = 128 * 2 ^ Suc k"
    by (simp_all add: MAX_DEVICE_PATH_WORDS_def)
  have once: "s1 = fold (asked y h) (capacities k k) s"
    using g by (simp add: capacities_def asked_def)
  consider "hr = S_OK" | "hr \<noteq> S_OK" "hr = INSUFFICIENT_BUFFER" | "hr \<noteq> S_OK" "hr \<noteq> INSUFFICIENT_BUFFER"
    by blast
  then show ?case
  proof cases
    case 1
    then have "port_loop y h (128 * 2 ^ k) s = Some (port_in (filled (128 * 2 ^ k) written), s1)"
      using g by (subst port_loop.simps) simp
    moreover have "port_answer (port_in (filled (128 * 2 ^ k) written))"
      using bound(1) by (auto intro: port_in_answer)
    ultimately show ?thesis using once Suc(2,3) by (intro exI [of _ k] exI conjI) auto
  next
    case 2
    have "port_loop y h (128 * 2 ^ k) s = port_loop y h (128 * 2 ^ Suc k) s1"
      using g 2 bound by (subst port_loop.simps) simp
    moreover obtain res n s' where r: "port_loop y h (128 * 2 ^ Suc k) s1 = Some (res, s')"
        "Suc k \<le> n" "n \<le> 8" "s' = fold (asked y h) (capacities (Suc k) n) s1"
        "port_answer res"
    proof -
      have "d = 8 - Suc k" "Suc k \<le> 8" using Suc(2) by auto
      from Suc(1) [OF this, of s1] show ?thesis using that by blast
    qed
    moreover have "fold (asked y h) (capacities (Suc k) n) s1 = fold (asked y h) (capacities k n) s"
      using r(2) g by (simp add: capacities_def upt_rec [of k] asked_def)
    ultimately show ?thesis by (metis Suc_leD)
  next
    case 3
    then have "port_loop y h (128 * 2 ^ k) s = Some (Inl (normalize_external_failure hr), s1)"
      using g by (subst port_loop.simps) simp
    then show ?thesis using once Suc(2,3) 3
      by (intro exI [of _ k] exI conjI) (auto simp: port_answer_def normalized_neg)
  qed
qed

context sti_calls
begin

lemma asked_moves: "sti_ok s \<Longrightarrow> sti_moves refs (\<lambda>_. 0) s (asked y h n s)"
  using port_name_call [OF _ prod.collapse [symmetric]] by (simp add: asked_def)

lemma sti_moves_ok: "sti_moves refs d s s' \<Longrightarrow> sti_ok s \<Longrightarrow> sti_ok s'"
  by (simp add: sti_moves_def)

lemma asked_all_moves: "sti_ok s \<Longrightarrow> sti_moves refs (\<lambda>_. 0) s (fold (asked y h) ns s)"
proof (induction ns arbitrary: s)
  case (Cons n ns)
  from Cons(2) have m: "sti_moves refs (\<lambda>_. 0) s (asked y h n s)" by (rule asked_moves)
  also have "sti_moves refs (\<lambda>_. 0) (asked y h n s) (fold (asked y h) ns (asked y h n s))"
    using Cons sti_moves_ok [OF m] by blast
  finally show ?case by simp
qed simp

lemma read_helper_port_moves:
  assumes "sti_ok s"
  shows "\<exists>res s'. read_helper_port y h s = Some (res, s') \<and> sti_moves refs (\<lambda>_. 0) s s'
    \<and> port_answer res"
proof (cases "table_live y h s")
  case True
  from port_loop_returns [of 0 y h s] obtain res n s' where
    "port_loop y h 128 s = Some (res, s')" "s' = fold (asked y h) (capacities 0 n) s"
    "port_answer res" by auto
  with True asked_all_moves [OF assms] show ?thesis
    by (auto simp: read_helper_port_def STI_MAX_INTERNAL_NAME_LENGTH_def)
qed (auto simp: read_helper_port_def port_answer_def E_POINTER_def as_i32_def)

section \<open>Initialize\<close>

lemma release_helper_moves:
  "table_live y h s \<Longrightarrow> sti_moves refs (only h (- 1)) s (release_helper y h s)"
  using release_call by (simp add: release_helper_def)

lemma published_moves:
  assumes "sti_ok s" and "\<not> initialized (inner s)" and "port_ok p"
    and "initialize_publish y h p (inner s) = ((hr, extra), i)"
  shows "hr = S_OK \<and> extra = None \<and> sti_moves refs (only h (- 1)) s (s\<lparr>inner := i\<rparr>) \<and> initialized i
    \<and> sti_ok (s\<lparr>inner := i\<rparr>) \<and> helper_port_name i = p \<and> helper i = Some h"
proof -
  have i: "i = set_last_error_inner y S_OK (Lit [])
      ((inner s)\<lparr>initialized := True, helper := Some h, helper_port_name := p\<rparr>)"
    and r: "hr = S_OK" "extra = None" using assms(2,4) by (auto simp: initialize_publish_def)
  have none: "helper (inner s) = None" "\<not> sti_locked (inner s)" using assms(1,2)
    by (auto simp: sti_ok_def inner_ok_def)
  show ?thesis using assms none r
    by (auto simp: i sti_moves_def sti_ok_def inner_ok_def initialized_keeps_def surplus_def)
qed

lemma initialize_finish_moves:
  assumes "sti_ok s" and "port_ok p" and "table_live y h s"
    and "initialize_finish y h p s = (r, s')"
  shows "sti_moves refs (only h (- 1)) s s'"
proof (cases "initialized (inner s)")
  case True
  let ?s = "set_last_error y STIERR_ALREADY_INITIALIZED (Lit ''IStiUSD is already initialized'') s"
  have "s' = release_helper y h ?s"
    using assms(4) True
    by (auto simp: initialize_finish_def initialize_publish_def set_last_error_def Let_def
        sti_code_defs split: if_splits)
  moreover have "table_live y h ?s" using assms(3) table_stays by blast
  ultimately have "sti_moves refs (\<lambda>k. 0 + only h (- 1) k) s s'"
    using sti_moves_trans [OF recorded_moves release_helper_moves] by blast
  then show ?thesis by simp
next
  case False
  obtain hr extra i where pub: "initialize_publish y h p (inner s) = ((hr, extra), i)"
    by (metis prod.collapse)
  note i = published_moves [OF assms(1) False assms(2) pub]
  let ?s = "s\<lparr>inner := i\<rparr>"
  obtain a where o: "on_slot (slot_open (open_scanner y p)) ?s = (a, s')"
    using assms(4) pub i
    by (auto simp: initialize_finish_def Let_def split: prod.splits outcome.splits)
  from opening_moves [OF o] i have "sti_moves refs (\<lambda>_. 0) ?s s'" by simp
  with i sti_moves_trans [of refs "only h (- 1)" s ?s "\<lambda>_. 0" s'] show ?thesis by simp
qed

lemma initialize_moves:
  assumes "sti_ok s"
  shows "\<exists>r s'. initialize_live y arg version s = Some (r, s') \<and> sti_moves refs (\<lambda>_. 0) s s'"
proof (cases "\<exists>h. arg = Some h \<and> STI_VERSION_MIN_ALLOWED \<le> version AND NOT STI_VERSION_FLAG_MASK
    \<and> \<not> initialized (inner s) \<and> table_live y h s")
  case True
  then obtain h where h: "arg = Some h" "table_live y h s" "\<not> initialized (inner s)"
    "STI_VERSION_MIN_ALLOWED \<le> version AND NOT STI_VERSION_FLAG_MASK" by blast
  let ?s = "helper_add_ref y h s"
  have add: "sti_moves refs (only h 1) s ?s" using assms by (rule add_ref_call)
  obtain res s1 where r: "read_helper_port y h ?s = Some (res, s1)"
    "sti_moves refs (\<lambda>_. 0) ?s s1" "port_answer res"
    using read_helper_port_moves [of ?s h] sti_moves_ok [OF add assms] by blast
  have ok1: "sti_ok s1" using sti_moves_ok [OF r(2) sti_moves_ok [OF add assms]] .
  have live1: "table_live y h s1" using h(2) table_stays by blast
  show ?thesis
  proof (cases res)
    case (Inl er)
    then have "initialize_live y arg version s = Some (Returned er,
        set_last_error y er (Lit ''GetMyDevicePortName failed'') (release_helper y h s1))"
      using h r by (simp add: initialize_live_def Let_def add_ref_helper_def not_less [symmetric])
    then show ?thesis
      using then_recorded [OF sti_moves_cancel [OF add r(2) release_helper_moves [OF live1]]] by blast
  next
    case (Inr p)
    obtain a s' where f: "initialize_finish y h p s1 = (a, s')" by fastforce
    then have "initialize_live y arg version s = Some (a, s')"
      using h r Inr by (simp add: initialize_live_def Let_def add_ref_helper_def not_less [symmetric])
    moreover have "port_ok p" using r(3) Inr by (simp add: port_answer_def)
    ultimately show ?thesis
      using sti_moves_cancel [OF add r(2) initialize_finish_moves [OF ok1 _ live1 f]] by blast
  qed
next
  case False
  then show ?thesis
    by (cases arg) (auto simp: initialize_live_def Let_def not_less)
qed

end

section \<open>The other methods\<close>

lemma set_sti_locked_simps [simp]:
  "initialized (inner (set_sti_locked b s)) = initialized (inner s)"
  "sti_locked (inner (set_sti_locked b s)) = b"
  "helper (inner (set_sti_locked b s)) = helper (inner s)"
  "helper_port_name (inner (set_sti_locked b s)) = helper_port_name (inner s)"
  "last_error (inner (set_sti_locked b s)) = last_error (inner s)"
  "last_error_info (inner (set_sti_locked b s)) = last_error_info (inner s)"
  "session (set_sti_locked b s) = session s" "around (set_sti_locked b s) = around s"
  by (simp_all add: set_sti_locked_def)

lemma set_locked_moves:
  "initialized (inner s) \<Longrightarrow> b \<longrightarrow> session_held (session s) \<Longrightarrow>
     sti_moves refs (\<lambda>_. 0) s (set_sti_locked b s)"
  by (auto simp: sti_moves_def sti_ok_def inner_ok_def initialized_keeps_def surplus_def)

text \<open>What a call on a live receiver comes to, for any of the entry points.\<close>

definition settles ::
    "(nat \<Rightarrow> 'w \<Rightarrow> int) \<Rightarrow> ('r, 'w) sti \<Rightarrow> int outcome \<times> ('r, 'w) sti \<times> 'o \<Rightarrow> bool" where
  "settles refs s = (\<lambda>(r, s', _). sti_moves refs (\<lambda>_. 0) s s')"

lemma without_output_on_this:
  "without_output (caught (on_this (Some s) dst k)) = (case k s of (r, s', _) \<Rightarrow> Some (catch_hresult r, s'))"
  by (auto simp: without_output_def caught_def on_this_def split: prod.splits)

lemma without_output_null: "without_output (caught (r, Some s, dst)) = Some (catch_hresult r, s)"
  by (simp add: without_output_def caught_def)

lemmas entry_simps =
  get_capabilities_def get_status_def device_reset_def diagnostic_def escape_def get_last_error_def
  lock_device_def un_lock_device_def raw_read_data_def raw_write_data_def raw_read_command_def
  raw_write_command_def set_notification_handle_def get_notification_data_def
  get_last_error_info_def refused_count_def without_output_on_this without_output_null

lemma fail_eq: "fail y code m s dst = (Returned code, set_last_error y code m s, dst)"
  by (simp add: fail_def)

lemmas refusal_simps = fail_eq unsupported_def not_initialized_def diagnostic_failure_def

context sti_calls
begin

lemma diagnostic_moves:
  assumes "sti_ok s" and "diagnostic_checked y buffer s = (r, s', dst)"
  shows "sti_moves refs (\<lambda>_. 0) s s' \<and> initialized (inner s') = initialized (inner s)
    \<and> sti_locked (inner s') = sti_locked (inner s)"
proof -
  obtain a s1 where l: "live_capabilities y s = (a, s1)" by fastforce
  from assms(2) l live_capabilities_moves [OF l assms(1)] show ?thesis
    by (auto simp: diagnostic_checked_def refusal_simps Let_def then_recorded then_cleared
        clear_last_error_def split: if_splits outcome.splits sum.splits prod.splits)
qed

lemma lock_opened_moves:
  assumes "sti_ok s" and "initialized (inner s)" and "lock_opened y p s = (a, s')"
  shows "sti_moves refs (\<lambda>_. 0) s s' \<and> initialized (inner s')
    \<and> sti_locked (inner s') = sti_locked (inner s)
    \<and> (a = Returned (Inr ()) \<longrightarrow> session_held (session s'))"
proof (cases "status_of (session s)")
  case StatusUnlocked
  with assms(3) opening_moves [OF _ assms(2,1)] show ?thesis by (auto simp: lock_opened_def)
next
  case StatusLocked
  with assms show ?thesis
    by (cases "session s") (auto simp: lock_opened_def session_held_def)
qed (use assms in \<open>auto simp: lock_opened_def\<close>)

lemma locking_moves:
  assumes "sti_ok s" and "initialized (inner s)" and "lock_opened y p s = (a, s1)"
  shows "sti_moves refs (\<lambda>_. 0) s s1"
    and "a = Returned (Inr ()) \<Longrightarrow>
      sti_moves refs (\<lambda>_. 0) s (clear_last_error y (set_sti_locked True s1))"
  using lock_opened_moves [OF assms] set_locked_moves [of s1 True refs]
  by (auto intro!: then_cleared intro: sti_moves_trans0)

lemma sti_do_moves:
  assumes "sti_ok s"
  shows "\<exists>hr s'. sti_do y c s = Some (hr, s') \<and> sti_moves refs (\<lambda>_. 0) s s'"
proof (cases c)
  case (Initialize h version)
  then show ?thesis using initialize_moves [OF assms, of h version]
    by (auto simp: initialize_def)
next
  case (Diagnostic buffer)
  then show ?thesis using diagnostic_moves [OF assms]
    by (cases buffer) (auto simp: entry_simps refusal_simps split: prod.splits)
next
  case LockDevice
  obtain a s1 where l: "lock_opened y (helper_port_name (inner s)) s = (a, s1)" by fastforce
  show ?thesis
  proof (cases "initialized (inner s)")
    case True
    note m = locking_moves [OF assms True l]
    from LockDevice True l m show ?thesis
      by (auto simp: entry_simps refusal_simps then_recorded
          split: outcome.splits sum.splits prod.splits)
  qed (simp add: LockDevice entry_simps refusal_simps recorded_moves)
next
  case UnLockDevice
  then show ?thesis using set_locked_moves [of s False refs]
    by (auto simp: entry_simps refusal_simps Let_def recorded_moves then_cleared
        split: slot_status.splits prod.splits)
qed (auto simp: entry_simps refusal_simps split: option.splits)

end

section \<open>The life of an object\<close>

text \<open>
  One step of the life of an object: a method, a question for the live capabilities, or a
  scan with any of the operations \<open>runs\<close>.
\<close>

inductive sti_step ::
    "('r, 'w) sti_system \<Rightarrow>
     ('r \<Rightarrow> sti_inner \<times> 'w \<Rightarrow> (('a io \<times> session_health) outcome \<times> 'r \<times> sti_inner \<times> 'w) option) set \<Rightarrow>
     ('r, 'w) sti \<Rightarrow> ('r, 'w) sti \<Rightarrow> bool" for y runs where
  method_call: "sti_do y c s = Some (hr, s') \<Longrightarrow> sti_step y runs s s'"
| capabilities: "live_capabilities y s = (a, s') \<Longrightarrow> sti_step y runs s s'"
| scan: "run \<in> runs \<Longrightarrow> with_scan_session y run s = Some (a, s') \<Longrightarrow> sti_step y runs s s'"

definition undisturbing ::
    "(nat \<Rightarrow> 'w \<Rightarrow> int) \<Rightarrow>
     ('r \<Rightarrow> sti_inner \<times> 'w \<Rightarrow> ('b \<times> 'r \<times> sti_inner \<times> 'w) option) set \<Rightarrow> bool" where
  "undisturbing refs runs \<longleftrightarrow>
     (\<forall>run\<in>runs. \<forall>r x b r' x'. run r x = Some (b, r', x') \<longrightarrow> undisturbed refs x x')"

lemma undisturbingD:
  "undisturbing refs runs \<Longrightarrow> run \<in> runs \<Longrightarrow> run r x = Some (b, r', x') \<Longrightarrow> undisturbed refs x x'"
  by (cases x; cases x') (auto simp: undisturbing_def)

context sti_calls
begin

lemma sti_step_moves:
  assumes "sti_step y runs s s'" and "undisturbing refs runs" and "sti_ok s"
  shows "sti_moves refs (\<lambda>_. 0) s s'"
  using assms(1)
proof cases
  case (method_call c hr)
  with sti_do_moves [OF assms(3), of c] show ?thesis by auto
next
  case (capabilities a)
  from live_capabilities_moves [OF this assms(3)] show ?thesis by blast
next
  case (scan run a)
  have "sti_moves refs (\<lambda>_. 0) s s' \<and> sti_locked (inner s') = sti_locked (inner s)
    \<and> initialized (inner s') = initialized (inner s)"
    by (rule with_scan_session_moves [OF scan(2) assms(3)]) (rule undisturbingD [OF assms(2) scan(1)])
  then show ?thesis by blast
qed

lemma sti_steps_move:
  assumes "(sti_step y runs)\<^sup>*\<^sup>* s s'" and "undisturbing refs runs" and "sti_ok s"
  shows "sti_moves refs (\<lambda>_. 0) s s'"
  using assms(1)
proof (induction rule: rtranclp_induct)
  case (step s1 s2)
  from sti_moves_ok [OF step(3) assms(3)] have "sti_ok s1" .
  from sti_moves_trans0 [OF step(3) sti_step_moves [OF step(2) assms(2) this]] show ?case .
qed simp

lemma closing_undisturbed:
  assumes "slot_unlock (usb_drop y) (c, x) = (a, c', x')"
  shows "undisturbed refs x x' \<and> (c = Unlocked \<longrightarrow> x' = x)"
proof (cases "\<exists>r. c = Locked r")
  case True
  then obtain r d x1 where "c = Locked r" and d: "usb_drop y r x = (d, x1)"
    by (metis prod.collapse)
  with assms have "x' = x1"
    by (auto simp: slot_unlock_def unlock_entry_def take_locked_def split: outcome.splits prod.splits)
  with drop_call [OF d] \<open>c = Locked r\<close> show ?thesis by simp
next
  case False
  with assms have "x' = x"
    by (cases c) (auto simp: slot_unlock_def unlock_entry_def take_locked_def)
  then show ?thesis by simp
qed

text \<open>At the end of its life an object that was not disturbed gives back what it held.\<close>

lemma dropped_balance:
  assumes "sti_ok s" and "drop_state y s = (Returned (), s')" and "\<And>h. 0 \<le> surplus refs h s"
  shows "helper (inner s') = None \<and> refs h (around s') = surplus refs h s"
proof -
  obtain b c i w where u: "slot_unlock (usb_drop y) (session s, inner s, around s) = (Returned b, c, i, w)"
    using assms(2)
    by (auto simp: drop_state_def on_slot_def split: prod.splits outcome.splits)
  let ?s = "\<lparr>inner = i\<lparr>helper := None\<rparr>, session = c, around = w\<rparr>"
  have s': "s' = (case helper i of None \<Rightarrow> ?s | Some h \<Rightarrow> release_helper y h ?s)"
    using assms(2) u by (cases s) (auto simp: drop_state_def on_slot_def split: option.splits)
  have same: "helper i = helper (inner s) \<and> (\<forall>h. refs h w = refs h (around s))"
  proof (cases "initialized (inner s)")
    case True
    with closing_undisturbed [OF u] assms(1) show ?thesis
      by (auto simp: undisturbed_def sti_ok_def)
  next
    case False
    with closing_undisturbed [OF u] assms(1) show ?thesis by (auto simp: sti_ok_def)
  qed
  show ?thesis
  proof (cases "helper i")
    case None
    with s' same show ?thesis by (simp add: surplus_def)
  next
    case (Some h')
    have "0 < refs h' (around ?s)"
      using assms(3) [of h'] same Some by (simp add: surplus_def)
    then have live: "table_live y h' ?s" by (rule retained_live)
    have i: "initialized i"
      using closing_undisturbed [OF u] assms(1) same Some
      by (auto simp: undisturbed_def sti_ok_def inner_ok_def)
    have "helper (inner s') = None"
      using s' Some live dying_release [of ?s h'] i by (simp add: release_helper_def)
    moreover have "surplus refs h s' = surplus refs h ?s + only h' (- 1) h"
      using s' Some release_helper_moves [OF live] by (simp add: sti_moves_def)
    ultimately show ?thesis using same Some by (auto simp: surplus_def)
  qed
qed

end

section \<open>Alone\<close>

text \<open>
  The same calls when nobody else calls the object meanwhile: the helper and the session
  leave its state as it is.
\<close>

definition same_object :: "('r, 'w) sti \<Rightarrow> ('r, 'w) sti \<Rightarrow> bool" where
  "same_object s s' \<longleftrightarrow> inner s' = inner s \<and> session s' = session s"

locale sti_alone =
  fixes y :: "('r, 'w) sti_system"
  assumes add_ref_alone: "same_object s (helper_add_ref y h s)"
    and release_alone: "same_object s (helper_release y h s)"
    and port_name_alone: "same_object s (snd (get_my_device_port_name y h n s))"
    and open_alone: "fst (snd (usb_open y (i, w))) = i"
    and open_path_alone: "fst (snd (usb_open_matching_path y us (i, w))) = i"
    and write_alone: "fst (snd (snd (usb_write y bs r (i, w)))) = i"
    and read_alone: "fst (snd (snd (usb_read y n r (i, w)))) = i"
    and drop_alone: "fst (snd (usb_drop y r (i, w))) = i"

end
