(* ===== verification/Sti_Service.thy ===== *)
theory Sti_Service
  imports Sti_Life
begin

unbundle bit_operations_syntax

text \<open>
  The object as the STI service sees it, when nobody else calls it meanwhile (the locale
  \<open>sti_alone\<close>): the abstract protocol \<open>sti_service\<close> of phases and result codes, what the last
  error says, the lock as a flag, and the answers of a quarantined device.
\<close>

lemma same_object_refl [simp, intro]: "same_object s s"
  by (simp add: same_object_def)

lemma same_object_trans: "same_object s s' \<Longrightarrow> same_object s' s'' \<Longrightarrow> same_object s s''"
  by (simp add: same_object_def)

lemma sti_aloneD:
  assumes "fst (snd p) = i" and "p = (a, i', w')"
  shows "i' = i"
  using assms by simp

context sti_alone
begin

lemma session_calls_alone:
  "usb_open y (i, w) = (a, i', w') \<Longrightarrow> i' = i"
  "usb_open_matching_path y us (i, w) = (a, i', w') \<Longrightarrow> i' = i"
  "usb_write y bs r (i, w) = (b, r', i', w') \<Longrightarrow> i' = i"
  "usb_read y n r (i, w) = (c, r', i', w') \<Longrightarrow> i' = i"
  "usb_drop y r (i, w) = (d, i', w') \<Longrightarrow> i' = i"
  using open_alone [of i w] open_path_alone [of us i w] write_alone [of bs r i w]
    read_alone [of n r i w] drop_alone [of r i w] by auto

lemma open_scanner_alone: "open_scanner y port (i, w) = (a, i', w') \<Longrightarrow> i' = i"
  by (auto simp: open_scanner_def session_calls_alone split: if_splits)

lemma presence_alone: "perform_presence_check y r (i, w) = (a, r', i', w') \<Longrightarrow> i' = i"
  by (auto simp: perform_presence_check_def then_session_def dest!: session_calls_alone(3,4)
      split: prod.splits outcome.splits sum.splits)

lemma opening_alone:
  assumes "on_slot (slot_open (open_scanner y port)) s = (a, s')"
  shows "inner s' = inner s"
  using assms
  by (auto simp: on_slot_def slot_open_def open_entry_def open_exit_def open_scanner_alone
      split: connection.splits prod.splits outcome.splits sum.splits)

lemma presence_capabilities_alone: "presence_capabilities y s = (a, s') \<Longrightarrow> inner s' = inner s"
proof (cases "lock_missing (inner s)")
  case None
  assume p: "presence_capabilities y s = (a, s')"
  show ?thesis
  proof (cases "\<exists>r. session s = Locked r")
    case True
    then obtain r where r: "session s = Locked r" by blast
    obtain b r1 i1 w1 where g: "perform_presence_check y r (inner s, around s) = (b, r1, i1, w1)"
      by (metis prod.collapse)
    obtain d i2 w2 where d: "usb_drop y r1 (i1, w1) = (d, i2, w2)" by (metis prod.collapse)
    from presence_alone [OF g] session_calls_alone(5) [OF d] p None r g d show ?thesis
      by (auto simp: presence_capabilities_def on_slot_def with_session_def session_entry_def
          take_locked_def lease_drop_def Let_def split: outcome.splits if_splits)
  next
    case False
    with p None show ?thesis
      by (cases "session s") (auto simp: presence_capabilities_def on_slot_def with_session_def
          session_entry_def take_locked_def)
  qed
qed (auto simp: presence_capabilities_def split: prod.splits)

lemma fold_asked_alone: "same_object s (fold (asked y h) ns s)"
proof (induction ns arbitrary: s)
  case (Cons n ns)
  have "same_object s (asked y h n s)" using port_name_alone by (simp add: asked_def)
  with Cons [of "asked y h n s"] show ?case by (auto intro: same_object_trans)
qed simp

lemma read_helper_port_alone:
  "\<exists>res s'. read_helper_port y h s = Some (res, s') \<and> same_object s s' \<and> port_answer res"
  using port_loop_returns [of 0 y h s] fold_asked_alone
  by (auto simp: read_helper_port_def STI_MAX_INTERNAL_NAME_LENGTH_def port_answer_def E_POINTER_def as_i32_def)

lemma release_helper_alone: "same_object s (release_helper y h s)"
  using release_alone by (simp add: release_helper_def)

lemma initialize_finish_alone:
  assumes "initialize_finish y h p s = (r, s')" and "\<not> initialized (inner s)"
  shows "inner s' = set_last_error_inner y S_OK (Lit [])
      ((inner s)\<lparr>initialized := True, helper := Some h, helper_port_name := p\<rparr>)
    \<and> (r = Returned S_OK \<or> r = Panicked)"
  using assms
  by (auto simp: initialize_finish_def initialize_publish_def Let_def dest: opening_alone
      split: prod.splits outcome.splits)

text \<open>Initialize, when nobody interferes: refused or failed, or it publishes its helper.\<close>

lemma initialize_alone:
  assumes "initialize_live y arg version s = Some (r, s')"
  shows "(\<exists>code m. r = Returned code \<and> inner s' = set_last_error_inner y code m (inner s)
      \<and> code \<noteq> S_OK
      \<and> (initialized (inner s) \<longrightarrow> code \<in> {E_POINTER, STIERR_OLD_VERSION, STIERR_ALREADY_INITIALIZED}))
    \<or> \<not> initialized (inner s) \<and> (r = Returned S_OK \<or> r = Panicked)
      \<and> STI_VERSION_MIN_ALLOWED \<le> version AND NOT STI_VERSION_FLAG_MASK
      \<and> (\<exists>h p. arg = Some h \<and> port_ok p \<and> inner s' = set_last_error_inner y S_OK (Lit [])
      ((inner s)\<lparr>initialized := True, helper := Some h, helper_port_name := p\<rparr>))"
proof (cases "\<exists>h. arg = Some h \<and> STI_VERSION_MIN_ALLOWED \<le> version AND NOT STI_VERSION_FLAG_MASK
    \<and> \<not> initialized (inner s) \<and> table_live y h s")
  case False
  with assms show ?thesis
    by (auto simp: initialize_live_def Let_def sti_code_defs not_less split: option.splits if_splits)
next
  case True
  then obtain h where h: "arg = Some h" "table_live y h s" "\<not> initialized (inner s)"
    "STI_VERSION_MIN_ALLOWED \<le> version AND NOT STI_VERSION_FLAG_MASK" by blast
  let ?s = "helper_add_ref y h s"
  obtain res s1 where read: "read_helper_port y h ?s = Some (res, s1)" "same_object ?s s1"
    "port_answer res" using read_helper_port_alone by blast
  have same: "same_object s s1" using same_object_trans [OF add_ref_alone read(2)] .
  show ?thesis
  proof (cases res)
    case (Inl er)
    have "er \<noteq> S_OK" using read(3) Inl by (simp add: port_answer_def S_OK_def)
    with assms h read Inl release_helper_alone [of s1 h] same show ?thesis
      by (auto simp: initialize_live_def Let_def add_ref_helper_def not_less [symmetric] same_object_def)
  next
    case (Inr p)
    then have "initialize_finish y h p s1 = (r, s')"
      using assms h read by (simp add: initialize_live_def Let_def add_ref_helper_def not_less [symmetric])
    from initialize_finish_alone [OF this] same h read(3) Inr show ?thesis
      by (auto simp: same_object_def port_answer_def)
  qed
qed

end

section \<open>The service protocol\<close>

text \<open>
  What the service can expect of the methods, without the helper, the session or the
  texts: an object is fresh, ready or held, and a call with a given result changes that only
  as listed.
\<close>

datatype phase = PhaseNew | PhaseOpen | PhaseHeld

definition phase_of :: "('r, 'w) sti \<Rightarrow> phase" where
  "phase_of s = (if \<not> initialized (inner s) then PhaseNew else if sti_locked (inner s) then PhaseHeld else PhaseOpen)"

fun output_missing :: "sti_call \<Rightarrow> bool" where
  "output_missing (GetCapabilities x) = (x = None)"
| "output_missing (GetStatus x) = (x = None)"
| "output_missing (Diagnostic x) = (x = None)"
| "output_missing (Escape x) = (x = None)"
| "output_missing (GetLastError x) = (x = None)"
| "output_missing (RawReadData x) = (x = None)"
| "output_missing (RawReadCommand x) = (x = None)"
| "output_missing (GetNotificationData x) = (x = None)"
| "output_missing (GetLastErrorInfo x) = (x = None)"
| "output_missing _ = False"

fun never_supported :: "sti_call \<Rightarrow> bool" where
  "never_supported DeviceReset = True"
| "never_supported (Escape x) = True"
| "never_supported (RawReadData x) = True"
| "never_supported RawWriteData = True"
| "never_supported (RawReadCommand x) = True"
| "never_supported RawWriteCommand = True"
| "never_supported SetNotificationHandle = True"
| "never_supported (GetNotificationData x) = True"
| "never_supported _ = False"

fun needs_initialize :: "sti_call \<Rightarrow> bool" where
  "needs_initialize (GetCapabilities x) = True"
| "needs_initialize (GetStatus x) = True"
| "needs_initialize LockDevice = True"
| "needs_initialize UnLockDevice = True"
| "needs_initialize _ = False"

fun reads_last_error :: "sti_call \<Rightarrow> bool" where
  "reads_last_error (GetLastError x) = True"
| "reads_last_error (GetLastErrorInfo x) = True"
| "reads_last_error _ = False"

inductive sti_service :: "phase \<Rightarrow> sti_call \<Rightarrow> int \<Rightarrow> phase \<Rightarrow> bool" where
  null_output: "output_missing c \<Longrightarrow> sti_service p c E_POINTER p"
| unsupported_call: "never_supported c \<Longrightarrow> sti_service p c STIERR_UNSUPPORTED p"
| too_early: "needs_initialize c \<Longrightarrow> sti_service PhaseNew c STIERR_NOT_INITIALIZED PhaseNew"
| asked_error: "reads_last_error c \<Longrightarrow> sti_service p c S_OK p"
| initialize_done: "hr = S_OK \<or> hr = E_UNEXPECTED \<Longrightarrow>
    STI_VERSION_MIN_ALLOWED \<le> v AND NOT STI_VERSION_FLAG_MASK \<Longrightarrow>
    sti_service PhaseNew (Initialize (Some h) v) hr PhaseOpen"
| initialize_failed: "hr \<noteq> S_OK \<Longrightarrow> sti_service PhaseNew (Initialize a v) hr PhaseNew"
| initialize_again: "p \<noteq> PhaseNew \<Longrightarrow>
    hr \<in> {E_POINTER, STIERR_OLD_VERSION, STIERR_ALREADY_INITIALIZED} \<Longrightarrow>
    sti_service p (Initialize a v) hr p"
| lock_done: "sti_service PhaseOpen LockDevice S_OK PhaseHeld"
| lock_failed: "hr \<noteq> S_OK \<Longrightarrow> sti_service PhaseOpen LockDevice hr PhaseOpen"
| lock_again: "sti_service PhaseHeld LockDevice STIERR_DEVICE_LOCKED PhaseHeld"
| unlock_done: "sti_service PhaseHeld UnLockDevice S_OK PhaseOpen"
| unlock_refused: "hr \<in> {STIERR_DEVICE_LOCKED, STIERR_GENERIC} \<Longrightarrow> sti_service PhaseHeld UnLockDevice hr PhaseHeld"
| unlock_ready: "sti_service PhaseOpen UnLockDevice STIERR_NEEDS_LOCK PhaseOpen"
| declared: "p \<noteq> PhaseNew \<Longrightarrow> sti_service p (GetCapabilities x) S_OK p"
| no_status: "p \<noteq> PhaseNew \<Longrightarrow> hr \<in> {STIERR_INVALID_PARAM, STIERR_UNSUPPORTED} \<Longrightarrow>
    sti_service p (GetStatus x) hr p"
| present: "sti_service PhaseHeld (Diagnostic x) S_OK PhaseHeld"
| not_present: "hr \<noteq> S_OK \<Longrightarrow> sti_service p (Diagnostic x) hr p"

inductive_cases service_lockE: "sti_service p LockDevice hr p'"
inductive_simps service_held_unlock: "sti_service PhaseHeld UnLockDevice hr p'"

text \<open>Every error of the access to the session is a failure code.\<close>

lemma io_error_hresult_neg: "io_error_hresult er < 0"
proof -
  have "hresult_from_win32 e \<noteq> S_OK \<Longrightarrow> hresult_from_win32 e < 0" for e
    using hresult_from_win32_neg [of e] by (cases "e = 0") (auto simp: hresult_from_win32_def)
  then show ?thesis
    by (auto simp: io_error_hresult_def Let_def STIERR_UNSUPPORTED_def STIERR_GENERIC_def as_i32_def
        split: option.splits)
qed

lemma access_error_neg: "access_error_of er = (code, m) \<Longrightarrow> code < 0"
  using io_error_hresult_neg
  by (cases er) (auto simp: STIERR_DEVICE_LOCKED_def STIERR_NEEDS_LOCK_def STIERR_GENERIC_def
      hresult_from_win32_neg as_i32_def)

lemma S_OK_failures [simp]:
  "STIERR_NOT_INITIALIZED \<noteq> S_OK" "STIERR_INVALID_PARAM \<noteq> S_OK" "STIERR_NEEDS_LOCK \<noteq> S_OK"
  "STIERR_GENERIC \<noteq> S_OK" "STIERR_UNSUPPORTED \<noteq> S_OK" "STIERR_DEVICE_LOCKED \<noteq> S_OK"
  by (simp_all add: sti_code_defs)

lemma S_OK_nonneg [simp]: "\<not> S_OK < 0"
  by (simp add: S_OK_def)

lemma access_error_failure: "access_error_of er = (code, m) \<Longrightarrow> code \<noteq> S_OK"
  using access_error_neg by fastforce

lemma E_UNEXPECTED_failure: "E_UNEXPECTED \<noteq> S_OK"
  by (simp add: E_UNEXPECTED_def S_OK_def as_i32_def)

text \<open>The error of a presence check is a failure code.\<close>

lemma presence_error_neg:
  "perform_presence_check y r x = (Returned (Inl (code, m)), r', x') \<Longrightarrow> code < 0"
  using io_error_hresult_neg
  by (auto simp: perform_presence_check_def then_session_def map_err_def STIERR_GENERIC_def as_i32_def
      split: prod.splits outcome.splits sum.splits if_splits)

lemma lock_missing_neg: "lock_missing i = Some (code, m) \<Longrightarrow> code < 0"
  by (auto simp: lock_missing_def STIERR_NOT_INITIALIZED_def STIERR_NEEDS_LOCK_def
      hresult_from_win32_neg split: if_splits)

lemma presence_capabilities_neg:
  assumes "presence_capabilities y s = (Returned (Inl (code, m)), s')"
  shows "code < 0"
proof (cases "lock_missing (inner s)")
  case None
  then obtain res where o: "on_slot (with_session (usb_drop y) (\<lambda>r x.
        case perform_presence_check y r x of (Panicked, r, x) \<Rightarrow> (Panicked, r, x)
          | (Returned res, r, x) \<Rightarrow> (Returned (res, \<not> isl res), r, x))) s = (res, s')"
    and j: "joined access_error_of res = Returned (Inl (code, m))"
    using assms by (auto simp: presence_capabilities_def split: prod.splits)
  from j consider er where "res = Returned (Inl er)" "access_error_of er = (code, m)"
    | "res = Returned (Inr (Inl (code, m)))"
    by (auto simp: joined_def and_then_def map_err_def split: outcome.splits sum.splits)
  then show ?thesis
  proof cases
    case 1
    then show ?thesis using access_error_neg by blast
  next
    case 2
    with o obtain r r' x' where
      "perform_presence_check y r (inner s, around s) = (Returned (Inl (code, m)), r', x')"
      by (auto simp: on_slot_def with_session_def Let_def split: prod.splits sum.splits outcome.splits)
    then show ?thesis by (rule presence_error_neg)
  qed
next
  case (Some x)
  with assms lock_missing_neg show ?thesis
    by (cases x) (auto simp: presence_capabilities_def)
qed

context sti_alone
begin

lemma live_capabilities_alone:
  assumes "live_capabilities y s = (a, s')"
  shows "phase_of s' = phase_of s
    \<and> (\<forall>code m. a = Returned (Inl (code, m)) \<longrightarrow> code < 0 \<and> last_error (inner s') = code
        \<and> last_error_info (inner s') = with_message code (units_of (os_text y) m))
    \<and> (\<forall>c. a = Returned (Inr c) \<longrightarrow> phase_of s = PhaseHeld)"
proof -
  obtain b s1 where p: "presence_capabilities y s = (b, s1)" by fastforce
  have same: "inner s1 = inner s" using presence_capabilities_alone [OF p] .
  have "\<forall>c. b = Returned (Inr c) \<longrightarrow> lock_missing (inner s) = None"
    using p by (auto simp: presence_capabilities_def split: option.splits prod.splits)
  with assms p same presence_capabilities_neg show ?thesis
    by (auto simp: live_capabilities_def phase_of_def clear_last_error_def lock_missing_def
        split: outcome.splits sum.splits if_splits)
qed

lemma lock_opened_alone:
  assumes "lock_opened y p s = (a, s')"
  shows "inner s' = inner s"
  using assms by (auto simp: lock_opened_def dest: opening_alone split: slot_status.splits)

lemma diagnostic_alone:
  assumes "diagnostic_checked y buffer s = (r, s', dst)"
  shows "phase_of s' = phase_of s \<and> (r = Returned S_OK \<longrightarrow> phase_of s = PhaseHeld)"
proof -
  obtain a s1 where l: "live_capabilities y s = (a, s1)" by fastforce
  from assms l live_capabilities_alone [OF l] show ?thesis
    by (auto simp: diagnostic_checked_def refusal_simps Let_def phase_of_def clear_last_error_def
        split: if_splits outcome.splits sum.splits prod.splits)
qed

lemma sti_do_service:
  assumes "sti_do y c s = Some (hr, s')" and "sti_locked (inner s) \<longrightarrow> initialized (inner s)"
  shows "sti_service (phase_of s) c hr (phase_of s')"
proof (cases c)
  case (Initialize a v)
  then obtain r where r: "initialize_live y a v s = Some (r, s')" "hr = catch_hresult r"
    using assms(1) by (cases "initialize_live y a v s") (auto simp: initialize_def)
  from initialize_alone [OF r(1)] r(2) Initialize assms(2) show ?thesis
    by (auto simp: phase_of_def catch_hresult_def intro: sti_service.intros)
next
  case (Diagnostic buffer)
  then show ?thesis
  proof (cases buffer)
    case (Some b)
    show ?thesis
    proof (cases "diag_size b = SIZE_DIAG")
      case True
      obtain r s1 dst where d: "diagnostic_checked y b s = (r, s1, dst)" by (metis prod.collapse)
      from diagnostic_alone [OF d] d assms Diagnostic Some True show ?thesis
        by (cases r; cases "hr = S_OK") (auto simp: entry_simps refusal_simps catch_hresult_def E_UNEXPECTED_failure
            intro: sti_service.intros)
    qed (use assms Diagnostic Some in \<open>auto simp: entry_simps refusal_simps catch_hresult_def phase_of_def
        intro: sti_service.intros\<close>)
  qed (use assms in \<open>auto simp: entry_simps catch_hresult_def intro: null_output\<close>)
next
  case LockDevice
  obtain a s1 where l: "lock_opened y (helper_port_name (inner s)) s = (a, s1)" by fastforce
  from lock_opened_alone [OF l] l assms LockDevice show ?thesis
    by (auto simp: entry_simps refusal_simps catch_hresult_def phase_of_def clear_last_error_def
        E_UNEXPECTED_failure dest: access_error_failure intro: sti_service.intros split: if_splits outcome.splits sum.splits prod.splits)
next
  case UnLockDevice
  with assms show ?thesis
    by (auto simp: entry_simps refusal_simps catch_hresult_def phase_of_def clear_last_error_def Let_def
        intro: sti_service.intros split: if_splits slot_status.splits)
qed (use assms in \<open>auto simp: entry_simps refusal_simps catch_hresult_def phase_of_def clear_last_error_def
      intro: sti_service.intros split: if_splits option.splits\<close>)

end

section \<open>What is remembered\<close>

text \<open>What \<open>GetLastError\<close> and \<open>GetLastErrorInfo\<close> answer about a code.\<close>

definition reports :: "('r, 'w) sti \<Rightarrow> int \<Rightarrow> bool" where
  "reports s code \<longleftrightarrow>
     (\<forall>x. get_last_error (Some s) (Some x) = (S_OK, Some s, Some (word_of_int code)))
     \<and> (\<forall>x. \<exists>info. get_last_error_info (Some s) (Some x) = (S_OK, Some s, Some info) \<and> info_ok code info)"

lemma reportsI:
  "last_error (inner s) = code \<Longrightarrow> info_ok code (last_error_info (inner s)) \<Longrightarrow> reports s code"
  by (simp add: reports_def get_last_error_def get_last_error_info_def caught_def on_this_def
      catch_hresult_def)

lemma recorded_reports: "reports (set_last_error y code m s) code"
  by (simp add: reportsI)

lemma cleared_reports: "reports (clear_last_error y s) S_OK"
  by (simp add: reportsI clear_last_error_def)

context sti_alone
begin

lemma sti_do_reports:
  assumes "sti_do y c s = Some (hr, s')" and "\<not> output_missing c" and "\<not> reads_last_error c"
    and "hr \<noteq> E_UNEXPECTED"
  shows "reports s' hr"
proof (cases c)
  case (Initialize a v)
  then obtain r where r: "initialize_live y a v s = Some (r, s')" "hr = catch_hresult r"
    using assms(1) by (cases "initialize_live y a v s") (auto simp: initialize_def)
  from initialize_alone [OF r(1)] r(2) assms(4) show ?thesis
    by (auto simp: catch_hresult_def intro!: reportsI)
next
  case (Diagnostic buffer)
  then obtain b where b: "buffer = Some b" using assms(2) by (cases buffer) auto
  obtain r s1 dst where d: "diagnostic_checked y b s = (r, s1, dst)" by (metis prod.collapse)
  obtain a s2 where l: "live_capabilities y s = (a, s2)" by fastforce
  from assms(1,4) d l b Diagnostic show ?thesis
    by (auto simp: entry_simps refusal_simps catch_hresult_def diagnostic_checked_def Let_def
        recorded_reports cleared_reports split: if_splits outcome.splits sum.splits)
next
  case LockDevice
  obtain a s1 where l: "lock_opened y (helper_port_name (inner s)) s = (a, s1)" by fastforce
  with assms(1,4) LockDevice show ?thesis
    by (auto simp: entry_simps refusal_simps catch_hresult_def recorded_reports cleared_reports
        split: if_splits outcome.splits sum.splits prod.splits)
next
  case UnLockDevice
  with assms(1) show ?thesis
    by (auto simp: entry_simps refusal_simps catch_hresult_def Let_def recorded_reports cleared_reports
        split: if_splits slot_status.splits)
qed (use assms in \<open>auto simp: entry_simps refusal_simps catch_hresult_def recorded_reports cleared_reports
      split: if_splits option.splits\<close>)

end

section \<open>Lock cycles\<close>

fun sti_all :: "('r, 'w) sti_system \<Rightarrow> sti_call list \<Rightarrow> ('r, 'w) sti \<Rightarrow> (int list \<times> ('r, 'w) sti) option" where
  "sti_all y [] s = Some ([], s)"
| "sti_all y (c # cs) s = Option.bind (sti_do y c s) (\<lambda>(hr, s).
     Option.bind (sti_all y cs s) (\<lambda>(hrs, s). Some (hr # hrs, s)))"

text \<open>With an open session, the lock is only a flag: its answers follow from the flag alone.\<close>

fun flag_answers :: "sti_call list \<Rightarrow> bool \<Rightarrow> int list \<times> bool" where
  "flag_answers [] b = ([], b)"
| "flag_answers (c # cs) b =
     (let hr = (if c = LockDevice then if b then STIERR_DEVICE_LOCKED else S_OK
                else if b then S_OK else STIERR_NEEDS_LOCK);
          (hrs, b') = flag_answers cs (c = LockDevice)
      in (hr # hrs, b'))"

lemma flag_step:
  assumes "initialized (inner s)" and "session s = Locked r" and "c = LockDevice \<or> c = UnLockDevice"
  shows "\<exists>i. sti_do y c s = Some (hd (fst (flag_answers [c] (sti_locked (inner s)))), s\<lparr>inner := i\<rparr>)
    \<and> initialized i \<and> sti_locked i = (c = LockDevice) \<and> helper i = helper (inner s)
    \<and> helper_port_name i = helper_port_name (inner s)"
proof -
  have upd: "\<exists>i. P i \<and> s' = s\<lparr>inner := i\<rparr>" if "s' = s\<lparr>inner := i\<rparr>" "P i" for P s' i
    using that by blast
  show ?thesis
    using assms
    by (auto simp: entry_simps refusal_simps lock_opened_def catch_hresult_def Let_def
        set_last_error_def clear_last_error_def set_sti_locked_def split: prod.splits)
qed

lemma flag_cycles:
  assumes "initialized (inner s)" and "session s = Locked r" and "set cs \<subseteq> {LockDevice, UnLockDevice}"
  shows "\<exists>i. sti_all y cs s = Some (fst (flag_answers cs (sti_locked (inner s))), s\<lparr>inner := i\<rparr>)
    \<and> initialized i \<and> sti_locked i = snd (flag_answers cs (sti_locked (inner s)))
    \<and> helper i = helper (inner s) \<and> helper_port_name i = helper_port_name (inner s)"
  using assms
proof (induction cs arbitrary: s)
  case Nil
  then show ?case by (intro exI [of _ "inner s"]) auto
next
  case (Cons c cs)
  then have c: "c = LockDevice \<or> c = UnLockDevice" by auto
  obtain i where i: "sti_do y c s = Some (hd (fst (flag_answers [c] (sti_locked (inner s)))), s\<lparr>inner := i\<rparr>)"
    "initialized i" "sti_locked i = (c = LockDevice)" "helper i = helper (inner s)"
    "helper_port_name i = helper_port_name (inner s)"
    using flag_step [OF Cons(2,3) c] by blast
  from Cons(1) [of "s\<lparr>inner := i\<rparr>"] Cons(3,4) i show ?case
    by (auto simp: Let_def split: prod.splits)
qed

section \<open>After an uncertain scan\<close>

text \<open>The answers of a device whose session is quarantined while it is locked.\<close>

lemma quarantined_answers:
  assumes "initialized (inner s)" and "sti_locked (inner s)" and "session s = Quarantined"
  shows "with_scan_session y run s = Some (Returned (Inl (scan_access_error IsQuarantined)),
      set_last_error y STIERR_GENERIC (Shown (scan_access_error IsQuarantined)) s)"
    and "presence_capabilities y s = (Returned (Inl (access_error_of IsQuarantined)), s)"
  using assms
  by (simp_all add: with_scan_session_def presence_capabilities_def lock_missing_def on_slot_def
      with_session_def session_entry_def take_locked_def io_error_hresult_def joined_def)

lemma uncertain_scan:
  assumes "initialized (inner s)" and "sti_locked (inner s)" and "session s = Locked r"
    and "run r (inner s, around s) = Some (Returned (res, health), r', i, w)" and "health \<noteq> Ready"
    and "usb_drop y r' (i, w) = (Returned (), i', w')"
  shows "\<exists>s'. with_scan_session y run s = Some (Returned res, s') \<and> session s' = Quarantined
    \<and> around s' = w' \<and> initialized (inner s') = initialized i' \<and> sti_locked (inner s') = sti_locked i'"
  using assms
  by (cases res) (auto simp: with_scan_session_def lock_missing_def on_slot_def with_session_def
      session_entry_def take_locked_def lease_drop_def Let_def clear_last_error_def)

end
