(* ===== verification/Sti_Properties.thy ===== *)
theory Sti_Properties
  imports Sti_Service
begin

unbundle bit_operations_syntax

text \<open>
  The correctness of the STI device object, and two instances of its contracts in memory.
\<close>

section \<open>Two systems\<close>

text \<open>
  A helper that counts its references and answers once the buffer has 256 units, over a
  scanner that always opens and answers the inquiry; and a second helper whose answer comes
  only after it has initialized the object for another helper.
\<close>

record bench =
  helper_refs :: "nat \<Rightarrow> int"
  opened :: nat

definition bench_refs :: "nat \<Rightarrow> bench \<Rightarrow> int" where
  "bench_refs h w = helper_refs w h"

definition add_bench :: "nat \<Rightarrow> int \<Rightarrow> (nat, bench) sti \<Rightarrow> (nat, bench) sti" where
  "add_bench h n s = s\<lparr>around := (around s)\<lparr>helper_refs := (helper_refs (around s))(h := helper_refs (around s) h + n)\<rparr>\<rparr>"

definition auto_port :: "u16 list" where
  "auto_port = [0x41, 0x75, 0x54, 0x6f]"

definition bench_system :: "(nat, bench) sti_system" where
  "bench_system = \<lparr>
     table_live = (\<lambda>h s. True),
     helper_add_ref = (\<lambda>h. add_bench h 1),
     helper_release = (\<lambda>h. add_bench h (- 1)),
     get_my_device_port_name = (\<lambda>h n s.
       ((if n < 256 then INSUFFICIENT_BUFFER else S_OK, auto_port), s)),
     usb_open = (\<lambda>(i, w). (Returned (Inr (opened w)), i, w\<lparr>opened := opened w + 1\<rparr>)),
     usb_open_matching_path = (\<lambda>us x. (Returned (Inl (Os 2 NotFound)), x)),
     usb_write = (\<lambda>bs r x. (Returned (Inr ()), r, x)),
     usb_read = (\<lambda>n r x. (Returned (Inr (length sample_frame, sample_frame)), r, x)),
     usb_drop = (\<lambda>r x. (Returned (), x)),
     os_text = (\<lambda>code. literal ''error'')\<rparr>"

definition bench_start :: bench where
  "bench_start = \<lparr>helper_refs = (\<lambda>_. 0), opened = 0\<rparr>"

interpretation bench: sti_calls bench_system bench_refs
proof
  show "sti_moves bench_refs (only h (- 1)) s (helper_release bench_system h s)" for h s
    by (auto simp: bench_system_def add_bench_def sti_moves_def sti_ok_def initialized_keeps_def
        surplus_def bench_refs_def)
  show "sti_moves bench_refs (only h 1) s (helper_add_ref bench_system h s)" for h s
    by (auto simp: bench_system_def add_bench_def sti_moves_def sti_ok_def initialized_keeps_def
        surplus_def bench_refs_def)
qed (auto simp: bench_system_def add_bench_def undisturbed_def bench_refs_def split: prod.splits)

interpretation bench: sti_alone bench_system
  by unfold_locales (auto simp: bench_system_def add_bench_def same_object_def)

definition initialize_rival :: "(nat, bench) sti \<Rightarrow> (nat, bench) sti" where
  "initialize_rival s = (case initialize_live bench_system (Some 7) STI_VERSION_3 s of
     None \<Rightarrow> s | Some (_, s) \<Rightarrow> s)"

definition rival_system :: "(nat, bench) sti_system" where
  "rival_system = bench_system\<lparr>get_my_device_port_name := (\<lambda>h n s. ((S_OK, auto_port), initialize_rival s))\<rparr>"

lemma initialize_rival_moves:
  "sti_ok s \<Longrightarrow> sti_moves bench_refs (\<lambda>_. 0) s (initialize_rival s)"
  using bench.initialize_moves [of s "Some 7" STI_VERSION_3] by (auto simp: initialize_rival_def)

interpretation rival: sti_calls rival_system bench_refs
proof
  show "sti_ok s \<Longrightarrow> get_my_device_port_name rival_system h n s = (p, s') \<Longrightarrow>
      sti_moves bench_refs (\<lambda>_. 0) s s'" for h n s p s'
    by (auto simp: rival_system_def initialize_rival_moves)
  show "undisturbed bench_refs x x'" if "usb_open rival_system x = (a, x')" for x a x'
    using that bench.open_call by (simp add: rival_system_def)
qed (use bench.table_stays bench.retained_live bench.add_ref_call bench.release_call
    bench.dying_release bench.open_path_call bench.write_call bench.read_call bench.drop_call
    in \<open>auto simp: rival_system_def\<close>)

lemma bench_simps [simp]:
  "table_live bench_system h s" "helper_add_ref bench_system h s = add_bench h 1 s"
  "helper_release bench_system h s = add_bench h (- 1) s"
  "get_my_device_port_name bench_system h n s =
     ((if n < 256 then INSUFFICIENT_BUFFER else S_OK, auto_port), s)"
  "usb_open bench_system (i, w) = (Returned (Inr (opened w)), i, w\<lparr>opened := opened w + 1\<rparr>)"
  "usb_write bench_system bs r x = (Returned (Inr ()), r, x)"
  "usb_read bench_system n r x = (Returned (Inr (length sample_frame, sample_frame)), r, x)"
  "usb_drop bench_system r x = (Returned (), x)"
  by (simp_all add: bench_system_def)

lemma rival_simps [simp]:
  "table_live rival_system h s" "helper_add_ref rival_system h s = add_bench h 1 s"
  "helper_release rival_system h s = add_bench h (- 1) s"
  "get_my_device_port_name rival_system h n s = ((S_OK, auto_port), initialize_rival s)"
  by (simp_all add: rival_system_def)

lemma add_bench_simps [simp]:
  "inner (add_bench h n s) = inner s" "session (add_bench h n s) = session s"
  "bench_refs k (around (add_bench h n s)) = bench_refs k (around s) + only h n k"
  by (simp_all add: add_bench_def bench_refs_def)

lemma auto_port: "128 \<le> n \<Longrightarrow> port_in (filled n auto_port) = Inr (auto_port @ [0])"
  "port_selects_unique_device (auto_port @ [0])"
proof -
  have "filled n auto_port = auto_port @ 0 # replicate (n - 5) 0" if "128 \<le> n"
    using that by (simp add: filled_def auto_port_def flip: replicate_Suc)
  then show "128 \<le> n \<Longrightarrow> port_in (filled n auto_port) = Inr (auto_port @ [0])"
    by (simp add: port_in_def auto_port_def Let_def)
  show "port_selects_unique_device (auto_port @ [0])" by code_simp
qed

lemma bench_reads_port:
  "read_helper_port bench_system h s = Some (Inr (auto_port @ [0]), s)"
  "read_helper_port rival_system h s = Some (Inr (auto_port @ [0]), initialize_rival s)"
proof -
  have "INSUFFICIENT_BUFFER \<noteq> S_OK" by (simp add: sti_code_defs)
  moreover have "port_loop bench_system h 256 s = Some (Inr (auto_port @ [0]), s)"
    by (subst port_loop.simps) (simp add: auto_port)
  ultimately show "read_helper_port bench_system h s = Some (Inr (auto_port @ [0]), s)"
    by (subst read_helper_port_def, subst port_loop.simps)
      (simp add: STI_MAX_INTERNAL_NAME_LENGTH_def MAX_DEVICE_PATH_WORDS_def)
  show "read_helper_port rival_system h s = Some (Inr (auto_port @ [0]), initialize_rival s)"
    by (subst read_helper_port_def, subst port_loop.simps)
      (simp add: STI_MAX_INTERNAL_NAME_LENGTH_def auto_port)
qed

text \<open>The object of the bench, initialized by the helper \<open>h\<close>.\<close>

abbreviation bench_new :: "(nat, bench) sti" where
  "bench_new \<equiv> state_new bench_start"

lemma version_accepted: "\<not> STI_VERSION_3 AND NOT STI_VERSION_FLAG_MASK < STI_VERSION_MIN_ALLOWED"
  by (simp add: STI_VERSION_3_def STI_VERSION_FLAG_UNICODE_def STI_VERSION_FLAG_MASK_def
      STI_VERSION_MIN_ALLOWED_def)

lemma bench_initializes:
  assumes "\<not> initialized (inner s)" and "session s = Unlocked"
  shows "\<exists>s'. initialize_live bench_system (Some h) STI_VERSION_3 s = Some (Returned S_OK, s')
    \<and> session s' = Locked (opened (around s)) \<and> opened (around s') = opened (around s) + 1
    \<and> helper_refs (around s') = (helper_refs (around s))(h := helper_refs (around s) h + 1)
    \<and> inner s' = set_last_error_inner bench_system S_OK (Lit [])
      ((inner s)\<lparr>initialized := True, helper := Some h, helper_port_name := auto_port @ [0]\<rparr>)"
  using assms
  by (simp add: initialize_live_def Let_def version_accepted add_ref_helper_def bench_reads_port
      initialize_finish_def initialize_publish_def on_slot_def slot_open_def open_entry_def
      open_exit_def open_scanner_def auto_port add_bench_def)

text \<open>The first caller loses against the helper 7 and gives its reference back.\<close>

lemma rival_wins:
  "\<exists>s'. sti_do rival_system (Initialize (Some 3) STI_VERSION_3) bench_new
      = Some (STIERR_ALREADY_INITIALIZED, s')
    \<and> helper (inner s') = Some 7"
proof -
  let ?s = "add_bench 3 1 bench_new"
  have new: "\<not> initialized (inner ?s)" "session ?s = Unlocked"
    by (simp_all add: state_new_def inner_new_def slot_new_def)
  from bench_initializes [OF new, of 7] obtain s1 where
    s1: "initialize_live bench_system (Some 7) STI_VERSION_3 ?s = Some (Returned S_OK, s1)"
      "initialized (inner s1)" "helper (inner s1) = Some 7" by auto
  have "STIERR_ALREADY_INITIALIZED \<noteq> S_OK" by (simp add: sti_code_defs)
  with s1 new show ?thesis
    by (auto simp: initialize_def initialize_live_def [of rival_system] Let_def version_accepted add_ref_helper_def
        bench_reads_port initialize_rival_def initialize_finish_def initialize_publish_def
        release_helper_def catch_hresult_def)
qed

section \<open>Properties\<close>

text \<open>
  Property C6: the references to the helper are balanced over the life of an object. After any
  sequence of methods, inquiries and scans, with any answers of a helper that may call the
  object again, the object owns one reference to the helper of the initialization that won
  and none to any other; the lock is only ever held with a session; and when the object is
  destroyed that one reference is given back.
\<close>

theorem helper_references_balance:
  assumes "sti_calls y refs" and "undisturbing refs runs" and "\<forall>h. 0 \<le> refs h w"
    and "(sti_step y runs)\<^sup>*\<^sup>* (state_new w) s"
  shows "sti_ok s \<and> refs h (around s) = refs h w + (if helper (inner s) = Some h then 1 else 0)
    \<and> (drop_state y s = (Returned (), s') \<longrightarrow> helper (inner s') = None \<and> refs h (around s') = refs h w)"
proof -
  have moves: "sti_moves refs (\<lambda>_. 0) (state_new w) s"
    by (rule sti_calls.sti_steps_move [OF assms(1,4,2) state_new_ok])
  then have ok: "sti_ok s" by (simp add: sti_moves_def state_new_ok)
  have surplus: "surplus refs k s = refs k w" for k
    using moves by (simp add: sti_moves_def surplus_def state_new_def inner_new_def)
  then have "refs h (around s) = refs h w + (if helper (inner s) = Some h then 1 else 0)"
    by (simp add: surplus_def algebra_simps)
  moreover have "drop_state y s = (Returned (), s') \<longrightarrow>
      helper (inner s') = None \<and> refs h (around s') = refs h w"
    using sti_calls.dropped_balance [OF assms(1) ok, of s'] surplus assms(3) by simp
  ultimately show ?thesis using ok by blast
qed

theorem helper_references_balance_witness:
  "\<exists>s. (sti_step rival_system ({} :: (nat \<Rightarrow> sti_inner \<times> bench \<Rightarrow>
        ((unit io \<times> session_health) outcome \<times> nat \<times> sti_inner \<times> bench) option) set))\<^sup>*\<^sup>* bench_new s
    \<and> bench_refs 3 (around s) = 0 \<and> bench_refs 7 (around s) = 1"
proof -
  obtain s where s: "sti_do rival_system (Initialize (Some 3) STI_VERSION_3) bench_new
      = Some (STIERR_ALREADY_INITIALIZED, s)" "helper (inner s) = Some 7"
    using rival_wins by blast
  have run: "(sti_step rival_system ({} :: (nat \<Rightarrow> sti_inner \<times> bench \<Rightarrow>
        ((unit io \<times> session_health) outcome \<times> nat \<times> sti_inner \<times> bench) option) set))\<^sup>*\<^sup>* bench_new s"
    by (rule r_into_rtranclp) (rule method_call [OF s(1)])
  have refs_ok: "undisturbing bench_refs ({} :: (nat \<Rightarrow> sti_inner \<times> bench \<Rightarrow>
        ((unit io \<times> session_health) outcome \<times> nat \<times> sti_inner \<times> bench) option) set)"
    by (simp add: undisturbing_def)
  have pos: "\<forall>h. 0 \<le> bench_refs h bench_start" by (simp add: bench_refs_def bench_start_def)
  note b = helper_references_balance [OF rival.sti_calls_axioms refs_ok pos run]
  from b [of 3] b [of 7] s(2) run show ?thesis
    by (auto simp: bench_refs_def bench_start_def intro!: exI [of _ s])
qed

text \<open>
  Property C20: Initialize always returns. Whatever the helper answers, it is asked for the port
  name at most nine times, with buffers of 128, 256, up to 32768 units; the answer is an
  error code, or a name that is not empty and ends with its only terminator.
\<close>

theorem initialize_returns:
  "(\<exists>res n. read_helper_port y h s
      = Some (res, if table_live y h s then fold (asked y h) (capacities 0 n) s else s)
      \<and> n \<le> 8 \<and> port_answer res)
    \<and> (\<exists>hr this'. initialize y this arg version = Some (hr, this'))"
proof
  show "\<exists>res n. read_helper_port y h s
      = Some (res, if table_live y h s then fold (asked y h) (capacities 0 n) s else s)
      \<and> n \<le> 8 \<and> port_answer res"
    using port_loop_returns [of 0 y h s]
    by (auto simp: read_helper_port_def STI_MAX_INTERNAL_NAME_LENGTH_def port_answer_def E_POINTER_def
        as_i32_def)
  have "\<exists>res s'. read_helper_port y h s = Some (res, s')" for h s
    using port_loop_returns [of 0 y h s]
    by (auto simp: read_helper_port_def STI_MAX_INTERNAL_NAME_LENGTH_def)
  then have "initialize_live y arg version s \<noteq> None" for s
    by (auto simp: initialize_live_def Let_def split: option.splits prod.splits sum.splits)
      (metis option.distinct(1))+
  then show "\<exists>hr this'. initialize y this arg version = Some (hr, this')"
    by (cases this) (auto simp: initialize_def)
qed

text \<open>
  Property C7: the methods implement the service protocol. When nobody else calls the object
  meanwhile, every method, with any arguments and any answers of the helper and the scanner,
  takes the phase of the object to one that the protocol allows with the code it returned.
\<close>

theorem methods_follow_the_service:
  assumes "sti_alone y" and "sti_ok s" and "sti_do y c s = Some (hr, s')"
  shows "sti_service (phase_of s) c hr (phase_of s')"
proof -
  have "sti_locked (inner s) \<longrightarrow> initialized (inner s)"
    using assms(2) by (auto simp: sti_ok_def inner_ok_def split: if_splits)
  from sti_alone.sti_do_service [OF assms(1,3) this] show ?thesis .
qed

theorem methods_follow_the_service_witness:
  "sti_service PhaseNew LockDevice STIERR_NOT_INITIALIZED PhaseNew"
proof -
  have "sti_do bench_system LockDevice bench_new = Some (STIERR_NOT_INITIALIZED,
      set_last_error bench_system STIERR_NOT_INITIALIZED (Lit ''IStiUSD is not initialized'') bench_new)"
    by (simp add: entry_simps refusal_simps catch_hresult_def state_new_def inner_new_def)
  from methods_follow_the_service [OF bench.sti_alone_axioms state_new_ok this] show ?thesis
    by (simp add: phase_of_def state_new_def inner_new_def)
qed

text \<open>
  Property C19: the outcome of every call is remembered. After a call with its output given and
  without a panic below it, GetLastError answers with exactly the code that the call
  returned, zero for success, and GetLastErrorInfo with the same code and a text that fits
  its field and is terminated.
\<close>

theorem outcomes_are_remembered:
  assumes "sti_alone y" and "sti_do y c s = Some (hr, s')" and "\<not> output_missing c"
    and "\<not> reads_last_error c" and "hr \<noteq> E_UNEXPECTED"
  shows "(\<forall>x. get_last_error (Some s') (Some x) = (S_OK, Some s', Some (word_of_int hr)))
    \<and> (\<forall>x. \<exists>info. get_last_error_info (Some s') (Some x) = (S_OK, Some s', Some info)
        \<and> generic_error info = word_of_int hr \<and> length (extended_text info) = TEXT_UNITS
        \<and> last (extended_text info) = 0)"
  using sti_alone.sti_do_reports [OF assms] unfolding reports_def info_ok_def by blast

theorem outcomes_are_remembered_witness:
  "\<exists>s'. sti_do bench_system DeviceReset bench_new = Some (STIERR_UNSUPPORTED, s')
    \<and> get_last_error (Some s') (Some 5) = (S_OK, Some s', Some 0x80004001)"
proof -
  obtain s' where s': "sti_do bench_system DeviceReset bench_new = Some (STIERR_UNSUPPORTED, s')"
    by (simp add: entry_simps refusal_simps catch_hresult_def)
  have "STIERR_UNSUPPORTED \<noteq> E_UNEXPECTED"
    by (simp add: STIERR_UNSUPPORTED_def E_UNEXPECTED_def as_i32_def)
  with outcomes_are_remembered [OF bench.sti_alone_axioms s'] s' show ?thesis
    by (simp add: STIERR_UNSUPPORTED_def as_i32_def)
qed

text \<open>
  Property C21: the lock of the service is a flag over one open session. With the session open,
  any sequence of LockDevice and UnLockDevice calls is answered as by a flag alone: a lock is
  refused exactly when it is held, an unlock exactly when it is not. The USB session stays
  the same and nothing is opened or closed.
\<close>

theorem lock_is_a_flag:
  assumes "initialized (inner s)" and "session s = Locked r"
    and "set cs \<subseteq> {LockDevice, UnLockDevice}"
  shows "\<exists>s'. sti_all y cs s = Some (fst (flag_answers cs (sti_locked (inner s))), s')
    \<and> session s' = Locked r \<and> around s' = around s
    \<and> sti_locked (inner s') = snd (flag_answers cs (sti_locked (inner s)))"
proof -
  from flag_cycles [OF assms] obtain i where
    "sti_all y cs s = Some (fst (flag_answers cs (sti_locked (inner s))), s\<lparr>inner := i\<rparr>)"
    "sti_locked i = snd (flag_answers cs (sti_locked (inner s)))" by blast
  then show ?thesis using assms(2) by (intro exI [of _ "s\<lparr>inner := i\<rparr>"]) simp
qed

abbreviation bench_ready :: "(nat, bench) sti" where
  "bench_ready \<equiv> \<lparr>inner = inner_new\<lparr>initialized := True, helper := Some 3,
     helper_port_name := auto_port @ [0]\<rparr>, session = Locked 0, around = bench_start\<rparr>"

theorem lock_is_a_flag_witness:
  "\<exists>s'. sti_all bench_system [LockDevice, LockDevice, UnLockDevice, UnLockDevice] bench_ready
      = Some ([S_OK, STIERR_DEVICE_LOCKED, S_OK, STIERR_NEEDS_LOCK], s') \<and> session s' = Locked 0"
  using lock_is_a_flag [of bench_ready 0 "[LockDevice, LockDevice, UnLockDevice, UnLockDevice]" bench_system]
  by (auto simp: inner_new_def)

text \<open>
  Property C18: after a scan that left the transport in doubt nothing reaches the scanner any more.
  The session is closed and the slot quarantined; every later scan, inquiry, lock or unlock is
  refused without touching what is around the object, and none of them ends the quarantine.
\<close>

theorem doubtful_scan_ends_the_session:
  assumes "initialized (inner s)" and "sti_locked (inner s)" and "session s = Locked r"
    and "run r (inner s, around s) = Some (Returned (res, health), r', i, w)" and "health \<noteq> Ready"
    and "usb_drop y r' (i, w) = (Returned (), i', w')" and "initialized i'" and "sti_locked i'"
  shows "\<exists>s'. with_scan_session y run s = Some (Returned res, s') \<and> session s' = Quarantined
    \<and> around s' = w'
    \<and> (\<forall>run2. \<exists>er s2. with_scan_session y run2 s' = Some (Returned (Inl er), s2)
        \<and> session s2 = Quarantined \<and> around s2 = w')
    \<and> (\<exists>er s2. live_capabilities y s' = (Returned (Inl er), s2)
        \<and> session s2 = Quarantined \<and> around s2 = w')
    \<and> (\<forall>c \<in> {LockDevice, UnLockDevice}. \<exists>hr s2. sti_do y c s' = Some (hr, s2) \<and> hr < 0
        \<and> session s2 = Quarantined \<and> around s2 = w')"
proof -
  from uncertain_scan [where run = run and s = s, OF assms(1-6)] obtain s' where
    s': "with_scan_session y run s = Some (Returned res, s')" "session s' = Quarantined" "around s' = w'"
    and locked: "initialized (inner s')" "sti_locked (inner s')" using assms(7,8) by auto
  from s' locked quarantined_answers(2) [OF locked s'(2)] show ?thesis
    by (intro exI [of _ s'])
      (auto simp: quarantined_answers(1) [OF locked s'(2)] live_capabilities_def entry_simps refusal_simps Let_def catch_hresult_def
        STIERR_DEVICE_LOCKED_def hresult_from_win32_neg STIERR_GENERIC_def as_i32_def)
qed

theorem doubtful_scan_ends_the_session_witness:
  "\<exists>s'. with_scan_session bench_system (\<lambda>r x. Some (Returned (Inl (Os 121 TimedOut) :: unit io, NeedsReconnect), r, x))
      (set_sti_locked True bench_ready) = Some (Returned (Inl (Os 121 TimedOut)), s')
    \<and> session s' = Quarantined"
  using doubtful_scan_ends_the_session [of "set_sti_locked True bench_ready" 0
      "\<lambda>r x. Some (Returned (Inl (Os 121 TimedOut) :: unit io, NeedsReconnect), r, x)"
      "Inl (Os 121 TimedOut)" NeedsReconnect 0 "inner (set_sti_locked True bench_ready)" bench_start bench_system
      "inner (set_sti_locked True bench_ready)" bench_start]
  by (auto simp: set_sti_locked_def)

section \<open>Two lock calls at the same time\<close>

text \<open>
  \<open>lock_device\<close> checks the flag in one critical section and sets it in another. The two
  sections by themselves, and the call as their composition:
\<close>

definition lock_check :: "sti_inner \<Rightarrow> (int \<times> string) + u16 list" where
  "lock_check i =
     (if \<not> initialized i then Inl (STIERR_NOT_INITIALIZED, ''IStiUSD is not initialized'')
      else if sti_locked i then Inl (STIERR_DEVICE_LOCKED, ''Device is already locked'')
      else Inr (helper_port_name i))"

definition lock_publish :: "('r, 'w) sti_system \<Rightarrow> ('r, 'w) sti \<Rightarrow> int \<times> ('r, 'w) sti" where
  "lock_publish y s = (S_OK, clear_last_error y (set_sti_locked True s))"

lemma lock_device_sections:
  "sti_do y LockDevice s = Some (case lock_check (inner s) of
     Inl (code, text) \<Rightarrow> (code, set_last_error y code (Lit text) s)
   | Inr path \<Rightarrow> (case lock_opened y path s of
       (Panicked, s) \<Rightarrow> (E_UNEXPECTED, s)
     | (Returned (Inr _), s) \<Rightarrow> lock_publish y s
     | (Returned (Inl er), s) \<Rightarrow> (case access_error_of er of (code, m) \<Rightarrow> (code, set_last_error y code m s))))"
  by (auto simp: entry_simps refusal_simps lock_check_def lock_publish_def catch_hresult_def
      split: prod.splits outcome.splits sum.splits)

text \<open>
  Two calls that overlap so that both check before either publishes: with the session open,
  as it is from Initialize on, both return success and each caller believes to hold the lock.
\<close>

lemma overlapping_locks_succeed:
  assumes "initialized (inner s)" and "\<not> sti_locked (inner s)" and "session s = Locked r"
  shows "\<exists>path s1 s2 s3. lock_check (inner s) = Inr path \<and> lock_check (inner s) = Inr path
    \<and> lock_opened y path s = (Returned (Inr ()), s1) \<and> lock_opened y path s1 = (Returned (Inr ()), s1)
    \<and> lock_publish y s1 = (S_OK, s2) \<and> lock_publish y s2 = (S_OK, s3)"
  using assms by (simp add: lock_check_def lock_publish_def lock_opened_def)

end
