(* ===== verification/Com_Server.thy ===== *)
theory Com_Server
  imports Sti_Device
begin

unbundle bit_operations_syntax

text \<open>
  The COM server of \<open>src/com_server.rs\<close>: the module's counters, the class factory, and the
  driver objects with their three interfaces, their reference counts and aggregation. The
  objects live in a store from addresses; a use of an address that holds no object is
  undefined behaviour, and the operations then have no result (\<open>None\<close>). Every change of a
  counter is one atomic update (the loops around \<open>compare_exchange_weak\<close> retry until it
  succeeds). The controlling object of an aggregation is a parameter.
\<close>

section \<open>Counters\<close>

definition CLASS_E_NOAGGREGATION :: int where "CLASS_E_NOAGGREGATION = as_i32 0x80040110"
definition CLASS_E_CLASSNOTAVAILABLE :: int where "CLASS_E_CLASSNOTAVAILABLE = as_i32 0x80040111"

text \<open>A checked update: whether it happened, and the counter afterwards.\<close>

definition increment_count :: "u32 \<Rightarrow> bool \<times> u32" where
  "increment_count c = (case checked_add32 c 1 of None \<Rightarrow> (False, c) | Some c \<Rightarrow> (True, c))"

definition decrement_count :: "u32 \<Rightarrow> bool \<times> u32" where
  "decrement_count c = (if c = 0 then (False, c) else (True, c - 1))"

text \<open>A saturated reference count is a permanent pin.\<close>

definition MAX_REFS :: u32 where "MAX_REFS = 0xffffffff"

definition increment_ref :: "u32 \<Rightarrow> u32 \<times> u32" where
  "increment_ref c = (if c = MAX_REFS then (MAX_REFS, c) else (c + 1, c + 1))"

definition release_ref :: "u32 \<Rightarrow> u32 option \<times> u32" where
  "release_ref c = (if c = 0 then (None, c) else if c = MAX_REFS then (Some MAX_REFS, c)
     else (Some (c - 1), c - 1))"

record module_state =
  holds :: u32
  server_locks :: u32

definition module_new :: module_state where
  "module_new = \<lparr>holds = 0, server_locks = 0\<rparr>"

definition acquire_object :: "module_state \<Rightarrow> bool \<times> module_state" where
  "acquire_object m = (case increment_count (holds m) of (b, c) \<Rightarrow> (b, m\<lparr>holds := c\<rparr>))"

definition release_object :: "module_state \<Rightarrow> module_state" where
  "release_object m = m\<lparr>holds := snd (decrement_count (holds m))\<rparr>"

definition lock_server :: "bool \<Rightarrow> module_state \<Rightarrow> int \<times> module_state" where
  "lock_server lock m =
     (if lock then
        (case increment_count (holds m) of
           (False, _) \<Rightarrow> (E_UNEXPECTED, m)
         | (True, h) \<Rightarrow>
             (case increment_count (server_locks m) of
                (True, l) \<Rightarrow> (S_OK, m\<lparr>holds := h, server_locks := l\<rparr>)
              | (False, _) \<Rightarrow> (E_UNEXPECTED, m\<lparr>holds := snd (decrement_count h)\<rparr>)))
      else
        (case decrement_count (server_locks m) of
           (True, l) \<Rightarrow> (S_OK, m\<lparr>holds := snd (decrement_count (holds m)), server_locks := l\<rparr>)
         | (False, _) \<Rightarrow> (E_UNEXPECTED, m)))"

definition can_unload :: "module_state \<Rightarrow> bool" where
  "can_unload m \<longleftrightarrow> holds m = 0"

section \<open>Interfaces and objects\<close>

definition DRIVER_CLASS_ID :: guid where
  "DRIVER_CLASS_ID = \<lparr>data1 = 0xf71a8435, data2 = 0xaa10, data3 = 0x40a6,
     data4 = [0x83, 0x34, 0x49, 0xee, 0xc8, 0xfe, 0x9c, 0x63]\<rparr>"

definition IID_IUNKNOWN :: guid where
  "IID_IUNKNOWN = \<lparr>data1 = 0, data2 = 0, data3 = 0, data4 = [0xc0, 0, 0, 0, 0, 0, 0, 0x46]\<rparr>"

definition IID_ICLASSFACTORY :: guid where
  "IID_ICLASSFACTORY = IID_IUNKNOWN\<lparr>data1 := 1\<rparr>"

definition IID_ISTIUSD :: guid where
  "IID_ISTIUSD = \<lparr>data1 = 0x0c9bb460, data2 = 0x51ac, data3 = 0x11d0,
     data4 = [0x90, 0xea, 0x00, 0xaa, 0x00, 0x60, 0xf8, 0x6c]\<rparr>"

definition IID_IWIAMINIDRV :: guid where
  "IID_IWIAMINIDRV = \<lparr>data1 = 0xd8cdee14, data2 = 0x3c6c, data3 = 0x11d2,
     data4 = [0x9a, 0x35, 0, 0xc0, 0x4f, 0xa3, 0x61, 0x45]\<rparr>"

text \<open>
  A pointer that the module hands out: to a factory, or to one of the interfaces of the
  object at an address.
\<close>

datatype pointer = FactoryPtr nat | StiPtr nat | UnknownPtr nat | MiniPtr nat

text \<open>The controlling unknown of an object: its own, or that of an aggregator.\<close>

datatype controller = Itself | Aggregator nat

record 's com_object =
  controlling :: controller
  object_refs :: u32
  object_state :: 's

record ('s, 'w) server =
  module_counts :: module_state
  factories :: "nat \<Rightarrow> u32 option"
  objects :: "nat \<Rightarrow> 's com_object option"
  next_address :: nat
  server_world :: 'w

definition server_new :: "'w \<Rightarrow> ('s, 'w) server" where
  "server_new w = \<lparr>module_counts = module_new, factories = (\<lambda>_. None), objects = (\<lambda>_. None),
     next_address = 0, server_world = w\<rparr>"

text \<open>
  What the server does not define: the methods of an aggregator, the initial state of an
  object, and what its destructor does.
\<close>

record ('s, 'w) com_parts =
  outer_query :: "nat \<Rightarrow> guid option \<Rightarrow> bool \<Rightarrow> ('s, 'w) server \<Rightarrow> (int \<times> pointer option) \<times> ('s, 'w) server"
  outer_add_ref :: "nat \<Rightarrow> ('s, 'w) server \<Rightarrow> u32 \<times> ('s, 'w) server"
  outer_release :: "nat \<Rightarrow> ('s, 'w) server \<Rightarrow> u32 \<times> ('s, 'w) server"
  object_new :: 's
  object_drop :: "'s \<Rightarrow> 'w \<Rightarrow> 'w"

text \<open>
  The answer of a query: the code, and what the output pointer holds. An output that is
  null is \<open>given = False\<close>; nothing is written then.
\<close>

type_synonym ('s, 'w) query = "((int \<times> pointer option) \<times> ('s, 'w) server) option"

definition refused :: "int \<Rightarrow> ('s, 'w) server \<Rightarrow> ('s, 'w) query" where
  "refused hr s = Some ((hr, None), s)"

section \<open>The class factory\<close>

definition factory_query_interface ::
    "nat option \<Rightarrow> guid option \<Rightarrow> bool \<Rightarrow> ('s, 'w) server \<Rightarrow> ('s, 'w) query" where
  "factory_query_interface this riid given s =
     (if \<not> given then refused E_POINTER s
      else case (this, riid) of
        (Some n, Some requested) \<Rightarrow>
          if requested \<noteq> IID_IUNKNOWN \<and> requested \<noteq> IID_ICLASSFACTORY then refused E_NOINTERFACE s
          else map_option (\<lambda>c. ((S_OK, Some (FactoryPtr n)),
                 s\<lparr>factories := (factories s)(n := Some (snd (increment_ref c)))\<rparr>)) (factories s n)
      | _ \<Rightarrow> refused E_POINTER s)"

definition factory_add_ref :: "nat option \<Rightarrow> ('s, 'w) server \<Rightarrow> (u32 \<times> ('s, 'w) server) option" where
  "factory_add_ref this s = (case this of
     None \<Rightarrow> Some (0, s)
   | Some n \<Rightarrow> map_option (\<lambda>c. case increment_ref c of (r, c) \<Rightarrow>
       (r, s\<lparr>factories := (factories s)(n := Some c)\<rparr>)) (factories s n))"

definition factory_release :: "nat option \<Rightarrow> ('s, 'w) server \<Rightarrow> (u32 \<times> ('s, 'w) server) option" where
  "factory_release this s = (case this of
     None \<Rightarrow> Some (0, s)
   | Some n \<Rightarrow> map_option (\<lambda>c. case release_ref c of
         (None, _) \<Rightarrow> (0, s)
       | (Some remaining, c) \<Rightarrow>
           if remaining = 0
           then (0, s\<lparr>factories := (factories s)(n := None),
                   module_counts := release_object (module_counts s)\<rparr>)
           else (remaining, s\<lparr>factories := (factories s)(n := Some c)\<rparr>)) (factories s n))"

definition factory_create_instance ::
    "('s, 'w) com_parts \<Rightarrow> nat option \<Rightarrow> nat option \<Rightarrow> guid option \<Rightarrow> bool \<Rightarrow> ('s, 'w) server \<Rightarrow> ('s, 'w) query" where
  "factory_create_instance p this outer riid given s =
     (if \<not> given then refused E_POINTER s
      else if this = None then refused E_POINTER s
      else case riid of
        None \<Rightarrow> refused E_POINTER s
      | Some requested \<Rightarrow>
          if outer \<noteq> None \<and> requested \<noteq> IID_IUNKNOWN then refused CLASS_E_NOAGGREGATION s
          else if requested \<noteq> IID_IUNKNOWN \<and> requested \<noteq> IID_ISTIUSD \<and> requested \<noteq> IID_IWIAMINIDRV
          then refused E_NOINTERFACE s
          else case acquire_object (module_counts s) of
              (False, _) \<Rightarrow> refused E_UNEXPECTED s
            | (True, m) \<Rightarrow>
                (let n = next_address s;
                     object = \<lparr>controlling = (case outer of None \<Rightarrow> Itself | Some k \<Rightarrow> Aggregator k),
                       object_refs = 1, object_state = object_new p\<rparr>
                 in Some ((S_OK, Some (if requested = IID_IWIAMINIDRV then MiniPtr n
                                       else if requested = IID_IUNKNOWN then UnknownPtr n else StiPtr n)),
                      s\<lparr>module_counts := m, objects := (objects s)(n := Some object),
                        next_address := n + 1\<rparr>)))"

definition factory_lock_server :: "nat option \<Rightarrow> int \<Rightarrow> ('s, 'w) server \<Rightarrow> int \<times> ('s, 'w) server" where
  "factory_lock_server this lock s =
     (if this = None then (E_POINTER, s)
      else case lock_server (lock \<noteq> 0) (module_counts s) of (hr, m) \<Rightarrow> (hr, s\<lparr>module_counts := m\<rparr>))"

section \<open>The non-delegating unknown\<close>

definition unknown_add_ref :: "nat option \<Rightarrow> ('s, 'w) server \<Rightarrow> (u32 \<times> ('s, 'w) server) option" where
  "unknown_add_ref this s = (case this of
     None \<Rightarrow> Some (0, s)
   | Some n \<Rightarrow> map_option (\<lambda>ob. case increment_ref (object_refs ob) of (r, c) \<Rightarrow>
       (r, s\<lparr>objects := (objects s)(n := Some (ob\<lparr>object_refs := c\<rparr>))\<rparr>)) (objects s n))"

text \<open>The module stays held while the object is destroyed.\<close>

definition unknown_release ::
    "('s, 'w) com_parts \<Rightarrow> nat option \<Rightarrow> ('s, 'w) server \<Rightarrow> (u32 \<times> ('s, 'w) server) option" where
  "unknown_release p this s = (case this of
     None \<Rightarrow> Some (0, s)
   | Some n \<Rightarrow> map_option (\<lambda>ob. case release_ref (object_refs ob) of
         (None, _) \<Rightarrow> (0, s)
       | (Some remaining, c) \<Rightarrow>
           if remaining = 0
           then (0, s\<lparr>objects := (objects s)(n := None),
                   server_world := object_drop p (object_state ob) (server_world s),
                   module_counts := release_object (module_counts s)\<rparr>)
           else (remaining, s\<lparr>objects := (objects s)(n := Some (ob\<lparr>object_refs := c\<rparr>))\<rparr>)) (objects s n))"

section \<open>The delegating unknown\<close>

definition instance_add_ref ::
    "('s, 'w) com_parts \<Rightarrow> nat option \<Rightarrow> ('s, 'w) server \<Rightarrow> (u32 \<times> ('s, 'w) server) option" where
  "instance_add_ref p this s = (case this of
     None \<Rightarrow> Some (0, s)
   | Some n \<Rightarrow> Option.bind (objects s n) (\<lambda>ob. case controlling ob of
       Itself \<Rightarrow> unknown_add_ref (Some n) s
     | Aggregator k \<Rightarrow> Some (outer_add_ref p k s)))"

definition instance_release ::
    "('s, 'w) com_parts \<Rightarrow> nat option \<Rightarrow> ('s, 'w) server \<Rightarrow> (u32 \<times> ('s, 'w) server) option" where
  "instance_release p this s = (case this of
     None \<Rightarrow> Some (0, s)
   | Some n \<Rightarrow> Option.bind (objects s n) (\<lambda>ob. case controlling ob of
       Itself \<Rightarrow> unknown_release p (Some n) s
     | Aggregator k \<Rightarrow> Some (outer_release p k s)))"

definition unknown_query_interface ::
    "('s, 'w) com_parts \<Rightarrow> nat option \<Rightarrow> guid option \<Rightarrow> bool \<Rightarrow> ('s, 'w) server \<Rightarrow> ('s, 'w) query" where
  "unknown_query_interface p this riid given s =
     (if \<not> given then refused E_POINTER s
      else case (this, riid) of
        (Some n, Some requested) \<Rightarrow>
          if requested = IID_IUNKNOWN
          then map_option (\<lambda>(_, s). ((S_OK, Some (UnknownPtr n)), s)) (unknown_add_ref (Some n) s)
          else if requested = IID_ISTIUSD
          then map_option (\<lambda>(_, s). ((S_OK, Some (StiPtr n)), s)) (instance_add_ref p (Some n) s)
          else if requested = IID_IWIAMINIDRV
          then map_option (\<lambda>(_, s). ((S_OK, Some (MiniPtr n)), s)) (instance_add_ref p (Some n) s)
          else refused E_NOINTERFACE s
      | _ \<Rightarrow> refused E_POINTER s)"

definition instance_query_interface ::
    "('s, 'w) com_parts \<Rightarrow> nat option \<Rightarrow> guid option \<Rightarrow> bool \<Rightarrow> ('s, 'w) server \<Rightarrow> ('s, 'w) query" where
  "instance_query_interface p this riid given s = (case this of
     None \<Rightarrow> refused E_POINTER s
   | Some n \<Rightarrow> Option.bind (objects s n) (\<lambda>ob. case controlling ob of
       Itself \<Rightarrow> unknown_query_interface p (Some n) riid given s
     | Aggregator k \<Rightarrow> Some (outer_query p k riid given s)))"

section \<open>The module's exports\<close>

definition dll_can_unload_now :: "('s, 'w) server \<Rightarrow> int" where
  "dll_can_unload_now s = (if can_unload (module_counts s) then S_OK else S_FALSE)"

definition dll_get_class_object ::
    "guid option \<Rightarrow> guid option \<Rightarrow> bool \<Rightarrow> ('s, 'w) server \<Rightarrow> ('s, 'w) query" where
  "dll_get_class_object class_id interface_id given s =
     (if \<not> given then refused E_POINTER s
      else case (class_id, interface_id) of
        (Some cls, Some requested) \<Rightarrow>
          if cls \<noteq> DRIVER_CLASS_ID then refused CLASS_E_CLASSNOTAVAILABLE s
          else if requested \<noteq> IID_IUNKNOWN \<and> requested \<noteq> IID_ICLASSFACTORY then refused E_NOINTERFACE s
          else (case acquire_object (module_counts s) of
              (False, _) \<Rightarrow> refused E_UNEXPECTED s
            | (True, m) \<Rightarrow>
                (let n = next_address s
                 in Some ((S_OK, Some (FactoryPtr n)),
                      s\<lparr>module_counts := m, factories := (factories s)(n := Some 1),
                        next_address := n + 1\<rparr>)))
      | _ \<Rightarrow> refused E_POINTER s)"

text \<open>The object behind a pointer, by the method table that the pointer starts with.\<close>

definition resolve_instance :: "pointer \<Rightarrow> nat io" where
  "resolve_instance device = (case device of
     StiPtr n \<Rightarrow> Inr n
   | UnknownPtr n \<Rightarrow> Inr n
   | _ \<Rightarrow> Inl (Custom InvalidInput (Message (Lit ''Pointer is not an IStiUSD or IUnknown from this driver''))))"

text \<open>
  \<open>scan_locked_bmp\<close> and \<open>transfer_locked_bmp\<close>: an operation of the device's state, whose
  panic becomes the error \<open>text\<close>.
\<close>

definition locked_operation ::
    "string \<Rightarrow> pointer option \<Rightarrow> ('s \<Rightarrow> ('a io outcome \<times> 's) option) \<Rightarrow> ('s, 'w) server \<Rightarrow>
     ('a io \<times> ('s, 'w) server) option" where
  "locked_operation text device operation s = (case device of
     None \<Rightarrow> Some (Inl (Custom InvalidInput (Message (Lit ''Driver object is null''))), s)
   | Some d \<Rightarrow>
       (case resolve_instance d of
          Inl er \<Rightarrow> Some (Inl er, s)
        | Inr n \<Rightarrow> Option.bind (objects s n) (\<lambda>ob.
            map_option (\<lambda>(r, st).
              (case r of Returned res \<Rightarrow> res | Panicked \<Rightarrow> Inl (io_other (Lit text)),
               s\<lparr>objects := (objects s)(n := Some (ob\<lparr>object_state := st\<rparr>))\<rparr>))
              (operation (object_state ob)))))"

definition scan_locked_bmp ::
    "(('r, 'w \<times> 'o) sti_system) \<Rightarrow> nat \<Rightarrow> 'o stream \<Rightarrow>
     ('r \<times> sti_inner \<times> 'w \<Rightarrow> nat io \<times> ('r \<times> sti_inner \<times> 'w)) \<Rightarrow> ('r \<times> sti_inner \<times> 'w) env \<Rightarrow>
     pointer option \<Rightarrow> flatbed_settings \<Rightarrow> bool \<Rightarrow> (('r, 'w \<times> 'o) sti, 'v) server \<Rightarrow>
     (scan_summary io \<times> (('r, 'w \<times> 'o) sti, 'v) server) option" where
  "scan_locked_bmp y fuel wr max_transfer e device settings cancelled_before =
     locked_operation ''Locked scan panicked; destination must be discarded'' device
       (sti_scan_bmp y fuel wr max_transfer e settings cancelled_before)"

definition transfer_locked_bmp ::
    "('r, 'w) sti_system \<Rightarrow> nat \<Rightarrow> 'o stream \<Rightarrow> ('o, 'r \<times> sti_inner \<times> 'w) callback \<Rightarrow>
     ('r \<times> sti_inner \<times> 'w \<Rightarrow> nat io \<times> ('r \<times> sti_inner \<times> 'w)) \<Rightarrow> ('r \<times> sti_inner \<times> 'w) env \<Rightarrow>
     pointer option \<Rightarrow> flatbed_settings \<Rightarrow> bool \<Rightarrow> bool \<Rightarrow> u16 list \<Rightarrow> u16 list \<Rightarrow>
     (('r, 'w) sti, 'v) server \<Rightarrow> (transfer_outcome io \<times> (('r, 'w) sti, 'v) server) option" where
  "transfer_locked_bmp y fuel wr cb max_transfer e device settings cancelled_before raw_callback
       item full_item =
     locked_operation ''WIA transfer panicked; discard destination'' device
       (transfer_bmp y fuel wr cb max_transfer e settings cancelled_before raw_callback item full_item)"

end
