(* ===== verification/Com_Lifetime.thy ===== *)
theory Com_Lifetime
  imports Com_Server
begin

unbundle bit_operations_syntax

text \<open>
  Reference counts against the references that callers own: the contract of COM as the calls
  \<open>com_do\<close> of a ledger of references, the contract of an aggregator as the locale
  \<open>com_outer\<close>, and the invariant that every call keeps.
\<close>

lemma iids_distinct [simp]:
  "IID_IUNKNOWN \<noteq> IID_ISTIUSD" "IID_ISTIUSD \<noteq> IID_IUNKNOWN" "IID_IUNKNOWN \<noteq> IID_IWIAMINIDRV"
  "IID_IWIAMINIDRV \<noteq> IID_IUNKNOWN" "IID_ISTIUSD \<noteq> IID_IWIAMINIDRV" "IID_IWIAMINIDRV \<noteq> IID_ISTIUSD"
  "IID_IUNKNOWN \<noteq> IID_ICLASSFACTORY" "IID_ICLASSFACTORY \<noteq> IID_IUNKNOWN"
  by (simp_all add: IID_IUNKNOWN_def IID_ISTIUSD_def IID_IWIAMINIDRV_def IID_ICLASSFACTORY_def)

section \<open>Callers and their references\<close>

text \<open>
  What a caller owns references of. The contract of COM: a call needs a reference on what it
  is called on, a successful query or creation gives one, and a release gives one up. A
  reference to an interface of an aggregated object is counted by the aggregator.
\<close>

datatype target = FactoryAt nat | ObjectAt nat

definition self_controlled :: "('s, 'w) server \<Rightarrow> nat \<Rightarrow> bool" where
  "self_controlled s n \<longleftrightarrow> (\<exists>ob. objects s n = Some ob \<and> controlling ob = Itself)"

fun target_of :: "('s, 'w) server \<Rightarrow> pointer \<Rightarrow> target option" where
  "target_of s (FactoryPtr n) = Some (FactoryAt n)"
| "target_of s (UnknownPtr n) = Some (ObjectAt n)"
| "target_of s (StiPtr n) = (if self_controlled s n then Some (ObjectAt n) else None)"
| "target_of s (MiniPtr n) = (if self_controlled s n then Some (ObjectAt n) else None)"

datatype com_call =
    GetClassObject "guid option" "guid option" bool
  | FactoryQuery nat "guid option" bool
  | FactoryAddRef nat
  | FactoryRelease nat
  | CreateInstance nat "nat option" "guid option" bool
  | LockServer nat int
  | UnknownQuery nat "guid option" bool
  | UnknownAddRef nat
  | UnknownRelease nat
  | InstanceQuery nat "guid option" bool
  | InstanceAddRef nat
  | InstanceRelease nat

fun receiver :: "com_call \<Rightarrow> target option" where
  "receiver (GetClassObject c r g) = None"
| "receiver (FactoryQuery n r g) = Some (FactoryAt n)"
| "receiver (FactoryAddRef n) = Some (FactoryAt n)"
| "receiver (FactoryRelease n) = Some (FactoryAt n)"
| "receiver (CreateInstance n q r g) = Some (FactoryAt n)"
| "receiver (LockServer n l) = Some (FactoryAt n)"
| "receiver (UnknownQuery n r g) = Some (ObjectAt n)"
| "receiver (UnknownAddRef n) = Some (ObjectAt n)"
| "receiver (UnknownRelease n) = Some (ObjectAt n)"
| "receiver (InstanceQuery n r g) = Some (ObjectAt n)"
| "receiver (InstanceAddRef n) = Some (ObjectAt n)"
| "receiver (InstanceRelease n) = Some (ObjectAt n)"

text \<open>A call: the server afterwards, and the reference that the caller gained or gave up.\<close>

datatype transfer_of = Gained target | GaveUp target | Neither

definition gained :: "target option \<Rightarrow> transfer_of" where
  "gained t = (case t of None \<Rightarrow> Neither | Some t \<Rightarrow> Gained t)"

definition answered :: "('s, 'w) query \<Rightarrow> (('s, 'w) server \<times> transfer_of) option" where
  "answered q = map_option (\<lambda>((hr, ptr), s). (s, gained (Option.bind ptr (target_of s)))) q"

definition delegated :: "('s, 'w) server \<Rightarrow> nat \<Rightarrow> (target \<Rightarrow> transfer_of) \<Rightarrow> transfer_of" where
  "delegated s n f = (if self_controlled s n then f (ObjectAt n) else Neither)"

fun com_do :: "('s, 'w) com_parts \<Rightarrow> com_call \<Rightarrow> ('s, 'w) server \<Rightarrow> (('s, 'w) server \<times> transfer_of) option" where
  "com_do p (GetClassObject c r g) s = answered (dll_get_class_object c r g s)"
| "com_do p (FactoryQuery n r g) s = answered (factory_query_interface (Some n) r g s)"
| "com_do p (FactoryAddRef n) s =
     map_option (\<lambda>(_, s). (s, Gained (FactoryAt n))) (factory_add_ref (Some n) s)"
| "com_do p (FactoryRelease n) s =
     map_option (\<lambda>(_, s). (s, GaveUp (FactoryAt n))) (factory_release (Some n) s)"
| "com_do p (CreateInstance n q r g) s = answered (factory_create_instance p (Some n) q r g s)"
| "com_do p (LockServer n l) s = Some (snd (factory_lock_server (Some n) l s), Neither)"
| "com_do p (UnknownQuery n r g) s = answered (unknown_query_interface p (Some n) r g s)"
| "com_do p (UnknownAddRef n) s =
     map_option (\<lambda>(_, s). (s, Gained (ObjectAt n))) (unknown_add_ref (Some n) s)"
| "com_do p (UnknownRelease n) s =
     map_option (\<lambda>(_, s). (s, GaveUp (ObjectAt n))) (unknown_release p (Some n) s)"
| "com_do p (InstanceQuery n r g) s =
     (if self_controlled s n then answered (instance_query_interface p (Some n) r g s)
      else map_option (\<lambda>(_, s). (s, Neither)) (instance_query_interface p (Some n) r g s))"
| "com_do p (InstanceAddRef n) s =
     map_option (\<lambda>(_, s'). (s', delegated s n Gained)) (instance_add_ref p (Some n) s)"
| "com_do p (InstanceRelease n) s =
     map_option (\<lambda>(_, s'). (s', delegated s n GaveUp)) (instance_release p (Some n) s)"

fun settle :: "transfer_of \<Rightarrow> (target \<Rightarrow> nat) \<Rightarrow> target \<Rightarrow> nat" where
  "settle (Gained t) own = own(t := own t + 1)"
| "settle (GaveUp t) own = own(t := own t - 1)"
| "settle Neither own = own"

inductive com_step ::
    "('s, 'w) com_parts \<Rightarrow> ('s, 'w) server \<times> (target \<Rightarrow> nat) \<Rightarrow> ('s, 'w) server \<times> (target \<Rightarrow> nat) \<Rightarrow> bool"
    for p where
  call: "\<forall>t. receiver c = Some t \<longrightarrow> 0 < own t \<Longrightarrow> com_do p c s = Some (s', x) \<Longrightarrow>
    com_step p (s, own) (s', settle x own)"

section \<open>Counts and ownership\<close>

text \<open>A count is the number of references, or saturated.\<close>

definition counts :: "u32 \<Rightarrow> nat \<Rightarrow> bool" where
  "counts c n \<longleftrightarrow> c \<noteq> 0 \<and> (c = MAX_REFS \<or> unat c = n)"

definition count_of :: "('s, 'w) server \<Rightarrow> target \<Rightarrow> u32 option" where
  "count_of s t = (case t of FactoryAt n \<Rightarrow> factories s n | ObjectAt n \<Rightarrow> map_option object_refs (objects s n))"

definition held :: "('s, 'w) server \<Rightarrow> nat" where
  "held s = card (dom (factories s)) + card (dom (objects s)) + unat (server_locks (module_counts s))"

definition com_ok :: "('s, 'w) server \<times> (target \<Rightarrow> nat) \<Rightarrow> bool" where
  "com_ok = (\<lambda>(s, own).
     (\<forall>t. case count_of s t of None \<Rightarrow> own t = 0 | Some c \<Rightarrow> counts c (own t))
     \<and> (\<forall>n \<ge> next_address s. factories s n = None \<and> objects s n = None)
     \<and> finite (dom (factories s)) \<and> finite (dom (objects s))
     \<and> unat (holds (module_counts s)) = held s)"

lemma counts_one [simp]: "counts 1 (Suc 0)"
  by (simp add: counts_def)

lemma counts_increment: "counts c n \<Longrightarrow> increment_ref c = (r, c') \<Longrightarrow> counts c' (Suc n)"
proof -
  assume c: "counts c n" and r: "increment_ref c = (r, c')"
  have max: "MAX_REFS = - 1" by (simp add: MAX_REFS_def)
  show ?thesis
  proof (cases "c = MAX_REFS")
    case False
    then have "1 + c \<noteq> 0" using max by (metis add_eq_0_iff)
    then have "unat (1 + c) = Suc (unat c)" by (rule unatSuc)
    with c r False \<open>1 + c \<noteq> 0\<close> show ?thesis
      by (auto simp: counts_def increment_ref_def add.commute)
  qed (use c r in \<open>auto simp: counts_def increment_ref_def\<close>)
qed

lemma counts_release:
  assumes "counts c n" and "release_ref c = (r, c')"
  shows "r = Some c' \<and> (if c' = 0 then n = 1 else counts c' (n - 1))"
proof (cases "c = MAX_REFS")
  case False
  have "c \<noteq> 0" "unat c = n" using assms(1) False by (auto simp: counts_def)
  then have "r = Some c' \<and> c' = c - 1 \<and> unat c' = n - 1 \<and> 0 < n"
    using assms(2) False by (auto simp: release_ref_def unat_minus_one unat_gt_0)
  then show ?thesis by (auto simp: counts_def)
next
  case True
  moreover have "MAX_REFS \<noteq> 0" by (simp add: MAX_REFS_def)
  ultimately show ?thesis using assms by (auto simp: release_ref_def counts_def)
qed

lemma com_okD:
  assumes "com_ok (s, own)"
  shows "factories s n = Some c \<Longrightarrow> counts c (own (FactoryAt n))"
    and "objects s n = Some ob \<Longrightarrow> counts (object_refs ob) (own (ObjectAt n))"
    and "factories s n = None \<Longrightarrow> own (FactoryAt n) = 0" and "objects s n = None \<Longrightarrow> own (ObjectAt n) = 0"
    and "finite (dom (factories s))" and "finite (dom (objects s))"
    and "unat (holds (module_counts s)) = held s"
    and "factories s (next_address s) = None" and "objects s (next_address s) = None"
proof -
  have all: "\<And>t. case count_of s t of None \<Rightarrow> own t = 0 | Some c \<Rightarrow> counts c (own t)"
    using assms by (auto simp: com_ok_def)
  show "factories s n = Some c \<Longrightarrow> counts c (own (FactoryAt n))"
    "factories s n = None \<Longrightarrow> own (FactoryAt n) = 0"
    using all [of "FactoryAt n"] by (auto simp: count_of_def)
  show "objects s n = Some ob \<Longrightarrow> counts (object_refs ob) (own (ObjectAt n))"
    "objects s n = None \<Longrightarrow> own (ObjectAt n) = 0"
    using all [of "ObjectAt n"] by (auto simp: count_of_def)
qed (use assms in \<open>auto simp: com_ok_def\<close>)

lemma com_okI:
  assumes "\<And>n. factories s n = None \<Longrightarrow> own (FactoryAt n) = 0"
    and "\<And>n c. factories s n = Some c \<Longrightarrow> counts c (own (FactoryAt n))"
    and "\<And>n. objects s n = None \<Longrightarrow> own (ObjectAt n) = 0"
    and "\<And>n ob. objects s n = Some ob \<Longrightarrow> counts (object_refs ob) (own (ObjectAt n))"
    and "\<And>n. next_address s \<le> n \<Longrightarrow> factories s n = None \<and> objects s n = None"
    and "finite (dom (factories s))" and "finite (dom (objects s))"
    and "unat (holds (module_counts s)) = held s"
  shows "com_ok (s, own)"
proof -
  have "case count_of s t of None \<Rightarrow> own t = 0 | Some c \<Rightarrow> counts c (own t)" for t
  proof (cases t)
    case (FactoryAt n)
    then show ?thesis using assms(1,2) [of n] by (auto simp: count_of_def split: option.split)
  next
    case (ObjectAt n)
    then show ?thesis using assms(3,4) [of n] by (auto simp: count_of_def split: option.split)
  qed
  with assms(5-) show ?thesis by (simp add: com_ok_def)
qed

lemma com_ok_fresh:
  "com_ok (s, own) \<Longrightarrow> next_address s \<le> n \<Longrightarrow> factories s n = None \<and> objects s n = None"
  by (simp add: com_ok_def)

lemma dom_again: "f n = Some c \<Longrightarrow> dom (f(n := Some c')) = dom f"
  by auto

lemma factory_counted:
  assumes "com_ok (s, own)" and "factories s n = Some c" and "counts c' m"
  shows "com_ok (s\<lparr>factories := (factories s)(n := Some c')\<rparr>, own(FactoryAt n := m))"
proof (rule com_okI, goal_cases)
  case (5 k)
  then show ?case using com_ok_fresh [OF assms(1), of k] assms(2) by auto
qed (use com_okD(1-7) [OF assms(1)] assms(2,3)
    in \<open>auto simp: held_def dom_again simp del: dom_fun_upd\<close>)

lemma object_counted:
  assumes "com_ok (s, own)" and "objects s n = Some ob" and "counts (object_refs ob') m"
  shows "com_ok (s\<lparr>objects := (objects s)(n := Some ob')\<rparr>, own(ObjectAt n := m))"
proof (rule com_okI, goal_cases)
  case (5 k)
  then show ?case using com_ok_fresh [OF assms(1), of k] assms(2) by auto
qed (use com_okD(1-7) [OF assms(1)] assms(2,3)
    in \<open>auto simp: held_def dom_again simp del: dom_fun_upd\<close>)

lemma unat_released: "unat c = Suc n \<Longrightarrow> unat (snd (decrement_count c)) = n"
  by (auto simp: decrement_count_def unat_minus_one)

lemma held_factory: "com_ok (s, own) \<Longrightarrow> factories s n = Some c \<Longrightarrow>
    held s = Suc (held (s\<lparr>factories := (factories s)(n := None)\<rparr>))"
  using com_okD(5) [of s own] card_Suc_Diff1 [of "dom (factories s)" n] by (auto simp: held_def domI)

lemma held_object: "com_ok (s, own) \<Longrightarrow> objects s n = Some ob \<Longrightarrow>
    held s = Suc (held (s\<lparr>objects := (objects s)(n := None)\<rparr>))"
  using com_okD(6) [of s own] card_Suc_Diff1 [of "dom (objects s)" n] by (auto simp: held_def domI)

lemma held_cong: "factories s' = factories s \<Longrightarrow> objects s' = objects s \<Longrightarrow>
    server_locks (module_counts s') = server_locks (module_counts s) \<Longrightarrow> held s' = held s"
  by (simp add: held_def)

lemma factory_destroyed:
  assumes "com_ok (s, own)" and "factories s n = Some c"
  shows "com_ok (s\<lparr>factories := (factories s)(n := None),
      module_counts := release_object (module_counts s)\<rparr>, own(FactoryAt n := 0))" (is "com_ok (?s, _)")
proof (rule com_okI, goal_cases)
  case (5 k)
  then show ?case using com_ok_fresh [OF assms(1), of k] by auto
next
  case 8
  have "held ?s = held (s\<lparr>factories := (factories s)(n := None)\<rparr>)"
    by (rule held_cong) (simp_all add: release_object_def)
  with held_factory [OF assms] com_okD(7) [OF assms(1)] show ?case
    by (simp add: release_object_def unat_released)
qed (use com_okD(1-6) [OF assms(1)] in auto)

lemma object_destroyed:
  assumes "com_ok (s, own)" and "objects s n = Some ob"
  shows "com_ok (s\<lparr>objects := (objects s)(n := None), server_world := w,
      module_counts := release_object (module_counts s)\<rparr>, own(ObjectAt n := 0))" (is "com_ok (?s, _)")
proof (rule com_okI, goal_cases)
  case (5 k)
  then show ?case using com_ok_fresh [OF assms(1), of k] by auto
next
  case 8
  have "held ?s = held (s\<lparr>objects := (objects s)(n := None)\<rparr>)"
    by (rule held_cong) (simp_all add: release_object_def)
  with held_object [OF assms] com_okD(7) [OF assms(1)] show ?case
    by (simp add: release_object_def unat_released)
qed (use com_okD(1-6) [OF assms(1)] in auto)

lemma increment_count_Some:
  "increment_count c = (True, c') \<Longrightarrow> unat c' = Suc (unat c)"
  using checked_add32_Some [of c 1 c'] by (auto simp: increment_count_def split: option.splits)

lemma acquired: "acquire_object m = (True, m') \<Longrightarrow>
    unat (holds m') = Suc (unat (holds m)) \<and> server_locks m' = server_locks m"
  by (auto simp: acquire_object_def dest: increment_count_Some split: prod.splits)

lemma factory_created:
  assumes "com_ok (s, own)" and "acquire_object (module_counts s) = (True, m)"
  shows "com_ok (s\<lparr>module_counts := m, factories := (factories s)(next_address s := Some 1),
      next_address := next_address s + 1\<rparr>, own(FactoryAt (next_address s) := 1))"
proof (rule com_okI, goal_cases)
  case (5 k)
  then show ?case using com_ok_fresh [OF assms(1), of k] by auto
next
  case 8
  have "next_address s \<notin> dom (factories s)" using com_okD(8) [OF assms(1)] by auto
  with acquired [OF assms(2)] com_okD(5,7) [OF assms(1)] show ?case by (simp add: held_def)
qed (use com_okD(1-6) [OF assms(1)] in auto)

lemma object_created:
  assumes "com_ok (s, own)" and "acquire_object (module_counts s) = (True, m)" and "object_refs ob = 1"
  shows "com_ok (s\<lparr>module_counts := m, objects := (objects s)(next_address s := Some ob),
      next_address := next_address s + 1\<rparr>, own(ObjectAt (next_address s) := 1))"
proof (rule com_okI, goal_cases)
  case (5 k)
  then show ?case using com_ok_fresh [OF assms(1), of k] by auto
next
  case 8
  have "next_address s \<notin> dom (objects s)" using com_okD(9) [OF assms(1)] by auto
  with acquired [OF assms(2)] com_okD(6,7) [OF assms(1)] show ?case by (simp add: held_def)
qed (use com_okD(1-6) [OF assms(1)] assms(3) in auto)

lemma locked_server:
  assumes "com_ok (s, own)" and "lock_server l (module_counts s) = (hr, m)"
  shows "com_ok (s\<lparr>module_counts := m\<rparr>, own)"
proof (rule com_okI, goal_cases)
  case 8
  have "unat (holds m) + unat (server_locks (module_counts s))
      = unat (holds (module_counts s)) + unat (server_locks m)"
    using assms(2) com_okD(7) [OF assms(1)] unat_gt_0 [of "server_locks (module_counts s)"]
    by (auto simp: lock_server_def held_def decrement_count_def unat_minus_one
        split: if_splits prod.splits bool.splits dest!: increment_count_Some)
  with com_okD(7) [OF assms(1)] show ?case by (simp add: held_def)
qed (use com_okD(1-6) [OF assms(1)] com_ok_fresh [OF assms(1)] in auto)

section \<open>Every call keeps the counts\<close>

text \<open>
  The aggregator is another component: its methods act on its own world. Its later calls of
  the object are calls of a caller like any other.
\<close>

locale com_outer =
  fixes p :: "('s, 'w) com_parts"
  assumes outer_query_alone: "snd (outer_query p k r g s) = s\<lparr>server_world := server_world (snd (outer_query p k r g s))\<rparr>"
    and outer_add_ref_alone: "snd (outer_add_ref p k s) = s\<lparr>server_world := server_world (snd (outer_add_ref p k s))\<rparr>"
    and outer_release_alone: "snd (outer_release p k s) = s\<lparr>server_world := server_world (snd (outer_release p k s))\<rparr>"

lemma world_ok: "com_ok (s\<lparr>server_world := w\<rparr>, own) = com_ok (s, own)"
  by (simp add: com_ok_def count_of_def held_def split: target.splits)

lemma settle_same: "own(t := own t) = own"
  by simp

text \<open>A call succeeds on what the caller owns, and the counts follow the caller's references.\<close>

definition accounted :: "(target \<Rightarrow> nat) \<Rightarrow> (('s, 'w) server \<times> transfer_of) option \<Rightarrow> bool" where
  "accounted own res \<longleftrightarrow> (\<exists>s' x. res = Some (s', x) \<and> com_ok (s', settle x own))"

lemma accountedI: "com_ok (s', settle x own) \<Longrightarrow> accounted own (Some (s', x))"
  by (simp add: accounted_def)

lemma refused_accounted: "com_ok (s, own) \<Longrightarrow> accounted own (answered (refused hr s))"
  by (simp add: refused_def answered_def gained_def accounted_def)

lemma owned_live:
  assumes "com_ok (s, own)"
  shows "0 < own (FactoryAt n) \<Longrightarrow> \<exists>c. factories s n = Some c"
    and "0 < own (ObjectAt n) \<Longrightarrow> \<exists>ob. objects s n = Some ob"
  using com_okD(3,4) [OF assms, of n] by (cases "factories s n"; cases "objects s n"; auto)+

lemma factory_incremented:
  assumes "com_ok (s, own)" and "factories s n = Some c" and "increment_ref c = (r, c')"
  shows "com_ok (s\<lparr>factories := (factories s)(n := Some c')\<rparr>, own(FactoryAt n := Suc (own (FactoryAt n))))"
  using factory_counted [OF assms(1,2) counts_increment [OF com_okD(1) [OF assms(1,2)] assms(3)]] .

lemma object_incremented:
  assumes "com_ok (s, own)" and "objects s n = Some ob" and "increment_ref (object_refs ob) = (r, c')"
  shows "com_ok (s\<lparr>objects := (objects s)(n := Some (ob\<lparr>object_refs := c'\<rparr>))\<rparr>,
      own(ObjectAt n := Suc (own (ObjectAt n))))"
  using object_counted [OF assms(1,2), of "ob\<lparr>object_refs := c'\<rparr>"]
    counts_increment [OF com_okD(2) [OF assms(1,2)] assms(3)] by simp

lemma factory_released:
  assumes "com_ok (s, own)" and "factories s n = Some c"
  shows "\<exists>r s'. factory_release (Some n) s = Some (r, s')
    \<and> com_ok (s', own(FactoryAt n := own (FactoryAt n) - 1))"
proof -
  obtain r c' where r: "release_ref c = (r, c')" by fastforce
  from counts_release [OF com_okD(1) [OF assms] r] assms r
    factory_destroyed [OF assms] factory_counted [OF assms, of c']
  show ?thesis by (cases "c' = 0") (auto simp: factory_release_def)
qed

lemma object_released:
  assumes "com_ok (s, own)" and "objects s n = Some ob"
  shows "\<exists>r s'. unknown_release p (Some n) s = Some (r, s')
    \<and> com_ok (s', own(ObjectAt n := own (ObjectAt n) - 1))"
proof -
  obtain r c' where r: "release_ref (object_refs ob) = (r, c')" by fastforce
  from counts_release [OF com_okD(2) [OF assms] r] assms r
    object_destroyed [OF assms] object_counted [OF assms, of "ob\<lparr>object_refs := c'\<rparr>"]
  show ?thesis by (cases "c' = 0") (auto simp: unknown_release_def)
qed

lemma object_retained:
  assumes "com_ok (s, own)" and "objects s n = Some ob"
  shows "\<exists>r s'. unknown_add_ref (Some n) s = Some (r, s')
    \<and> com_ok (s', own(ObjectAt n := Suc (own (ObjectAt n))))
    \<and> self_controlled s' n = self_controlled s n"
proof -
  obtain r c' where r: "increment_ref (object_refs ob) = (r, c')" by fastforce
  from object_incremented [OF assms r] assms r show ?thesis
    by (auto simp: unknown_add_ref_def self_controlled_def)
qed

context com_outer
begin

lemma outer_only_world:
  "\<exists>w. snd (outer_query p k r g s) = s\<lparr>server_world := w\<rparr>"
  "\<exists>w. snd (outer_add_ref p k s) = s\<lparr>server_world := w\<rparr>"
  "\<exists>w. snd (outer_release p k s) = s\<lparr>server_world := w\<rparr>"
  using outer_query_alone [of k r g s] outer_add_ref_alone [of k s] outer_release_alone [of k s]
  by blast+

lemma outer_ok:
  assumes "com_ok (s, own)"
  shows "outer_query p k r g s = (a, s') \<Longrightarrow> com_ok (s', own)"
    and "outer_add_ref p k s = (b, s') \<Longrightarrow> com_ok (s', own) \<and> self_controlled s' n = self_controlled s n"
    and "outer_release p k s = (c, s') \<Longrightarrow> com_ok (s', own)"
  using assms outer_only_world(1) [of k r g s] outer_only_world(2,3) [of k s]
  by (auto simp: world_ok self_controlled_def)

lemma delegated_add_ref:
  assumes "com_ok (s, own)" and "objects s n = Some ob"
  shows "\<exists>r s'. instance_add_ref p (Some n) s = Some (r, s')
    \<and> com_ok (s', settle (delegated s n Gained) own) \<and> self_controlled s' n = self_controlled s n"
proof (cases "controlling ob")
  case Itself
  with object_retained [OF assms] assms(2) show ?thesis
    by (auto simp: instance_add_ref_def delegated_def self_controlled_def)
next
  case (Aggregator k)
  obtain r s' where q: "outer_add_ref p k s = (r, s')" by fastforce
  have "\<not> self_controlled s n" using Aggregator assms(2) by (simp add: self_controlled_def)
  with outer_ok(2) [OF assms(1) q, of n] Aggregator q assms(2) show ?thesis
    by (simp add: instance_add_ref_def delegated_def)
qed

lemma unknown_query_accounted:
  assumes "com_ok (s, own)" and "objects s n = Some ob"
  shows "accounted own (answered (unknown_query_interface p (Some n) riid given s))"
proof (cases riid)
  case None
  then show ?thesis using assms(1) by (simp add: unknown_query_interface_def refused_accounted)
next
  case (Some requested)
  obtain r s1 where u: "unknown_add_ref (Some n) s = Some (r, s1)"
    "com_ok (s1, own(ObjectAt n := Suc (own (ObjectAt n))))" using object_retained [OF assms] by blast
  obtain q s2 where i: "instance_add_ref p (Some n) s = Some (q, s2)"
    "com_ok (s2, settle (delegated s n Gained) own)" "self_controlled s2 n = self_controlled s n"
    using delegated_add_ref [OF assms] by blast
  consider "\<not> given" | "given" "requested = IID_IUNKNOWN" | "given" "requested \<noteq> IID_IUNKNOWN" "requested = IID_ISTIUSD \<or> requested = IID_IWIAMINIDRV"
    | "given" "requested \<notin> {IID_IUNKNOWN, IID_ISTIUSD, IID_IWIAMINIDRV}" by blast
  then show ?thesis
  proof cases
    case 2
    with u Some show ?thesis
      by (simp add: unknown_query_interface_def answered_def gained_def accounted_def)
  next
    case 3
    with i Some show ?thesis
      by (auto simp: unknown_query_interface_def answered_def gained_def accounted_def delegated_def)
  qed (use Some assms(1) in \<open>simp_all add: unknown_query_interface_def refused_accounted\<close>)
qed

lemma com_do_accounted:
  assumes "com_ok (s, own)" and "\<forall>t. receiver c = Some t \<longrightarrow> 0 < own t"
  shows "accounted own (com_do p c s)"
proof (cases c)
  case (GetClassObject cls riid given)
  have "accounted own (answered (dll_get_class_object cls riid given s))"
    using refused_accounted [OF assms(1)] factory_created [OF assms(1)] com_okD(3) [OF assms(1) com_okD(8) [OF assms(1)]]
    by (auto simp: dll_get_class_object_def Let_def answered_def gained_def
        split: option.split prod.split bool.split intro!: accountedI)
  then show ?thesis using GetClassObject by simp
next
  case (FactoryQuery n riid given)
  then obtain k where k: "factories s n = Some k" using owned_live(1) [OF assms(1)] assms(2) by fastforce
  obtain r c' where i: "increment_ref k = (r, c')" by fastforce
  have "accounted own (answered (factory_query_interface (Some n) riid given s))"
    using refused_accounted [OF assms(1)] factory_incremented [OF assms(1) k i] k i
    by (auto simp: factory_query_interface_def answered_def gained_def
        split: option.split intro!: accountedI)
  then show ?thesis using FactoryQuery by simp
next
  case (FactoryAddRef n)
  then obtain k where k: "factories s n = Some k" using owned_live(1) [OF assms(1)] assms(2) by fastforce
  obtain r c' where i: "increment_ref k = (r, c')" by fastforce
  from FactoryAddRef k i factory_incremented [OF assms(1) k i] show ?thesis
    by (auto simp: factory_add_ref_def intro!: accountedI)
next
  case (FactoryRelease n)
  then obtain k where k: "factories s n = Some k" using owned_live(1) [OF assms(1)] assms(2) by fastforce
  from FactoryRelease factory_released [OF assms(1) k] show ?thesis by (auto intro!: accountedI)
next
  case (CreateInstance n q riid given)
  have "accounted own (answered (factory_create_instance p (Some n) q riid given s))"
    using refused_accounted [OF assms(1)] object_created [OF assms(1)] com_okD(4) [OF assms(1) com_okD(9) [OF assms(1)]]
    by (auto simp: factory_create_instance_def Let_def answered_def gained_def self_controlled_def
        split: option.split prod.split bool.split intro!: accountedI)
  then show ?thesis using CreateInstance by simp
next
  case (LockServer n l)
  then show ?thesis using locked_server [OF assms(1)]
    by (auto simp: factory_lock_server_def split: prod.splits intro!: accountedI)
next
  case (UnknownQuery n riid given)
  then obtain ob where "objects s n = Some ob" using owned_live(2) [OF assms(1)] assms(2) by fastforce
  from unknown_query_accounted [OF assms(1) this] UnknownQuery show ?thesis by simp
next
  case (UnknownAddRef n)
  then obtain ob where "objects s n = Some ob" using owned_live(2) [OF assms(1)] assms(2) by fastforce
  from object_retained [OF assms(1) this] UnknownAddRef show ?thesis by (auto intro!: accountedI)
next
  case (UnknownRelease n)
  then obtain ob where "objects s n = Some ob" using owned_live(2) [OF assms(1)] assms(2) by fastforce
  from object_released [OF assms(1) this, of p] UnknownRelease show ?thesis by (auto intro!: accountedI)
next
  case (InstanceQuery n riid given)
  then obtain ob where ob: "objects s n = Some ob" using owned_live(2) [OF assms(1)] assms(2) by fastforce
  show ?thesis
  proof (cases "controlling ob")
    case Itself
    with unknown_query_accounted [OF assms(1) ob] InstanceQuery ob show ?thesis
      by (simp add: instance_query_interface_def self_controlled_def)
  next
    case (Aggregator k)
    with outer_ok(1) [OF assms(1)] InstanceQuery ob show ?thesis
      by (auto simp: instance_query_interface_def self_controlled_def split: prod.splits intro!: accountedI)
  qed
next
  case (InstanceAddRef n)
  then obtain ob where "objects s n = Some ob" using owned_live(2) [OF assms(1)] assms(2) by fastforce
  from delegated_add_ref [OF assms(1) this] InstanceAddRef show ?thesis by (auto intro!: accountedI)
next
  case (InstanceRelease n)
  then obtain ob where ob: "objects s n = Some ob" using owned_live(2) [OF assms(1)] assms(2) by fastforce
  show ?thesis
  proof (cases "controlling ob")
    case Itself
    with object_released [OF assms(1) ob, of p] InstanceRelease ob show ?thesis
      by (auto simp: instance_release_def delegated_def self_controlled_def intro!: accountedI)
  next
    case (Aggregator k)
    with outer_ok(3) [OF assms(1), of k] InstanceRelease ob show ?thesis
      by (auto simp: instance_release_def delegated_def self_controlled_def split: prod.splits intro!: accountedI)
  qed
qed

lemma com_steps_ok: "(com_step p)\<^sup>*\<^sup>* (s, own) x \<Longrightarrow> com_ok (s, own) \<Longrightarrow> com_ok x"
proof (induction rule: rtranclp_induct)
  case (step y z)
  from step(2) show ?case
  proof cases
    case (call c own1 s1 s2 t)
    with com_do_accounted [of s1 own1 c] step(3,4) show ?thesis by (auto simp: accounted_def)
  qed
qed

end

lemma server_new_ok: "com_ok (server_new w, \<lambda>_. 0)"
  by (simp add: com_ok_def server_new_def module_new_def count_of_def held_def split: target.splits)

end
