(* ===== verification/Com_Properties.thy ===== *)
theory Com_Properties
  imports Com_Lifetime
begin

unbundle bit_operations_syntax

text \<open>
  The correctness of the COM server: lifetimes, the unload decision under interleaving, and
  the identity of an object. The steps \<open>module_step\<close> are the atomic updates of the counters.
\<close>

section \<open>The unload decision under interleaving\<close>

text \<open>
  The counters are changed by many threads. A thread takes one atomic step at a time: it may
  hold the module without a lock yet (\<open>entering\<close>), or have given up a lock or an object and
  not yet its hold (\<open>leaving\<close>; the object is destroyed meanwhile). \<open>alive\<close> counts the factories
  and objects that hold the module.
\<close>

record traffic =
  counts_now :: module_state
  alive :: nat
  entering :: nat
  leaving :: nat

definition hold :: "module_state \<Rightarrow> bool \<times> module_state" where
  "hold m = (case increment_count (holds m) of (b, c) \<Rightarrow> (b, m\<lparr>holds := c\<rparr>))"

definition add_lock :: "module_state \<Rightarrow> bool \<times> module_state" where
  "add_lock m = (case increment_count (server_locks m) of (b, c) \<Rightarrow> (b, m\<lparr>server_locks := c\<rparr>))"

definition drop_lock :: "module_state \<Rightarrow> bool \<times> module_state" where
  "drop_lock m = (case decrement_count (server_locks m) of (b, c) \<Rightarrow> (b, m\<lparr>server_locks := c\<rparr>))"

inductive module_step :: "traffic \<Rightarrow> traffic \<Rightarrow> bool" where
  create: "acquire_object (counts_now t) = (True, m) \<Longrightarrow>
    module_step t (t\<lparr>counts_now := m, alive := alive t + 1\<rparr>)"
| refuse: "acquire_object (counts_now t) = (False, m) \<Longrightarrow> module_step t (t\<lparr>counts_now := m\<rparr>)"
| destroy: "0 < alive t \<Longrightarrow> module_step t (t\<lparr>alive := alive t - 1, leaving := leaving t + 1\<rparr>)"
| leave: "0 < leaving t \<Longrightarrow>
    module_step t (t\<lparr>counts_now := release_object (counts_now t), leaving := leaving t - 1\<rparr>)"
| enter: "hold (counts_now t) = (True, m) \<Longrightarrow>
    module_step t (t\<lparr>counts_now := m, entering := entering t + 1\<rparr>)"
| lock: "0 < entering t \<Longrightarrow> add_lock (counts_now t) = (True, m) \<Longrightarrow>
    module_step t (t\<lparr>counts_now := m, entering := entering t - 1\<rparr>)"
| roll_back: "0 < entering t \<Longrightarrow> add_lock (counts_now t) = (False, m) \<Longrightarrow>
    module_step t (t\<lparr>counts_now := release_object m, entering := entering t - 1\<rparr>)"
| unlock: "drop_lock (counts_now t) = (True, m) \<Longrightarrow>
    module_step t (t\<lparr>counts_now := m, leaving := leaving t + 1\<rparr>)"

definition traffic_start :: traffic where
  "traffic_start = \<lparr>counts_now = module_new, alive = 0, entering = 0, leaving = 0\<rparr>"

definition held_by :: "traffic \<Rightarrow> bool" where
  "held_by t \<longleftrightarrow> unat (holds (counts_now t))
     = alive t + unat (server_locks (counts_now t)) + entering t + leaving t"

lemma release_object_unat:
  "unat (holds (release_object m)) = unat (holds m) - 1 \<and> server_locks (release_object m) = server_locks m"
  by (cases "holds m = 0") (auto simp: release_object_def decrement_count_def unat_minus_one)

lemma increment_refused: "increment_count c = (False, c') \<Longrightarrow> c' = c"
  unfolding increment_count_def by (cases "checked_add32 c 1") auto

lemma decrement_refused: "decrement_count c = (False, c') \<Longrightarrow> c' = c"
  by (simp add: decrement_count_def split: if_splits)

lemma decrement_count_Some: "decrement_count c = (True, c') \<Longrightarrow> unat c = Suc (unat c')"
  using unat_gt_0 [of c] by (auto simp: decrement_count_def unat_minus_one split: if_splits)

lemma increment_undone: "increment_count c = (True, c') \<Longrightarrow> snd (decrement_count c') = c"
proof -
  assume i: "increment_count c = (True, c')"
  then have "unat c' = Suc (unat c)" by (rule increment_count_Some)
  then have "unat (snd (decrement_count c')) = unat c" by (rule unat_released)
  then show ?thesis by (rule unsigned_word_eqI)
qed

lemma unat_zero_u32: "unat (c :: u32) = 0 \<longleftrightarrow> c = 0"
  using unat_gt_0 [of c] by auto

lemma module_step_held: "module_step t t' \<Longrightarrow> held_by t \<Longrightarrow> held_by t'"
proof (induction rule: module_step.induct)
  case (create t m)
  then show ?case using acquired [of "counts_now t" m] by (simp add: held_by_def)
next
  case (refuse t m)
  then show ?case by (auto simp: held_by_def acquire_object_def split: prod.splits dest: increment_refused)
next
  case (leave t)
  then show ?case using release_object_unat [of "counts_now t"] by (simp add: held_by_def)
next
  case (roll_back t m)
  then have "m = counts_now t" by (auto simp: add_lock_def split: prod.splits dest: increment_refused)
  with roll_back show ?case using release_object_unat [of m] by (simp add: held_by_def)
qed (auto simp: held_by_def hold_def add_lock_def drop_lock_def split: prod.splits
    dest!: increment_count_Some decrement_count_Some)

lemma module_steps_held: "module_step\<^sup>*\<^sup>* traffic_start t \<Longrightarrow> held_by t"
  by (induction rule: rtranclp_induct)
    (auto simp: held_by_def traffic_start_def module_new_def intro: module_step_held [unfolded held_by_def])

text \<open>The whole calls are runs of these steps.\<close>

lemma add_lock_holds [simp]: "add_lock (m\<lparr>holds := h\<rparr>) = (case add_lock m of (b, m) \<Rightarrow> (b, m\<lparr>holds := h\<rparr>))"
  by (auto simp: add_lock_def split: prod.splits)

lemma lock_server_run:
  assumes "lock_server l (counts_now t) = (hr, m)" and "held_by t"
  shows "module_step\<^sup>*\<^sup>* t (t\<lparr>counts_now := m\<rparr>)"
proof (cases l)
  case True
  obtain b h where i: "increment_count (holds (counts_now t)) = (b, h)" by fastforce
  show ?thesis
  proof (cases b)
    case b: True
    let ?t = "t\<lparr>counts_now := (counts_now t)\<lparr>holds := h\<rparr>, entering := entering t + 1\<rparr>"
    have "module_step t ?t" using i b by (intro enter) (simp add: hold_def)
    moreover have "module_step ?t (t\<lparr>counts_now := m\<rparr>)"
    proof -
      obtain b2 k where k: "increment_count (server_locks (counts_now t)) = (b2, k)" by fastforce
      show ?thesis
      proof (cases b2)
        case True
        have "module_step ?t (?t\<lparr>counts_now := m, entering := entering ?t - 1\<rparr>)"
          using assms(1) i k b True \<open>l\<close> by (intro lock) (auto simp: lock_server_def add_lock_def)
        then show ?thesis by simp
      next
        case False
        have "module_step ?t (?t\<lparr>counts_now := release_object ((counts_now t)\<lparr>holds := h\<rparr>),
            entering := entering ?t - 1\<rparr>)"
          using i k b False increment_refused [of "server_locks (counts_now t)" k]
          by (intro roll_back) (auto simp: add_lock_def)
        moreover have "m = release_object ((counts_now t)\<lparr>holds := h\<rparr>)"
          using assms(1) i k b False \<open>l\<close> by (simp add: lock_server_def release_object_def)
        ultimately show ?thesis by simp
      qed
    qed
    ultimately show ?thesis by (rule converse_rtranclp_into_rtranclp [OF _ r_into_rtranclp])
  next
    case False
    with assms(1) i True have "m = counts_now t" by (auto simp: lock_server_def)
    then show ?thesis by simp
  qed
next
  case False
  obtain b k where k: "decrement_count (server_locks (counts_now t)) = (b, k)" by fastforce
  show ?thesis
  proof (cases b)
    case True
    let ?t = "t\<lparr>counts_now := (counts_now t)\<lparr>server_locks := k\<rparr>, leaving := leaving t + 1\<rparr>"
    have "module_step t ?t" using k True by (intro unlock) (simp add: drop_lock_def)
    moreover have "module_step ?t (?t\<lparr>counts_now := release_object (counts_now ?t), leaving := leaving ?t - 1\<rparr>)"
      by (rule leave) simp
    moreover have "?t\<lparr>counts_now := release_object (counts_now ?t), leaving := leaving ?t - 1\<rparr>
        = t\<lparr>counts_now := m\<rparr>"
      using assms(1) False k True by (auto simp: lock_server_def release_object_def)
    ultimately show ?thesis by (metis converse_rtranclp_into_rtranclp r_into_rtranclp)
  next
    case b: False
    with assms(1) k False have "m = counts_now t" by (auto simp: lock_server_def)
    then show ?thesis by simp
  qed
qed

section \<open>Properties\<close>

text \<open>
  Property C8: nothing is used after it was freed and nothing is freed early. While callers
  keep to the contract of COM, releasing only references that they own, every call on an
  owned reference finds its factory or object alive; what nobody owns is gone, unless its
  count once saturated; and the module's hold count is the number of living factories and
  objects and of server locks, so the module can be unloaded exactly when there are none.
\<close>

theorem references_keep_objects_alive:
  assumes "com_outer p" and "(com_step p)\<^sup>*\<^sup>* (server_new w, \<lambda>_. 0) (s, own)"
  shows "(\<forall>c. (\<forall>t. receiver c = Some t \<longrightarrow> 0 < own t) \<longrightarrow> com_do p c s \<noteq> None)
    \<and> (\<forall>t. 0 < own t \<longrightarrow> count_of s t \<noteq> None)
    \<and> (\<forall>t c. count_of s t = Some c \<longrightarrow> c = MAX_REFS \<or> 0 < own t \<and> unat c = own t)
    \<and> (dll_can_unload_now s = S_OK \<longleftrightarrow> factories s = (\<lambda>_. None) \<and> objects s = (\<lambda>_. None)
        \<and> server_locks (module_counts s) = 0)"
proof -
  have ok: "com_ok (s, own)"
    by (rule com_outer.com_steps_ok [OF assms server_new_ok])
  have calls: "com_do p c s \<noteq> None" if "\<forall>t. receiver c = Some t \<longrightarrow> 0 < own t" for c
    using com_outer.com_do_accounted [OF assms(1) ok that] by (auto simp: accounted_def)
  have counted: "(0 < own t \<longrightarrow> count_of s t \<noteq> None)
      \<and> (count_of s t = Some c \<longrightarrow> c = MAX_REFS \<or> 0 < own t \<and> unat c = own t)" for t c
    using ok unat_zero_u32 [of c] by (auto simp: com_ok_def counts_def split: option.splits dest!: spec [of _ t])
  have unload: "dll_can_unload_now s = S_OK \<longleftrightarrow> held s = 0"
    using com_okD(7) [OF ok]
    by (simp add: dll_can_unload_now_def can_unload_def S_OK_def S_FALSE_def flip: unat_zero_u32)
  have none: "held s = 0 \<longleftrightarrow> factories s = (\<lambda>_. None) \<and> objects s = (\<lambda>_. None)
      \<and> server_locks (module_counts s) = 0"
    using com_okD(5,6) [OF ok] by (auto simp: held_def unat_zero_u32)
  show ?thesis
    unfolding unload none using calls counted by blast
qed

text \<open>
  A server for driver objects whose state is a number, with an aggregator that counts its own
  references.
\<close>

definition lab_parts :: "(nat, (nat \<Rightarrow> nat) \<times> nat list) com_parts" where
  "lab_parts = \<lparr>
     outer_query = (\<lambda>k r g s. ((E_NOINTERFACE, None), s)),
     outer_add_ref = (\<lambda>k s. case server_world s of (f, d) \<Rightarrow>
       (word_of_nat (f k + 1), s\<lparr>server_world := (f(k := f k + 1), d)\<rparr>)),
     outer_release = (\<lambda>k s. case server_world s of (f, d) \<Rightarrow>
       (word_of_nat (f k - 1), s\<lparr>server_world := (f(k := f k - 1), d)\<rparr>)),
     object_new = 0,
     object_drop = (\<lambda>st (f, d). (f, st # d))\<rparr>"

interpretation lab: com_outer lab_parts
  by unfold_locales (auto simp: lab_parts_def split: prod.splits)

abbreviation lab_new :: "(nat, (nat \<Rightarrow> nat) \<times> nat list) server" where
  "lab_new \<equiv> server_new (\<lambda>_. 0, [])"

lemma lab_factory: "\<exists>s. (com_step lab_parts)\<^sup>*\<^sup>* (lab_new, \<lambda>_. 0) (s, (\<lambda>_. 0)(FactoryAt 0 := 1))"
proof -
  have "com_do lab_parts (GetClassObject (Some DRIVER_CLASS_ID) (Some IID_IUNKNOWN) True) lab_new
    = Some (lab_new\<lparr>module_counts := \<lparr>holds = 1, server_locks = 0\<rparr>,
        factories := (\<lambda>_. None)(0 := Some 1), next_address := 1\<rparr>, Gained (FactoryAt 0))"
    by (simp add: dll_get_class_object_def acquire_object_def increment_count_def checked_add32_def
        server_new_def module_new_def answered_def gained_def Let_def)
  from r_into_rtranclp [of "com_step lab_parts", OF call [OF _ this, of "\<lambda>_. 0"]] show ?thesis by auto
qed

theorem references_keep_objects_alive_witness:
  "\<exists>s. dll_can_unload_now (s :: (nat, (nat \<Rightarrow> nat) \<times> nat list) server) \<noteq> S_OK
    \<and> count_of s (FactoryAt 0) \<noteq> None \<and> com_do lab_parts (FactoryRelease 0) s \<noteq> None"
proof -
  obtain s where s: "(com_step lab_parts)\<^sup>*\<^sup>* (lab_new, \<lambda>_. 0) (s, (\<lambda>_. 0)(FactoryAt 0 := 1))"
    using lab_factory by blast
  note r = references_keep_objects_alive [OF lab.com_outer_axioms s]
  have alive: "count_of s (FactoryAt 0) \<noteq> None" using r by (metis fun_upd_same zero_less_one)
  moreover have "dll_can_unload_now s \<noteq> S_OK" using r alive by (auto simp: count_of_def)
  moreover have "com_do lab_parts (FactoryRelease 0) s \<noteq> None"
    using r [THEN conjunct1, THEN spec, of "FactoryRelease 0"] by (simp del: com_do.simps)
  ultimately show ?thesis by blast
qed

text \<open>
  Property C15: the decision to unload is safe under any interleaving. Whatever atomic steps any
  number of threads take, the single counter that DllCanUnloadNow reads is the number of
  living factories and objects, of server locks and of threads between two counters. So when
  it answers that the module can be unloaded there is no object, no lock, no thread inside
  LockServer, and no object still being destroyed.
\<close>

theorem unload_is_safe:
  assumes "module_step\<^sup>*\<^sup>* traffic_start t"
  shows "unat (holds (counts_now t))
      = alive t + unat (server_locks (counts_now t)) + entering t + leaving t
    \<and> (can_unload (counts_now t) \<longleftrightarrow>
        alive t = 0 \<and> server_locks (counts_now t) = 0 \<and> entering t = 0 \<and> leaving t = 0)"
proof -
  have h: "held_by t" using module_steps_held [OF assms] .
  then show ?thesis
    using unat_zero_u32 [of "holds (counts_now t)"] unat_zero_u32 [of "server_locks (counts_now t)"]
    by (auto simp: held_by_def can_unload_def)
qed

theorem unload_is_safe_witness:
  "\<not> can_unload \<lparr>holds = 1, server_locks = 0\<rparr>"
proof -
  let ?t = "traffic_start\<lparr>counts_now := \<lparr>holds = 1, server_locks = 0\<rparr>, entering := 1\<rparr>"
  have "module_step\<^sup>*\<^sup>* traffic_start ?t"
    using r_into_rtranclp [of module_step traffic_start ?t] enter [of traffic_start "\<lparr>holds = 1, server_locks = 0\<rparr>"]
    by (simp add: traffic_start_def module_new_def hold_def increment_count_def checked_add32_def)
  from unload_is_safe [OF this] show ?thesis by (simp add: traffic_start_def)
qed

text \<open>
  An object that controls itself has one identity. Asked through any of its
  interfaces, it always gives the same pointer for IUnknown and the same pointer for each of
  the other two interfaces, adds exactly one reference each time, and refuses everything
  else, and every null argument, without any effect.
\<close>

theorem query_is_consistent:
  assumes "objects s n = Some ob" and "controlling ob = Itself" and "increment_ref (object_refs ob) = (r, c)"
    and "query \<in> {unknown_query_interface p, instance_query_interface p}"
  defines "s' \<equiv> s\<lparr>objects := (objects s)(n := Some (ob\<lparr>object_refs := c\<rparr>))\<rparr>"
  shows "query (Some n) (Some iid) True s = Some
      (if iid = IID_IUNKNOWN then ((S_OK, Some (UnknownPtr n)), s')
       else if iid = IID_ISTIUSD then ((S_OK, Some (StiPtr n)), s')
       else if iid = IID_IWIAMINIDRV then ((S_OK, Some (MiniPtr n)), s')
       else ((E_NOINTERFACE, None), s))
    \<and> query (Some n) None given s = Some ((E_POINTER, None), s)
    \<and> query (Some n) riid False s = Some ((E_POINTER, None), s)"
  using assms(1-4)
  by (auto simp: s'_def unknown_query_interface_def instance_query_interface_def unknown_add_ref_def
      instance_add_ref_def refused_def split: option.split)

theorem query_is_consistent_witness:
  "unknown_query_interface lab_parts (Some 0) (Some IID_IWIAMINIDRV) True
     (lab_new\<lparr>objects := (\<lambda>_. None)(0 := Some \<lparr>controlling = Itself, object_refs = 1, object_state = 0\<rparr>)\<rparr>)
   = Some ((S_OK, Some (MiniPtr 0)), lab_new\<lparr>objects :=
       (\<lambda>_. None)(0 := Some \<lparr>controlling = Itself, object_refs = 2, object_state = 0\<rparr>)\<rparr>)"
  using query_is_consistent [of "lab_new\<lparr>objects := (\<lambda>_. None)(0 := Some
      \<lparr>controlling = Itself, object_refs = 1, object_state = 0\<rparr>)\<rparr>" 0
      "\<lparr>controlling = Itself, object_refs = 1, object_state = 0\<rparr>" 2 2
      "unknown_query_interface lab_parts" lab_parts IID_IWIAMINIDRV]
  by (simp add: increment_ref_def MAX_REFS_def)

end
