(* ===== verification/Usb.thy ===== *)
theory Usb
  imports Wia_Constants Scan_Job
begin

unbundle bit_operations_syntax

text \<open>
  The scanner over WinUSB, \<open>src/usb.rs\<close>: the search for the one registered scanner interface,
  the opening of its session with the checks of descriptors and pipes, and the bounded
  transfers; with the hardware identifiers of \<open>src/lib.rs\<close>. The functions of Windows are a
  parameter: each takes its arguments and the world and returns what it wrote. Handles are
  numbers, an invalid or null handle is \<open>None\<close>.
\<close>

section \<open>Identifiers\<close>

text \<open>\<open>str::split\<close> on one character.\<close>

fun split_on :: "'a \<Rightarrow> 'a list \<Rightarrow> 'a list list" where
  "split_on d [] = [[]]"
| "split_on d (c # cs) =
     (if c = d then [] # split_on d cs
      else case split_on d cs of part # parts \<Rightarrow> (c # part) # parts | [] \<Rightarrow> [[c]])"

definition eq_ignore_ascii_case :: "scalars \<Rightarrow> string \<Rightarrow> bool" where
  "eq_ignore_ascii_case s t \<longleftrightarrow> map ascii_lower s = map (\<lambda>c. ascii_lower (of_char c)) t"

datatype usb_interface = Scanner | Printer | Composite

definition identify :: "scalars \<Rightarrow> usb_interface option" where
  "identify instance_id = (case split_on 92 instance_id of
     [bus, hardware, device] \<Rightarrow>
       if \<not> eq_ignore_ascii_case bus ''USB'' \<or> device = [] then None
       else if eq_ignore_ascii_case hardware ''VID_0924&PID_4265&MI_00'' then Some Scanner
       else if eq_ignore_ascii_case hardware ''VID_0924&PID_4265&MI_01'' then Some Printer
       else if eq_ignore_ascii_case hardware ''VID_0924&PID_4265'' then Some Composite
       else None
   | _ \<Rightarrow> None)"

section \<open>Windows\<close>

definition INSUFFICIENT_BUFFER_CODE :: int where "INSUFFICIENT_BUFFER_CODE = 122"
definition ERROR_NO_MORE_ITEMS :: int where "ERROR_NO_MORE_ITEMS = 259"
definition MAX_TRANSFER_BYTES :: nat where "MAX_TRANSFER_BYTES = 1024 * 1024"
definition MAXIMUM_TRANSFER_SIZE_POLICY :: nat where "MAXIMUM_TRANSFER_SIZE_POLICY = 8"

record pipe_info =
  pipe_kind :: int
  pipe_id :: u8
  maximum_packet :: u16
  pipe_interval :: u8

record bulk_pipes =
  bulk_input :: u8
  bulk_output :: u8
  input_max_packet :: u16
  output_max_packet :: u16

text \<open>
  An enumerated interface is a number with its flags; the device behind it, which the detail
  call writes, is a number too.
\<close>

record 'w winusb =
  last_os_error :: "'w \<Rightarrow> int \<times> error_kind"
  class_devices :: "'w \<Rightarrow> nat option \<times> 'w"
  destroy_list :: "nat \<Rightarrow> 'w \<Rightarrow> 'w"
  enum_interface :: "nat \<Rightarrow> nat \<Rightarrow> 'w \<Rightarrow> (nat \<times> u32) option \<times> 'w"
  detail_size :: "nat \<Rightarrow> nat \<Rightarrow> 'w \<Rightarrow> (bool \<times> nat) \<times> 'w"
  detail_read :: "nat \<Rightarrow> nat \<Rightarrow> nat \<Rightarrow> 'w \<Rightarrow> (bool \<times> nat \<times> u16 list \<times> nat) \<times> 'w"
  instance_id_of :: "nat \<Rightarrow> nat \<Rightarrow> 'w \<Rightarrow> (bool \<times> nat \<times> u16 list) \<times> 'w"
  compare_ordinal :: "u16 list \<Rightarrow> u16 list \<Rightarrow> 'w \<Rightarrow> int \<times> 'w"
  create_file :: "u16 list \<Rightarrow> 'w \<Rightarrow> nat option \<times> 'w"
  close_handle :: "nat \<Rightarrow> 'w \<Rightarrow> 'w"
  winusb_initialize :: "nat \<Rightarrow> 'w \<Rightarrow> (bool \<times> nat option) \<times> 'w"
  winusb_free :: "nat \<Rightarrow> 'w \<Rightarrow> 'w"
  get_descriptor :: "nat \<Rightarrow> 'w \<Rightarrow> (bool \<times> bytes \<times> nat) \<times> 'w"
  current_setting :: "nat \<Rightarrow> 'w \<Rightarrow> (bool \<times> u8) \<times> 'w"
  interface_settings :: "nat \<Rightarrow> u8 \<Rightarrow> 'w \<Rightarrow> (bool \<times> bytes) \<times> 'w"
  query_pipe :: "nat \<Rightarrow> u8 \<Rightarrow> nat \<Rightarrow> 'w \<Rightarrow> (bool \<times> pipe_info) \<times> 'w"
  set_pipe_policy :: "nat \<Rightarrow> u8 \<Rightarrow> nat \<Rightarrow> nat \<Rightarrow> 'w \<Rightarrow> bool \<times> 'w"
  get_pipe_policy :: "nat \<Rightarrow> u8 \<Rightarrow> nat \<Rightarrow> 'w \<Rightarrow> (bool \<times> nat \<times> u32) \<times> 'w"
  write_pipe :: "nat \<Rightarrow> u8 \<Rightarrow> bytes \<Rightarrow> 'w \<Rightarrow> (bool \<times> u32) \<times> 'w"
  read_pipe :: "nat \<Rightarrow> u8 \<Rightarrow> nat \<Rightarrow> 'w \<Rightarrow> (bool \<times> u32 \<times> bytes) \<times> 'w"

definition os_error :: "'w winusb \<Rightarrow> 'w \<Rightarrow> io_error" where
  "os_error win w = (case last_os_error win w of (code, k) \<Rightarrow> Os code k)"

definition win_result :: "'w winusb \<Rightarrow> bool \<Rightarrow> string \<Rightarrow> 'w \<Rightarrow> unit io" where
  "win_result win succeeded operation w =
     (if succeeded then Inr ()
      else Inl (let er = os_error win w
                in Custom (kind er) (Message (Fmt [Lit operation, Lit '': '', Shown er]))))"

text \<open>
  A call of Windows that reports success by a flag, and what follows when it succeeded; an
  array of \<open>n\<close> zeros after such a call has written to its front.
\<close>

definition checked_call ::
    "'w winusb \<Rightarrow> string \<Rightarrow> (bool \<times> 'a) \<times> 'w \<Rightarrow> ('a \<Rightarrow> 'w \<Rightarrow> 'b io \<times> 'w) \<Rightarrow> 'b io \<times> 'w" where
  "checked_call win operation res k = (case res of ((succeeded, a), w) \<Rightarrow>
     (case win_result win succeeded operation w of
        Inl er \<Rightarrow> (Inl er, w)
      | Inr _ \<Rightarrow> k a w))"

definition then_io :: "'a io \<times> 'w \<Rightarrow> ('a \<Rightarrow> 'w \<Rightarrow> 'b io \<times> 'w) \<Rightarrow> 'b io \<times> 'w" where
  "then_io m k = (case m of (Inl er, w) \<Rightarrow> (Inl er, w) | (Inr a, w) \<Rightarrow> k a w)"

definition written_over :: "nat \<Rightarrow> 'a :: zero list \<Rightarrow> 'a list" where
  "written_over n xs = take n xs @ replicate (n - length xs) 0"

section \<open>The registered interfaces\<close>

definition validate_scanner_id :: "scalars \<Rightarrow> unit io" where
  "validate_scanner_id i = fail_if (identify i \<noteq> Some Scanner)
     (invalid ''Registered interface does not belong to the exact scanner MI_00'')"

text \<open>The path in the detail: up to and with its first terminator, at most \<open>n\<close> units of it valid.\<close>

definition terminated_path :: "u16 list \<Rightarrow> u16 list io" where
  "terminated_path path =
     (let name = takeWhile (\<lambda>u. u \<noteq> 0) path
      in if length name = length path then Inl (invalid ''Unterminated scanner path'')
         else if name = [] then Inl (invalid ''Empty scanner path'')
         else Inr (take (length name + 1) path))"

definition identity_of :: "nat \<Rightarrow> u16 list \<Rightarrow> scalars io" where
  "identity_of id_length units =
     (let i = written_over 200 units
      in if id_length = 0 \<or> id_length > 200 \<or> i ! (id_length - 1) \<noteq> 0
         then Inl (invalid ''Invalid scanner identity length'')
         else ok_or (invalid ''Invalid scanner identity encoding'')
           (decode_utf16 (map unat (take (id_length - 1) i))))"

definition interface_detail_with_identity ::
    "'w winusb \<Rightarrow> nat \<Rightarrow> nat \<Rightarrow> 'w \<Rightarrow> (u16 list \<times> scalars) io \<times> 'w" where
  "interface_detail_with_identity win dev_set interface w = (case detail_size win dev_set interface w of
     ((sized, required), w) \<Rightarrow>
       if sized \<or> fst (last_os_error win w) \<noteq> INSUFFICIENT_BUFFER_CODE
       then (Inl (io_other (Lit ''Unable to size scanner interface path'')), w)
       else if required < 8 \<or> required > 64 * 1024 \<or> required mod 2 \<noteq> 0
       then (Inl (invalid ''Invalid scanner interface path size''), w)
       else checked_call win ''Read scanner interface path'' (detail_read win dev_set interface required w)
         (\<lambda>(again, path, device) w.
            if again > required \<or> again < 8 \<or> again mod 2 \<noteq> 0
            then (Inl (invalid ''Scanner interface path length changed''), w)
            else checked_call win ''Read scanner identity'' (instance_id_of win dev_set device w)
              (\<lambda>(id_length, units) w.
                 (and_then (identity_of id_length units) (\<lambda>identity.
                  and_then (terminated_path (written_over ((again - 4) div 2) path)) (\<lambda>path.
                    Inr (path, identity))), w))))"

record scanner_candidates =
  active_paths :: "u16 list list"
  inactive_count :: nat

text \<open>The enumeration from \<open>index\<close> on; \<open>left\<close> counts down to the bound of 256.\<close>

fun candidates_from ::
    "'w winusb \<Rightarrow> nat \<Rightarrow> nat \<Rightarrow> nat \<Rightarrow> scanner_candidates \<Rightarrow> 'w \<Rightarrow> scanner_candidates io \<times> 'w" where
  "candidates_from win left dev_set index c w = (case enum_interface win dev_set index w of
     (None, w) \<Rightarrow>
       (if fst (last_os_error win w) = ERROR_NO_MORE_ITEMS then Inr c else Inl (os_error win w), w)
   | (Some (interface, flags), w) \<Rightarrow>
       (case left of
          0 \<Rightarrow> (Inl (invalid ''Too many registered scanner interfaces''), w)
        | Suc left \<Rightarrow>
            then_io (interface_detail_with_identity win dev_set interface w) (\<lambda>(path, identity) w.
              case validate_scanner_id identity of
                Inl er \<Rightarrow> (Inl er, w)
              | Inr _ \<Rightarrow>
                  candidates_from win left dev_set (index + 1)
                    (if flags AND 1 \<noteq> 0 \<and> flags AND 4 = 0
                     then c\<lparr>active_paths := active_paths c @ [path]\<rparr>
                     else c\<lparr>inactive_count := inactive_count c + 1\<rparr>) w)))"

definition scanner_candidate_paths :: "'w winusb \<Rightarrow> 'w \<Rightarrow> scanner_candidates io \<times> 'w" where
  "scanner_candidate_paths win w = (case class_devices win w of
     (None, w) \<Rightarrow> (Inl (os_error win w), w)
   | (Some dev_set, w) \<Rightarrow>
       (case candidates_from win 256 dev_set 0 \<lparr>active_paths = [], inactive_count = 0\<rparr> w of
          (r, w) \<Rightarrow> (r, destroy_list win dev_set w)))"

definition several_interfaces :: io_error where
  "several_interfaces = io_other (Lit ''Multiple scanner interfaces are present; refusing to choose a device'')"

definition unique_scanner_path :: "scanner_candidates \<Rightarrow> u16 list io" where
  "unique_scanner_path c =
     (if length (active_paths c) + inactive_count c > 1 then Inl several_interfaces
      else case active_paths c of
          [] \<Rightarrow>
            if inactive_count c > 0
            then Inl (Custom NotConnected (Message (Lit ''Scanner interface is not active'')))
            else Inl (Custom NotFound (Message (Lit
              ''Scanner WinUSB interface is unavailable; MI_00 must be paired and its interface GUID registered before inquiry'')))
        | [path] \<Rightarrow> Inr path
        | _ \<Rightarrow> Inl several_interfaces)"

definition validate_matching_path :: "u16 list \<Rightarrow> u16 list io" where
  "validate_matching_path path =
     (let name = takeWhile (\<lambda>u. u \<noteq> 0) path
      in if path = [] then Inl (invalid ''Scanner path is empty'')
         else if length path > 32768 then Inl (invalid ''Scanner path is too long'')
         else if length name = length path then Inl (invalid ''Scanner path is not null-terminated'')
         else if name = [] then Inl (invalid ''Scanner path is empty'')
         else if length name + 1 \<noteq> length path then Inl (invalid ''Scanner path has data after its terminator'')
         else Inr (take (length name + 1) path))"

definition equal_utf16_path :: "'w winusb \<Rightarrow> u16 list \<Rightarrow> u16 list \<Rightarrow> 'w \<Rightarrow> bool io \<times> 'w" where
  "equal_utf16_path win a b w =
     (if i32_of_nat (length a) = None \<or> i32_of_nat (length b) = None
      then (Inl (invalid ''Scanner path length is unsupported''), w)
      else case compare_ordinal win a b w of (res, w) \<Rightarrow>
        (if res = 2 then Inr True
         else if res = 1 \<or> res = 3 then Inr False
         else if res = 0 then Inl (os_error win w)
         else Inl (io_other (Lit ''Unexpected path compare result'')), w))"

fun matching_path ::
    "'w winusb \<Rightarrow> u16 list \<Rightarrow> u16 list list \<Rightarrow> u16 list option \<Rightarrow> 'w \<Rightarrow> u16 list io \<times> 'w" where
  "matching_path win requested [] found w =
     (ok_or (Custom NotFound (Message (Lit ''No matching MI_00 scanner interface is connected''))) found, w)"
| "matching_path win requested (candidate # rest) found w =
     then_io (equal_utf16_path win candidate requested w) (\<lambda>matches w.
       if matches then
         if found \<noteq> None
         then (Inl (io_other (Lit
           ''Multiple matching MI_00 scanner interfaces are present; refusing to choose a device'')), w)
         else matching_path win requested rest (Some candidate) w
       else matching_path win requested rest found w)"

definition select_matching_scanner_path ::
    "'w winusb \<Rightarrow> u16 list list \<Rightarrow> u16 list \<Rightarrow> 'w \<Rightarrow> u16 list io \<times> 'w" where
  "select_matching_scanner_path win candidates requested w =
     then_io (validate_matching_path requested, w) (\<lambda>requested w.
       matching_path win requested candidates None w)"

end
