(* ===== verification/Usb_Session.thy ===== *)
theory Usb_Session
  imports Usb
begin

unbundle bit_operations_syntax

text \<open>
  The session of \<open>src/usb.rs\<close>: opening and configuring it, its bounded transfers, and its
  release; and the one-shot inquiries of \<open>src/usb.rs\<close> and \<open>src/lib.rs\<close>. A handle that is
  owned by a local value is released where the code drops that value.
\<close>

section \<open>Descriptors and pipes\<close>

definition validate_device :: "bytes \<Rightarrow> unit io" where
  "validate_device d = fail_if
     (length d \<noteq> 18 \<or> d ! 0 \<noteq> 18 \<or> d ! 1 \<noteq> 1
      \<or> unat (d ! 8) + 256 * unat (d ! 9) \<noteq> 0x0924 \<or> unat (d ! 10) + 256 * unat (d ! 11) \<noteq> 0x4265)
     (invalid ''USB device descriptor does not match WorkCentre 3119'')"

definition validate_interface :: "bytes \<Rightarrow> u8 \<Rightarrow> nat io" where
  "validate_interface d current =
     (if d ! 0 \<noteq> 9 \<or> d ! 1 \<noteq> 4 \<or> d ! 2 \<noteq> 0 \<or> d ! 3 \<noteq> current \<or> d ! 5 \<noteq> 0xff
         \<or> \<not> (2 \<le> d ! 4 \<and> d ! 4 \<le> 30)
      then Inl (invalid ''USB interface is not a valid vendor-specific scanner MI_00'')
      else Inr (unat (d ! 4)))"

definition packet_sizes :: "u16 list" where
  "packet_sizes = [8, 16, 32, 64, 512, 1024]"

fun select_from ::
    "pipe_info list \<Rightarrow> (u8 \<Rightarrow> bool) \<Rightarrow> (u8 \<times> u16) option \<Rightarrow> (u8 \<times> u16) option \<Rightarrow> bulk_pipes io" where
  "select_from [] seen input output = (case (input, output) of
     (Some (i, ip), Some (out_id, op)) \<Rightarrow> Inr \<lparr>bulk_input = i, bulk_output = out_id,
       input_max_packet = ip, output_max_packet = op\<rparr>
   | _ \<Rightarrow> Inl (invalid ''Scanner requires a unique bulk IN and OUT endpoint''))"
| "select_from (pipe # pipes) seen input output =
     (if pipe_id pipe AND 0x70 \<noteq> 0 \<or> pipe_id pipe AND 0x0f = 0 \<or> seen (pipe_id pipe)
         \<or> maximum_packet pipe = 0 \<or> maximum_packet pipe > 1024
      then Inl (invalid ''Invalid or duplicate USB endpoint descriptor'')
      else
        let seen = seen(pipe_id pipe := True)
        in if pipe_kind pipe \<noteq> 2 then select_from pipes seen input output
           else if maximum_packet pipe \<notin> List.set packet_sizes
           then Inl (invalid ''Invalid bulk maximum packet size'')
           else if pipe_id pipe AND 0x80 \<noteq> 0
           then if input \<noteq> None then Inl (invalid ''Ambiguous bulk endpoints; no command was sent'')
                else select_from pipes seen (Some (pipe_id pipe, maximum_packet pipe)) output
           else if output \<noteq> None then Inl (invalid ''Ambiguous bulk endpoints; no command was sent'')
                else select_from pipes seen input (Some (pipe_id pipe, maximum_packet pipe)))"

definition select_bulk_pipes :: "pipe_info list \<Rightarrow> bulk_pipes io" where
  "select_bulk_pipes pipes = select_from pipes (\<lambda>_. False) None None"

section \<open>Opening\<close>

record usb_session =
  usb_handle :: nat
  file_handle :: nat
  device_descriptor :: bytes
  interface_descriptor :: bytes
  bulk_in :: u8
  bulk_out :: u8
  bulk_in_max_packet :: u16
  bulk_out_max_packet :: u16

fun query_pipes ::
    "'w winusb \<Rightarrow> nat \<Rightarrow> u8 \<Rightarrow> nat list \<Rightarrow> pipe_info list \<Rightarrow> 'w \<Rightarrow> pipe_info list io \<times> 'w" where
  "query_pipes win u setting [] pipes w = (Inr pipes, w)"
| "query_pipes win u setting (i # rest) pipes w =
     checked_call win ''Read scanner endpoint'' (query_pipe win u setting i w) (\<lambda>pipe w.
       query_pipes win u setting rest (pipes @ [pipe]) w)"

text \<open>The policies in the order they are set: the operation, the pipe, the policy and its value.\<close>

definition pipe_policies :: "bulk_pipes \<Rightarrow> (string \<times> u8 \<times> nat \<times> nat) list" where
  "pipe_policies selected =
     concat (map (\<lambda>pipe. (''Set USB transfer timeout'', pipe, 3, 5000)
         # map (\<lambda>policy. (''Disable automatic USB recovery'', pipe, policy, 0)) [2, 9])
       [bulk_input selected, bulk_output selected])
     @ map (\<lambda>policy. (''Set bounded USB read policy'', bulk_input selected, policy, 0)) [4, 5, 6]"

fun set_policies :: "'w winusb \<Rightarrow> nat \<Rightarrow> (string \<times> u8 \<times> nat \<times> nat) list \<Rightarrow> 'w \<Rightarrow> unit io \<times> 'w" where
  "set_policies win u [] w = (Inr (), w)"
| "set_policies win u ((operation, pipe, policy, v) # rest) w =
     checked_call win operation (case set_pipe_policy win u pipe policy v w of (b, w) \<Rightarrow> ((b, ()), w))
       (\<lambda>_ w. set_policies win u rest w)"

text \<open>From the handle of the interface to the session; both handles are still local.\<close>

definition configure :: "'w winusb \<Rightarrow> nat \<Rightarrow> nat \<Rightarrow> 'w \<Rightarrow> usb_session io \<times> 'w" where
  "configure win f u w =
     checked_call win ''Read USB device descriptor'' (get_descriptor win u w) (\<lambda>(d, transferred) w.
       let d = written_over 18 d
       in if transferred \<noteq> 18 then (Inl (invalid ''Truncated USB device descriptor''), w)
          else then_io (validate_device d, w) (\<lambda>_ w.
       checked_call win ''Read current USB alternate setting'' (current_setting win u w) (\<lambda>setting w.
       checked_call win ''Read scanner USB interface'' (interface_settings win u setting w) (\<lambda>i w.
       let i = written_over 9 i
       in then_io (validate_interface i setting, w) (\<lambda>n w.
          then_io (query_pipes win u setting [0..<n] [] w) (\<lambda>pipes w.
          then_io (select_bulk_pipes pipes, w) (\<lambda>selected w.
          then_io (set_policies win u (pipe_policies selected) w) (\<lambda>_ w.
            (Inr \<lparr>usb_handle = u, file_handle = f, device_descriptor = d, interface_descriptor = i,
               bulk_in = bulk_input selected, bulk_out = bulk_output selected,
               bulk_in_max_packet = input_max_packet selected,
               bulk_out_max_packet = output_max_packet selected\<rparr>, w)))))))))"

text \<open>The drop of a local handle when the function returns early.\<close>

definition or_release :: "('w \<Rightarrow> 'w) \<Rightarrow> 'a io \<times> 'w \<Rightarrow> 'a io \<times> 'w" where
  "or_release cleanup = (\<lambda>(r, w). case r of Inl er \<Rightarrow> (Inl er, cleanup w) | Inr a \<Rightarrow> (Inr a, w))"

definition open_with_path :: "'w winusb \<Rightarrow> u16 list \<Rightarrow> 'w \<Rightarrow> usb_session io \<times> 'w" where
  "open_with_path win path w = (case create_file win path w of
     (None, w) \<Rightarrow> (Inl (os_error win w), w)
   | (Some f, w) \<Rightarrow> or_release (close_handle win f)
       (checked_call win ''Initialize scanner WinUSB'' (winusb_initialize win f w) (\<lambda>raw w.
          case raw of
            None \<Rightarrow> (Inl (invalid ''WinUSB returned an empty interface handle''), w)
          | Some u \<Rightarrow> or_release (winusb_free win u) (configure win f u w))))"

definition session_open :: "'w winusb \<Rightarrow> 'w \<Rightarrow> usb_session io \<times> 'w" where
  "session_open win w =
     then_io (scanner_candidate_paths win w) (\<lambda>c w.
     then_io (unique_scanner_path c, w) (\<lambda>path w.
       open_with_path win path w))"

definition open_matching_path :: "'w winusb \<Rightarrow> u16 list \<Rightarrow> 'w \<Rightarrow> usb_session io \<times> 'w" where
  "open_matching_path win path w =
     then_io (validate_matching_path path, w) (\<lambda>_ w.
     then_io (scanner_candidate_paths win w) (\<lambda>c w.
     then_io (select_matching_scanner_path win (active_paths c) path w) (\<lambda>matched w.
       open_with_path win matched w)))"

text \<open>The fields are dropped in the order of their declaration.\<close>

definition drop_session :: "'w winusb \<Rightarrow> usb_session \<Rightarrow> 'w \<Rightarrow> 'w" where
  "drop_session win s w = close_handle win (file_handle s) (winusb_free win (usb_handle s) w)"

section \<open>Transfers\<close>

definition validate_transfer_buffer :: "nat \<Rightarrow> unit io" where
  "validate_transfer_buffer n =
     (if n = 0 then Inl (invalid_input ''USB transfer buffer must not be empty'')
      else if n > MAX_TRANSFER_BYTES then Inl (invalid_input ''USB transfer buffer exceeds the 1 MiB limit'')
      else Inr ())"

definition validate_read_buffer :: "nat \<Rightarrow> u16 \<Rightarrow> unit io" where
  "validate_read_buffer n packet =
     and_then (validate_transfer_buffer n) (\<lambda>_.
       fail_if (packet = 0 \<or> n mod unat packet \<noteq> 0)
         (invalid_input ''USB read buffer must be a multiple of the bulk IN maximum packet''))"

definition validate_maximum_read_transfer_size :: "nat \<Rightarrow> u32 \<Rightarrow> u16 \<Rightarrow> nat io" where
  "validate_maximum_read_transfer_size value_length v packet =
     (if value_length \<noteq> 4 then Inl (invalid ''Invalid MAXIMUM_TRANSFER_SIZE policy length'')
      else if packet \<notin> List.set packet_sizes then Inl (invalid ''Invalid bulk IN maximum packet size'')
      else if packet = 0 \<or> v = 0 \<or> unat v < unat packet
      then Inl (invalid ''Invalid MAXIMUM_TRANSFER_SIZE policy value'')
      else Inr (unat v))"

definition validate_complete_write :: "u32 \<Rightarrow> nat \<Rightarrow> unit io" where
  "validate_complete_write transferred expected =
     fail_if (expected = 0 \<or> expected > MAX_TRANSFER_BYTES \<or> unat transferred \<noteq> expected)
       (Custom WriteZero (Message (Lit ''Incomplete USB write; command will not be retried'')))"

definition validate_bounded_read :: "u32 \<Rightarrow> nat \<Rightarrow> nat io" where
  "validate_bounded_read transferred capacity =
     (if unat transferred > capacity then Inl (invalid ''Oversized USB response'')
      else Inr (unat transferred))"

definition validate_read :: "nat \<Rightarrow> nat \<Rightarrow> nat io" where
  "validate_read transferred capacity =
     (if transferred = 0 \<or> transferred > capacity
      then Inl (invalid ''Empty or oversized INQUIRY response'') else Inr transferred)"

definition maximum_read_transfer_size :: "'w winusb \<Rightarrow> usb_session \<Rightarrow> 'w \<Rightarrow> nat io \<times> 'w" where
  "maximum_read_transfer_size win s w =
     checked_call win ''Read WinUSB maximum read transfer size''
       (get_pipe_policy win (usb_handle s) (bulk_in s) MAXIMUM_TRANSFER_SIZE_POLICY w)
       (\<lambda>(value_length, v) w.
          (validate_maximum_read_transfer_size value_length v (bulk_in_max_packet s), w))"

definition session_write :: "'w winusb \<Rightarrow> usb_session \<Rightarrow> bytes \<Rightarrow> 'w \<Rightarrow> unit io \<times> 'w" where
  "session_write win s bs w =
     then_io (validate_transfer_buffer (length bs), w) (\<lambda>_ w.
     checked_call win ''Write scanner command''
       (write_pipe win (usb_handle s) (bulk_out s) bs w)
       (\<lambda>transferred w. (validate_complete_write transferred (length bs), w)))"

text \<open>A read into a zeroed buffer of \<open>n\<close> bytes: the count, and the buffer afterwards.\<close>

definition session_read :: "'w winusb \<Rightarrow> usb_session \<Rightarrow> nat \<Rightarrow> 'w \<Rightarrow> (nat \<times> bytes) io \<times> 'w" where
  "session_read win s n w =
     then_io (validate_read_buffer n (bulk_in_max_packet s), w) (\<lambda>_ w.
     checked_call win ''Read scanner data''
       (case read_pipe win (usb_handle s) (bulk_in s) n w of ((b, transferred, bs), w) \<Rightarrow>
          ((b, transferred, written_over n bs), w))
       (\<lambda>(transferred, buffer) w.
          (and_then (validate_bounded_read transferred n) (\<lambda>k. Inr (k, buffer)), w)))"

section \<open>Inquiries\<close>

text \<open>A session that is dropped when the function returns, however it does.\<close>

definition with_opened :: "'w winusb \<Rightarrow> (usb_session \<Rightarrow> 'w \<Rightarrow> 'a io \<times> 'w) \<Rightarrow> 'w \<Rightarrow> 'a io \<times> 'w" where
  "with_opened win k w = then_io (session_open win w) (\<lambda>s w.
     case k s w of (r, w) \<Rightarrow> (r, drop_session win s w))"

definition usb_inquiry :: "'w winusb \<Rightarrow> 'w \<Rightarrow> bytes io \<times> 'w" where
  "usb_inquiry win = with_opened win (\<lambda>s w.
     then_io (session_write win s [0x1b, 0xa8, 0x12, 0] w) (\<lambda>_ w.
     then_io (session_read win s 1024 w) (\<lambda>(transferred, response) w.
       (and_then (validate_read transferred 1024) (\<lambda>n. Inr (take n response)), w))))"

definition inquiry :: "'w winusb \<Rightarrow> 'w \<Rightarrow> capabilities io \<times> 'w" where
  "inquiry win w = then_io (usb_inquiry win w) (\<lambda>bs w. (parse bs, w))"

record inquiry_evidence =
  evidence_device :: bytes
  evidence_interface :: bytes
  evidence_pipes :: bulk_pipes
  evidence_reply :: bytes

definition evidence_of :: "usb_session \<Rightarrow> bytes \<Rightarrow> inquiry_evidence" where
  "evidence_of s raw = \<lparr>evidence_device = device_descriptor s, evidence_interface = interface_descriptor s,
     evidence_pipes = \<lparr>bulk_input = bulk_in s, bulk_output = bulk_out s,
       input_max_packet = bulk_in_max_packet s, output_max_packet = bulk_out_max_packet s\<rparr>,
     evidence_reply = raw\<rparr>"

definition inquire_evidence :: "'w winusb \<Rightarrow> 'w \<Rightarrow> inquiry_evidence io \<times> 'w" where
  "inquire_evidence win = with_opened win (\<lambda>s w.
     then_io (session_write win s [0x1b, 0xa8, 0x12, 0] w) (\<lambda>_ w.
     then_io (session_read win s 1024 w) (\<lambda>(n, reply) w.
       (and_then (parse (take n reply)) (\<lambda>_. Inr (evidence_of s (take n reply))), w))))"

section \<open>Readiness\<close>

record device =
  device_interface :: usb_interface
  service_name :: "scalars option"
  problem_code :: u32
  device_started :: bool

datatype readiness =
    NotScanner | DriverMissing | DeviceProblem u32 | NotStarted | OtherDriver | DriverStarted

definition readiness_of :: "device \<Rightarrow> readiness" where
  "readiness_of d =
     (if device_interface d \<noteq> Scanner then NotScanner
      else if problem_code d = 28 then DriverMissing
      else if problem_code d \<noteq> 0 then DeviceProblem (problem_code d)
      else if \<not> device_started d then NotStarted
      else if (case service_name d of None \<Rightarrow> False | Some n \<Rightarrow> eq_ignore_ascii_case n ''WinUSB'')
      then DriverStarted else OtherDriver)"

section \<open>The scan job over a session\<close>

text \<open>
  How \<open>src/scan.rs\<close> reads and writes through a session: the transport of the job, given its
  other parts.
\<close>

definition over_session :: "'w winusb \<Rightarrow> usb_session \<Rightarrow> 'w env \<Rightarrow> 'w env" where
  "over_session win s e = e\<lparr>
     usb_write := session_write win s,
     usb_read := (\<lambda>n w. case session_read win s n w of (r, w) \<Rightarrow>
       (and_then r (\<lambda>(k, buffer). Inr (take k buffer)), w))\<rparr>"

text \<open>
  \<open>scan_with_profile\<close>: the tuning and a cancellation are looked at before the session is
  opened, and the limit of its pipe before the job; \<open>prep\<close> sees the session's descriptors beside
  the reply. The session is dropped when the function returns.
\<close>

type_synonym 'w preparation = "inquiry_evidence \<Rightarrow> 'w \<Rightarrow> scan_request io outcome \<times> 'w"

definition profiled_job ::
    "'w winusb \<Rightarrow> nat \<Rightarrow> 'w preparation \<Rightarrow> 'w env \<Rightarrow> scan_tuning \<Rightarrow> usb_session \<Rightarrow> 'w \<Rightarrow>
     (scan_summary io \<times> scan_profile \<times> 'w) option" where
  "profiled_job win fuel prep e tuning s w = (case maximum_read_transfer_size win s w of
     (Inl er, w) \<Rightarrow> Some (Inl er, default_profile, w)
   | (Inr limit, w) \<Rightarrow>
       (case record_read_buffer_limit default_profile (tuning_buffer_bytes tuning) limit of
          (Inl er, p) \<Rightarrow> Some (Inl er, p, w)
        | (Inr _, _) \<Rightarrow>
            map_option (\<lambda>((r, _), p, w). (r, p\<lparr>usb_read_limit := Some limit\<rparr>, w))
              (run_job fuel ((over_session win s e)\<lparr>prepare := \<lambda>raw. prep (evidence_of s raw)\<rparr>) tuning w)))"

definition scan_with_profile ::
    "'w winusb \<Rightarrow> nat \<Rightarrow> 'w preparation \<Rightarrow> 'w env \<Rightarrow> scan_tuning \<Rightarrow> 'w \<Rightarrow>
     (scan_summary io \<times> scan_profile \<times> 'w) option" where
  "scan_with_profile win fuel prep e tuning w = (case validate_tuning tuning of
     Inl er \<Rightarrow> Some (Inl er, default_profile, w)
   | Inr _ \<Rightarrow>
       (case cancel_flag e w of
          (True, w) \<Rightarrow> Some (Inl host_cancelled, default_profile, w)
        | (False, w) \<Rightarrow>
            (case session_open win w of
               (Inl er, w) \<Rightarrow> Some (Inl er, default_profile, w)
             | (Inr s, w) \<Rightarrow>
                 map_option (\<lambda>(r, p, w). (r, p, drop_session win s w))
                   (profiled_job win fuel prep e tuning s w))))"

definition scan_with_evidence ::
    "'w winusb \<Rightarrow> nat \<Rightarrow> 'w preparation \<Rightarrow> 'w env \<Rightarrow> 'w \<Rightarrow> (scan_summary io \<times> 'w) option" where
  "scan_with_evidence win fuel prep e w = map_option (\<lambda>(r, _, w). (r, w))
     (scan_with_profile win fuel prep e (tuning_of_duration (millis 100)) w)"

definition scan_to :: "'w winusb \<Rightarrow> nat \<Rightarrow> scan_request \<Rightarrow> 'w env \<Rightarrow> 'w \<Rightarrow> (scan_summary io \<times> 'w) option" where
  "scan_to win fuel request = scan_with_evidence win fuel (\<lambda>_ w. (Returned (Inr request), w))"

end
