(* ===== verification/Usb_Contract.thy ===== *)
theory Usb_Contract
  imports Usb_Session
begin

unbundle bit_operations_syntax

text \<open>
  Handles. The locale \<open>usb_handles\<close> says which calls of Windows open and close a handle; under
  it every function of \<open>Usb\<close> and \<open>Usb_Session\<close> returns with exactly the handles that its result
  owns. Then what an opened session is: its pipes, its descriptors, and the interface it was
  opened for.
\<close>

section \<open>The contract of Windows\<close>

datatype handle = ListHandle nat | FileHandle nat | InterfaceHandle nat

locale usb_handles =
  fixes win :: "'w winusb" and held :: "'w \<Rightarrow> handle multiset"
  assumes class_devices_held: "class_devices win w = (r, w') \<Longrightarrow>
      held w' = held w + (case r of None \<Rightarrow> {#} | Some d \<Rightarrow> {#ListHandle d#})"
    and destroy_list_held: "held (destroy_list win d w) = held w - {#ListHandle d#}"
    and create_file_held: "create_file win path w = (f, w') \<Longrightarrow>
      held w' = held w + (case f of None \<Rightarrow> {#} | Some h \<Rightarrow> {#FileHandle h#})"
    and close_handle_held: "held (close_handle win h w) = held w - {#FileHandle h#}"
    and initialize_held: "winusb_initialize win h w = ((b, raw), w') \<Longrightarrow>
      held w' = held w
        + (case raw of Some u \<Rightarrow> if b then {#InterfaceHandle u#} else {#} | None \<Rightarrow> {#})"
    and free_held: "held (winusb_free win u w) = held w - {#InterfaceHandle u#}"
    and enum_held: "enum_interface win d n w = (entry, w') \<Longrightarrow> held w' = held w"
    and size_held: "detail_size win d i w = (sz, w') \<Longrightarrow> held w' = held w"
    and detail_held: "detail_read win d i n w = (dr, w') \<Longrightarrow> held w' = held w"
    and identity_held: "instance_id_of win d device w = (ir, w') \<Longrightarrow> held w' = held w"
    and compare_held: "compare_ordinal win p q w = (c, w') \<Longrightarrow> held w' = held w"
    and descriptor_held: "get_descriptor win u w = (ds, w') \<Longrightarrow> held w' = held w"
    and setting_held: "current_setting win u w = (st, w') \<Longrightarrow> held w' = held w"
    and settings_held: "interface_settings win u s w = (iface, w') \<Longrightarrow> held w' = held w"
    and pipe_held: "query_pipe win u s n w = (info, w') \<Longrightarrow> held w' = held w"
    and set_policy_held: "set_pipe_policy win u pipe policy v w = (done, w') \<Longrightarrow> held w' = held w"
    and get_policy_held: "get_pipe_policy win u pipe policy w = (pv, w') \<Longrightarrow> held w' = held w"
    and write_held: "write_pipe win u pipe bs w = (wr, w') \<Longrightarrow> held w' = held w"
    and read_held: "read_pipe win u pipe n w = (rd, w') \<Longrightarrow> held w' = held w"

text \<open>What the result of an opening owns.\<close>

definition owned :: "usb_session \<Rightarrow> handle multiset" where
  "owned s = {#FileHandle (file_handle s), InterfaceHandle (usb_handle s)#}"

definition owned_by :: "usb_session io \<Rightarrow> handle multiset" where
  "owned_by r = (case r of Inl _ \<Rightarrow> {#} | Inr s \<Rightarrow> owned s)"

lemma owned_by_simps [simp]: "owned_by (Inl er) = {#}" "owned_by (Inr s) = owned s"
  by (simp_all add: owned_by_def)

section \<open>Sequencing\<close>

lemma then_ioE:
  assumes "then_io m k = (r, w')"
  obtains (failed) er where "m = (Inl er, w')" "r = Inl er"
    | (continued) a w where "m = (Inr a, w)" "k a w = (r, w')"
  using assms by (cases m; cases "fst m") (auto simp: then_io_def)

lemma checked_callE:
  assumes "checked_call win operation res k = (r, w')"
  obtains (failed) a er where "res = ((False, a), w')" "r = Inl er"
    | (continued) a w where "res = ((True, a), w)" "k a w = (r, w')"
  using assms by (cases res; cases "fst res") (auto simp: checked_call_def win_result_def split: if_splits)

lemma or_releaseE:
  assumes "or_release cleanup m = (r, w')"
  obtains (failed) er w where "m = (Inl er, w)" "r = Inl er" "w' = cleanup w"
    | (kept) a where "m = (Inr a, w')" "r = Inr a"
  using assms by (cases m; cases "fst m") (auto simp: or_release_def)

declare candidates_from.simps [simp del]

context usb_handles begin

lemma interface_detail_held:
  "interface_detail_with_identity win d i w = (r, w') \<Longrightarrow> held w' = held w"
  by (auto simp: interface_detail_with_identity_def split: prod.splits if_splits
      elim!: checked_callE dest!: size_held detail_held identity_held)

lemma candidates_from_held:
  "candidates_from win n d i c w = (r, w') \<Longrightarrow> held w' = held w"
proof (induction n arbitrary: i c w)
  case 0
  then show ?case
    by (auto simp: candidates_from.simps [of win 0] split: prod.splits option.splits dest!: enum_held)
next
  case (Suc n)
  obtain entry w1 where e: "enum_interface win d i w = (entry, w1)" by fastforce
  note enum = enum_held [OF e]
  show ?case
  proof (cases entry)
    case None
    then show ?thesis using Suc.prems e enum by (auto simp: candidates_from.simps [of win "Suc n"])
  next
    case (Some a)
    then obtain x flags where "entry = Some (x, flags)" by (cases a) auto
    then have "then_io (interface_detail_with_identity win d x w1) (\<lambda>(path, identity) w.
        case validate_scanner_id identity of
          Inl er \<Rightarrow> (Inl er, w)
        | Inr _ \<Rightarrow>
            candidates_from win n d (i + 1)
              (if flags AND 1 \<noteq> 0 \<and> flags AND 4 = 0
               then c\<lparr>active_paths := active_paths c @ [path]\<rparr>
               else c\<lparr>inactive_count := inactive_count c + 1\<rparr>) w) = (r, w')"
      using Suc.prems e by (simp add: candidates_from.simps [of win "Suc n"])
    then show ?thesis
      by (cases rule: then_ioE)
        (use Suc.IH enum in \<open>auto split: prod.splits sum.splits dest!: interface_detail_held\<close>)
  qed
qed

lemma scanner_candidate_paths_held:
  "scanner_candidate_paths win w = (r, w') \<Longrightarrow> held w' = held w"
  by (auto simp: scanner_candidate_paths_def destroy_list_held split: prod.splits option.splits
      dest!: class_devices_held candidates_from_held)

lemma equal_utf16_path_held: "equal_utf16_path win p q w = (r, w') \<Longrightarrow> held w' = held w"
  by (auto simp: equal_utf16_path_def split: if_splits prod.splits dest!: compare_held)

lemma matching_path_held: "matching_path win q ps found w = (r, w') \<Longrightarrow> held w' = held w"
proof (induction ps arbitrary: found w)
  case (Cons p ps)
  then show ?case
    by (auto split: if_splits elim!: then_ioE dest!: equal_utf16_path_held)
qed simp

lemma query_pipes_held: "query_pipes win u st ns ps w = (r, w') \<Longrightarrow> held w' = held w"
proof (induction ns arbitrary: ps w)
  case (Cons i ns)
  then show ?case by (auto elim!: checked_callE dest!: pipe_held)
qed simp

lemma set_policies_held: "set_policies win u ps w = (r, w') \<Longrightarrow> held w' = held w"
proof (induction ps arbitrary: w)
  case (Cons p ps)
  then show ?case
    by (cases p) (auto split: prod.splits elim!: checked_callE dest!: set_policy_held)
qed simp

section \<open>Opening\<close>

lemma configure_held:
  assumes "configure win f u w = (r, w')"
  shows "held w' = held w \<and> (\<forall>s. r = Inr s \<longrightarrow> owned s = {#FileHandle f, InterfaceHandle u#})"
  using assms unfolding configure_def
  by (auto simp: Let_def owned_def split: prod.splits if_splits elim!: checked_callE then_ioE
      dest!: descriptor_held setting_held settings_held query_pipes_held set_policies_held)

lemma open_with_path_held:
  assumes "open_with_path win path w = (r, w')"
  shows "held w' = held w + owned_by r"
proof -
  obtain f w1 where c: "create_file win path w = (f, w1)" by fastforce
  note c1 = create_file_held [OF c]
  show ?thesis
  proof (cases f)
    case None
    then show ?thesis using assms c c1 by (auto simp: open_with_path_def)
  next
    case (Some h)
    let ?open = "checked_call win ''Initialize scanner WinUSB'' (winusb_initialize win h w1) (\<lambda>raw w.
          case raw of
            None \<Rightarrow> (Inl (invalid ''WinUSB returned an empty interface handle''), w)
          | Some u \<Rightarrow> or_release (winusb_free win u) (configure win h u w))"
    have opened: "held w2 = held w1
        + (case q of Inl _ \<Rightarrow> {#} | Inr s \<Rightarrow> owned s - {#FileHandle h#})"
      "\<And>s. q = Inr s \<Longrightarrow> FileHandle h \<in># owned s" if "?open = (q, w2)" for q w2
      using that
      by (auto split: option.splits elim!: checked_callE or_releaseE
          dest!: initialize_held configure_held simp: free_held)
    from assms c Some have "or_release (close_handle win h) ?open = (r, w')"
      by (simp add: open_with_path_def)
    then show ?thesis
      by (cases rule: or_releaseE) (use opened c1 Some in \<open>auto simp: close_handle_held\<close>)
  qed
qed

lemma session_open_held: "session_open win w = (r, w') \<Longrightarrow> held w' = held w + owned_by r"
  by (auto simp: session_open_def elim!: then_ioE dest!: scanner_candidate_paths_held open_with_path_held)

lemma open_matching_path_held:
  "open_matching_path win path w = (r, w') \<Longrightarrow> held w' = held w + owned_by r"
  by (auto simp: open_matching_path_def select_matching_scanner_path_def elim!: then_ioE
      dest!: scanner_candidate_paths_held matching_path_held open_with_path_held)

lemma drop_session_held: "held (drop_session win s w) = held w - owned s"
  by (simp add: drop_session_def owned_def close_handle_held free_held)

section \<open>Use\<close>

lemma session_write_held: "session_write win s bs w = (r, w') \<Longrightarrow> held w' = held w"
  by (auto simp: session_write_def elim!: then_ioE checked_callE dest!: write_held)

lemma session_read_held: "session_read win s n w = (r, w') \<Longrightarrow> held w' = held w"
  by (auto simp: session_read_def split: prod.splits elim!: then_ioE checked_callE dest!: read_held)

lemma maximum_read_transfer_size_held:
  "maximum_read_transfer_size win s w = (r, w') \<Longrightarrow> held w' = held w"
  by (auto simp: maximum_read_transfer_size_def elim!: checked_callE dest!: get_policy_held)

lemma with_opened_held:
  assumes "with_opened win k w = (r, w')"
    and "\<And>s w1 r w2. k s w1 = (r, w2) \<Longrightarrow> held w2 = held w1"
  shows "held w' = held w"
  using assms(1) unfolding with_opened_def
  by (auto split: prod.splits elim!: then_ioE dest!: session_open_held assms(2)
      simp: drop_session_held)

lemma usb_inquiry_held: "usb_inquiry win w = (r, w') \<Longrightarrow> held w' = held w"
  unfolding usb_inquiry_def
  by (erule with_opened_held)
    (auto elim!: then_ioE dest!: session_write_held session_read_held)

lemma inquire_evidence_held: "inquire_evidence win w = (r, w') \<Longrightarrow> held w' = held w"
  unfolding inquire_evidence_def
  by (erule with_opened_held)
    (auto elim!: then_ioE dest!: session_write_held session_read_held)

end

section \<open>The pipes\<close>

definition endpoint_ok :: "pipe_info \<Rightarrow> bool" where
  "endpoint_ok p \<longleftrightarrow> pipe_id p AND 0x70 = 0 \<and> pipe_id p AND 0x0f \<noteq> 0
     \<and> maximum_packet p \<noteq> 0 \<and> maximum_packet p \<le> 1024
     \<and> (pipe_kind p = 2 \<longrightarrow> maximum_packet p \<in> List.set packet_sizes)"

definition bulk_in_of :: "pipe_info list \<Rightarrow> pipe_info list" where
  "bulk_in_of pipes = filter (\<lambda>p. pipe_kind p = 2 \<and> pipe_id p AND 0x80 \<noteq> 0) pipes"

definition bulk_out_of :: "pipe_info list \<Rightarrow> pipe_info list" where
  "bulk_out_of pipes = filter (\<lambda>p. pipe_kind p = 2 \<and> pipe_id p AND 0x80 = 0) pipes"

definition as_found :: "(u8 \<times> u16) option \<Rightarrow> (u8 \<times> u16) list" where
  "as_found x = (case x of None \<Rightarrow> [] | Some a \<Rightarrow> [a])"

lemma as_found_simps [simp]: "as_found None = []" "as_found (Some a) = [a]"
  by (simp_all add: as_found_def)

abbreviation pipe_key :: "pipe_info \<Rightarrow> u8 \<times> u16" where
  "pipe_key p \<equiv> (pipe_id p, maximum_packet p)"

lemma select_from_iff:
  "select_from pipes seen inp outp = Inr b \<longleftrightarrow>
     list_all endpoint_ok pipes \<and> distinct (map pipe_id pipes)
     \<and> list_all (\<lambda>p. \<not> seen (pipe_id p)) pipes
     \<and> (\<exists>i j. as_found inp @ map pipe_key (bulk_in_of pipes) = [i]
          \<and> as_found outp @ map pipe_key (bulk_out_of pipes) = [j]
          \<and> b = \<lparr>bulk_input = fst i, bulk_output = fst j, input_max_packet = snd i,
                 output_max_packet = snd j\<rparr>)"
proof (induction pipes arbitrary: seen inp outp)
  case Nil
  then show ?case
    by (cases inp; cases outp) (auto simp: bulk_in_of_def bulk_out_of_def)
next
  case (Cons p pipes)
  show ?case
  proof (cases "endpoint_ok p \<and> \<not> seen (pipe_id p)")
    case False
    then show ?thesis by (auto simp: endpoint_ok_def linorder_not_less)
  next
    case True
    have seen: "list_all (\<lambda>q. \<not> (seen(pipe_id p := True)) (pipe_id q)) pipes \<longleftrightarrow>
        list_all (\<lambda>q. \<not> seen (pipe_id q)) pipes \<and> pipe_id p \<notin> pipe_id ` set pipes"
      by (auto simp: list_all_iff image_iff)
    show ?thesis
    proof (cases "pipe_kind p = 2")
      case False
      with True show ?thesis
        by (auto simp: Cons.IH Let_def seen bulk_in_of_def bulk_out_of_def endpoint_ok_def
            simp del: fun_upd_apply)
    next
      case True
      with \<open>endpoint_ok p \<and> _\<close> show ?thesis
        by (cases inp; cases outp)
          (auto simp: Cons.IH Let_def seen bulk_in_of_def bulk_out_of_def endpoint_ok_def
            simp del: fun_upd_apply)
    qed
  qed
qed

section \<open>Valid sessions\<close>

definition valid_session :: "usb_session \<Rightarrow> bool" where
  "valid_session s \<longleftrightarrow>
     length (device_descriptor s) = 18
     \<and> unat (device_descriptor s ! 8) + 256 * unat (device_descriptor s ! 9) = 0x0924
     \<and> unat (device_descriptor s ! 10) + 256 * unat (device_descriptor s ! 11) = 0x4265
     \<and> length (interface_descriptor s) = 9
     \<and> interface_descriptor s ! 2 = 0 \<and> interface_descriptor s ! 5 = 0xff
     \<and> bulk_in s AND 0x80 \<noteq> 0 \<and> bulk_out s AND 0x80 = 0
     \<and> bulk_in_max_packet s \<in> List.set packet_sizes
     \<and> bulk_out_max_packet s \<in> List.set packet_sizes"

lemma selected_pipes:
  assumes "select_bulk_pipes pipes = Inr b"
  shows "bulk_input b AND 0x80 \<noteq> 0" "bulk_output b AND 0x80 = 0"
    "input_max_packet b \<in> List.set packet_sizes" "output_max_packet b \<in> List.set packet_sizes"
proof -
  from assms obtain i j where ij: "bulk_in_of pipes = [i]" "bulk_out_of pipes = [j]"
    and b: "b = \<lparr>bulk_input = pipe_id i, bulk_output = pipe_id j, input_max_packet = maximum_packet i,
      output_max_packet = maximum_packet j\<rparr>" and ok: "list_all endpoint_ok pipes"
    by (auto simp: select_bulk_pipes_def select_from_iff map_eq_Cons_conv)
  have "i \<in> set (bulk_in_of pipes)" "j \<in> set (bulk_out_of pipes)" using ij by simp_all
  then show "bulk_input b AND 0x80 \<noteq> 0" "bulk_output b AND 0x80 = 0"
    "input_max_packet b \<in> List.set packet_sizes" "output_max_packet b \<in> List.set packet_sizes"
    using ok b by (auto simp: bulk_in_of_def bulk_out_of_def list_all_iff endpoint_ok_def)
qed

lemma length_written_over [simp]: "length (written_over n xs) = n"
  by (simp add: written_over_def)

lemma configure_valid:
  assumes "configure win f u w = (Inr s, w')"
  shows "valid_session s"
  using assms unfolding configure_def valid_session_def
  by (auto simp: Let_def validate_device_def validate_interface_def fail_if_Inr_iff selected_pipes
      split: prod.splits if_splits elim!: checked_callE then_ioE)

lemma open_with_path_valid: "open_with_path win path w = (Inr s, w') \<Longrightarrow> valid_session s"
  unfolding open_with_path_def
  by (auto split: prod.splits option.splits elim!: checked_callE or_releaseE dest: configure_valid)

lemma session_open_valid: "session_open win w = (Inr s, w') \<Longrightarrow> valid_session s"
  by (auto simp: session_open_def elim!: then_ioE dest: open_with_path_valid)

lemma open_matching_path_valid: "open_matching_path win path w = (Inr s, w') \<Longrightarrow> valid_session s"
  by (auto simp: open_matching_path_def elim!: then_ioE dest: open_with_path_valid)

text \<open>The sizes of the reads of a scan: whole blocks of 1024 bytes, at most 1 MiB.\<close>

definition block_size :: "nat \<Rightarrow> bool" where
  "block_size n \<longleftrightarrow> 0 < n \<and> n \<le> MAX_TRANSFER_BYTES \<and> 1024 dvd n"

lemma packet_dvd: "p \<in> List.set packet_sizes \<Longrightarrow> p \<noteq> 0 \<and> unat p dvd 1024"
  by (auto simp: packet_sizes_def)

lemma valid_session_reads:
  assumes "valid_session s" and "block_size n"
  shows "validate_read_buffer n (bulk_in_max_packet s) = Inr ()"
proof -
  have p: "bulk_in_max_packet s \<noteq> 0" "unat (bulk_in_max_packet s) dvd n"
    using assms packet_dvd [of "bulk_in_max_packet s"]
    by (auto simp: valid_session_def block_size_def intro: dvd_trans)
  then show ?thesis
    using assms(2) by (simp add: validate_read_buffer_def validate_transfer_buffer_def block_size_def
        mod_eq_0_iff_dvd)
qed

section \<open>Choice of the interface\<close>

definition candidate_count :: "scanner_candidates \<Rightarrow> nat" where
  "candidate_count c = length (active_paths c) + inactive_count c"

definition enlisted :: "u32 \<Rightarrow> u16 list \<Rightarrow> scanner_candidates \<Rightarrow> scanner_candidates" where
  "enlisted flags path c =
     (if flags AND 1 \<noteq> 0 \<and> flags AND 4 = 0
      then c\<lparr>active_paths := active_paths c @ [path]\<rparr>
      else c\<lparr>inactive_count := inactive_count c + 1\<rparr>)"

lemma candidate_count_enlisted [simp]: "candidate_count (enlisted flags path c) = candidate_count c + 1"
  by (simp add: candidate_count_def enlisted_def)

lemma candidates_from_Inr:
  assumes "candidates_from win n d k c w = (Inr c', w')"
  obtains (last) "enum_interface win d k w = (None, w')"
      "fst (last_os_error win w') = ERROR_NO_MORE_ITEMS" "c' = c"
    | (more) i flags w1 path ident w2 m where
      "enum_interface win d k w = (Some (i, flags), w1)"
      "interface_detail_with_identity win d i w1 = (Inr (path, ident), w2)"
      "identify ident = Some Scanner" "n = Suc m"
      "candidates_from win m d (k + 1) (enlisted flags path c) w2 = (Inr c', w')"
proof -
  obtain entry w1 where e: "enum_interface win d k w = (entry, w1)" by fastforce
  show thesis
  proof (cases entry)
    case None
    then show thesis using assms e last by (auto simp: candidates_from.simps [of win n] split: if_splits)
  next
    case (Some a)
    then obtain i flags where a: "entry = Some (i, flags)" by (cases a) auto
    with assms e obtain m where m: "n = Suc m"
      by (cases n) (auto simp: candidates_from.simps [of win 0])
    have "then_io (interface_detail_with_identity win d i w1) (\<lambda>(path, ident) w.
        case validate_scanner_id ident of
          Inl er \<Rightarrow> (Inl er, w)
        | Inr _ \<Rightarrow> candidates_from win m d (k + 1) (enlisted flags path c) w) = (Inr c', w')"
      unfolding enlisted_def using assms e a m by (simp add: candidates_from.simps [of win "Suc m"])
    then show thesis
      by (cases rule: then_ioE)
        (use e a m more in \<open>auto simp: validate_scanner_id_def fail_if_def split: if_splits\<close>)
  qed
qed

lemma candidates_from_count:
  "candidates_from win n d k c w = (Inr c', w') \<Longrightarrow> candidate_count c \<le> candidate_count c'"
proof (induction n arbitrary: k c w)
  case 0
  then show ?case by (cases rule: candidates_from_Inr) auto
next
  case (Suc n)
  from Suc.prems show ?case
    by (cases rule: candidates_from_Inr) (use Suc.IH in force)+
qed

text \<open>Exactly one interface is registered, it is active, and it is the scanner's.\<close>

definition only_interface :: "'w winusb \<Rightarrow> 'w \<Rightarrow> u16 list \<Rightarrow> 'w \<Rightarrow> bool" where
  "only_interface win w path w' \<longleftrightarrow> (\<exists>d w1 i flags w2 ident w3 w4.
     class_devices win w = (Some d, w1)
     \<and> enum_interface win d 0 w1 = (Some (i, flags), w2) \<and> flags AND 1 \<noteq> 0 \<and> flags AND 4 = 0
     \<and> interface_detail_with_identity win d i w2 = (Inr (path, ident), w3)
     \<and> identify ident = Some Scanner
     \<and> enum_interface win d 1 w3 = (None, w4) \<and> fst (last_os_error win w4) = ERROR_NO_MORE_ITEMS
     \<and> w' = destroy_list win d w4)"

lemma candidates_one:
  assumes "candidates_from win 256 d 0 \<lparr>active_paths = [], inactive_count = 0\<rparr> w = (Inr c, w')"
    and "unique_scanner_path c = Inr path"
  shows "\<exists>i flags w1 ident w2. enum_interface win d 0 w = (Some (i, flags), w1)
    \<and> flags AND 1 \<noteq> 0 \<and> flags AND 4 = 0
    \<and> interface_detail_with_identity win d i w1 = (Inr (path, ident), w2)
    \<and> identify ident = Some Scanner
    \<and> enum_interface win d 1 w2 = (None, w') \<and> fst (last_os_error win w') = ERROR_NO_MORE_ITEMS"
proof -
  have c: "active_paths c = [path]" "inactive_count c = 0"
    using assms(2) by (auto simp: unique_scanner_path_def split: if_splits list.splits)
  then have count: "candidate_count c = 1" by (simp add: candidate_count_def)
  from assms(1) show ?thesis
  proof (cases rule: candidates_from_Inr)
    case last
    then show ?thesis using c by auto
  next
    case (more i flags w1 p ident w2 m)
    note outer = more
    from more(5) show ?thesis
    proof (cases rule: candidates_from_Inr)
      case last
      then show ?thesis using outer c by (auto simp: enlisted_def split: if_splits)
    next
      case (more j flags' w3 p' ident' w4 m')
      from candidates_from_count [OF more(5)] count show ?thesis
        by (simp add: candidate_count_def [of "\<lparr>active_paths = [], inactive_count = 0\<rparr>"])
    qed
  qed
qed

lemma candidates_oneI:
  assumes "enum_interface win d 0 w = (Some (i, flags), w1)" "flags AND 1 \<noteq> 0" "flags AND 4 = 0"
    "interface_detail_with_identity win d i w1 = (Inr (path, ident), w2)"
    "identify ident = Some Scanner"
    "enum_interface win d 1 w2 = (None, w')" "fst (last_os_error win w') = ERROR_NO_MORE_ITEMS"
  shows "candidates_from win 256 d 0 \<lparr>active_paths = [], inactive_count = 0\<rparr> w
    = (Inr \<lparr>active_paths = [path], inactive_count = 0\<rparr>, w')"
  using assms
  by (simp add: candidates_from.simps [of win "256"] candidates_from.simps [of win 255]
      then_io_def validate_scanner_id_def)

lemma unique_interface_iff:
  "(\<exists>c. scanner_candidate_paths win w = (Inr c, w') \<and> unique_scanner_path c = Inr path)
    \<longleftrightarrow> only_interface win w path w'"
proof
  assume "\<exists>c. scanner_candidate_paths win w = (Inr c, w') \<and> unique_scanner_path c = Inr path"
  then obtain c d w1 w2 where "unique_scanner_path c = Inr path"
    "class_devices win w = (Some d, w1)" "w' = destroy_list win d w2"
    "candidates_from win 256 d 0 \<lparr>active_paths = [], inactive_count = 0\<rparr> w1 = (Inr c, w2)"
    by (auto simp: scanner_candidate_paths_def split: prod.splits option.splits)
  with candidates_one [of win d w1 c w2 path] show "only_interface win w path w'"
    by (auto simp: only_interface_def)
next
  assume "only_interface win w path w'"
  then obtain d w1 i flags w2 ident w3 w4 where
    o: "class_devices win w = (Some d, w1)" "enum_interface win d 0 w1 = (Some (i, flags), w2)"
      "flags AND 1 \<noteq> 0" "flags AND 4 = 0"
      "interface_detail_with_identity win d i w2 = (Inr (path, ident), w3)"
      "identify ident = Some Scanner" "enum_interface win d 1 w3 = (None, w4)"
      "fst (last_os_error win w4) = ERROR_NO_MORE_ITEMS" "w' = destroy_list win d w4"
    unfolding only_interface_def by blast
  then show "\<exists>c. scanner_candidate_paths win w = (Inr c, w') \<and> unique_scanner_path c = Inr path"
    using candidates_oneI [OF o(2-8)] by (auto simp: scanner_candidate_paths_def unique_scanner_path_def)
qed

lemma then_io_Inr_iff:
  "then_io m k = (Inr b, w') \<longleftrightarrow> (\<exists>a w. m = (Inr a, w) \<and> k a w = (Inr b, w'))"
  by (cases m; cases "fst m") (auto simp: then_io_def)

lemma session_open_Inr_iff:
  "session_open win w = (Inr s, w')
    \<longleftrightarrow> (\<exists>path w1. only_interface win w path w1 \<and> open_with_path win path w1 = (Inr s, w'))"
  by (auto simp: session_open_def then_io_Inr_iff simp flip: unique_interface_iff)

end
