(* ===== verification/Usb_Job.thy ===== *)
theory Usb_Job
  imports Scan_Frame Usb_Contract
begin

text \<open>
  The scan job over a session of \<open>src/usb.rs\<close>. Every read of a job, with any tuning that is
  accepted, is a whole number of blocks of 1024 bytes, at most 1 MiB: the session accepts it,
  whatever the maximum packet size of its pipe is.
\<close>

section \<open>The sizes of reads\<close>

lemma read_capacity_block:
  assumes "block_size buffer" and "0 < k"
  shows "block_size (read_capacity k buffer)"
proof -
  have "0 < (k + 1023) div 1024" using assms(2) by (simp add: div_greater_zero_iff)
  then show ?thesis using assms(1) by (auto simp: read_capacity_def block_size_def min_def)
qed

lemma block_1024 [simp]: "block_size 1024"
  by (simp add: block_size_def MAX_TRANSFER_BYTES_def)

locale block_reads =
  fixes e :: "'w env" and P :: "'w \<Rightarrow> bool"
  assumes write_keeps: "usb_write e bs w = (r, w') \<Longrightarrow> P w \<Longrightarrow> P w'"
    and read_keeps: "usb_read e n w = (b, w') \<Longrightarrow> block_size n \<Longrightarrow> P w \<Longrightarrow> P w'"
    and clock_keeps: "clock e w = (t, w') \<Longrightarrow> P w \<Longrightarrow> P w'"
    and cancel_keeps: "cancel_flag e w = (c, w') \<Longrightarrow> P w \<Longrightarrow> P w'"
    and sink_keeps: "sink e img w = (q, w') \<Longrightarrow> P w \<Longrightarrow> P w'"
    and prepare_keeps: "prepare e raw w = (p, w') \<Longrightarrow> P w \<Longrightarrow> P w'"
    and sleep_keeps: "P w \<Longrightarrow> P (thread_sleep e d w)"

definition fit :: "('w \<Rightarrow> bool) \<Rightarrow> 'w job \<Rightarrow> bool" where
  "fit P s \<longleftrightarrow> P (world s) \<and> block_size (read_buffer_bytes (diag s))"

lemma allowed_read_block: "fit P s \<Longrightarrow> allowed_read n s \<Longrightarrow> block_size n"
  by (auto simp: fit_def allowed_read_def read_capacity_block)

sublocale block_reads \<subseteq> frame: job_frame e "\<lambda>s s'. fit P s \<longrightarrow> fit P s'"
proof
  show "fit P s \<longrightarrow> fit P s'" if "on_world (usb_read e n) s = (b, s')" and "allowed_read n s"
    for n s b s'
    using that allowed_read_block [of P s n]
    by (auto simp: on_world_def fit_def split: prod.splits dest: read_keeps)
qed (auto simp: on_world_def fit_def now_def cancelled_def on_diag_def keeps_setup_def sleep_keeps
    split: prod.splits dest: write_keeps clock_keeps cancel_keeps sink_keeps prepare_keeps)

context block_reads
begin

lemma job_keeps:
  assumes "run_job fuel e tuning w = Some (r, p, w')" and "P w"
  shows "P w'"
proof (cases "validate_tuning tuning")
  case (Inl er)
  then show ?thesis using assms by (simp add: run_job_def)
next
  case (Inr u)
  then have size: "block_size (tuning_buffer_bytes tuning)"
    by (auto simp: validate_tuning_def result_simps block_size_def MAX_TRANSFER_BYTES_def)
  obtain t0 w0 t1 w1 where c: "clock e w = (t0, w0)" "clock e w0 = (t1, w1)" by fastforce
  let ?s = "start_job tuning t0 t1 w1"
  have s: "fit P ?s"
    using c assms(2) size by (auto simp: fit_def start_job_def Let_def dest: clock_keeps)
  from assms(1) Inr c obtain x s1 where x: "run_observed fuel e ?s = Some (x, s1)"
    by (auto simp: run_job_def split: option.splits)
  obtain t s2 where t: "now e (set_stage e (stage (diag s1)) s1) = (t, s2)" by fastforce
  have "fit P ?s \<longrightarrow> fit P s2"
    using frame.now_frame [OF t frame.set_stage_frame
        [OF frame.run_observed_frame [OF x frame.R_refl]]] .
  moreover have "w' = world s2" using assms(1) Inr c x t by (simp add: run_job_def Let_def)
  ultimately show ?thesis using s by (simp add: fit_def)
qed

end

section \<open>A job over a session\<close>

fun read_fits :: "event \<Rightarrow> bool" where
  "read_fits (Received n (Inl er)) = block_size n"
| "read_fits (Received n (Inr bs)) \<longleftrightarrow> block_size n \<and> length bs \<le> n"
| "read_fits _ = True"

lemma over_session_fits:
  assumes "usb_read (over_session win s e) n w = (b, w')" and "block_size n"
  shows "read_fits (Received n b)"
  using assms
  by (cases b) (auto simp: over_session_def session_read_def validate_bounded_read_def
      split: prod.splits if_splits elim!: then_ioE checked_callE)

interpretation sized: block_reads "logged (over_session win s e)" "\<lambda>(w, log). list_all read_fits log"
  for win s e
  by unfold_locales (auto simp: logged_def split: prod.splits intro: over_session_fits)

lemma job_reads_fit:
  "run_job fuel (logged (over_session win s e)) tuning (w, []) = Some (r, p, (w', log)) \<Longrightarrow>
     list_all read_fits log"
  using sized.job_keeps [of fuel win s e tuning "(w, [])"] by simp

text \<open>What a session hands back for a read of a block is what the pipe wrote.\<close>

lemma over_session_read:
  assumes "valid_session s" and "block_size n"
    and "read_pipe win (usb_handle s) (bulk_in s) n w = ((True, k, bs), w')" and "unat k \<le> n"
  shows "usb_read (over_session win s e) n w = (Inr (take (unat k) (written_over n bs)), w')"
  using assms valid_session_reads [OF assms(1,2)]
  by (simp add: over_session_def session_read_def then_io_def checked_call_def win_result_def
      validate_bounded_read_def)

section \<open>Sessions in use\<close>

text \<open>
  The sessions that are open, and the world: any of them may be used or dropped, others opened,
  and inquiries and scans be made, in any order. \<open>jobs\<close> are the environments and preparations of
  the scans, which must not touch handles.
\<close>

inductive usb_step ::
    "'w winusb \<Rightarrow> ('w env \<times> 'w preparation) set \<Rightarrow>
     usb_session list \<times> 'w \<Rightarrow> usb_session list \<times> 'w \<Rightarrow> bool"
  for win jobs where
  open_one: "session_open win w = (Inr s, w') \<Longrightarrow> usb_step win jobs (ss, w) (s # ss, w')"
| open_failed: "session_open win w = (Inl er, w') \<Longrightarrow> usb_step win jobs (ss, w) (ss, w')"
| match_one: "open_matching_path win path w = (Inr s, w') \<Longrightarrow> usb_step win jobs (ss, w) (s # ss, w')"
| match_failed: "open_matching_path win path w = (Inl er, w') \<Longrightarrow> usb_step win jobs (ss, w) (ss, w')"
| write_some: "s \<in> set ss \<Longrightarrow> session_write win s bs w = (wr, w') \<Longrightarrow> usb_step win jobs (ss, w) (ss, w')"
| read_some: "s \<in> set ss \<Longrightarrow> session_read win s n w = (rd, w') \<Longrightarrow> usb_step win jobs (ss, w) (ss, w')"
| ask_limit: "s \<in> set ss \<Longrightarrow> maximum_read_transfer_size win s w = (q, w') \<Longrightarrow>
    usb_step win jobs (ss, w) (ss, w')"
| inquire_once: "usb_inquiry win w = (ir, w') \<Longrightarrow> usb_step win jobs (ss, w) (ss, w')"
| evidence_once: "inquire_evidence win w = (ev, w') \<Longrightarrow> usb_step win jobs (ss, w) (ss, w')"
| scan_once: "(e, prep) \<in> jobs \<Longrightarrow> scan_with_profile win fuel prep e tuning w = Some (sr, p, w') \<Longrightarrow>
    usb_step win jobs (ss, w) (ss, w')"
| drop_one: "usb_step win jobs (xs @ s # ys, w) (xs @ ys, drop_session win s w)"

definition all_owned :: "usb_session list \<Rightarrow> handle multiset" where
  "all_owned ss = \<Sum>\<^sub># (image_mset owned (mset ss))"

lemma all_owned_simps [simp]:
  "all_owned [] = {#}" "all_owned (s # ss) = owned s + all_owned ss"
  "all_owned (xs @ ys) = all_owned xs + all_owned ys"
  by (simp_all add: all_owned_def)

text \<open>What a scan is given besides its session: it must not touch handles.\<close>

definition keeps_handles :: "('w \<Rightarrow> handle multiset) \<Rightarrow> 'w env \<Rightarrow> 'w preparation \<Rightarrow> bool" where
  "keeps_handles held e prep \<longleftrightarrow>
     (\<forall>w. held (snd (clock e w)) = held w) \<and> (\<forall>w. held (snd (cancel_flag e w)) = held w)
     \<and> (\<forall>img w. held (snd (sink e img w)) = held w) \<and> (\<forall>d w. held (thread_sleep e d w) = held w)
     \<and> (\<forall>ev w. held (snd (prep ev w)) = held w)"

lemma keeps_handles_calls:
  assumes "keeps_handles held e prep"
  shows "clock e w = (t, w') \<Longrightarrow> held w' = held w" "cancel_flag e w = (c, w') \<Longrightarrow> held w' = held w"
    "sink e img w = (q, w') \<Longrightarrow> held w' = held w" "prep ev w = (req, w') \<Longrightarrow> held w' = held w"
    "held (thread_sleep e d w) = held w"
  using assms unfolding keeps_handles_def by (metis snd_conv)+

context usb_handles begin

lemma over_session_held:
  assumes "keeps_handles held e prep"
  shows "block_reads ((over_session win s e)\<lparr>prepare := \<lambda>raw. prep (evidence_of s raw)\<rparr>) (\<lambda>w. held w = base)"
  by unfold_locales
    (auto simp: over_session_def keeps_handles_calls [OF assms] split: prod.splits
      dest: session_write_held session_read_held)

lemma scan_with_profile_held:
  assumes "keeps_handles held e prep" and "scan_with_profile win fuel prep e tuning w = Some (r, p, w')"
  shows "held w' = held w"
proof -
  have job: "held w2 = held w1" if "profiled_job win fuel prep e tuning s w1 = Some (q, p', w2)"
    for s w1 q p' w2
    using that block_reads.job_keeps [OF over_session_held [OF assms(1)]]
    by (auto simp: profiled_job_def split: prod.splits sum.splits
        dest!: maximum_read_transfer_size_held)
  show ?thesis
    using assms(2)
    by (auto simp: scan_with_profile_def drop_session_held split: prod.splits sum.splits bool.splits
        dest!: session_open_held job keeps_handles_calls(2) [OF assms(1)])
qed

lemma usb_step_held:
  "usb_step win jobs x y \<Longrightarrow> \<forall>(e, prep) \<in> jobs. keeps_handles held e prep \<Longrightarrow> held (snd x) = base + all_owned (fst x) \<Longrightarrow>
     held (snd y) = base + all_owned (fst y)"
  by (induction rule: usb_step.induct)
    (auto dest!: session_open_held open_matching_path_held session_write_held session_read_held
      maximum_read_transfer_size_held usb_inquiry_held inquire_evidence_held scan_with_profile_held simp: drop_session_held
      add_ac)

lemma usb_steps_held:
  "(usb_step win jobs)\<^sup>*\<^sup>* x y \<Longrightarrow> \<forall>(e, prep) \<in> jobs. keeps_handles held e prep \<Longrightarrow> held (snd x) = base + all_owned (fst x) \<Longrightarrow>
     held (snd y) = base + all_owned (fst y)"
  by (induction rule: rtranclp_induct) (auto dest: usb_step_held)

end

lemma sessions_valid:
  "(usb_step win jobs)\<^sup>*\<^sup>* x y \<Longrightarrow> list_all valid_session (fst x) \<Longrightarrow> list_all valid_session (fst y)"
proof (induction rule: rtranclp_induct)
  case (step y z)
  from step.hyps(2) show ?case
    by (rule usb_step.cases) (use step in \<open>auto dest: session_open_valid open_matching_path_valid\<close>)
qed

end
