(* ===== verification/Usb_Desk.thy ===== *)
theory Usb_Desk
  imports Usb_Job
begin

unbundle bit_operations_syntax

text \<open>
  A desk in memory with scanners attached to it: an instance of the contract of Windows in
  \<open>Usb_Contract\<close>, and what the functions of \<open>src/usb.rs\<close> do on it.
\<close>

section \<open>A desk\<close>

text \<open>
  The interfaces attached, with their paths, identities and flags; what the scanner answers; and
  the policy that it refuses, if any. Opening hands out a fresh handle.
\<close>

record attached =
  attached_path :: "u16 list"
  attached_identity :: "u16 list"
  attached_flags :: u32

record desk =
  open_handles :: "handle list"
  fresh :: nat
  attachments :: "attached list"
  error_code :: int
  answers :: "bytes list"
  sent :: "bytes list"
  refused_policy :: nat

definition acquire_handle :: "(nat \<Rightarrow> handle) \<Rightarrow> desk \<Rightarrow> nat option \<times> desk" where
  "acquire_handle h w =
     (Some (fresh w), w\<lparr>fresh := fresh w + 1, open_handles := h (fresh w) # open_handles w\<rparr>)"

definition release_handle :: "handle \<Rightarrow> desk \<Rightarrow> desk" where
  "release_handle h w = w\<lparr>open_handles := remove1 h (open_handles w)\<rparr>"

definition desk_win :: "desk winusb" where
  "desk_win = \<lparr>
     last_os_error = (\<lambda>w. (error_code w, OtherKind)),
     class_devices = acquire_handle ListHandle,
     destroy_list = (\<lambda>d. release_handle (ListHandle d)),
     enum_interface = (\<lambda>d n w. if n < length (attachments w)
       then (Some (n, attached_flags (attachments w ! n)), w) else (None, w\<lparr>error_code := 259\<rparr>)),
     detail_size = (\<lambda>d i w. ((False, 6 + 2 * length (attached_path (attachments w ! i))), w\<lparr>error_code := 122\<rparr>)),
     detail_read = (\<lambda>d i n w. ((True, n, attached_path (attachments w ! i) @ [0], i), w)),
     instance_id_of = (\<lambda>d i w. ((True, length (attached_identity (attachments w ! i)) + 1,
       attached_identity (attachments w ! i)), w)),
     compare_ordinal = (\<lambda>p q w. (if p = q then 2 else 1, w)),
     create_file = (\<lambda>path. acquire_handle FileHandle),
     close_handle = (\<lambda>f. release_handle (FileHandle f)),
     winusb_initialize = (\<lambda>f w. case acquire_handle InterfaceHandle w of (u, w) \<Rightarrow> ((True, u), w)),
     winusb_free = (\<lambda>u. release_handle (InterfaceHandle u)),
     get_descriptor = (\<lambda>u w. ((True, [18, 1, 0, 2, 0, 0, 0, 64, 0x24, 0x09, 0x65, 0x42], 18), w)),
     current_setting = (\<lambda>u w. ((True, 0), w)),
     interface_settings = (\<lambda>u s w. ((True, [9, 4, 0, 0, 2, 0xff]), w)),
     query_pipe = (\<lambda>u s i w. ((True, \<lparr>pipe_kind = 2, pipe_id = if i = 0 then 0x81 else 2,
       maximum_packet = 512, pipe_interval = 0\<rparr>), w)),
     set_pipe_policy = (\<lambda>u pipe policy v w. (policy \<noteq> refused_policy w, w)),
     get_pipe_policy = (\<lambda>u pipe policy w. ((True, 4, 65536), w)),
     write_pipe = (\<lambda>u pipe bs w. ((True, of_nat (length bs)), w\<lparr>sent := sent w @ [bs]\<rparr>)),
     read_pipe = (\<lambda>u pipe n w. case answers w of
         [] \<Rightarrow> ((True, 0, []), w)
       | a # rest \<Rightarrow> ((True, of_nat (length a), a), w\<lparr>answers := rest\<rparr>))\<rparr>"

definition desk_held :: "desk \<Rightarrow> handle multiset" where
  "desk_held w = mset (open_handles w)"

lemma desk_held_simps [simp]:
  "desk_held (release_handle h w) = desk_held w - {#h#}"
  "desk_held (w\<lparr>error_code := c\<rparr>) = desk_held w" "desk_held (w\<lparr>sent := x\<rparr>) = desk_held w"
  "desk_held (w\<lparr>answers := y\<rparr>) = desk_held w"
  by (simp_all add: desk_held_def release_handle_def)

lemma acquire_handle_held:
  "acquire_handle h w = (r, w') \<Longrightarrow> \<exists>n. r = Some n \<and> desk_held w' = add_mset (h n) (desk_held w)"
  by (auto simp: acquire_handle_def desk_held_def)

interpretation desk: usb_handles desk_win desk_held
  by unfold_locales
    (auto simp: desk_win_def split: prod.splits if_splits list.splits dest!: acquire_handle_held)

definition scanner_identity :: "u16 list" where
  "scanner_identity = map of_char ''USB'' @ 92 # map of_char ''VID_0924&PID_4265&MI_00'' @ [92, 0x31]"

definition desk_with :: "attached list \<Rightarrow> nat \<Rightarrow> desk" where
  "desk_with xs refused = \<lparr>open_handles = [], fresh = 1, attachments = xs, error_code = 0,
     answers = [], sent = [], refused_policy = refused\<rparr>"

definition one_scanner :: desk where
  "one_scanner = desk_with [\<lparr>attached_path = [0x61], attached_identity = scanner_identity,
     attached_flags = 1\<rparr>] 0"

definition desk_session :: usb_session where
  "desk_session = \<lparr>usb_handle = 3, file_handle = 2,
     device_descriptor = [18, 1, 0, 2, 0, 0, 0, 64, 0x24, 0x09, 0x65, 0x42, 0, 0, 0, 0, 0, 0],
     interface_descriptor = [9, 4, 0, 0, 2, 0xff, 0, 0, 0],
     bulk_in = 0x81, bulk_out = 2, bulk_in_max_packet = 512, bulk_out_max_packet = 512\<rparr>"

definition opened_desk :: desk where
  "opened_desk = one_scanner\<lparr>open_handles := [InterfaceHandle 3, FileHandle 2], fresh := 4,
     error_code := 259\<rparr>"

lemma decode_utf16_below: "list_all (\<lambda>u. u < 0xD800) us \<Longrightarrow> decode_utf16 us = Some us"
  by (induction us) auto

lemma identity_of_terminated:
  assumes "length units < 200"
  shows "identity_of (length units + 1) units
    = ok_or (invalid ''Invalid scanner identity encoding'') (decode_utf16 (map unat units))"
  using assms by (simp add: identity_of_def Let_def written_over_def nth_append)

lemma scanner_identity: "length scanner_identity = 29" "list_all (\<lambda>u. u < 0xD800) scanner_identity"
  "identify (map unat scanner_identity) = Some Scanner"
  by code_simp+

lemma scanner_identity_of: "identity_of 30 scanner_identity = Inr (map unat scanner_identity)"
proof -
  have "list_all (\<lambda>u. u < 0xD800) (map unat scanner_identity)"
    using scanner_identity(2) by (auto simp: list_all_iff word_less_nat_alt)
  then show ?thesis
    using identity_of_terminated [of scanner_identity] scanner_identity(1)
    by (simp add: decode_utf16_below)
qed

lemma desk_detail:
  assumes "i < length (attachments w)"
    and "attachments w ! i = \<lparr>attached_path = [u], attached_identity = scanner_identity, attached_flags = f\<rparr>"
    and "u \<noteq> 0"
  shows "interface_detail_with_identity desk_win d i w
    = (Inr ([u, 0], map unat scanner_identity), w\<lparr>error_code := 122\<rparr>)"
  using assms
  by (simp add: interface_detail_with_identity_def desk_win_def checked_call_def win_result_def
      INSUFFICIENT_BUFFER_CODE_def scanner_identity scanner_identity_of terminated_path_def
      written_over_def Let_def)

lemma desk_enumerates:
  assumes "attachments w = [\<lparr>attached_path = [u], attached_identity = scanner_identity, attached_flags = 1\<rparr>]"
    and "u \<noteq> 0"
  shows "candidates_from desk_win 256 d 0 \<lparr>active_paths = [], inactive_count = 0\<rparr> w
    = (Inr \<lparr>active_paths = [[u, 0]], inactive_count = 0\<rparr>, w\<lparr>error_code := 259\<rparr>)"
  by (rule candidates_oneI [where flags = 1 and ident = "map unat scanner_identity"
        and ?w1.0 = w and ?w2.0 = "w\<lparr>error_code := 122\<rparr>" and i = 0])
    (use assms in \<open>simp_all add: desk_detail [where f = 1 and u = u] scanner_identity ERROR_NO_MORE_ITEMS_def,
      simp_all add: desk_win_def\<close>)


lemma desk_lists:
  assumes "attachments w = [\<lparr>attached_path = [u], attached_identity = scanner_identity, attached_flags = 1\<rparr>]"
    and "u \<noteq> 0"
  shows "scanner_candidate_paths desk_win w = (Inr \<lparr>active_paths = [[u, 0]], inactive_count = 0\<rparr>,
    w\<lparr>fresh := fresh w + 1, error_code := 259\<rparr>)"
proof -
  let ?w = "w\<lparr>fresh := fresh w + 1, open_handles := ListHandle (fresh w) # open_handles w\<rparr>"
  have "class_devices desk_win w = (Some (fresh w), ?w)"
    "destroy_list desk_win (fresh w) (?w\<lparr>error_code := 259\<rparr>) = w\<lparr>fresh := fresh w + 1, error_code := 259\<rparr>"
    by (simp_all add: desk_win_def acquire_handle_def release_handle_def)
  then show ?thesis
    using desk_enumerates [of ?w u "fresh w"] assms by (simp add: scanner_candidate_paths_def)
qed

text \<open>The path is not looked at: any path opens the scanner of the desk.\<close>

lemma desk_descriptors:
  "written_over 18 [18, 1, 0, 2, 0, 0, 0, 64, 0x24, 0x09, 0x65, 0x42 :: u8] = device_descriptor desk_session"
  "written_over 9 [9, 4, 0, 0, 2, 0xff :: u8] = interface_descriptor desk_session"
  "validate_device (device_descriptor desk_session) = Inr ()"
  "validate_interface (interface_descriptor desk_session) 0 = Inr 2"
  by code_simp+

definition desk_pipe :: "u8 \<Rightarrow> pipe_info" where
  "desk_pipe i = \<lparr>pipe_kind = 2, pipe_id = i, maximum_packet = 512, pipe_interval = 0\<rparr>"

lemma desk_pipes:
  "query_pipes desk_win u 0 [0..<2] [] w = (Inr [desk_pipe 0x81, desk_pipe 2], w)"
  "select_bulk_pipes [desk_pipe 0x81, desk_pipe 2]
    = Inr \<lparr>bulk_input = 0x81, bulk_output = 2, input_max_packet = 512, output_max_packet = 512\<rparr>"
proof -
  have "[0..<2] = [0, Suc 0]" by (simp add: upt_rec)
  then show "query_pipes desk_win u 0 [0..<2] [] w = (Inr [desk_pipe 0x81, desk_pipe 2], w)"
    by (simp add: desk_win_def checked_call_def win_result_def desk_pipe_def)
qed (simp add: select_bulk_pipes_def select_from_iff endpoint_ok_def bulk_in_of_def bulk_out_of_def
    packet_sizes_def desk_pipe_def)

lemma desk_policies:
  "set_policies desk_win u ((operation, pipe, policy, v) # rest) w
    = (if policy = refused_policy w then (Inl (Custom OtherKind (Message
        (Fmt [Lit operation, Lit '': '', Shown (os_error desk_win w)]))), w)
       else set_policies desk_win u rest w)"
  by (simp add: desk_win_def checked_call_def win_result_def os_error_def)

lemma desk_configures:
  "configure desk_win f u w
    = (case set_policies desk_win u (pipe_policies \<lparr>bulk_input = 0x81, bulk_output = 2,
         input_max_packet = 512, output_max_packet = 512\<rparr>) w of
        (Inl er, w) \<Rightarrow> (Inl er, w)
      | (Inr _, w) \<Rightarrow> (Inr (desk_session\<lparr>file_handle := f, usb_handle := u\<rparr>), w))"
proof -
  have calls: "get_descriptor desk_win u w
      = ((True, [18, 1, 0, 2, 0, 0, 0, 64, 0x24, 0x09, 0x65, 0x42], 18), w)"
    "current_setting desk_win u w = ((True, 0), w)"
    "interface_settings desk_win u 0 w = ((True, [9, 4, 0, 0, 2, 0xff]), w)"
    by (simp_all add: desk_win_def)
  show ?thesis
    by (simp add: configure_def calls checked_call_def win_result_def then_io_def Let_def
        desk_descriptors desk_pipes del: set_policies.simps upt_rec_numeral split: sum.split prod.split)
      (simp add: desk_session_def)
qed

lemma desk_opens_path:
  assumes "refused_policy w = 0"
  shows "open_with_path desk_win path w
    = (Inr (desk_session\<lparr>file_handle := fresh w, usb_handle := fresh w + 1\<rparr>),
       w\<lparr>fresh := fresh w + 2, open_handles := InterfaceHandle (fresh w + 1) # FileHandle (fresh w) # open_handles w\<rparr>)"
proof -
  have policies: "set_policies desk_win u (pipe_policies \<lparr>bulk_input = 0x81, bulk_output = 2,
      input_max_packet = 512, output_max_packet = 512\<rparr>) w = (Inr (), w)" if "refused_policy w = 0" for u w
    using that by (simp add: pipe_policies_def desk_policies del: set_policies.simps(2))
  have calls: "create_file desk_win p w = acquire_handle FileHandle w"
    "winusb_initialize desk_win f w = (case acquire_handle InterfaceHandle w of (u, w) \<Rightarrow> ((True, u), w))"
    for p f w by (simp_all add: desk_win_def)
  show ?thesis
    using assms by (simp add: open_with_path_def calls acquire_handle_def checked_call_def
        win_result_def or_release_def desk_configures policies)
qed

lemma one_scanner_opens: "session_open desk_win one_scanner = (Inr desk_session, opened_desk)"
proof -
  let ?w = "one_scanner\<lparr>fresh := 2, error_code := 259\<rparr>"
  have lists: "scanner_candidate_paths desk_win one_scanner
      = (Inr \<lparr>active_paths = [[0x61, 0]], inactive_count = 0\<rparr>, ?w)"
    using desk_lists [where w = one_scanner and u = "0x61"] by (simp add: one_scanner_def desk_with_def)
  have "session_open desk_win one_scanner = open_with_path desk_win [0x61, 0] ?w"
    by (simp add: session_open_def lists then_io_def unique_scanner_path_def)
  also have "\<dots> = (Inr desk_session, opened_desk)"
    by (subst desk_opens_path)
      (simp_all add: one_scanner_def desk_with_def opened_desk_def desk_session_def)
  finally show ?thesis .
qed

end
