(* ===== verification/Usb_Properties.thy ===== *)
theory Usb_Properties
  imports Usb_Desk
begin

unbundle bit_operations_syntax

text \<open>
  The correctness of the USB layer: the identities, the choice and the opening of the scanner, the
  transfers, and the scan job over a session.
\<close>

section \<open>Identities\<close>

text \<open>Scalar values of Unicode; the units that encode them decode to them, and nothing else does.\<close>

definition scalar_value :: "nat \<Rightarrow> bool" where
  "scalar_value c \<longleftrightarrow> c < 0xD800 \<or> 0xE000 \<le> c \<and> c < 0x110000"

lemma decode_encode: "list_all scalar_value s \<Longrightarrow> decode_utf16 (encode_utf16 s) = Some s"
proof (induction s)
  case (Cons c s)
  show ?case
  proof (cases "c < 0x10000")
    case True
    then show ?thesis using Cons by (auto simp: encode_utf16_def utf16_units_def scalar_value_def)
  next
    case False
    then have c: "c = 0x10000 + (c - 0x10000) div 0x400 * 0x400 + (c - 0x10000) mod 0x400"
      by simp
    have "(c - 0x10000) div 0x400 < 0x400" "(c - 0x10000) mod 0x400 < 0x400"
      using Cons.prems False by (auto simp: scalar_value_def)
    with False c Cons show ?thesis
      by (simp add: encode_utf16_def utf16_units_def)
  qed
qed (simp add: encode_utf16_def)

lemma encode_decode:
  "decode_utf16 us = Some s \<Longrightarrow> list_all (\<lambda>u. u < 0x10000) us \<Longrightarrow>
     encode_utf16 s = us \<and> list_all scalar_value s"
proof (induction us arbitrary: s rule: decode_utf16.induct)
  case (2 u us)
  show ?case
  proof (cases "u < 0xD800 \<or> 0xDFFF < u")
    case True
    then show ?thesis using 2 by (auto simp: encode_utf16_def utf16_units_def scalar_value_def)
  next
    case False
    with "2.prems" obtain v vs t where v: "us = v # vs" "u < 0xDC00" "0xDC00 \<le> v" "v \<le> 0xDFFF"
      "decode_utf16 vs = Some t" "s = (0x10000 + (u - 0xD800) * 0x400 + (v - 0xDC00)) # t"
      by (auto split: if_splits list.splits)
    then have "encode_utf16 t = vs \<and> list_all scalar_value t"
      using "2.IH" False "2.prems" by auto
    moreover obtain a b where ab: "u = 0xD800 + a" "v = 0xDC00 + b" "a < 0x400" "b < 0x400"
      using that [of "u - 0xD800" "v - 0xDC00"] False v by auto
    moreover have "(a * 0x400 + b) div 0x400 = a" "(a * 0x400 + b) mod 0x400 = b"
      using ab(4) by simp_all
    then have "utf16_units (0x10000 + (a * 0x400 + b)) = [0xD800 + a, 0xDC00 + b]"
      by (simp add: utf16_units_def del: div_mult_self3 div_mult_self4)
    moreover have "scalar_value (0x10000 + (a * 0x400 + b))"
      using ab(3,4) by (simp add: scalar_value_def)
    moreover have "s = (0x10000 + (a * 0x400 + b)) # t" using v(6) ab(1,2) by simp
    ultimately show ?thesis using v(1) by (simp add: encode_utf16_def)
  qed
qed (simp add: encode_utf16_def)

text \<open>The parts of a path between its separators.\<close>

lemma split_on_not_Nil [simp]: "split_on d s \<noteq> []"
  by (induction s) (auto split: list.splits)

lemma split_on_one_iff: "split_on d s = [a] \<longleftrightarrow> a = s \<and> d \<notin> set s"
proof (induction s arbitrary: a)
  case (Cons c s)
  obtain p q where "split_on d s = p # q" by (cases "split_on d s") auto
  then show ?case using Cons.IH [of s] Cons.IH [of p] by (cases "c = d") auto
qed auto

lemma split_on_more_iff:
  "split_on d s = a # b # ps \<longleftrightarrow> (\<exists>r. s = a @ d # r \<and> d \<notin> set a \<and> split_on d r = b # ps)"
proof (induction s arbitrary: a)
  case (Cons c s)
  show ?case
  proof (cases "c = d")
    case True
    then show ?thesis by (cases a) auto
  next
    case False
    obtain p q where p: "split_on d s = p # q" by (cases "split_on d s") auto
    with False Cons.IH [of "tl a"] show ?thesis by (cases a) auto
  qed
qed simp

definition hardware_id :: "usb_interface \<Rightarrow> string" where
  "hardware_id i = (case i of Scanner \<Rightarrow> ''VID_0924&PID_4265&MI_00''
     | Printer \<Rightarrow> ''VID_0924&PID_4265&MI_01'' | Composite \<Rightarrow> ''VID_0924&PID_4265'')"

lemma hardware_ids_differ:
  "eq_ignore_ascii_case s (hardware_id i) \<Longrightarrow> eq_ignore_ascii_case s (hardware_id j) \<Longrightarrow> i = j"
proof -
  have "map (\<lambda>c. ascii_lower (of_char c)) (hardware_id i) \<noteq> map (\<lambda>c. ascii_lower (of_char c)) (hardware_id j)"
    if "i \<noteq> j"
    using that by (cases i; cases j) (simp_all add: hardware_id_def ascii_lower_def)
  then show "eq_ignore_ascii_case s (hardware_id i) \<Longrightarrow> eq_ignore_ascii_case s (hardware_id j) \<Longrightarrow> i = j"
    by (auto simp: eq_ignore_ascii_case_def)
qed

lemma identify_iff:
  "identify s = Some i \<longleftrightarrow> (\<exists>bus hardware dev. s = bus @ 92 # hardware @ 92 # dev
     \<and> 92 \<notin> set bus \<and> 92 \<notin> set hardware \<and> 92 \<notin> set dev \<and> dev \<noteq> []
     \<and> eq_ignore_ascii_case bus ''USB'' \<and> eq_ignore_ascii_case hardware (hardware_id i))"
  (is "_ \<longleftrightarrow> ?parts")
proof
  assume a: "identify s = Some i"
  then obtain bus hw dev where p: "split_on 92 s = [bus, hw, dev]"
    by (auto simp: identify_def split: list.splits)
  with a show ?parts
    by (cases i) (auto simp: identify_def split_on_more_iff split_on_one_iff hardware_id_def split: if_splits)
next
  assume ?parts
  then obtain bus hw dev where p: "split_on 92 s = [bus, hw, dev]" "dev \<noteq> []"
    "eq_ignore_ascii_case bus ''USB''" "eq_ignore_ascii_case hw (hardware_id i)"
    by (auto simp: split_on_more_iff split_on_one_iff)
  then have "eq_ignore_ascii_case hw (hardware_id j) \<longleftrightarrow> j = i" for j
    using hardware_ids_differ by blast
  from this [of Scanner] this [of Printer] this [of Composite] p show "identify s = Some i"
    by (cases i) (simp_all add: identify_def hardware_id_def)
qed

lemma checked_call_Inr_iff:
  "checked_call win operation res k = (Inr b, w') \<longleftrightarrow>
     (\<exists>a w. res = ((True, a), w) \<and> k a w = (Inr b, w'))"
  by (cases res; cases "fst res") (auto simp: checked_call_def win_result_def)

lemma validate_bounded_read_Inr_iff: "validate_bounded_read t n = Inr k \<longleftrightarrow> k = unat t \<and> k \<le> n"
  by (auto simp: validate_bounded_read_def)

section \<open>Properties\<close>

text \<open>
  Property C9: handles are balanced. Whatever Windows answers, after any sequence of openings,
  transfers, inquiries, whole scans and drops of sessions the open handles are those that were
  open at the start and exactly two for every session that is still owned: a failed opening,
  an inquiry and a scan, however they end, leave none behind, and a dropped session gives both
  of its handles back. Every session that is owned is valid.
\<close>

theorem usb_handles_balance:
  assumes "usb_handles win held" and "\<forall>(e, prep) \<in> jobs. keeps_handles held e prep"
    and "(usb_step win jobs)\<^sup>*\<^sup>* ([], w) (ss, w')"
  shows "held w' = held w + all_owned ss \<and> list_all valid_session ss"
  using usb_handles.usb_steps_held [OF assms(1,3,2), of "held w"] sessions_valid [OF assms(3)] by simp

theorem usb_handles_balance_witness:
  "(usb_step desk_win {})\<^sup>*\<^sup>* ([], one_scanner) ([desk_session], opened_desk)
    \<and> desk_held opened_desk = {#FileHandle 2, InterfaceHandle 3#}
    \<and> desk_held (drop_session desk_win desk_session opened_desk) = {#}"
proof -
  have one: "(usb_step desk_win {})\<^sup>*\<^sup>* ([], one_scanner) ([desk_session], opened_desk)"
    by (rule r_into_rtranclp) (rule open_one [OF one_scanner_opens])
  have "usb_step desk_win {} ([] @ desk_session # [], opened_desk)
      ([] @ [], drop_session desk_win desk_session opened_desk)" by (rule drop_one)
  with one have two: "(usb_step desk_win {})\<^sup>*\<^sup>* ([], one_scanner)
      ([], drop_session desk_win desk_session opened_desk)" by (simp add: rtranclp.rtrancl_into_rtrancl)
  have none: "\<forall>(e, prep) \<in> {}. keeps_handles desk_held e prep" by simp
  show ?thesis
    using usb_handles_balance [OF desk.usb_handles_axioms none one]
      usb_handles_balance [OF desk.usb_handles_axioms none two] one
    by (simp add: desk_held_def one_scanner_def desk_with_def owned_def desk_session_def)
qed

text \<open>
  Property C16: a session is opened exactly when one scanner interface is registered, it is active,
  its identity is that of the scanner function of the WorkCentre 3119, the enumeration ends
  after it, and its path opens; then the session is valid: descriptors of this device, one bulk
  pipe in each direction, packets of a legal size.
\<close>

theorem only_the_scanner_is_opened:
  "session_open win w = (Inr s, w') \<longleftrightarrow>
    valid_session s
    \<and> (\<exists>path w1. only_interface win w path w1 \<and> open_with_path win path w1 = (Inr s, w'))"
  using session_open_valid [of win w s w'] by (auto simp: session_open_Inr_iff)

text \<open>
  Property C17: transfers are bounded and never repeated. A write succeeds exactly when one call
  took all of its 1 to 1048576 bytes; a read hands back what one call reported, at most the
  size of the buffer, which keeps its size and is a multiple of the packet of the pipe; a
  buffer outside the bounds never reaches the device.
\<close>

theorem transfers_are_bounded:
  "(session_write win s bs w = (Inr (), w') \<longleftrightarrow>
      bs \<noteq> [] \<and> length bs \<le> 1048576
      \<and> (\<exists>t. write_pipe win (usb_handle s) (bulk_out s) bs w = ((True, t), w') \<and> unat t = length bs))
    \<and> (session_read win s n w = (Inr (k, buffer), w') \<longleftrightarrow>
      0 < n \<and> n \<le> 1048576 \<and> bulk_in_max_packet s \<noteq> 0 \<and> unat (bulk_in_max_packet s) dvd n \<and> k \<le> n
      \<and> (\<exists>t bs. read_pipe win (usb_handle s) (bulk_in s) n w = ((True, t, bs), w')
           \<and> unat t = k \<and> buffer = written_over n bs))
    \<and> snd (session_write win s bs w)
      = (if bs = [] \<or> 1048576 < length bs then w
         else snd (write_pipe win (usb_handle s) (bulk_out s) bs w))
    \<and> snd (session_read win s n w)
      = (if validate_read_buffer n (bulk_in_max_packet s) = Inr ()
         then snd (read_pipe win (usb_handle s) (bulk_in s) n w) else w)"
proof (intro conjI)
  show "session_write win s bs w = (Inr (), w') \<longleftrightarrow>
      bs \<noteq> [] \<and> length bs \<le> 1048576
      \<and> (\<exists>t. write_pipe win (usb_handle s) (bulk_out s) bs w = ((True, t), w') \<and> unat t = length bs)"
    by (auto simp: session_write_def then_io_Inr_iff checked_call_Inr_iff validate_transfer_buffer_def
        validate_complete_write_def MAX_TRANSFER_BYTES_def result_simps split: if_splits)
  show "session_read win s n w = (Inr (k, buffer), w') \<longleftrightarrow>
      0 < n \<and> n \<le> 1048576 \<and> bulk_in_max_packet s \<noteq> 0 \<and> unat (bulk_in_max_packet s) dvd n \<and> k \<le> n
      \<and> (\<exists>t bs. read_pipe win (usb_handle s) (bulk_in s) n w = ((True, t, bs), w')
           \<and> unat t = k \<and> buffer = written_over n bs)"
    by (auto simp: session_read_def then_io_Inr_iff checked_call_Inr_iff validate_read_buffer_def
        validate_transfer_buffer_def validate_bounded_read_Inr_iff MAX_TRANSFER_BYTES_def result_simps
        mod_eq_0_iff_dvd split: if_splits prod.splits)
  show "snd (session_write win s bs w)
      = (if bs = [] \<or> 1048576 < length bs then w
         else snd (write_pipe win (usb_handle s) (bulk_out s) bs w))"
    by (simp add: session_write_def then_io_def checked_call_def win_result_def
        validate_transfer_buffer_def MAX_TRANSFER_BYTES_def split: prod.split)
  show "snd (session_read win s n w)
      = (if validate_read_buffer n (bulk_in_max_packet s) = Inr ()
         then snd (read_pipe win (usb_handle s) (bulk_in s) n w) else w)"
    by (auto simp: session_read_def then_io_def checked_call_def win_result_def split: prod.split sum.split)
qed

text \<open>
  Property C10: a scan job never asks its session for a read that the session refuses. Over any
  session that \<open>open\<close> hands out, with any tuning, consumer and device, every read of the
  job is a positive multiple of 1024 bytes, at most 1 MiB, which the packets of the pipe divide,
  and what arrives is never longer.
\<close>

theorem job_reads_fit_the_session:
  assumes "session_open win w0 = (Inr s, w)"
    and "run_job fuel (logged (over_session win s e)) tuning (w, []) = Some (r, p, (w', log))"
    and "Received n b \<in> set log"
  shows "0 < n \<and> n \<le> 1048576 \<and> 1024 dvd n \<and> validate_read_buffer n (bulk_in_max_packet s) = Inr ()
    \<and> (\<forall>bs. b = Inr bs \<longrightarrow> length bs \<le> n)"
proof -
  have fits: "read_fits (Received n b)"
    using job_reads_fit [OF assms(2)] assms(3) by (auto simp: list_all_iff)
  then have "block_size n" by (cases b) auto
  then have "validate_read_buffer n (bulk_in_max_packet s) = Inr ()"
    using valid_session_reads [OF session_open_valid [OF assms(1)]] by blast
  with \<open>block_size n\<close> fits show ?thesis by (auto simp: block_size_def MAX_TRANSFER_BYTES_def)
qed

text \<open>A job whose inquiry is answered with nothing.\<close>

definition still_env :: "desk env" where
  "still_env = \<lparr>usb_write = (\<lambda>c w. (Inr (), w)), usb_read = (\<lambda>n w. (Inr [], w)), clock = (\<lambda>w. (0, w)),
     cancel_flag = (\<lambda>w. (False, w)), thread_sleep = (\<lambda>d w. w), sink = (\<lambda>img w. (Returned (Inr ()), w)),
     prepare = (\<lambda>raw w. (Returned (Inr colour_request), w))\<rparr>"

definition silent_log :: "event list" where
  "silent_log = [Wrote (plain_command 0x12) (Inr ()), Received 1024 (Inr [])]"

lemma silent_session:
  "session_write desk_win desk_session (plain_command 0x12) w
    = (Inr (), w\<lparr>sent := sent w @ [plain_command 0x12]\<rparr>)"
  "answers w = [] \<Longrightarrow> session_read desk_win desk_session 1024 w = (Inr (0, replicate 1024 0), w)"
proof -
  show "session_write desk_win desk_session (plain_command 0x12) w
    = (Inr (), w\<lparr>sent := sent w @ [plain_command 0x12]\<rparr>)"
    by (simp add: session_write_def validate_transfer_buffer_def plain_command_def then_io_def
        checked_call_def win_result_def desk_win_def validate_complete_write_def MAX_TRANSFER_BYTES_def)
  show "answers w = [] \<Longrightarrow> session_read desk_win desk_session 1024 w = (Inr (0, replicate 1024 0), w)"
    by (simp add: session_read_def validate_read_buffer_def validate_transfer_buffer_def then_io_def
        checked_call_def win_result_def desk_win_def validate_bounded_read_def MAX_TRANSFER_BYTES_def
        desk_session_def written_over_def)
qed

lemma silent_run:
  "\<exists>r p. run_job 1 (logged (over_session desk_win desk_session still_env)) default_tuning (opened_desk, [])
     = Some (r, p, (opened_desk\<lparr>sent := [plain_command 0x12]\<rparr>, silent_log))"
proof -
  let ?e = "logged (over_session desk_win desk_session still_env)"
  have calls: "usb_write ?e (plain_command 0x12) (w, log)
      = (Inr (), w\<lparr>sent := sent w @ [plain_command 0x12]\<rparr>, log @ [Wrote (plain_command 0x12) (Inr ())])"
    "answers w = [] \<Longrightarrow> usb_read ?e 1024 (w, log) = (Inr [], w, log @ [Received 1024 (Inr [])])"
    "clock ?e (w, log) = (0, w, log)" "cancel_flag ?e (w, log) = (False, w, log)" for w log
    by (simp_all add: logged_def over_session_def still_env_def silent_session)
  have "validate_tuning default_tuning = Inr ()"
    by (simp add: validate_tuning_def validate_poll_interval_def default_tuning_def millis_def)
  moreover have "0 < seconds 120" by (simp add: seconds_def)
  moreover obtain er where "check_reply (plain_command 0x12) [] = Inl er"
    by (simp add: check_reply_def Let_def)
  ultimately show ?thesis
    by (simp add: run_job_def run_observed_def prepare_job_def exchange_def timed_write_def
        timed_read_def now_def on_world_def set_stage_def cancelled_def checkpoint_def
        checkpoint_deadline_def on_diag_def diag_error_def Let_def calls start_job_def opened_desk_def one_scanner_def desk_with_def
        silent_log_def)
qed

theorem job_reads_fit_the_session_witness:
  "\<exists>r p. session_open desk_win one_scanner = (Inr desk_session, opened_desk)
    \<and> run_job 1 (logged (over_session desk_win desk_session still_env)) default_tuning (opened_desk, [])
        = Some (r, p, (opened_desk\<lparr>sent := [plain_command 0x12]\<rparr>, silent_log))
    \<and> validate_read_buffer 1024 (bulk_in_max_packet desk_session) = Inr ()"
proof -
  obtain r p where run: "run_job 1 (logged (over_session desk_win desk_session still_env)) default_tuning
      (opened_desk, []) = Some (r, p, (opened_desk\<lparr>sent := [plain_command 0x12]\<rparr>, silent_log))"
    using silent_run by blast
  have "Received 1024 (Inr []) \<in> set silent_log" by (simp add: silent_log_def)
  from job_reads_fit_the_session [OF one_scanner_opens run this] one_scanner_opens run show ?thesis by blast
qed

end
