(* ===== verification/Discovery.thy ===== *)
theory Discovery
  imports Usb_Session
begin

unbundle bit_operations_syntax

text \<open>
  The command line: the search for the interfaces of the machine in the Configuration Manager
  (\<open>src/windows.rs\<close>) and the two commands of \<open>src/main.rs\<close>. The calls of the Configuration
  Manager are a parameter; a line of output is a value with the data that its text shows, and
  printing it may fail.
\<close>

section \<open>The Configuration Manager\<close>

definition CR_SUCCESS :: u32 where "CR_SUCCESS = 0"
definition CR_BUFFER_SMALL :: u32 where "CR_BUFFER_SMALL = 0x1a"
definition CR_NO_SUCH_VALUE :: u32 where "CR_NO_SUCH_VALUE = 0x25"
definition DN_STARTED :: u32 where "DN_STARTED = 8"

text \<open>
  Each call returns its code and what it wrote; the service of a node is asked with no buffer
  for its size in bytes, then with a buffer of that size for its kind, size and units.
\<close>

record 'w config_manager =
  id_list_size :: "'w \<Rightarrow> (u32 \<times> nat) \<times> 'w"
  id_list :: "nat \<Rightarrow> 'w \<Rightarrow> (u32 \<times> u16 list) \<times> 'w"
  locate_node :: "u16 list \<Rightarrow> 'w \<Rightarrow> (u32 \<times> nat) \<times> 'w"
  node_status :: "nat \<Rightarrow> 'w \<Rightarrow> (u32 \<times> u32 \<times> u32) \<times> 'w"
  service_size :: "nat \<Rightarrow> 'w \<Rightarrow> (u32 \<times> nat) \<times> 'w"
  service_read :: "nat \<Rightarrow> nat \<Rightarrow> 'w \<Rightarrow> (u32 \<times> u32 \<times> nat \<times> u16 list) \<times> 'w"

definition cm_check :: "u32 \<Rightarrow> string \<Rightarrow> unit io" where
  "cm_check code operation = fail_if (code \<noteq> CR_SUCCESS)
     (io_other (Fmt [Lit operation, Lit '': Configuration Manager error 0x'', Hex 8 (uint code)]))"

definition invalid_utf16 :: io_error where
  "invalid_utf16 = invalid ''invalid utf-16: lone surrogate found''"

text \<open>The list may change between the question for its size and the read; \<open>tries\<close> counts down.\<close>

fun present_from :: "'w config_manager \<Rightarrow> nat \<Rightarrow> 'w \<Rightarrow> u16 list io \<times> 'w" where
  "present_from cm 0 w =
     (Inl (io_other (Lit ''Device list changed repeatedly; reconnect and retry'')), w)"
| "present_from cm (Suc tries) w = (case id_list_size cm w of ((code, n), w) \<Rightarrow>
     then_io (cm_check code ''Get device list size'', w) (\<lambda>_ w.
       if n = 0 \<or> n > 16 * 1024 * 1024 then (Inl (io_other (Lit ''Invalid device list size'')), w)
       else case id_list cm n w of ((result, units), w) \<Rightarrow>
         if result = CR_BUFFER_SMALL then present_from cm tries w
         else then_io (cm_check result ''Get device list'', w) (\<lambda>_ w. (Inr (written_over n units), w))))"

definition present_ids :: "'w config_manager \<Rightarrow> 'w \<Rightarrow> u16 list io \<times> 'w" where
  "present_ids cm = present_from cm 3"

text \<open>The value that was read: up to its terminator, none if that is empty.\<close>

definition service_value :: "u32 \<Rightarrow> nat \<Rightarrow> u16 list \<Rightarrow> scalars option io" where
  "service_value reg_kind bytes buffer =
     (if reg_kind \<noteq> 1 \<or> bytes mod 2 \<noteq> 0 \<or> bytes > length buffer * 2
      then Inl (io_other (Lit ''Service is not a valid REG_SZ property''))
      else
        let units = take (bytes div 2) buffer;
            name = takeWhile (\<lambda>u. u \<noteq> 0) units
        in if length name = length units then Inl (io_other (Lit ''Unterminated service property''))
           else and_then (ok_or invalid_utf16 (decode_utf16 (map unat name))) (\<lambda>v.
             Inr (if v = [] then None else Some v)))"

fun service_from :: "'w config_manager \<Rightarrow> nat \<Rightarrow> nat \<Rightarrow> 'w \<Rightarrow> scalars option io \<times> 'w" where
  "service_from cm node 0 w =
     (Inl (io_other (Lit ''Driver binding changed repeatedly; retry discovery'')), w)"
| "service_from cm node (Suc tries) w = (case service_size cm node w of ((code, bytes), w) \<Rightarrow>
     if code = CR_NO_SUCH_VALUE then (Inr None, w)
     else then_io (if code \<noteq> CR_BUFFER_SMALL then cm_check code ''Get service size'' else Inr (), w)
       (\<lambda>_ w.
          if bytes = 0 then (Inr None, w)
          else if bytes > 64 * 1024 \<or> bytes mod 2 \<noteq> 0
          then (Inl (io_other (Lit ''Invalid service property length'')), w)
          else case service_read cm node bytes w of ((code, reg_kind, again, units), w) \<Rightarrow>
            if code = CR_BUFFER_SMALL then service_from cm node tries w
            else if code = CR_NO_SUCH_VALUE then (Inr None, w)
            else then_io (cm_check code ''Get service'', w) (\<lambda>_ w.
              (service_value reg_kind again (written_over (bytes div 2) units), w))))"

definition node_service :: "'w config_manager \<Rightarrow> nat \<Rightarrow> 'w \<Rightarrow> scalars option io \<times> 'w" where
  "node_service cm node = service_from cm node 3"

section \<open>Discovery\<close>

definition found_device ::
    "'w config_manager \<Rightarrow> u16 list \<Rightarrow> usb_interface \<Rightarrow> 'w \<Rightarrow> device io \<times> 'w" where
  "found_device cm raw interface w = (case locate_node cm (raw @ [0]) w of ((code, node), w) \<Rightarrow>
     then_io (cm_check code ''Locate Xerox interface'', w) (\<lambda>_ w.
       case node_status cm node w of ((code, flags, problem), w) \<Rightarrow>
         then_io (cm_check code ''Get Xerox interface status'', w) (\<lambda>_ w.
         then_io (node_service cm node w) (\<lambda>service w.
           (Inr \<lparr>device_interface = interface, service_name = service, problem_code = problem,
              device_started = flags AND DN_STARTED \<noteq> 0\<rparr>, w)))))"

fun discover_from ::
    "'w config_manager \<Rightarrow> u16 list list \<Rightarrow> device list \<Rightarrow> 'w \<Rightarrow> device list io \<times> 'w" where
  "discover_from cm [] devices w = (Inr devices, w)"
| "discover_from cm (raw # rest) devices w =
     then_io (ok_or invalid_utf16 (decode_utf16 (map unat raw)), w) (\<lambda>i w.
       case identify i of
         None \<Rightarrow> discover_from cm rest devices w
       | Some interface \<Rightarrow> then_io (found_device cm raw interface w) (\<lambda>d w.
           discover_from cm rest (devices @ [d]) w))"

definition rank_of :: "usb_interface \<Rightarrow> nat" where
  "rank_of i = (case i of Composite \<Rightarrow> 0 | Scanner \<Rightarrow> 1 | Printer \<Rightarrow> 2)"

definition discover :: "'w config_manager \<Rightarrow> 'w \<Rightarrow> device list io \<times> 'w" where
  "discover cm w = then_io (present_ids cm w) (\<lambda>ids w.
     then_io (discover_from cm (takeWhile (\<lambda>raw. raw \<noteq> []) (split_on 0 ids)) [] w) (\<lambda>devices w.
       (Inr (sort_key (\<lambda>d. rank_of (device_interface d)) devices), w)))"

section \<open>The commands\<close>

datatype line =
    UsageText
  | UnknownArguments
  | CapabilityLine nat capabilities
  | DoctorHeader
  | NoDevice
  | DeviceLine device
  | ScannerCount nat
  | DriverMissingLine
  | DriverStartedLine
  | OtherDriverLine
  | NotStartedLine
  | ProblemLine u32

text \<open>The lines of the inquiry are numbered; all of them are about its reply.\<close>

fun print_all :: "(line \<Rightarrow> 'w \<Rightarrow> unit io \<times> 'w) \<Rightarrow> line list \<Rightarrow> 'w \<Rightarrow> unit io \<times> 'w" where
  "print_all out [] w = (Inr (), w)"
| "print_all out (l # ls) w = then_io (out l w) (\<lambda>_ w. print_all out ls w)"

definition print_then ::
    "(line \<Rightarrow> 'w \<Rightarrow> unit io \<times> 'w) \<Rightarrow> line list \<Rightarrow> nat io \<Rightarrow> 'w \<Rightarrow> nat io \<times> 'w" where
  "print_then out ls code w = then_io (print_all out ls w) (\<lambda>_ w. (code, w))"

definition doctor ::
    "(line \<Rightarrow> 'w \<Rightarrow> unit io \<times> 'w) \<Rightarrow> 'w config_manager \<Rightarrow> 'w \<Rightarrow> nat io \<times> 'w" where
  "doctor out cm w = then_io (discover cm w) (\<lambda>devices w.
     then_io (out DoctorHeader w) (\<lambda>_ w.
       if devices = [] then print_then out [NoDevice] (Inr 2) w
       else then_io (print_all out (map DeviceLine devices) w) (\<lambda>_ w.
         let scanners = filter (\<lambda>d. device_interface d = Scanner) devices
         in if length scanners \<noteq> 1 then print_then out [ScannerCount (length scanners)] (Inr 2) w
            else case readiness_of (scanners ! 0) of
                DriverMissing \<Rightarrow> print_then out [DriverMissingLine] (Inr 2) w
              | DriverStarted \<Rightarrow> print_then out [DriverStartedLine] (Inr 0) w
              | OtherDriver \<Rightarrow> print_then out [OtherDriverLine] (Inr 2) w
              | NotStarted \<Rightarrow> print_then out [NotStartedLine] (Inr 2) w
              | DeviceProblem code \<Rightarrow> print_then out [ProblemLine code] (Inr 2) w
              | NotScanner \<Rightarrow> (Inl (io_other (Lit ''Unexpected non-scanner selection'')), w))))"

definition run_command ::
    "(line \<Rightarrow> 'w \<Rightarrow> unit io \<times> 'w) \<Rightarrow> 'w winusb \<Rightarrow> 'w config_manager \<Rightarrow> string list \<Rightarrow> 'w \<Rightarrow>
     nat io \<times> 'w" where
  "run_command out win cm args w =
     (if args = [] \<or> args = [''--help''] \<or> args = [''-h''] then print_then out [UsageText] (Inr 0) w
      else if args \<noteq> [''doctor''] \<and> args \<noteq> [''inquiry''] then print_then out [UnknownArguments] (Inr 64) w
      else if args = [''inquiry''] then
        then_io (inquiry win w) (\<lambda>caps w.
          print_then out (map (\<lambda>i. CapabilityLine i caps) [0..<6]) (Inr 0) w)
      else doctor out cm w)"

text \<open>The exit code; an error is printed to the error stream, whatever becomes of that.\<close>

definition exit_code ::
    "(line \<Rightarrow> 'w \<Rightarrow> unit io \<times> 'w) \<Rightarrow> (io_error \<Rightarrow> 'w \<Rightarrow> 'w) \<Rightarrow> 'w winusb \<Rightarrow> 'w config_manager \<Rightarrow>
     string list \<Rightarrow> 'w \<Rightarrow> nat \<times> 'w" where
  "exit_code out complain win cm args w = (case run_command out win cm args w of
     (Inr code, w) \<Rightarrow> (code, w)
   | (Inl er, w) \<Rightarrow> (1, complain er w))"

end
