(* ===== verification/Discovery_Properties.thy ===== *)
theory Discovery_Properties
  imports Discovery Usb_Desk
begin

unbundle bit_operations_syntax

text \<open>
  The correctness of the command line: what discovery reports of the list of the machine, and what
  the doctor prints and answers.
\<close>

section \<open>Discovery\<close>

text \<open>The names in the list of the machine, up to the first empty one.\<close>

definition listed :: "u16 list \<Rightarrow> u16 list list" where
  "listed units = takeWhile (\<lambda>raw. raw \<noteq> []) (split_on 0 units)"

definition names_of :: "u16 list list \<Rightarrow> scalars list option" where
  "names_of raws = those (map (\<lambda>raw. decode_utf16 (map unat raw)) raws)"

lemma names_of_simps [simp]:
  "names_of [] = Some []"
  "names_of (raw # raws) = (case decode_utf16 (map unat raw) of None \<Rightarrow> None
     | Some n \<Rightarrow> map_option ((#) n) (names_of raws))"
  unfolding names_of_def by simp_all

lemma found_device_interface:
  "found_device cm raw interface w = (Inr d, w') \<Longrightarrow> device_interface d = interface"
  by (auto simp: found_device_def then_io_Inr_iff split: prod.splits)

lemma discover_from_interfaces:
  "discover_from cm raws devices w = (Inr ds, w') \<Longrightarrow>
     \<exists>names. names_of raws = Some names
       \<and> map device_interface ds = map device_interface devices @ List.map_filter identify names"
proof (induction raws arbitrary: devices w)
  case (Cons raw raws)
  from Cons.prems obtain n where n: "decode_utf16 (map unat raw) = Some n"
    by (auto simp: then_io_Inr_iff ok_or_Inr_iff)
  show ?case
  proof (cases "identify n")
    case None
    then have "discover_from cm raws devices w = (Inr ds, w')"
      using Cons.prems n by (simp add: then_io_def)
    from Cons.IH [OF this] None n show ?thesis by (auto simp: List.map_filter_simps)
  next
    case (Some i)
    then obtain d w1 where d: "found_device cm raw i w = (Inr d, w1)"
      "discover_from cm raws (devices @ [d]) w1 = (Inr ds, w')"
      using Cons.prems n by (auto simp: then_io_Inr_iff)
    from Cons.IH [OF d(2)] Some n found_device_interface [OF d(1)] show ?thesis
      by (auto simp: List.map_filter_simps)
  qed
qed (simp add: List.map_filter_simps)

lemma map_sort_key: "map f (sort_key (\<lambda>x. g (f x)) xs) = sort_key g (map f xs)"
proof -
  have "map f (insort_key (\<lambda>x. g (f x)) y ys) = insort_key g (f y) (map f ys)" for y ys
    by (induction ys) auto
  then show ?thesis by (induction xs) auto
qed

lemma discover_interfaces:
  assumes "discover cm w = (Inr ds, w')"
  shows "\<exists>units w1 names. present_ids cm w = (Inr units, w1) \<and> names_of (listed units) = Some names
    \<and> map device_interface ds = sort_key rank_of (List.map_filter identify names)"
proof -
  from assms obtain units w1 devices where d: "present_ids cm w = (Inr units, w1)"
    "discover_from cm (listed units) [] w1 = (Inr devices, w')"
    "ds = sort_key (\<lambda>d. rank_of (device_interface d)) devices"
    by (auto simp: discover_def then_io_Inr_iff listed_def)
  with discover_from_interfaces [OF d(2)] show ?thesis
    by (auto simp: map_sort_key [of device_interface rank_of])
qed

section \<open>The doctor\<close>

definition scanner_ready :: "device \<Rightarrow> bool" where
  "scanner_ready d \<longleftrightarrow> device_interface d = Scanner \<and> problem_code d = 0 \<and> device_started d
     \<and> (\<exists>n. service_name d = Some n \<and> eq_ignore_ascii_case n ''WinUSB'')"

lemma readiness_started_iff: "readiness_of d = DriverStarted \<longleftrightarrow> scanner_ready d"
  by (auto simp: readiness_of_def scanner_ready_def split: option.splits)

definition scanners_of :: "device list \<Rightarrow> device list" where
  "scanners_of ds = filter (\<lambda>d. device_interface d = Scanner) ds"

definition verdict :: "device \<Rightarrow> line" where
  "verdict d = (if problem_code d = 28 then DriverMissingLine
     else if problem_code d \<noteq> 0 then ProblemLine (problem_code d)
     else if \<not> device_started d then NotStartedLine
     else if scanner_ready d then DriverStartedLine else OtherDriverLine)"

text \<open>All that the doctor prints, and its exit code, as functions of the devices found.\<close>

definition doctor_lines :: "device list \<Rightarrow> line list" where
  "doctor_lines ds = DoctorHeader # (if ds = [] then [NoDevice]
     else map DeviceLine ds @ (case scanners_of ds of
        [d] \<Rightarrow> [verdict d] | found \<Rightarrow> [ScannerCount (length found)]))"

definition doctor_code :: "device list \<Rightarrow> nat" where
  "doctor_code ds = (case scanners_of ds of [d] \<Rightarrow> if scanner_ready d then 0 else 2 | _ \<Rightarrow> 2)"

lemma print_all_append:
  "print_all out (ls @ ls') w = then_io (print_all out ls w) (\<lambda>_ w. print_all out ls' w)"
  by (induction ls arbitrary: w) (auto simp: then_io_def split: prod.split sum.split)

lemma then_io_assoc: "then_io (then_io m k) k' = then_io m (\<lambda>a w. then_io (k a w) k')"
  by (auto simp: then_io_def split: prod.split sum.split)

lemma verdict_answer:
  assumes "scanners_of ds = [d]"
  shows "(case readiness_of d of
      DriverMissing \<Rightarrow> print_then out [DriverMissingLine] (Inr 2) w
    | DriverStarted \<Rightarrow> print_then out [DriverStartedLine] (Inr 0) w
    | OtherDriver \<Rightarrow> print_then out [OtherDriverLine] (Inr 2) w
    | NotStarted \<Rightarrow> print_then out [NotStartedLine] (Inr 2) w
    | DeviceProblem code \<Rightarrow> print_then out [ProblemLine code] (Inr 2) w
    | NotScanner \<Rightarrow> (Inl (io_other (Lit ''Unexpected non-scanner selection'')), w))
    = print_then out [verdict d] (Inr (if scanner_ready d then 0 else 2)) w"
proof -
  have "d \<in> set (scanners_of ds)" using assms by simp
  then have "device_interface d = Scanner" by (simp add: scanners_of_def)
  then show ?thesis
    by (auto simp: readiness_of_def verdict_def scanner_ready_def split: option.splits)
qed

lemma doctor_report:
  "doctor out cm w = then_io (discover cm w) (\<lambda>ds w.
     print_then out (doctor_lines ds) (Inr (doctor_code ds)) w)"
proof -
  have body: "then_io (out DoctorHeader w) (\<lambda>_ w.
       if ds = [] then print_then out [NoDevice] (Inr 2) w
       else then_io (print_all out (map DeviceLine ds) w) (\<lambda>_ w.
         let scanners = scanners_of ds
         in if length scanners \<noteq> 1 then print_then out [ScannerCount (length scanners)] (Inr 2) w
            else case readiness_of (scanners ! 0) of
                DriverMissing \<Rightarrow> print_then out [DriverMissingLine] (Inr 2) w
              | DriverStarted \<Rightarrow> print_then out [DriverStartedLine] (Inr 0) w
              | OtherDriver \<Rightarrow> print_then out [OtherDriverLine] (Inr 2) w
              | NotStarted \<Rightarrow> print_then out [NotStartedLine] (Inr 2) w
              | DeviceProblem code \<Rightarrow> print_then out [ProblemLine code] (Inr 2) w
              | NotScanner \<Rightarrow> (Inl (io_other (Lit ''Unexpected non-scanner selection'')), w)))
      = print_then out (doctor_lines ds) (Inr (doctor_code ds)) w" for ds w
  proof (cases "ds = []")
    case True
    then show ?thesis
      by (simp add: doctor_lines_def doctor_code_def scanners_of_def print_then_def then_io_assoc)
  next
    case False
    show ?thesis
    proof (cases "\<exists>d. scanners_of ds = [d]")
      case True
      then obtain d where d: "scanners_of ds = [d]" by blast
      show ?thesis
        by (simp add: doctor_lines_def doctor_code_def d False verdict_answer [OF d] print_then_def
            print_all_append then_io_assoc)
    next
      case several: False
      then have "length (scanners_of ds) \<noteq> 1" by (auto simp: length_Suc_conv)
      then show ?thesis
        using False several
        by (auto simp: doctor_lines_def doctor_code_def print_then_def print_all_append then_io_assoc
            split: list.splits)
    qed
  qed
  show ?thesis
    unfolding doctor_def by (rule arg_cong [where f = "then_io (discover cm w)"])
      (intro ext, simp only: body [symmetric] scanners_of_def)
qed

text \<open>
  Property C22: the doctor reports the machine. Discovery finds exactly the interfaces of the
  WorkCentre 3119 in the list of present devices, each once, the composite device first, then
  the scanner, then the printer; the doctor prints a line for each and its verdict, and
  answers 0 exactly when there is one scanner interface, started by WinUSB without a problem,
  and 2 otherwise.
\<close>

theorem doctor_reports_the_machine:
  assumes "discover cm w = (Inr ds, w1)"
  shows "run_command out win cm [''doctor''] w
      = print_then out (doctor_lines ds) (Inr (if \<exists>d. scanners_of ds = [d] \<and> scanner_ready d then 0 else 2)) w1
    \<and> (\<exists>units w2 names. present_ids cm w = (Inr units, w2) \<and> names_of (listed units) = Some names
        \<and> map device_interface ds = sort_key rank_of (List.map_filter identify names))"
proof -
  have "doctor_code ds = (if \<exists>d. scanners_of ds = [d] \<and> scanner_ready d then 0 else 2)"
    by (auto simp: doctor_code_def split: list.splits)
  then show ?thesis
    using assms discover_interfaces [OF assms]
    by (simp add: run_command_def doctor_report then_io_def)
qed

definition winusb_name :: "u16 list" where
  "winusb_name = map of_char ''WinUSB''"

definition plain_machine :: "desk config_manager" where
  "plain_machine = \<lparr>id_list_size = (\<lambda>w. ((0, 31), w)), id_list = (\<lambda>n w. ((0, scanner_identity), w)),
     locate_node = (\<lambda>i w. ((0, 1), w)), node_status = (\<lambda>n w. ((0, 8, 0), w)),
     service_size = (\<lambda>n w. ((CR_BUFFER_SMALL, 14), w)),
     service_read = (\<lambda>n k w. ((0, 1, 14, winusb_name), w))\<rparr>"

definition plain_device :: device where
  "plain_device = \<lparr>device_interface = Scanner, service_name = Some (map unat winusb_name),
     problem_code = 0, device_started = True\<rparr>"

lemma plain_units:
  "takeWhile (\<lambda>raw. raw \<noteq> []) (split_on 0 (written_over 31 scanner_identity)) = [scanner_identity]"
  "takeWhile (\<lambda>u. u \<noteq> 0) (take 7 (written_over 7 winusb_name)) = winusb_name"
  "length (take 7 (written_over 7 winusb_name)) = 7" "length winusb_name = 6"
  "list_all (\<lambda>u. u < 0xD800) winusb_name" "eq_ignore_ascii_case (map unat winusb_name) ''WinUSB''"
  by code_simp+

lemma decode_below: "list_all (\<lambda>u. u < 0xD800) us \<Longrightarrow> decode_utf16 (map unat us) = Some (map unat us)"
  for us :: "u16 list"
  by (rule decode_utf16_below) (auto simp: list_all_iff word_less_nat_alt)

lemma plain_discovery: "discover plain_machine w = (Inr [plain_device], w)"
proof -
  have service: "service_value 1 14 (written_over 7 winusb_name) = Inr (Some (map unat winusb_name))"
    using plain_units(2-4) decode_below [OF plain_units(5)]
    by (auto simp: service_value_def Let_def)
  have "node_service plain_machine 1 w = (Inr (Some (map unat winusb_name)), w)"
    by (simp add: node_service_def numeral_3_eq_3 plain_machine_def CR_BUFFER_SMALL_def
        CR_NO_SUCH_VALUE_def then_io_def cm_check_def CR_SUCCESS_def service)
  then have device: "found_device plain_machine raw Scanner w = (Inr plain_device, w)" for raw
    by (simp add: found_device_def plain_machine_def then_io_def cm_check_def CR_SUCCESS_def
        plain_device_def DN_STARTED_def)
  have "present_ids plain_machine w = (Inr (written_over 31 scanner_identity), w)"
    by (simp add: present_ids_def numeral_3_eq_3 plain_machine_def CR_BUFFER_SMALL_def then_io_def
        cm_check_def CR_SUCCESS_def)
  then show ?thesis
    using decode_below [OF scanner_identity(2)] device scanner_identity(3)
    by (simp add: discover_def then_io_def plain_units(1))
qed

theorem doctor_reports_the_machine_witness:
  "run_command (\<lambda>l w. (Inr (), w)) desk_win plain_machine [''doctor''] one_scanner = (Inr 0, one_scanner)
    \<and> map device_interface [plain_device] = [Scanner]"
proof -
  have "scanner_ready plain_device"
    using plain_units(6) by (simp add: scanner_ready_def plain_device_def)
  then have one: "\<exists>d. scanners_of [plain_device] = [d] \<and> scanner_ready d"
    by (simp add: scanners_of_def plain_device_def)
  have silent: "print_all (\<lambda>l w. (Inr (), w)) ls w = (Inr (), w)" for ls and w :: desk
    by (induction ls) (simp_all add: then_io_def)
  from doctor_reports_the_machine [OF plain_discovery, of "\<lambda>l w. (Inr (), w)" desk_win] one show ?thesis
    by (simp add: print_then_def silent then_io_def plain_device_def)
qed

end
