(* ===== verification/Spec2Isabelle.thy ===== *)
theory Spec2Isabelle
  imports Scan_Termination Transfer_Properties Session_Slot Validation_Properties
    Entry_Properties Error_Texts Sti_Properties
    Com_Properties Usb_Properties Discovery_Properties
begin

text \<open>
  \<^bold>\<open>A driver for the WorkCentre 3119 under Windows\<close>

  The repository is a USB scanner driver in Rust. An application asks Windows Image Acquisition
  (WIA) for an image; the WIA service calls the minidriver, a COM object of this program; the
  minidriver reads the settings of the item, takes the exclusive USB session of the still image
  device, runs a scan over it, and encodes the bands that arrive as a BMP into a stream of the
  application. The theories follow the files of \<open>src/\<close>; each definition has the name of the
  function or type that it translates, with a prefix where names clash.

  \<^bold>\<open>The scan\<close>
  \<^item> \<open>Prelude\<close>: machine integers, bytes and slices, errors of \<open>std::io\<close> as a datatype
    (\<open>io_error\<close>, results are sums), panics (\<open>outcome\<close>), and the collection \<open>result_simps\<close>.
  \<^item> \<open>Protocol\<close> (\<open>protocol.rs\<close>): the INQUIRY reply. \<open>Scan_Wire\<close> (\<open>scan.rs\<close>): SET_WINDOW, reply
    status, band metadata and decoding. \<open>Scan_Job\<close>: tuning, diagnostics, the exchange of a
    command, the busy wait, cleanup, reading of bands and the whole job, over a record \<open>env\<close> of
    the transport, the clock, the cancellation flag and the consumer, which are parameters.
  \<^item> \<open>Scan_Conversation\<close>, \<open>Scan_Properties\<close>: the recorded events of a job and what every job
    keeps: the order of commands, what follows a failure or a refusal, what is delivered.
    \<open>Scan_Simulation\<close>: recording does not change a job. \<open>Scan_Frame\<close>: what every action of a job
    keeps, every function of it keeps (locale \<open>job_frame\<close>); on it rest \<open>Scan_Termination\<close>, that a
    job returns, and the sizes of its reads in \<open>Usb_Job\<close>.
  \<^item> \<open>Bmp\<close>, \<open>Bmp_Properties\<close> (\<open>bitmap.rs\<close>): the incremental encoder over any stream that obeys the
    locale \<open>byte_stream\<close>; round trip, poisoning, success within the limits.
  \<^item> \<open>Wia_Settings\<close>, \<open>Wia_Properties\<close> (\<open>wia.rs\<close>): settings to request, tone tables, entry points.
    \<open>Com_Stream\<close> (\<open>com_stream.rs\<close>): the adapter over an \<open>IStream\<close> (locale \<open>com_istream\<close>), an
    instance of \<open>byte_stream\<close>. \<open>Wia_Callback\<close>, \<open>Wia_Transfer\<close>, \<open>Transfer_Properties\<close>
    (\<open>wia_callback.rs\<close>, \<open>wia_transfer.rs\<close>): one image through the callback of the application.

  \<^bold>\<open>The minidriver\<close>
  \<^item> \<open>Session_Slot\<close> (\<open>com_server/session.rs\<close>): the slot of the USB session as a machine of critical
    sections, its steps interleaved between threads.
  \<^item> \<open>Wia_Constants\<close>, \<open>Wia_Catalog\<close>, \<open>Catalog_Selection\<close>, \<open>Catalog_Properties\<close>
    (\<open>properties/catalog.rs\<close>): the properties of the root and of the flatbed item, the selection of
    settings in a catalog, and the type of every published catalog. \<open>Wia_Validation\<close>,
    \<open>Validation_Properties\<close> (\<open>properties/validation.rs\<close>): dependent properties after a write.
  \<^item> \<open>Wia_Native\<close> (\<open>properties/native.rs\<close>): publication and update through the service library, a
    record \<open>service\<close> of calls over a world. \<open>Native_Store\<close>: its contract as the locales
    \<open>item_frame\<close>, \<open>item_store\<close>, \<open>obliging_store\<close>. \<open>Native_Strings\<close>: the allocator
    (\<open>string_heap\<close>). \<open>Native_Properties\<close>: what is stored, what is never touched.
  \<^item> \<open>Minidriver\<close> (\<open>minidrv.rs\<close>, \<open>tree.rs\<close>, \<open>locking.rs\<close>, \<open>cancel.rs\<close>, \<open>acquire.rs\<close>): the object
    itself. Its state is the record \<open>driver\<close>: the lifecycle, the running acquisition, the
    cancellation flags (a store, since a flag is shared) and the world. The calls of Windows are
    functions on this whole state, because Windows may call the driver again before it returns.
    \<open>Minidriver_Lifecycle\<close>: the locales \<open>windows_calls\<close>, \<open>windows_lock\<close>, \<open>windows_item\<close> and what
    every call keeps; the calls as steps (\<open>driver_step\<close>). \<open>Minidriver_Properties\<close>: ownership of
    references, refusals, the service lock, acquisition and cancellation.
  \<^item> \<open>Minidriver_Entries\<close>, \<open>Error_Texts\<close>: the entries of the interface with their checks, and the
    texts of device errors. \<open>Item_Entries\<close> (\<open>properties.rs\<close>, \<open>validation_entry.rs\<close>,
    \<open>read_entry.rs\<close>): the entries that read and write an item. \<open>Item_Contract\<close> (locale
    \<open>item_calls\<close>) and \<open>Entry_Properties\<close> (locale \<open>stored_item\<close>): a failed entry leaves no half
    written item behind; an accepted write leaves settings that the scanner accepts.

  \<^bold>\<open>The still image device and the COM server\<close>
  \<^item> \<open>Sti_State\<close>, \<open>Sti_Device\<close> (\<open>com_server/sti.rs\<close>): the object that the STI service uses, with its
    port name, its last error, the reference on the helper of the service, and the lock; one
    definition per method of \<open>IStiUSD\<close>, null pointers and contained panics included.
    \<open>Sti_Contract\<close>: its invariant and the locale \<open>sti_calls\<close> of the helper and the session, which
    may call the object again. \<open>Sti_Life\<close>: every method keeps the invariant and the references
    (\<open>sti_step\<close>). \<open>Sti_Service\<close>: the object refines a protocol of phases and result codes when
    nobody else calls it (locale \<open>sti_alone\<close>). \<open>Sti_Properties\<close>: two instances in memory, one of
    them re-entrant, and the properties.
  \<^item> \<open>Com_Server\<close> (\<open>com_server.rs\<close>): the counters of the module, the class factory, and the store
    of driver objects with three interfaces and aggregation. \<open>Com_Lifetime\<close>: a ledger of the
    references that callers own, the locale \<open>com_outer\<close> of an aggregator, and the invariant.
    \<open>Com_Properties\<close>: no use of a freed object, the identity of an object, and the unload decision
    with the atomic updates of many threads interleaved (\<open>module_step\<close>).

  \<^bold>\<open>The USB transport and the command line\<close>
  \<^item> \<open>Usb\<close>, \<open>Usb_Session\<close> (\<open>usb.rs\<close>, \<open>lib.rs\<close>): the identities, the search for the one registered
    interface, the opening of a session with its checks, its transfers and its release, the
    inquiries, and the scans with their evidence. \<open>Usb_Contract\<close>: which calls open and close a
    handle (locale \<open>usb_handles\<close>), the balance of handles, and what an opened session is.
    \<open>Usb_Job\<close>: the job of \<open>scan.rs\<close> over a session, whose reads the session accepts (locale
    \<open>block_reads\<close>). \<open>Usb_Desk\<close>: a desk with scanners attached to it, the instance.
    \<open>Usb_Properties\<close>: the properties.
  \<^item> \<open>Discovery\<close>, \<open>Discovery_Properties\<close> (\<open>windows.rs\<close>, \<open>main.rs\<close>): the search for present
    interfaces in the Configuration Manager, and the commands with their exit codes.

  \<^bold>\<open>Parameters\<close>
  Everything outside \<open>src/\<close> is an argument: the USB transport and the clock
  (\<open>env\<close>), the stream and the callback of the application, the service library, the
  allocator, the helper of the STI service, the controlling object of an aggregation, and Windows
  (WinUSB, SetupAPI, the Configuration Manager). What the proofs rely on is the laws of the locales
  above, each interpreted on a model in memory (a byte buffer, a memory stream, an item, an office,
  a bench, a desk) that can also fail. The lock of a mutex is a critical section, one step; no mutex
  is held across a call, so re-entrance is between steps.

  \<^bold>\<open>Bounds\<close>
  The loops of the job that wait for the device take fuel. A busy wait polls at least every
  millisecond and the job has a deadline of 120 seconds, so 120001 is enough for every valid
  tuning when the clock advances by what is slept; \<open>scan_job_returns\<close> proves it. The theorem on
  single writes assumes a bed of at most 25 inches (30000 units of 1/1200 inch), so that the size
  of every image on it fits into 31 bits; beyond, a region can be refused for its size alone.
  The name of a port is asked for in a loop that need not end by itself (\<open>port_loop\<close>, without
  fuel); the buffer doubles from 128 up to 32768 units, and the loop is proved to return. The search
  for interfaces counts down from 256, as the code does.
  Integers have their width where overflow matters (\<open>32 word\<close>, or the checked operations of the
  prelude); HRESULT values are the integers that \<open>as_i32\<close> makes of their bits.

  \<^bold>\<open>Not modelled\<close>
  \<open>trace.rs\<close> (log files, written beside what the code does), \<open>build.rs\<close>, the hardware tests, the
  examples, and the stubs that answer on other systems than Windows. A line of the console is a
  value with the data that its text shows. Raw pointers are the data behind them, null where the
  code checks for it; the layout of the SDK structures is not modelled.
\<close>

end
